(* ===== verification/Prelude.thy ===== *)
theory Prelude
  imports Main "HOL-Library.Sublist"
begin

section \<open>Prelude: results, JavaScript strings, lists of records\<close>

text \<open>
  What every component of the development shares:
  \<^item> results of fallible code, \<open>'e + 'a\<close> with \<open>Inl\<close> for a raised error, and the two
    combinators the translations are written with (sequencing and \<open>try\<close>/\<open>catch\<close>);
  \<^item> the JavaScript string operations the sources call (\<open>startsWith\<close>, \<open>endsWith\<close>,
    \<open>split\<close>, \<open>join\<close>, \<open>trim\<close>, decimal rendering), over \<open>string\<close>. A JavaScript string is
    modelled as the list of its UTF-8 bytes;
  \<^item> lists of records searched by a key, as the stores keep them.
\<close>

named_theorems path_simps \<open>facts on path segments\<close>
named_theorems store_simps \<open>facts on keyed record lists\<close>

subsection \<open>Results\<close>

definition bind_res :: "'e + 'a \<Rightarrow> ('a \<Rightarrow> 'e + 'b) \<Rightarrow> 'e + 'b" where
  "bind_res r f = (case r of Inl e \<Rightarrow> Inl e | Inr x \<Rightarrow> f x)"

lemma bind_res_simps [simp]:
  "bind_res (Inl e) f = Inl e"
  "bind_res (Inr x) f = f x"
  by (simp_all add: bind_res_def)

lemma bind_res_Inr_iff: "bind_res r f = Inr y \<longleftrightarrow> (\<exists>x. r = Inr x \<and> f x = Inr y)"
  by (cases r) auto

lemma bind_res_split:
  "P (bind_res r f) \<longleftrightarrow> (\<forall>e. r = Inl e \<longrightarrow> P (Inl e)) \<and> (\<forall>x. r = Inr x \<longrightarrow> P (f x))"
  by (cases r) auto

definition catch_res :: "'e + 'a \<Rightarrow> ('e \<Rightarrow> 'f + 'a) \<Rightarrow> 'f + 'a" where
  "catch_res r h = (case r of Inl e \<Rightarrow> h e | Inr x \<Rightarrow> Inr x)"

lemma catch_res_simps [simp]:
  "catch_res (Inl e) h = h e"
  "catch_res (Inr x) h = Inr x"
  by (simp_all add: catch_res_def)

definition is_ok :: "'e + 'a \<Rightarrow> bool" where
  "is_ok r = (case r of Inl _ \<Rightarrow> False | Inr _ \<Rightarrow> True)"

lemma is_ok_simps [simp]: "is_ok (Inr x)" "\<not> is_ok (Inl e)"
  by (simp_all add: is_ok_def)

subsection \<open>JavaScript strings\<close>

definition startsWith :: "string \<Rightarrow> string \<Rightarrow> bool" where
  "startsWith s p = (take (length p) s = p)"

lemma startsWith_prefix: "startsWith s p \<longleftrightarrow> prefix p s"
  by (auto simp: startsWith_def prefix_def) (metis append_take_drop_id)

definition endsWith :: "string \<Rightarrow> string \<Rightarrow> bool" where
  "endsWith s p = (length p \<le> length s \<and> drop (length s - length p) s = p)"

fun split_on :: "char \<Rightarrow> string \<Rightarrow> string list" where
  "split_on c [] = [[]]"
| "split_on c (x # xs) =
     (if x = c then [] # split_on c xs
      else (case split_on c xs of [] \<Rightarrow> [[x]] | s # ss \<Rightarrow> (x # s) # ss))"

fun join_with :: "string \<Rightarrow> string list \<Rightarrow> string" where
  "join_with sep [] = []"
| "join_with sep [s] = s"
| "join_with sep (s # t # ss) = s @ sep @ join_with sep (t # ss)"

text \<open>\<open>trim()\<close> drops the white space and line terminators of ECMAScript from both ends; beyond
  ASCII those are the byte sequences below.\<close>

definition js_spaces :: "string list" where
  "js_spaces =
     [[CHR 0x09], [CHR 0x0A], [CHR 0x0B], [CHR 0x0C], [CHR 0x0D], [CHR 0x20], [CHR 0xC2, CHR 0xA0],
      [CHR 0xE1, CHR 0x9A, CHR 0x80]] @
     map (\<lambda>n. [CHR 0xE2, CHR 0x80, char_of n])
       ([0x80, 0x81, 0x82, 0x83, 0x84, 0x85, 0x86, 0x87, 0x88, 0x89, 0x8A, 0xA8, 0xA9, 0xAF] :: nat list) @
     [[CHR 0xE2, CHR 0x81, CHR 0x9F], [CHR 0xE3, CHR 0x80, CHR 0x80], [CHR 0xEF, CHR 0xBB, CHR 0xBF]]"

function drop_forms :: "string list \<Rightarrow> string \<Rightarrow> string" where
  "drop_forms fs s =
     (case List.find (\<lambda>f. f \<noteq> [] \<and> take (length f) s = f) fs of
        None \<Rightarrow> s | Some f \<Rightarrow> drop_forms fs (drop (length f) s))"
  by pat_completeness auto
termination
proof (relation "measure (\<lambda>(fs, s). length s)", goal_cases)
  case (2 fs s f)
  then have "f \<noteq> []" "take (length f) s = f" by (auto simp: find_Some_iff)
  then show ?case by (cases s) auto
qed simp

declare drop_forms.simps [simp del]

definition trim :: "string \<Rightarrow> string" where
  "trim s = rev (drop_forms (map rev js_spaces) (rev (drop_forms js_spaces s)))"

lemma split_on_not_Nil [simp]: "split_on c s \<noteq> []"
  by (induction s) (auto split: list.splits)

lemma split_on_no_sep: "\<forall>t \<in> set (split_on c s). c \<notin> set t"
  by (induction s) (auto split: list.splits)

lemma split_on_append_sep:
  "c \<notin> set a \<Longrightarrow> split_on c (a @ c # b) = a # split_on c b"
  by (induction a) auto

lemma split_on_id: "c \<notin> set a \<Longrightarrow> split_on c a = [a]"
  by (induction a) auto

lemma join_split: "join_with [c] (split_on c s) = s"
proof (induction s)
  case (Cons x xs)
  obtain t ts where eq: "split_on c xs = t # ts"
    by (cases "split_on c xs") auto
  with Cons show ?case by (cases ts) auto
qed simp

lemma split_join:
  "ss \<noteq> [] \<Longrightarrow> \<forall>t \<in> set ss. c \<notin> set t \<Longrightarrow> split_on c (join_with [c] ss) = ss"
proof (induction ss rule: induct_list012)
  case (3 s t ss)
  then have "split_on c (join_with [c] (t # ss)) = t # ss" by simp
  with 3 show ?case by (simp add: split_on_append_sep)
qed (auto simp: split_on_id)

lemma dropWhile_hd: "s = [] \<or> \<not> P (hd s) \<Longrightarrow> dropWhile P s = s"
  by (cases s) auto

definition printable :: "char \<Rightarrow> bool" where
  "printable c \<longleftrightarrow> 32 < (of_char c :: nat) \<and> (of_char c :: nat) < 127"

lemma drop_forms_id:
  assumes "s = [] \<or> (\<forall>f \<in> set fs. f \<noteq> [] \<longrightarrow> hd f \<noteq> hd s)"
  shows "drop_forms fs s = s"
proof -
  have "List.find (\<lambda>f. f \<noteq> [] \<and> take (length f) s = f) fs = None"
  proof -
    have "f = [] \<or> take (length f) s \<noteq> f" if "f \<in> set fs" for f
    proof (cases s)
      case (Cons c cs)
      with assms that show ?thesis by (cases f) auto
    qed auto
    then show ?thesis by (auto simp: find_None_iff)
  qed
  then show ?thesis by (subst drop_forms.simps) simp
qed

lemma space_bytes:
  "f \<in> set js_spaces \<Longrightarrow> f \<noteq> [] \<and> \<not> printable (hd f) \<and> \<not> printable (last f)"
  unfolding js_spaces_def printable_def by auto

lemma trim_id:
  assumes "s = [] \<or> (printable (hd s) \<and> printable (last s))"
  shows "trim s = s"
proof -
  have "drop_forms js_spaces s = s"
    by (rule drop_forms_id) (use assms space_bytes in \<open>metis\<close>)
  moreover have "drop_forms (map rev js_spaces) (rev s) = rev s"
    by (rule drop_forms_id) (use assms space_bytes in \<open>auto simp: hd_rev; metis\<close>)
  ultimately show ?thesis by (simp add: trim_def)
qed

text \<open>\<open>String(n)\<close> of a whole number.\<close>

fun nat_digits :: "nat \<Rightarrow> string" where
  "nat_digits n = (if n < 10 then [char_of (48 + n)] else nat_digits (n div 10) @ [char_of (48 + n mod 10)])"

declare nat_digits.simps [simp del]

definition str_nat :: "nat \<Rightarrow> string" where
  "str_nat n = nat_digits n"

lemma str_nat_1: "str_nat (Suc 0) = ''1''"
  by code_simp

lemma str_nat_2: "str_nat (Suc (Suc 0)) = ''2''"
  by code_simp

fun digits_val :: "string \<Rightarrow> nat" where
  "digits_val ds = foldl (\<lambda>v c. 10 * v + (of_char c - 48)) 0 ds"

lemma digits_val_snoc: "digits_val (ds @ [c]) = 10 * digits_val ds + (of_char c - 48)"
  by simp

lemma of_char_small: "n < 10 \<Longrightarrow> (of_char (char_of (48 + n) :: char) :: nat) = 48 + n"
  by simp

lemma digits_val_str_nat: "digits_val (str_nat n) = n"
  unfolding str_nat_def
proof (induction n rule: nat_digits.induct)
  case (1 n)
  show ?case
  proof (cases "n < 10")
    case True
    then show ?thesis by (subst nat_digits.simps) simp
  next
    case False
    have "digits_val (nat_digits n) = 10 * digits_val (nat_digits (n div 10)) + n mod 10"
      using False by (subst nat_digits.simps) (simp add: digits_val_snoc del: digits_val.simps)
    with False 1 show ?thesis by simp
  qed
qed

lemma str_nat_inject: "str_nat m = str_nat n \<longleftrightarrow> m = n"
  by (metis digits_val_str_nat)

lemma str_nat_chars: "c \<in> set (str_nat n) \<Longrightarrow> 48 \<le> (of_char c :: nat) \<and> (of_char c :: nat) \<le> 57"
  unfolding str_nat_def
proof (induction n rule: nat_digits.induct)
  case (1 n)
  show ?case
  proof (cases "n < 10")
    case True
    with 1 show ?thesis by (subst (asm) nat_digits.simps) auto
  next
    case False
    then have "nat_digits n = nat_digits (n div 10) @ [char_of (48 + n mod 10)]"
      by (subst nat_digits.simps) simp
    with 1 False show ?thesis by auto
  qed
qed

subsection \<open>Lists of records with a key\<close>

definition find_key :: "('r \<Rightarrow> 'k) \<Rightarrow> 'k \<Rightarrow> 'r list \<Rightarrow> 'r option" where
  "find_key key k rs = List.find (\<lambda>r. key r = k) rs"

definition replace_key :: "('r \<Rightarrow> 'k) \<Rightarrow> 'r \<Rightarrow> 'r list \<Rightarrow> 'r list" where
  "replace_key key r rs = map (\<lambda>x. if key x = key r then r else x) rs"

definition drop_key :: "('r \<Rightarrow> 'k) \<Rightarrow> 'k \<Rightarrow> 'r list \<Rightarrow> 'r list" where
  "drop_key key k rs = filter (\<lambda>r. key r \<noteq> k) rs"

lemma find_key_Nil [store_simps]: "find_key key k [] = None"
  by (simp add: find_key_def)

lemma find_key_Cons [store_simps]:
  "find_key key k (r # rs) = (if key r = k then Some r else find_key key k rs)"
  by (simp add: find_key_def)

lemma find_key_append [store_simps]:
  "find_key key k (rs @ ss) = (case find_key key k rs of None \<Rightarrow> find_key key k ss | Some r \<Rightarrow> Some r)"
  by (induction rs) (auto simp: store_simps)

lemma find_key_Some: "find_key key k rs = Some r \<Longrightarrow> r \<in> set rs \<and> key r = k"
  by (auto simp: find_key_def find_Some_iff)

lemma find_key_None: "find_key key k rs = None \<longleftrightarrow> k \<notin> key ` set rs"
  by (auto simp: find_key_def find_None_iff)

lemma find_key_distinct: "distinct (map key rs) \<Longrightarrow> r \<in> set rs \<Longrightarrow> find_key key (key r) rs = Some r"
  by (induction rs) (force simp: store_simps)+

lemma map_key_replace_key [store_simps]: "map key (replace_key key r rs) = map key rs"
  by (auto simp: replace_key_def)

lemma find_key_replace_key [store_simps]:
  "find_key key k (replace_key key r rs) =
     (if k = key r \<and> find_key key k rs \<noteq> None then Some r else find_key key k rs)"
  by (induction rs) (auto simp: find_key_def replace_key_def)

lemma find_key_drop_key [store_simps]:
  "find_key key k (drop_key key j rs) = (if k = j then None else find_key key k rs)"
  by (induction rs) (auto simp: find_key_def drop_key_def)

lemma distinct_drop_key: "distinct (map key rs) \<Longrightarrow> distinct (map key (drop_key key k rs))"
  by (simp add: drop_key_def distinct_map_filter)

lemma length_drop_key_eq [store_simps]:
  "length (drop_key key k rs) = length rs \<longleftrightarrow> find_key key k rs = None"
  by (induction rs) (auto simp: drop_key_def find_key_def le_imp_less_Suc less_imp_neq)

end
