(* ===== verification/Byte_Windows.thy ===== *)
theory Byte_Windows
  imports Prelude
begin

section \<open>Bounded windows over byte streams\<close>

text \<open>
  Three components retain the tail of an output stream and address it by whole-stream byte
  offset: the daemon (\<open>StreamBuffer\<close> in \<open>agent/src/execution.rs\<close>), the subprocess router's
  local mirror of it (\<open>CollectedMirror\<close> in \<open>plugin/routing/subprocess.ts\<close>) and the terminal
  registry (the ring buffer in \<open>terminal/host/registry.ts\<close>). This theory states what such a
  window promises as a locale, proves what a reader may rely on from those laws alone, and
  models the first two; the registry interprets the locale in its own theory. A byte is a
  \<open>char\<close>.
\<close>

type_synonym bytes = string

subsection \<open>The contract\<close>

definition tail_of :: "nat \<Rightarrow> 'a list \<Rightarrow> 'a list" where
  "tail_of n s = drop (length s - n) s"

lemma length_tail_of [simp]: "length (tail_of n s) = min n (length s)"
  by (simp add: tail_of_def)

lemma tail_of_short: "length s \<le> n \<Longrightarrow> tail_of n s = s"
  by (simp add: tail_of_def)

lemma tail_of_append_tail: "tail_of n (tail_of n s @ t) = tail_of n (s @ t)"
proof (cases "length s \<le> n")
  case False
  let ?k = "length s - n"
  have "s @ t = take ?k s @ tail_of n s @ t"
    by (simp add: tail_of_def)
  then have "drop (?k + length t) (s @ t) = drop (length t) (tail_of n s @ t)"
    using False by (metis drop_drop drop_append length_take add.commute append_eq_conv_conj
      diff_le_self min.absorb2)
  moreover have "length (s @ t) - n = ?k + length t" "length (tail_of n s @ t) - n = length t"
    using False by simp_all
  ultimately show ?thesis unfolding tail_of_def [of n "s @ t"] tail_of_def [of n "tail_of n s @ t"]
    by simp
qed (simp add: tail_of_short)

locale byte_window =
  fixes new :: 'w
    and push :: "bytes \<Rightarrow> 'w \<Rightarrow> 'w"
    and window :: "'w \<Rightarrow> bytes"
    and lost :: "'w \<Rightarrow> nat"
    and cap :: nat
    and ok :: "'w \<Rightarrow> bool"
  assumes ok_new: "ok new"
    and window_new: "window new = []"
    and lost_new: "lost new = 0"
    and ok_push: "ok w \<Longrightarrow> ok (push bs w)"
    and window_push: "ok w \<Longrightarrow> window (push bs w) = tail_of cap (window w @ bs)"
    and lost_push: "ok w \<Longrightarrow> lost (push bs w) + length (window (push bs w)) =
      lost w + length (window w) + length bs"
begin

text \<open>\<open>tracks w s\<close>: the window stands at the end of the stream \<open>s\<close>.\<close>

definition tracks :: "'w \<Rightarrow> bytes \<Rightarrow> bool" where
  "tracks w s \<longleftrightarrow> ok w \<and> window w = tail_of cap s \<and> lost w + length (window w) = length s"

lemma tracks_new: "tracks new []"
  by (simp add: tracks_def ok_new window_new lost_new tail_of_def)

lemma tracks_push:
  assumes "tracks w s"
  shows "tracks (push bs w) (s @ bs)"
proof -
  from assms have w: "ok w" "window w = tail_of cap s" "lost w + length (window w) = length s"
    by (auto simp only: tracks_def)
  have "window (push bs w) = tail_of cap (s @ bs)"
    by (simp only: window_push [OF w(1)] w(2) tail_of_append_tail)
  moreover have "lost (push bs w) + length (window (push bs w)) = length (s @ bs)"
    by (simp only: lost_push [OF w(1)] w(3) length_append)
  ultimately show ?thesis using ok_push [OF w(1), of bs] by (simp only: tracks_def)
qed

lemma tracks_lost: "tracks w s \<Longrightarrow> lost w = length s - cap"
  unfolding tracks_def by (metis add_diff_cancel_right' diff_diff_cancel length_tail_of
      min.absorb_iff1 min.commute min_def diff_is_0_eq' nle_le)

text \<open>An offset still in the window reads exactly the stream from that offset.\<close>

lemma tracks_read:
  assumes "tracks w s" "lost w \<le> n"
  shows "drop (n - lost w) (window w) = drop n s"
  using assms tracks_lost [OF assms(1)] by (simp add: tracks_def tail_of_def)

definition fed :: "bytes list \<Rightarrow> 'w" where
  "fed chunks = foldl (\<lambda>w bs. push bs w) new chunks"

lemma fed_tracks: "tracks (fed chunks) (concat chunks)"
proof (induction chunks rule: rev_induct)
  case Nil
  then show ?case by (simp add: fed_def tracks_new)
next
  case (snoc bs chunks)
  then have "tracks (push bs (fed chunks)) (concat chunks @ bs)" by (rule tracks_push)
  then show ?case by (simp add: fed_def)
qed

end

subsection \<open>The daemon's window: agent/src/execution.rs\<close>

record stream_buffer =
  sb_chunks :: "bytes list"
  sb_retained :: nat
  sb_dropped :: nat
  sb_total :: nat
  sb_max_bytes :: nat

definition sb_new :: "nat \<Rightarrow> stream_buffer" where
  "sb_new max_bytes = \<lparr>sb_chunks = [], sb_retained = 0, sb_dropped = 0, sb_total = 0,
     sb_max_bytes = max_bytes\<rparr>"

text \<open>The loop of \<open>push\<close>: drop whole head chunks while they are surplus, cut the last one.\<close>

fun sb_trim :: "stream_buffer \<Rightarrow> bytes list \<Rightarrow> nat \<Rightarrow> nat \<Rightarrow> stream_buffer" where
  "sb_trim b [] retained dropped =
     b\<lparr>sb_chunks := [], sb_retained := retained, sb_dropped := dropped\<rparr>"
| "sb_trim b (head # chunks) retained dropped =
     (if retained > sb_max_bytes b then
        (let excess = retained - sb_max_bytes b in
         if length head \<le> excess
         then sb_trim b chunks (retained - length head) (dropped + length head)
         else b\<lparr>sb_chunks := drop excess head # chunks, sb_retained := retained - excess,
                sb_dropped := dropped + excess\<rparr>)
      else b\<lparr>sb_chunks := head # chunks, sb_retained := retained, sb_dropped := dropped\<rparr>)"

definition sb_push :: "bytes \<Rightarrow> stream_buffer \<Rightarrow> stream_buffer" where
  "sb_push chunk b =
     sb_trim (b\<lparr>sb_total := sb_total b + length chunk\<rparr>) (sb_chunks b @ [chunk])
       (sb_retained b + length chunk) (sb_dropped b)"

definition sb_read :: "nat \<Rightarrow> stream_buffer \<Rightarrow> bytes \<times> nat \<times> bool" where
  "sb_read from_byte b =
     (let lossy = from_byte < sb_dropped b;
          skip = (if lossy then 0 else min (from_byte - sb_dropped b) (sb_retained b))
      in (drop skip (concat (sb_chunks b)), sb_total b, lossy))"

definition sb_window :: "stream_buffer \<Rightarrow> bytes" where
  "sb_window b = concat (sb_chunks b)"

definition sb_ok :: "nat \<Rightarrow> stream_buffer \<Rightarrow> bool" where
  "sb_ok m b \<longleftrightarrow> sb_max_bytes b = m \<and> sb_retained b = length (sb_window b)
     \<and> sb_dropped b + sb_retained b = sb_total b \<and> sb_retained b \<le> m"

lemma sb_trim_spec:
  assumes "retained = length (concat chunks)"
  shows "sb_window (sb_trim b chunks retained dropped) = tail_of (sb_max_bytes b) (concat chunks)
    \<and> sb_retained (sb_trim b chunks retained dropped) = min (sb_max_bytes b) retained
    \<and> sb_dropped (sb_trim b chunks retained dropped) = dropped + (retained - sb_max_bytes b)
    \<and> sb_max_bytes (sb_trim b chunks retained dropped) = sb_max_bytes b
    \<and> sb_total (sb_trim b chunks retained dropped) = sb_total b"
  using assms
proof (induction b chunks retained dropped rule: sb_trim.induct)
  case (1 b retained dropped)
  then show ?case by (simp add: sb_window_def tail_of_def)
next
  case (2 b head chunks retained dropped)
  show ?case
  proof (cases "retained > sb_max_bytes b \<and> length head \<le> retained - sb_max_bytes b")
    case True
    with 2 have "retained - length head = length (concat chunks)" by simp
    moreover have "tail_of (sb_max_bytes b) (head @ concat chunks) = tail_of (sb_max_bytes b) (concat chunks)"
      using True 2(2) by (simp add: tail_of_def)
    moreover have "min (sb_max_bytes b) (retained - length head) = min (sb_max_bytes b) retained"
      "dropped + length head + (retained - length head - sb_max_bytes b) =
        dropped + (retained - sb_max_bytes b)"
      using True by auto
    ultimately show ?thesis using True 2(1) by (simp add: Let_def)
  next
    case False
    with 2(2) show ?thesis by (auto simp: sb_window_def tail_of_def Let_def)
  qed
qed

lemma sb_push_spec:
  assumes "sb_ok m b"
  shows "sb_ok m (sb_push chunk b) \<and> sb_window (sb_push chunk b) = tail_of m (sb_window b @ chunk)
    \<and> sb_total (sb_push chunk b) = sb_total b + length chunk"
proof -
  have "sb_retained b + length chunk = length (concat (sb_chunks b @ [chunk]))"
    using assms by (simp add: sb_ok_def sb_window_def)
  from sb_trim_spec [OF this, of "b\<lparr>sb_total := sb_total b + length chunk\<rparr>" "sb_dropped b"] assms
  show ?thesis by (auto simp: sb_push_def sb_ok_def sb_window_def)
qed

lemma sb_push_lost:
  assumes "sb_ok m b"
  shows "sb_dropped (sb_push chunk b) + length (sb_window (sb_push chunk b)) =
    sb_dropped b + length (sb_window b) + length chunk"
proof -
  from sb_push_spec [OF assms, of chunk] have "sb_ok m (sb_push chunk b)"
    "sb_total (sb_push chunk b) = sb_total b + length chunk" by auto
  with assms show ?thesis by (simp add: sb_ok_def)
qed

lemma sb_new_spec: "sb_ok m (sb_new m) \<and> sb_window (sb_new m) = [] \<and> sb_dropped (sb_new m) = 0"
  by (simp add: sb_new_def sb_ok_def sb_window_def)

interpretation daemon_window: byte_window "sb_new m" sb_push sb_window sb_dropped m "sb_ok m" for m
  by unfold_locales (rule sb_push_lost | simp add: sb_push_spec sb_new_spec)+

text \<open>What one \<open>sp.readOutput\<close> or \<open>term.read\<close> answers, over the stream the child wrote.\<close>

lemma sb_read_fed:
  assumes "daemon_window.tracks m b s"
  shows "sb_read from_byte b =
     (if from_byte < length s - m then tail_of m s else drop from_byte s,
      length s, from_byte < length s - m)"
proof -
  have ok: "sb_ok m b" and w: "sb_window b = tail_of m s"
    and t: "sb_dropped b + length (sb_window b) = length s"
    using assms by (auto simp only: daemon_window.tracks_def)
  have d: "sb_dropped b = length s - m" using assms by (rule daemon_window.tracks_lost)
  have "drop (min (from_byte - sb_dropped b) (sb_retained b)) (sb_window b) =
      drop (from_byte - sb_dropped b) (sb_window b)"
    using ok by (simp add: sb_ok_def min_def)
  then show ?thesis
    using w d t ok daemon_window.tracks_read [OF assms, of from_byte]
    by (simp add: sb_read_def Let_def sb_window_def sb_ok_def)
qed

end
