(* ===== verification/Utf8.thy ===== *)
theory Utf8
  imports Byte_Windows
begin

section \<open>UTF-8 text of a byte string\<close>

text \<open>
  \<open>buffer.toString('utf8')\<close> and the daemon's lossy decoding: the bytes as they are where they
  are well-formed UTF-8, one U+FFFD for every maximal ill-formed part (the WHATWG decoder). A
  JavaScript string is held here by its UTF-8 bytes, so the decoder maps bytes to bytes.
\<close>

definition byte :: "char \<Rightarrow> nat" where
  "byte c = of_char c"

text \<open>For a lead byte: how many continuation bytes follow, and the bounds of the first one.\<close>

definition utf8_lead :: "char \<Rightarrow> (nat \<times> nat \<times> nat) option" where
  "utf8_lead c =
     (let b = byte c in
      if b < 0x80 then Some (0, 0x80, 0xBF)
      else if 0xC2 \<le> b \<and> b \<le> 0xDF then Some (1, 0x80, 0xBF)
      else if b = 0xE0 then Some (2, 0xA0, 0xBF)
      else if b = 0xED then Some (2, 0x80, 0x9F)
      else if 0xE1 \<le> b \<and> b \<le> 0xEF then Some (2, 0x80, 0xBF)
      else if b = 0xF0 then Some (3, 0x90, 0xBF)
      else if 0xF1 \<le> b \<and> b \<le> 0xF3 then Some (3, 0x80, 0xBF)
      else if b = 0xF4 then Some (3, 0x80, 0x8F)
      else None)"

text \<open>The continuation bytes present: at most \<open>k\<close>, stopping at the first that does not fit.\<close>

fun utf8_conts :: "nat \<Rightarrow> nat \<Rightarrow> nat \<Rightarrow> bytes \<Rightarrow> bytes" where
  "utf8_conts 0 lo hi s = []"
| "utf8_conts (Suc k) lo hi [] = []"
| "utf8_conts (Suc k) lo hi (c # s) =
     (if lo \<le> byte c \<and> byte c \<le> hi then c # utf8_conts k 0x80 0xBF s else [])"

definition replacement :: bytes where
  "replacement = [CHR 0xEF, CHR 0xBF, CHR 0xBD]"

function utf8_text :: "bytes \<Rightarrow> string" where
  "utf8_text [] = []"
| "utf8_text (c # s) =
     (case utf8_lead c of
        None \<Rightarrow> replacement @ utf8_text s
      | Some (k, lo, hi) \<Rightarrow>
          (let cs = utf8_conts k lo hi s in
           (if length cs = k then c # cs else replacement) @ utf8_text (drop (length cs) s)))"
  by pat_completeness auto
termination by (relation "measure length") (auto simp: le_imp_less_Suc)

definition utf8_valid :: "bytes \<Rightarrow> bool" where
  "utf8_valid s = (utf8_text s = s)"

lemma utf8_conts_prefix: "take (length (utf8_conts k lo hi s)) s = utf8_conts k lo hi s"
  by (induction k lo hi s rule: utf8_conts.induct) auto

lemma utf8_conts_length: "length (utf8_conts k lo hi s) \<le> k"
  by (induction k lo hi s rule: utf8_conts.induct) auto

lemma utf8_conts_append:
  "length (utf8_conts k lo hi s) = k \<Longrightarrow> utf8_conts k lo hi (s @ t) = utf8_conts k lo hi s"
  by (induction k lo hi s rule: utf8_conts.induct) (auto split: if_splits)

lemma utf8_conts_self:
  "length cs = k \<Longrightarrow> cs = utf8_conts k lo hi s \<Longrightarrow> utf8_conts k lo hi (cs @ t) = cs"
proof (induction k lo hi s arbitrary: cs rule: utf8_conts.induct)
  case (3 k lo hi c s)
  then show ?case by (cases cs) (auto split: if_splits)
qed auto

lemma utf8_text_ascii [simp]: "byte c < 0x80 \<Longrightarrow> utf8_text (c # s) = c # utf8_text s"
  by (simp add: utf8_lead_def)

lemma utf8_text_replacement [simp]: "utf8_text (replacement @ s) = replacement @ utf8_text s"
  by (simp add: replacement_def utf8_lead_def byte_def Let_def eval_nat_numeral)

text \<open>Decoding is idempotent: what the decoder produces is well-formed.\<close>

lemma utf8_text_idem: "utf8_text (utf8_text s) = utf8_text s"
proof (induction s rule: utf8_text.induct)
  case (2 c s)
  show ?case
  proof (cases "utf8_lead c")
    case None
    with 2 show ?thesis by simp
  next
    case (Some l)
    obtain k lo hi where l: "l = (k, lo, hi)" by (cases l) auto
    let ?cs = "utf8_conts k lo hi s"
    have ih: "utf8_text (utf8_text (drop (length ?cs) s)) = utf8_text (drop (length ?cs) s)"
      using 2(2) Some l by simp
    show ?thesis
    proof (cases "length ?cs = k")
      case True
      have "utf8_conts k lo hi (?cs @ utf8_text (drop (length ?cs) s)) = ?cs"
        using True by (rule utf8_conts_self) simp
      with True Some l ih show ?thesis by (simp add: Let_def)
    next
      case False
      with Some l ih show ?thesis by (simp add: Let_def)
    qed
  qed
qed simp

lemma utf8_text_valid: "utf8_valid (utf8_text s)"
  by (simp add: utf8_valid_def utf8_text_idem)

text \<open>A well-formed prefix decodes on its own.\<close>

lemma utf8_valid_Cons:
  assumes "utf8_valid (c # s)"
  obtains k lo hi where "utf8_lead c = Some (k, lo, hi)" "length (utf8_conts k lo hi s) = k"
    "utf8_valid (drop k s)"
proof (cases "utf8_lead c")
  case None
  then have "byte c \<ge> 0x80" by (auto simp: utf8_lead_def Let_def split: if_splits)
  moreover have "c = CHR 0xEF" using assms None by (simp add: utf8_valid_def replacement_def)
  then have "utf8_lead c \<noteq> None" by (simp add: utf8_lead_def byte_def)
  ultimately show ?thesis using None by simp
next
  case (Some l)
  obtain k lo hi where l: "l = (k, lo, hi)" by (cases l) auto
  let ?cs = "utf8_conts k lo hi s"
  have split: "s = ?cs @ drop (length ?cs) s"
    by (metis append_take_drop_id utf8_conts_prefix)
  show ?thesis
  proof (cases "length ?cs = k")
    case True
    have "utf8_text (c # s) = c # ?cs @ utf8_text (drop k s)"
      using Some l True by (simp add: Let_def)
    with assms have "?cs @ utf8_text (drop k s) = s" by (simp add: utf8_valid_def)
    with split True have "utf8_text (drop k s) = drop k s" by (metis same_append_eq)
    with that Some l True show ?thesis by (simp add: utf8_valid_def)
  next
    case False
    have "utf8_text (c # s) = replacement @ utf8_text (drop (length ?cs) s)"
      using Some l False by (simp add: Let_def)
    with assms have eq: "c # s = replacement @ utf8_text (drop (length ?cs) s)"
      by (simp add: utf8_valid_def)
    then have c: "c = CHR 0xEF" and s: "\<exists>t. s = CHR 0xBF # CHR 0xBD # t"
      by (auto simp: replacement_def)
    from c have "utf8_lead c = Some (2, 0x80, 0xBF)" by (simp add: utf8_lead_def byte_def)
    with Some l have "k = 2" "lo = 0x80" "hi = 0xBF" by auto
    with s have "length ?cs = k" by (auto simp: byte_def eval_nat_numeral)
    with False show ?thesis by simp
  qed
qed

lemma utf8_text_append: "utf8_valid s \<Longrightarrow> utf8_text (s @ t) = s @ utf8_text t"
proof (induction s rule: length_induct)
  case (1 s)
  show ?case
  proof (cases s)
    case (Cons c s')
    with 1 have v: "utf8_valid (c # s')" by simp
    then obtain k lo hi where l: "utf8_lead c = Some (k, lo, hi)"
      and k: "length (utf8_conts k lo hi s') = k" and v': "utf8_valid (drop k s')"
      by (rule utf8_valid_Cons)
    let ?cs = "utf8_conts k lo hi s'"
    have split: "s' = ?cs @ drop k s'" and le: "k \<le> length s'"
      using utf8_conts_prefix [of k lo hi s'] k by (metis append_take_drop_id, metis length_take min.cobounded1 min_def)
    have "utf8_text (c # s' @ t) = c # ?cs @ utf8_text (drop k (s' @ t))"
      using l utf8_conts_append [OF k] k by (simp add: Let_def)
    also have "drop k (s' @ t) = drop k s' @ t" using le by simp
    also have "utf8_text (drop k s' @ t) = drop k s' @ utf8_text t"
      using 1 v' Cons by simp
    finally show ?thesis using split Cons by (metis append_Cons append_assoc)
  qed simp
qed

lemma utf8_valid_append: "utf8_valid s \<Longrightarrow> utf8_valid t \<Longrightarrow> utf8_valid (s @ t)"
  by (simp add: utf8_valid_def [of t] utf8_valid_def [of "s @ t"] utf8_text_append)

lemma utf8_valid_suffix: "utf8_valid s \<Longrightarrow> utf8_valid (s @ t) \<Longrightarrow> utf8_valid t"
  by (simp add: utf8_valid_def [of t] utf8_valid_def [of "s @ t"] utf8_text_append)

lemma utf8_valid_Nil [simp]: "utf8_valid []"
  by (simp add: utf8_valid_def)

lemma utf8_valid_ascii: "\<forall>c \<in> set s. byte c < 0x80 \<Longrightarrow> utf8_valid s"
  by (induction s) (auto simp: utf8_valid_def simp del: utf8_text.simps(2))

end
