(* ===== verification/Posix_Paths.thy ===== *)
theory Posix_Paths
  imports Prelude
begin

section \<open>Node's \<open>path.posix\<close>\<close>

text \<open>
  The functions of Node's standard library that the path logic rests on:
  \<open>posix.normalize\<close>, \<open>posix.join\<close> and \<open>posix.basename\<close>, with the algebra the
  components need. A path is read as a list of segments (\<open>path_segs\<close>), a canonical
  absolute path is one that \<open>normalize\<close> leaves alone and that has no trailing slash
  (what \<open>realpath\<close> returns), and \<open>render\<close> writes a list of segments back.
\<close>

subsection \<open>normalize, join, basename\<close>

fun norm_segs :: "bool \<Rightarrow> string list \<Rightarrow> string list \<Rightarrow> string list" where
  "norm_segs up acc [] = rev acc"
| "norm_segs up acc (s # ss) =
     (if s = [] \<or> s = ''.'' then norm_segs up acc ss
      else if s = ''..'' then
        (case acc of
           [] \<Rightarrow> norm_segs up (if up then [''..''] else []) ss
         | a # as \<Rightarrow>
             if a \<noteq> ''..'' then norm_segs up as ss
             else norm_segs up (if up then ''..'' # acc else acc) ss)
      else norm_segs up (s # acc) ss)"

definition is_absolute :: "string \<Rightarrow> bool" where
  "is_absolute p = startsWith p ''/''"

definition path_segs :: "string \<Rightarrow> string list" where
  "path_segs p = norm_segs (\<not> is_absolute p) [] (split_on (CHR ''/'') p)"

definition posix_normalize :: "string \<Rightarrow> string" where
  "posix_normalize p =
     (if p = [] then ''.''
      else let body = join_with ''/'' (path_segs p); trailing = endsWith p ''/'' in
        if body = [] then (if is_absolute p then ''/'' else if trailing then ''./'' else ''.'')
        else (if is_absolute p then ''/'' else []) @ body @ (if trailing then ''/'' else []))"

definition posix_join :: "string list \<Rightarrow> string" where
  "posix_join ps =
     (let joined = join_with ''/'' (filter (\<lambda>p. p \<noteq> []) ps)
      in if joined = [] then ''.'' else posix_normalize joined)"

text \<open>\<open>basename\<close>: the last segment, trailing slashes ignored; empty for the root.\<close>

definition posix_basename :: "string \<Rightarrow> string" where
  "posix_basename p =
     (let q = rev (dropWhile (\<lambda>c. c = CHR ''/'') (rev p))
      in last (split_on (CHR ''/'') q))"

subsection \<open>Clean segments and rendering\<close>

definition clean_seg :: "string \<Rightarrow> bool" where
  "clean_seg s \<longleftrightarrow> s \<noteq> [] \<and> s \<noteq> ''.'' \<and> s \<noteq> ''..'' \<and> CHR ''/'' \<notin> set s"

definition render :: "string list \<Rightarrow> string" where
  "render ss = concat (map (\<lambda>s. CHR ''/'' # s) ss)"

definition canonical :: "string \<Rightarrow> bool" where
  "canonical p \<longleftrightarrow> posix_normalize p = p \<and> is_absolute p \<and> (p = ''/'' \<or> \<not> endsWith p ''/'')"

lemma render_simps [simp]:
  "render [] = []"
  "render (s # ss) = CHR ''/'' # s @ render ss"
  by (simp_all add: render_def)

lemma render_append [simp]: "render (as @ bs) = render as @ render bs"
  by (simp add: render_def)

lemma is_absolute_Cons [simp]: "is_absolute (c # cs) \<longleftrightarrow> c = CHR ''/''"
  by (simp add: is_absolute_def startsWith_def)

lemma is_absolute_Nil [simp]: "\<not> is_absolute []"
  by (simp add: is_absolute_def startsWith_def)

lemma is_absolute_append [simp]: "p \<noteq> [] \<Longrightarrow> is_absolute (p @ q) = is_absolute p"
  by (cases p) auto

lemma endsWith_slash: "endsWith p ''/'' \<longleftrightarrow> p \<noteq> [] \<and> last p = CHR ''/''"
  by (cases p rule: rev_cases) (auto simp: endsWith_def)

lemma render_join: "ss \<noteq> [] \<Longrightarrow> render ss = CHR ''/'' # join_with ''/'' ss"
  by (induction ss rule: induct_list012) auto

lemma norm_segs_clean:
  "list_all clean_seg ss \<Longrightarrow> norm_segs up acc ss = rev acc @ ss"
  by (induction ss arbitrary: acc) (auto simp: clean_seg_def)

lemma norm_segs_clean_append:
  "list_all clean_seg ss \<Longrightarrow> norm_segs up acc (ss @ ts) = norm_segs up (rev ss @ acc) ts"
  by (induction ss arbitrary: acc) (auto simp: clean_seg_def)

lemma norm_segs_abs_clean:
  "list_all clean_seg acc \<Longrightarrow> \<forall>s \<in> set ss. CHR ''/'' \<notin> set s \<Longrightarrow>
     list_all clean_seg (norm_segs False acc ss)"
proof (induction ss arbitrary: acc)
  case (Cons s ss)
  show ?case
  proof (cases acc)
    case Nil
    with Cons show ?thesis by (auto simp: clean_seg_def)
  next
    case (Cons a as)
    with \<open>list_all clean_seg acc\<close> Cons.IH Cons.prems show ?thesis
      by (auto simp: clean_seg_def)
  qed
qed (auto simp: list_all_iff)

lemma path_segs_clean: "is_absolute p \<Longrightarrow> list_all clean_seg (path_segs p)"
  by (auto simp: path_segs_def intro!: norm_segs_abs_clean dest: split_on_no_sep [rule_format])

lemma split_render:
  assumes "list_all clean_seg ss"
  shows "split_on (CHR ''/'') (render ss) = (if ss = [] then [[]] else [] # ss)"
proof (cases "ss = []")
  case False
  have "\<forall>s \<in> set ss. CHR ''/'' \<notin> set s"
    using assms by (auto simp: list_all_iff clean_seg_def)
  with False have "split_on (CHR ''/'') (join_with ''/'' ss) = ss"
    by (intro split_join) auto
  with False show ?thesis by (simp add: render_join)
qed simp

lemma split_on_snoc_sep: "split_on c (p @ [c]) = split_on c p @ [[]]"
  by (induction p) (auto split: list.splits)

lemma split_on_append: "split_on c (p @ c # q) = split_on c p @ split_on c q"
  by (induction p) (auto split: list.splits)

lemma norm_segs_Nil_snoc [simp]: "norm_segs up acc (ss @ [[]]) = norm_segs up acc ss"
  by (induction up acc ss rule: norm_segs.induct) (auto split: list.splits)

lemma norm_segs_split_append:
  "norm_segs up acc (ss @ ts) = norm_segs up (rev (norm_segs up acc ss)) ts"
  by (induction up acc ss rule: norm_segs.induct) (auto split: list.splits)

text \<open>What \<open>normalize\<close> computes on an absolute path, in terms of its segments.\<close>

lemma normalize_abs:
  assumes "is_absolute p"
  shows "posix_normalize p =
    (if path_segs p = [] then ''/''
     else render (path_segs p) @ (if endsWith p ''/'' then ''/'' else []))"
proof -
  have "p \<noteq> []" using assms by auto
  moreover have "join_with ''/'' (path_segs p) = [] \<longleftrightarrow> path_segs p = []"
    using path_segs_clean [OF assms]
    by (cases "path_segs p"; cases "tl (path_segs p)") (auto simp: clean_seg_def)
  ultimately show ?thesis
    using assms by (simp add: posix_normalize_def Let_def render_join)
qed

lemma path_segs_render:
  "list_all clean_seg ss \<Longrightarrow> ss \<noteq> [] \<Longrightarrow> path_segs (render ss) = ss"
proof -
  assume clean: "list_all clean_seg ss" and ne: "ss \<noteq> []"
  then have "is_absolute (render ss)" by (cases ss) auto
  moreover have "norm_segs False [] ([] # ss) = ss"
    using norm_segs_clean [OF clean, of False "[]"] by simp
  ultimately show "path_segs (render ss) = ss"
    using clean ne by (simp add: path_segs_def split_render)
qed

lemma path_segs_root [simp]: "path_segs ''/'' = []"
  by (simp add: path_segs_def)

lemma path_segs_append_slash: "p \<noteq> [] \<Longrightarrow> path_segs (p @ ''/'') = path_segs p"
  by (simp add: path_segs_def split_on_snoc_sep)

lemma path_segs_append:
  assumes "is_absolute p" "\<not> is_absolute q \<or> q \<noteq> []"
  shows "path_segs (p @ CHR ''/'' # q) = norm_segs False (rev (path_segs p)) (split_on (CHR ''/'') q)"
proof -
  from assms(1) have "p \<noteq> []" by auto
  with assms(1) show ?thesis
    by (simp add: path_segs_def split_on_append norm_segs_split_append)
qed

lemma norm_segs_drop_Nil: "norm_segs up acc ([] # ss) = norm_segs up acc ss"
  by simp

lemma clean_not_slash_last:
  "list_all clean_seg ss \<Longrightarrow> ss \<noteq> [] \<Longrightarrow> last (render ss) \<noteq> CHR ''/'' \<and> render ss \<noteq> []"
proof (induction ss rule: rev_induct)
  case (snoc s ss)
  then have "s \<noteq> []" "CHR ''/'' \<notin> set s" by (auto simp: clean_seg_def)
  then have "last s \<noteq> CHR ''/''" using last_in_set by metis
  with \<open>s \<noteq> []\<close> show ?case by simp
qed simp

text \<open>A canonical path is the root or a non-empty list of clean segments, rendered.\<close>

lemma canonical_cases:
  assumes "canonical p"
  shows "(p = ''/'' \<and> path_segs p = [])
    \<or> (p = render (path_segs p) \<and> path_segs p \<noteq> [] \<and> list_all clean_seg (path_segs p))"
proof -
  from assms have abs: "is_absolute p" and norm: "posix_normalize p = p"
    and tr: "p = ''/'' \<or> \<not> endsWith p ''/''"
    by (auto simp: canonical_def)
  from normalize_abs [OF abs] norm tr path_segs_clean [OF abs]
  show ?thesis by (auto split: if_splits)
qed

lemma canonical_render:
  assumes "list_all clean_seg ss" "ss \<noteq> []"
  shows "canonical (render ss)"
proof -
  have abs: "is_absolute (render ss)" using assms(2) by (cases ss) auto
  have "\<not> endsWith (render ss) ''/''"
    using clean_not_slash_last [OF assms] by (simp add: endsWith_slash)
  with abs show ?thesis
    using assms by (simp add: canonical_def normalize_abs path_segs_render)
qed

lemma canonical_root [simp]: "canonical ''/''"
  by code_simp

text \<open>\<open>normalize\<close> is idempotent and its result is absolute and keeps the segments.\<close>

lemma normalize_is_absolute: "is_absolute p \<Longrightarrow> is_absolute (posix_normalize p)"
  using path_segs_clean [of p] by (cases "path_segs p") (auto simp: normalize_abs)

lemma path_segs_normalize: "is_absolute p \<Longrightarrow> path_segs (posix_normalize p) = path_segs p"
  using path_segs_clean [of p] clean_not_slash_last [of "path_segs p"]
  by (auto simp: normalize_abs path_segs_render path_segs_append_slash)

lemma endsWith_normalize:
  assumes "is_absolute p"
  shows "endsWith (posix_normalize p) ''/'' \<longleftrightarrow> endsWith p ''/'' \<or> path_segs p = []"
  using path_segs_clean [OF assms] clean_not_slash_last [of "path_segs p"] assms
  by (auto simp: normalize_abs endsWith_slash)

lemma normalize_idem:
  assumes "is_absolute p"
  shows "posix_normalize (posix_normalize p) = posix_normalize p"
proof -
  have "posix_normalize (posix_normalize p) =
      (if path_segs p = [] then ''/''
       else render (path_segs p) @ (if endsWith p ''/'' \<or> path_segs p = [] then ''/'' else []))"
    by (simp only: normalize_abs [OF normalize_is_absolute [OF assms]]
        path_segs_normalize [OF assms] endsWith_normalize [OF assms])
  then show ?thesis by (simp add: normalize_abs [OF assms])
qed

end
