(* ===== verification/Routing.thy ===== *)
theory Routing
  imports Posix_Paths
begin

section \<open>Route classification and the routers that dispatch on it\<close>

text \<open>
  \<open>src/src/models/routing.ts\<close> (which machine a path belongs to), and the three routers
  that only dispatch on its answer: \<open>plugin/routing/remote.ts\<close> (the lookup shared by the
  terminal and the subprocess router), \<open>plugin/routing/shell.ts\<close> and
  \<open>plugin/routing/tty.ts\<close>. Node ids and paths are strings; the live channel of a node is a
  parameter \<open>node \<rightharpoonup> 'c\<close> (the connection manager's table).
\<close>

type_synonym node_id = string
type_synonym path = string

record anchor_route =
  ar_nodeId :: node_id
  ar_anchorPath :: path
  ar_remoteRoot :: path

datatype route =
    Local_Route
  | Remote_Route node_id path
  | Ambiguous_Route path "node_id list"

subsection \<open>models/routing.ts\<close>

definition ambiguousPathMessage :: "path \<Rightarrow> node_id list \<Rightarrow> string" where
  "ambiguousPathMessage remotePath nodeIds =
     [CHR 0x22] @ remotePath @ [CHR 0x22] @ '' belongs to more than one node ('' @
     join_with '', '' nodeIds @ ''); '' @ ''address it as node:<id>:<path>''"

text \<open>The regular expression \<open>EXPLICIT\<close>: \<open>node:\<close>, an id without colon or slash, a colon,
  an absolute path (the rest of the string, newlines included).\<close>

definition explicit_match :: "string \<Rightarrow> (node_id \<times> path) option" where
  "explicit_match input =
     (if startsWith input ''node:'' then
        let rest = drop 5 input;
            ident = takeWhile (\<lambda>c. c \<noteq> CHR '':'' \<and> c \<noteq> CHR ''/'') rest;
            tl' = dropWhile (\<lambda>c. c \<noteq> CHR '':'' \<and> c \<noteq> CHR ''/'') rest
        in if ident \<noteq> [] \<and> startsWith tl' '':/'' then Some (ident, drop 1 tl') else None
      else None)"

definition isWithin :: "path \<Rightarrow> path \<Rightarrow> bool" where
  "isWithin parent child =
     (if child = parent then True
      else let root = (if endsWith parent ''/'' then parent else parent @ ''/'')
           in startsWith child root)"

definition toAbsolute :: "string \<Rightarrow> string option \<Rightarrow> path" where
  "toAbsolute input cwd =
     (let unified = map (\<lambda>c. if c = CHR 0x5C then CHR ''/'' else c) input in
      if startsWith unified ''/'' then posix_normalize unified
      else posix_normalize (posix_join [case cwd of None \<Rightarrow> ''/'' | Some d \<Rightarrow> d, unified]))"

definition classifyPath :: "string \<Rightarrow> string option \<Rightarrow> anchor_route list \<Rightarrow> route" where
  "classifyPath input cwd anchors =
     (case explicit_match input of
        Some (nodeId, p) \<Rightarrow> Remote_Route nodeId (posix_normalize p)
      | None \<Rightarrow>
          (let absolute = toAbsolute input cwd in
           case List.find (\<lambda>a. isWithin (ar_anchorPath a) absolute) anchors of
             Some a \<Rightarrow> Remote_Route (ar_nodeId a)
                 (posix_join [ar_remoteRoot a, drop (length (ar_anchorPath a)) absolute])
           | None \<Rightarrow>
               (let claiming = filter (\<lambda>a. isWithin (ar_remoteRoot a) absolute) anchors in
                if length claiming = 1 then Remote_Route (ar_nodeId (claiming ! 0)) absolute
                else if length claiming > 1 then Ambiguous_Route absolute (map ar_nodeId claiming)
                else Local_Route)))"

subsection \<open>plugin/routing/remote.ts\<close>

record 'c remote_target =
  rt_channel :: 'c
  rt_remotePath :: path
  rt_nodeId :: node_id

definition remoteTarget ::
    "path \<Rightarrow> anchor_route list \<Rightarrow> (node_id \<rightharpoonup> 'c) \<Rightarrow> string + 'c remote_target option" where
  "remoteTarget cwd anchors channel =
     (case classifyPath cwd None anchors of
        Local_Route \<Rightarrow> Inr None
      | Ambiguous_Route p ids \<Rightarrow> Inl (ambiguousPathMessage p ids)
      | Remote_Route nodeId p \<Rightarrow>
          (case channel nodeId of
             None \<Rightarrow> Inl (''remote node '' @ [CHR 0x22] @ nodeId @ [CHR 0x22] @ '' is not connected'')
           | Some live \<Rightarrow> Inr (Some \<lparr>rt_channel = live, rt_remotePath = p, rt_nodeId = nodeId\<rparr>)))"

subsection \<open>plugin/routing/shell.ts and plugin/routing/tty.ts\<close>

text \<open>The two composed shell executors; \<open>resolve\<close> and \<open>execute\<close> run on the one that owns
  the workdir.\<close>

datatype shell_delegate = LocalShell | RemoteShell

definition delegateFor :: "anchor_route list \<Rightarrow> path \<Rightarrow> shell_delegate" where
  "delegateFor anchors workdir =
     (case classifyPath workdir None anchors of Remote_Route _ _ \<Rightarrow> RemoteShell | _ \<Rightarrow> LocalShell)"

definition shell_resolve ::
    "(shell_delegate \<Rightarrow> 'req \<Rightarrow> 'spec) \<Rightarrow> ('req \<Rightarrow> path option) \<Rightarrow> anchor_route list \<Rightarrow> 'req \<Rightarrow> 'spec" where
  "shell_resolve run_on workdir anchors request =
     run_on (delegateFor anchors (case workdir request of None \<Rightarrow> [] | Some d \<Rightarrow> d)) request"

definition shell_execute ::
    "(shell_delegate \<Rightarrow> 'spec \<Rightarrow> 'res) \<Rightarrow> ('spec \<Rightarrow> path) \<Rightarrow> anchor_route list \<Rightarrow> 'spec \<Rightarrow> 'res" where
  "shell_execute run_on workdir anchors spec = run_on (delegateFor anchors (workdir spec)) spec"

text \<open>A terminal request (\<open>src/src/tty.ts\<close>) and where the routing provider sends it.\<close>

record tty_request =
  tq_argv :: "string list"
  tq_cwd :: path
  tq_env :: "(string \<times> string) list option"
  tq_cols :: int
  tq_rows :: int
  tq_graceMs :: "int option"

datatype 'c tty_dispatch = Tty_Local tty_request | Tty_Remote 'c tty_request

definition routing_tty_spawn ::
    "anchor_route list \<Rightarrow> (node_id \<rightharpoonup> 'c) \<Rightarrow> tty_request \<Rightarrow> string + 'c tty_dispatch" where
  "routing_tty_spawn anchors channel request =
     bind_res (remoteTarget (tq_cwd request) anchors channel) (\<lambda>remote.
       case remote of
         None \<Rightarrow> Inr (Tty_Local request)
       | Some r \<Rightarrow> Inr (Tty_Remote (rt_channel r) (request\<lparr>tq_cwd := rt_remotePath r\<rparr>)))"

subsection \<open>Well-formed anchors\<close>

text \<open>Anchor paths and remote roots have been through \<open>realpath\<close> (on this host by
  \<open>storage/anchors.ts\<close>, on the machine by its daemon), so both are canonical.\<close>

definition anchors_ok :: "anchor_route list \<Rightarrow> bool" where
  "anchors_ok anchors =
     list_all (\<lambda>a. canonical (ar_anchorPath a) \<and> canonical (ar_remoteRoot a)) anchors"

subsection \<open>Lemmas on isWithin and toAbsolute\<close>

lemma isWithin_refl [simp]: "isWithin p p"
  by (simp add: isWithin_def)

lemma isWithin_root: "is_absolute child \<Longrightarrow> isWithin ''/'' child"
  by (simp add: isWithin_def is_absolute_def endsWith_slash)

lemma seg_prefix_step:
  assumes "CHR ''/'' \<notin> set a" "CHR ''/'' \<notin> set b"
    and "y = [] \<or> hd y = CHR ''/''"
    and "prefix (a @ CHR ''/'' # x) (b @ y)"
  shows "a = b \<and> prefix (CHR ''/'' # x) y"
proof -
  from assms(4) obtain z where z: "b @ y = a @ CHR ''/'' # x @ z"
    by (auto simp: prefix_def)
  have "takeWhile (\<lambda>c. c \<noteq> CHR ''/'') (b @ y) = b"
    using assms(2,3) by (cases y) (auto simp: takeWhile_append takeWhile_eq_all_conv)
  moreover have "takeWhile (\<lambda>c. c \<noteq> CHR ''/'') (a @ CHR ''/'' # x @ z) = a"
    using assms(1) by (auto simp: takeWhile_append takeWhile_eq_all_conv)
  ultimately have "a = b" using z by simp
  with z show ?thesis by (auto simp: prefix_def)
qed

lemma render_prefix:
  assumes "list_all clean_seg as" "list_all clean_seg bs" "t = [] \<or> t = ''/''"
  shows "prefix (render as @ ''/'') (render bs @ t) \<longleftrightarrow> prefix as bs \<and> (as \<noteq> bs \<or> t = ''/'')"
  using assms(1,2)
proof (induction as arbitrary: bs)
  case Nil
  with assms(3) show ?case by (cases bs) auto
next
  case (Cons a as)
  show ?case
  proof (cases bs)
    case Nil
    with assms(3) Cons.prems show ?thesis by (auto simp: clean_seg_def)
  next
    case (Cons b bs')
    have noslash: "CHR ''/'' \<notin> set a" "CHR ''/'' \<notin> set b"
      using Cons.prems Cons by (auto simp: clean_seg_def)
    have tail: "render bs' @ t = [] \<or> hd (render bs' @ t) = CHR ''/''"
      using assms(3) by (cases bs') auto
    obtain x where x: "render as @ ''/'' = CHR ''/'' # x"
      by (cases as) auto
    have "prefix (render (a # as) @ ''/'') (render bs @ t) \<longleftrightarrow>
        prefix (a @ CHR ''/'' # x) (b @ render bs' @ t)"
      using Cons x by simp
    also have "\<dots> \<longleftrightarrow> a = b \<and> prefix (render as @ ''/'') (render bs' @ t)"
      using seg_prefix_step [OF noslash tail, of x] x by auto
    also have "\<dots> \<longleftrightarrow> prefix (a # as) bs \<and> (a # as \<noteq> bs \<or> t = ''/'')"
      using Cons.IH [of bs'] Cons.prems Cons by auto
    finally show ?thesis .
  qed
qed

text \<open>A normalized absolute path: its segments rendered, with or without a trailing slash.\<close>

definition norm_abs :: "path \<Rightarrow> bool" where
  "norm_abs p \<longleftrightarrow> is_absolute p \<and> posix_normalize p = p"

lemma norm_abs_shape:
  assumes "norm_abs p"
  obtains t where "p = render (path_segs p) @ t" "t = [] \<or> t = ''/''"
    "path_segs p = [] \<Longrightarrow> t = ''/''" "list_all clean_seg (path_segs p)"
proof -
  have abs: "is_absolute p" and n: "posix_normalize p = p"
    using assms by (auto simp: norm_abs_def)
  show ?thesis
  proof (cases "path_segs p = []")
    case True
    with n normalize_abs [OF abs] have "p = ''/''" by simp
    with that [of "''/''"] True show ?thesis by simp
  next
    case False
    with n normalize_abs [OF abs]
    have "p = render (path_segs p) @ (if endsWith p ''/'' then ''/'' else [])" by simp
    with that [of "if endsWith p ''/'' then ''/'' else []"] False path_segs_clean [OF abs]
    show ?thesis by auto
  qed
qed

lemma isWithin_norm_abs:
  assumes parent: "canonical parent" and child: "norm_abs child"
  shows "isWithin parent child \<longleftrightarrow> prefix (path_segs parent) (path_segs child)"
proof -
  obtain t where t: "child = render (path_segs child) @ t" "t = [] \<or> t = ''/''"
    and cl: "list_all clean_seg (path_segs child)"
    using norm_abs_shape [OF child] by metis
  have abs: "is_absolute child" using child by (simp add: norm_abs_def)
  from canonical_cases [OF parent] show ?thesis
  proof
    assume "parent = ''/'' \<and> path_segs parent = []"
    with abs isWithin_root show ?thesis by simp
  next
    assume *: "parent = render (path_segs parent) \<and> path_segs parent \<noteq> [] \<and>
      list_all clean_seg (path_segs parent)"
    then have "\<not> endsWith parent ''/''"
      using clean_not_slash_last [of "path_segs parent"] by (simp add: endsWith_slash)
    then have "isWithin parent child \<longleftrightarrow> child = parent \<or> prefix (parent @ ''/'') child"
      by (auto simp: isWithin_def startsWith_prefix)
    also have "\<dots> \<longleftrightarrow> child = parent \<or>
        prefix (path_segs parent) (path_segs child) \<and> (path_segs parent \<noteq> path_segs child \<or> t = ''/'')"
      using render_prefix [of "path_segs parent" "path_segs child" t] * cl t by metis
    also have "\<dots> \<longleftrightarrow> prefix (path_segs parent) (path_segs child)"
      using * t by (metis append_Nil2 prefix_order.order_refl)
    finally show ?thesis .
  qed
qed

lemma canonical_norm_abs: "canonical p \<Longrightarrow> norm_abs p"
  by (simp add: canonical_def norm_abs_def)

lemma join_absolute: "is_absolute d \<Longrightarrow> is_absolute (posix_join [d, q])"
  by (auto simp: posix_join_def Let_def intro!: normalize_is_absolute)

lemma toAbsolute_norm_abs:
  assumes "cwd = None \<or> (\<exists>d. cwd = Some d \<and> is_absolute d)"
  shows "norm_abs (toAbsolute input cwd)"
proof -
  define u where "u = map (\<lambda>c. if c = CHR 0x5C then CHR ''/'' else c) input"
  define d where "d = (case cwd of None \<Rightarrow> ''/'' | Some d \<Rightarrow> d)"
  have "is_absolute d" using assms by (auto simp: d_def)
  then have "is_absolute (posix_join [d, u])" by (rule join_absolute)
  then have "norm_abs (posix_normalize (posix_join [d, u]))"
    by (simp add: norm_abs_def normalize_is_absolute normalize_idem)
  moreover have "is_absolute u \<Longrightarrow> norm_abs (posix_normalize u)"
    by (simp add: norm_abs_def normalize_is_absolute normalize_idem)
  moreover have "toAbsolute input cwd =
      (if is_absolute u then posix_normalize u else posix_normalize (posix_join [d, u]))"
    by (simp add: toAbsolute_def u_def d_def is_absolute_def Let_def)
  ultimately show ?thesis by simp
qed

text \<open>The mapped path: \<open>posix.join(remoteRoot, suffix)\<close> appends the segments below the anchor
  to the segments of the remote root.\<close>

lemma render_split_suffix:
  assumes "list_all clean_seg ss" "t = [] \<or> t = ''/''"
  shows "norm_segs False acc (split_on (CHR ''/'') (render ss @ t)) = rev acc @ ss"
proof -
  have "split_on (CHR ''/'') (render ss) = (if ss = [] then [[]] else [] # ss)"
    using assms(1) by (rule split_render)
  then have "norm_segs False acc (split_on (CHR ''/'') (render ss)) = rev acc @ ss"
    using norm_segs_clean [OF assms(1), of False acc] by simp
  with assms(2) show ?thesis by (auto simp: split_on_snoc_sep)
qed

lemma join_segs:
  assumes root: "canonical root"
    and sp: "\<And>acc. norm_segs False acc (split_on (CHR ''/'') q) = rev acc @ ss"
  shows "norm_abs (posix_join [root, q]) \<and> path_segs (posix_join [root, q]) = path_segs root @ ss"
proof -
  have abs: "is_absolute root" using root by (simp add: canonical_def)
  then have ne: "root \<noteq> []" by auto
  have segs: "path_segs (join_with ''/'' (filter (\<lambda>p. p \<noteq> []) [root, q])) = path_segs root @ ss"
  proof (cases "q = []")
    case True
    with sp [of "[]"] have "ss = []" by simp
    with True ne show ?thesis by simp
  next
    case False
    have "path_segs (root @ CHR ''/'' # q) = path_segs root @ ss"
      using path_segs_append [OF abs, of q] False sp [of "rev (path_segs root)"] by simp
    with False ne show ?thesis by simp
  qed
  have abs2: "is_absolute (join_with ''/'' (filter (\<lambda>p. p \<noteq> []) [root, q]))"
    using abs ne by auto
  then have "join_with ''/'' (filter (\<lambda>p. p \<noteq> []) [root, q]) \<noteq> []" by auto
  then have "posix_join [root, q] = posix_normalize (join_with ''/'' (filter (\<lambda>p. p \<noteq> []) [root, q]))"
    by (simp add: posix_join_def Let_def)
  with abs2 segs show ?thesis
    by (simp add: norm_abs_def normalize_is_absolute normalize_idem path_segs_normalize)
qed

lemma anchor_suffix:
  assumes anchor: "canonical anchor" and child: "norm_abs child" and within: "isWithin anchor child"
  obtains ss where "path_segs child = path_segs anchor @ ss"
    "\<And>acc. norm_segs False acc (split_on (CHR ''/'') (drop (length anchor) child)) = rev acc @ ss"
proof -
  obtain t where t: "child = render (path_segs child) @ t" "t = [] \<or> t = ''/''"
    and cl: "list_all clean_seg (path_segs child)"
    using norm_abs_shape [OF child] by metis
  from within have "prefix (path_segs anchor) (path_segs child)"
    by (simp add: isWithin_norm_abs [OF anchor child])
  then obtain ss where ss: "path_segs child = path_segs anchor @ ss" by (auto simp: prefix_def)
  with cl have clss: "list_all clean_seg ss" by simp
  note split = render_split_suffix [OF clss t(2)]
  from canonical_cases [OF anchor] show ?thesis
  proof
    assume root: "anchor = ''/'' \<and> path_segs anchor = []"
    obtain x where x: "child = CHR ''/'' # x"
      using child by (cases child) (auto simp: norm_abs_def)
    have child': "child = render ss @ t" using t(1) ss root by simp
    have "norm_segs False acc (split_on (CHR ''/'') x) = rev acc @ ss" for acc
      using split [of acc] norm_segs_drop_Nil [of False acc "split_on (CHR ''/'') x"]
      unfolding child' [symmetric] x by simp
    with that [OF ss] root x show ?thesis by simp
  next
    assume *: "anchor = render (path_segs anchor) \<and> path_segs anchor \<noteq> [] \<and>
      list_all clean_seg (path_segs anchor)"
    have "child = anchor @ render ss @ t" using t(1) ss * by (metis append_assoc render_append)
    with split that [OF ss] show ?thesis by simp
  qed
qed

subsection \<open>The dispatch interface\<close>

text \<open>
  A seam that dispatches on a working directory: \<open>at_home\<close> says the outcome is this host's,
  \<open>on_node\<close> that one machine got the request with one path. The laws say it follows the
  classification; what follows is that a directory is never served by two machines, and that
  an ambiguous one is served by none.
\<close>

locale route_dispatch =
  fixes classify :: "path \<Rightarrow> route"
    and dispatch :: "path \<Rightarrow> 'x"
    and at_home :: "'x \<Rightarrow> bool"
    and on_node :: "'x \<Rightarrow> node_id \<Rightarrow> path \<Rightarrow> bool"
  assumes home_law: "at_home (dispatch d) \<longleftrightarrow> classify d = Local_Route"
    and node_law: "on_node (dispatch d) n p \<Longrightarrow> classify d = Remote_Route n p"
begin

lemma one_machine:
  "on_node (dispatch d) n p \<Longrightarrow> \<not> at_home (dispatch d) \<and>
     (\<forall>n' p'. on_node (dispatch d) n' p' \<longrightarrow> n' = n \<and> p' = p)"
  using home_law [of d] node_law [of d] by (metis route.distinct(1) route.inject(1))

lemma ambiguous_nowhere:
  "classify d = Ambiguous_Route q ids \<Longrightarrow> \<not> at_home (dispatch d) \<and> \<not> on_node (dispatch d) n p"
  using home_law [of d] node_law [of d n p] by auto

end

definition target_at_home :: "string + 'c remote_target option \<Rightarrow> bool" where
  "target_at_home r = (case r of Inr None \<Rightarrow> True | _ \<Rightarrow> False)"

definition target_on_node :: "string + 'c remote_target option \<Rightarrow> node_id \<Rightarrow> path \<Rightarrow> bool" where
  "target_on_node r n p =
     (case r of Inr (Some t) \<Rightarrow> rt_nodeId t = n \<and> rt_remotePath t = p | _ \<Rightarrow> False)"

interpretation target_seam: route_dispatch
  "\<lambda>d. classifyPath d None anchors" "\<lambda>d. remoteTarget d anchors channel"
  target_at_home target_on_node
  by unfold_locales
    (auto simp: remoteTarget_def target_at_home_def target_on_node_def
      split: route.splits option.splits)

definition tty_at_home :: "string + 'c tty_dispatch \<Rightarrow> bool" where
  "tty_at_home r = (case r of Inr (Tty_Local _) \<Rightarrow> True | _ \<Rightarrow> False)"

text \<open>The terminal router hands its request over with the channel of the owning machine; the
  channels of different machines are told apart by tagging each with its node.\<close>

definition tty_on_node :: "string + (node_id \<times> 'c) tty_dispatch \<Rightarrow> node_id \<Rightarrow> path \<Rightarrow> bool" where
  "tty_on_node r n p =
     (case r of Inr (Tty_Remote c q) \<Rightarrow> fst c = n \<and> tq_cwd q = p | _ \<Rightarrow> False)"

definition tagged :: "(node_id \<rightharpoonup> 'c) \<Rightarrow> (node_id \<rightharpoonup> node_id \<times> 'c)" where
  "tagged channel n = map_option (Pair n) (channel n)"

interpretation tty_seam: route_dispatch
  "\<lambda>d. classifyPath d None anchors"
  "\<lambda>d. routing_tty_spawn anchors (tagged channel) (q\<lparr>tq_cwd := d\<rparr>)"
  tty_at_home tty_on_node
  by unfold_locales
    (auto simp: routing_tty_spawn_def remoteTarget_def tty_at_home_def tty_on_node_def tagged_def
      split: route.splits option.splits)

subsection \<open>Properties\<close>

text \<open>C1: a path routed to a machine without the explicit \<open>node:\<close> spelling never leaves the root
  of the anchor that routed it: whatever \<open>.\<close> and \<open>..\<close> segments the input carries, the path sent
  to the machine is normalized and lies within that anchor's remote root, and an input under the
  anchor keeps exactly its segments below the anchor.\<close>

theorem classify_within_root:
  assumes ok: "anchors_ok anchors"
    and plain: "explicit_match input = None"
    and base: "cwd = None \<or> (\<exists>d. cwd = Some d \<and> is_absolute d)"
    and route: "classifyPath input cwd anchors = Remote_Route n p"
  shows "\<exists>a \<in> set anchors. ar_nodeId a = n \<and> norm_abs p \<and> isWithin (ar_remoteRoot a) p \<and>
    (if isWithin (ar_anchorPath a) (toAbsolute input cwd)
     then path_segs p = path_segs (ar_remoteRoot a) @
       drop (length (path_segs (ar_anchorPath a))) (path_segs (toAbsolute input cwd))
     else p = toAbsolute input cwd)"
proof -
  let ?abs = "toAbsolute input cwd"
  have norm: "norm_abs ?abs" using base by (rule toAbsolute_norm_abs)
  show ?thesis
  proof (cases "List.find (\<lambda>a. isWithin (ar_anchorPath a) ?abs) anchors")
    case (Some a)
    then have a: "a \<in> set anchors" and within: "isWithin (ar_anchorPath a) ?abs"
      by (auto simp: find_Some_iff)
    then have can: "canonical (ar_anchorPath a)" "canonical (ar_remoteRoot a)"
      using ok by (auto simp: anchors_ok_def list_all_iff)
    obtain ss where ss: "path_segs ?abs = path_segs (ar_anchorPath a) @ ss"
      and sp: "\<And>acc. norm_segs False acc (split_on (CHR ''/'') (drop (length (ar_anchorPath a)) ?abs)) = rev acc @ ss"
      using anchor_suffix [OF can(1) norm within] by metis
    have p: "ar_nodeId a = n" "p = posix_join [ar_remoteRoot a, drop (length (ar_anchorPath a)) ?abs]"
      using route plain Some by (auto simp: classifyPath_def Let_def)
    with join_segs [OF can(2) sp] have "norm_abs p" "path_segs p = path_segs (ar_remoteRoot a) @ ss"
      by auto
    with a p within ss isWithin_norm_abs [OF can(2), of p] show ?thesis by auto
  next
    case None
    let ?claim = "filter (\<lambda>a. isWithin (ar_remoteRoot a) ?abs) anchors"
    from None route plain have "length ?claim = 1" "ar_nodeId (?claim ! 0) = n" "p = ?abs"
      by (auto simp: classifyPath_def Let_def split: if_splits)
    moreover then have "?claim ! 0 \<in> set ?claim" by (metis nth_mem zero_less_one)
    ultimately show ?thesis using None norm by (auto simp: find_None_iff)
  qed
qed

theorem classify_within_root_witness:
  "classifyPath ''../x'' (Some ''/l/w/src'') [\<lparr>ar_nodeId = ''n'', ar_anchorPath = ''/l/w'', ar_remoteRoot = ''/r''\<rparr>]
      = Remote_Route ''n'' ''/r/x'' \<and> isWithin ''/r'' ''/r/x''"
proof -
  let ?as = "[\<lparr>ar_nodeId = ''n'', ar_anchorPath = ''/l/w'', ar_remoteRoot = ''/r''\<rparr>]"
  have ok: "anchors_ok ?as" by code_simp
  have plain: "explicit_match ''../x'' = None" by code_simp
  have base: "Some ''/l/w/src'' = None \<or> (\<exists>d. Some ''/l/w/src'' = Some d \<and> is_absolute d)" by simp
  have route: "classifyPath ''../x'' (Some ''/l/w/src'') ?as = Remote_Route ''n'' ''/r/x''" by code_simp
  from classify_within_root [OF ok plain base route] route show ?thesis by auto
qed

text \<open>\<open>isWithin\<close> compares whole path segments: for a canonical ancestor and a normalized
  candidate it holds exactly when the ancestor's segments are a prefix of the candidate's.\<close>

theorem isWithin_segments:
  assumes "canonical parent" "norm_abs child"
  shows "isWithin parent child \<longleftrightarrow> prefix (path_segs parent) (path_segs child)"
  using assms by (rule isWithin_norm_abs)

theorem isWithin_segments_witness:
  "\<not> isWithin ''/srv/app'' ''/srv/app-old'' \<and> isWithin ''/srv/app'' ''/srv/app/x/''"
proof -
  have c: "canonical ''/srv/app''" by code_simp
  have n: "norm_abs ''/srv/app-old''" "norm_abs ''/srv/app/x/''" by code_simp+
  show ?thesis
    unfolding isWithin_segments [OF c n(1)] isWithin_segments [OF c n(2)] by code_simp
qed



end
