(* ===== verification/Terminal_Registry.thy ===== *)
theory Terminal_Registry
  imports Utf8 Routing
begin

section \<open>The terminal registry: terminal/host/registry.ts\<close>

text \<open>
  The table of shells a person's tabs have open. Every operation of the registry is one function
  on the table; an \<open>async\<close> operation is split at its \<open>await\<close>s, so the events below are exactly
  the synchronous pieces the event loop runs. What an operation does outside the table (calling a
  sink, settling a wait, terminating, pausing or resuming the PTY) is a list of effects, in call
  order. A sink, a pending wait and a process tid are numbers. A number argument of the tool is an
  integer; regular expressions are a parameter: \<open>rx source\<close> is the compiled test, or the message
  of the \<open>SyntaxError\<close>.
\<close>

type_synonym term_id = string
type_synonym session_id = string
type_synonym sink = nat
type_synonym wait_id = nat
type_synonym regex_engine = "string \<Rightarrow> string + (string \<Rightarrow> bool)"

record terminal_settings =
  ts_shell :: string
  ts_shellArgs :: "string list"
  ts_env :: "(string \<times> string) list"
  ts_graceMs :: int
  ts_detachGraceMs :: "int option"

datatype term_state = Running | Detached | Exited

record tty_outcome =
  to_exitCode :: "int option"
  to_signal :: "string option"

datatype matcher = Match_Text string | Match_Regex string

record waiter =
  wt_id :: wait_id
  wt_start :: int
  wt_matcher :: matcher

record terminal_entry =
  te_id :: term_id
  te_label :: string
  te_sessionId :: session_id
  te_machine :: string
  te_cwd :: path
  te_pid :: int
  te_buffer :: bytes
  te_bytes :: nat
  te_dropped :: nat
  te_state :: term_state
  te_cols :: int
  te_rows :: int
  te_attaches :: "sink list"
  te_waiters :: "waiter list"
  te_timer :: bool
  te_paused :: bool
  te_inflight :: bool

text \<open>\<open>te_paused\<close> is the flow state of \<open>handle.output\<close> and \<open>te_inflight\<close> whether the
  \<open>Promise.all\<close> of the last chunk's deliveries is still pending; the code keeps both inside the
  stream and the promise. \<open>te_timer\<close> is \<open>detachTimer !== undefined\<close>.\<close>

record registry =
  rg_entries :: "terminal_entry list"
  rg_nextOrdinal :: nat

datatype wait_reason = Reason_match | Reason_exit | Reason_timeout

record terminal_wait =
  tw_id :: term_id
  tw_offset :: nat
  tw_text :: string
  tw_matched :: bool
  tw_reason :: wait_reason

record terminal_read =
  tr_id :: term_id
  tr_offset :: nat
  tr_text :: string
  tr_truncated :: bool

record terminal_view =
  tv_id :: term_id
  tv_label :: string
  tv_cwd :: path
  tv_machine :: string
  tv_pid :: int
  tv_state :: term_state
  tv_cols :: int
  tv_rows :: int

datatype registry_effect =
    Fx_Output sink bytes
  | Fx_Exit sink tty_outcome
  | Fx_Fail sink string
  | Fx_Wait wait_id terminal_wait
  | Fx_Wait_Cancelled wait_id
  | Fx_Pause term_id
  | Fx_Resume term_id
  | Fx_Write term_id string
  | Fx_Terminate term_id

subsection \<open>Keys\<close>

definition BUFFER_BYTES :: nat where "BUFFER_BYTES = 256 * 1024"
definition DEFAULT_READ_LINES :: int where "DEFAULT_READ_LINES = 200"
definition MAX_READ_LINES :: int where "MAX_READ_LINES = 2000"
definition DEFAULT_WAIT_MS :: int where "DEFAULT_WAIT_MS = 30000"
definition MAX_WAIT_MS :: int where "MAX_WAIT_MS = 300000"

definition ESC :: char where "ESC = CHR 0x1B"

definition KEYS :: "(string \<times> string) list" where
  "KEYS =
    [(''enter'', [CHR 0x0D]), (''esc'', [ESC]), (''escape'', [ESC]), (''tab'', [CHR 0x09]),
     (''backspace'', [CHR 0x7F]), (''delete'', ESC # ''[3~''), (''up'', ESC # ''[A''),
     (''down'', ESC # ''[B''), (''right'', ESC # ''[C''), (''left'', ESC # ''[D''),
     (''home'', ESC # ''[H''), (''end'', ESC # ''[F''), (''pageup'', ESC # ''[5~''),
     (''pagedown'', ESC # ''[6~''), (''space'', '' '')] @
    map (\<lambda>index. (''ctrl+'' @ [char_of (97 + index)], [char_of (index + 1)])) [0..<26]"

definition KEY_NAMES :: "string list" where
  "KEY_NAMES = map fst KEYS"

text \<open>\<open>KEYS\<close> is an object literal, so \<open>KEYS[name]\<close> also finds what every object inherits from
  \<open>Object.prototype\<close>; these are its members and what \<open>String(...)\<close> gives for each.\<close>

definition native_code :: "string \<Rightarrow> string" where
  "native_code f = ''function '' @ f @ ''() { [native code] }''"

definition object_prototype :: "(string \<times> string) list" where
  "object_prototype =
     (''constructor'', native_code ''Object'') #
     (''__proto__'', ''[object Object]'') #
     map (\<lambda>f. (f, native_code f))
       [''hasOwnProperty'', ''isPrototypeOf'', ''propertyIsEnumerable'', ''toLocaleString'',
        ''toString'', ''valueOf'', ''__defineGetter__'', ''__defineSetter__'',
        ''__lookupGetter__'', ''__lookupSetter__'']"

definition key_sequence :: "string \<Rightarrow> string option" where
  "key_sequence name =
     (case map_of KEYS name of Some s \<Rightarrow> Some s | None \<Rightarrow> map_of object_prototype name)"

subsection \<open>The ring buffer and its text\<close>

definition reg_append :: "bytes \<Rightarrow> terminal_entry \<Rightarrow> terminal_entry" where
  "reg_append chunk e =
     (let total = te_bytes e + length chunk in
      if length chunk \<ge> BUFFER_BYTES then
        (let buffer = drop (length chunk - BUFFER_BYTES) chunk
         in e\<lparr>te_bytes := total, te_buffer := buffer, te_dropped := total - length buffer\<rparr>)
      else
        (let grown = te_buffer e @ chunk;
             overflow = int (length grown) - int BUFFER_BYTES;
             buffer = (if overflow > 0 then drop (nat overflow) grown else grown)
         in e\<lparr>te_bytes := total, te_buffer := buffer, te_dropped := total - length buffer\<rparr>))"

definition textFrom :: "terminal_entry \<Rightarrow> int \<Rightarrow> string \<times> bool" where
  "textFrom e from =
     (let start = max from (int (te_dropped e))
      in (utf8_text (drop (nat (start - int (te_dropped e))) (te_buffer e)), from < int (te_dropped e)))"

definition tailLines :: "string \<Rightarrow> int \<Rightarrow> string \<times> bool" where
  "tailLines text lines =
     (let parts = split_on (CHR 0x0A) text in
      if int (length parts) \<le> lines then (text, False)
      else (join_with [CHR 0x0A] (drop (length parts - nat lines) parts), True))"

definition retainedStart :: "terminal_entry \<Rightarrow> int" where
  "retainedStart e =
     (let seen = textFrom e (int (te_dropped e));
          tail = tailLines (fst seen) DEFAULT_READ_LINES
      in max (int (te_dropped e)) (int (te_bytes e) - int (length (fst tail))))"

definition reg_read :: "terminal_entry \<Rightarrow> int option \<Rightarrow> int option \<Rightarrow> terminal_read" where
  "reg_read e offset lines =
     (let cap = min (max (case lines of None \<Rightarrow> DEFAULT_READ_LINES | Some l \<Rightarrow> l) 1) MAX_READ_LINES;
          from = (case offset of None \<Rightarrow> int (te_dropped e) | Some f \<Rightarrow> f);
          seen = textFrom e from;
          tail = tailLines (fst seen) cap
      in \<lparr>tr_id = te_id e, tr_offset = te_bytes e, tr_text = fst tail,
          tr_truncated = (snd seen \<or> snd tail)\<rparr>)"

subsection \<open>Waiters\<close>

definition js_includes :: "string \<Rightarrow> string \<Rightarrow> bool" where
  "js_includes s t = sublist t s"

definition matcher_test :: "regex_engine \<Rightarrow> matcher \<Rightarrow> string \<Rightarrow> bool" where
  "matcher_test rx mt text =
     (case mt of
        Match_Text needle \<Rightarrow> js_includes text needle
      | Match_Regex source \<Rightarrow> (case rx source of Inr test \<Rightarrow> test text | Inl _ \<Rightarrow> False))"

definition compile_matcher :: "regex_engine \<Rightarrow> string option \<Rightarrow> string option \<Rightarrow> string + matcher" where
  "compile_matcher rx mt regex =
     (case (mt, regex) of
        (Some _, Some _) \<Rightarrow> Inl (''pass either '' @ [CHR 0x22] @ ''match'' @ [CHR 0x22] @ '' or '' @
           [CHR 0x22] @ ''regex'' @ [CHR 0x22] @ '', not both'')
      | (None, None) \<Rightarrow> Inl (''wait requires '' @ [CHR 0x22] @ ''match'' @ [CHR 0x22] @ '' or '' @
           [CHR 0x22] @ ''regex'' @ [CHR 0x22])
      | (Some needle, None) \<Rightarrow> Inr (Match_Text needle)
      | (None, Some source) \<Rightarrow>
          (case rx source of
             Inl msg \<Rightarrow> Inl ([CHR 0x22] @ ''regex'' @ [CHR 0x22] @ '' is not a valid pattern: '' @ msg)
           | Inr _ \<Rightarrow> Inr (Match_Regex source)))"

text \<open>\<open>check\<close>: how this waiter would finish in the entry's present state, if at all.\<close>

definition wait_result :: "terminal_entry \<Rightarrow> waiter \<Rightarrow> bool \<Rightarrow> wait_reason \<Rightarrow> terminal_wait" where
  "wait_result e w matched reason =
     \<lparr>tw_id = te_id e, tw_offset = te_bytes e, tw_text = fst (textFrom e (wt_start w)),
      tw_matched = matched, tw_reason = reason\<rparr>"

definition wait_check :: "regex_engine \<Rightarrow> terminal_entry \<Rightarrow> waiter \<Rightarrow> terminal_wait option" where
  "wait_check rx e w =
     (if matcher_test rx (wt_matcher w) (fst (textFrom e (wt_start w)))
      then Some (wait_result e w True Reason_match)
      else if te_state e = Exited then Some (wait_result e w False Reason_exit)
      else None)"

definition reg_notify :: "regex_engine \<Rightarrow> terminal_entry \<Rightarrow> terminal_entry \<times> registry_effect list" where
  "reg_notify rx e =
     (e\<lparr>te_waiters := filter (\<lambda>w. wait_check rx e w = None) (te_waiters e)\<rparr>,
      concat (map (\<lambda>w. case wait_check rx e w of None \<Rightarrow> [] | Some r \<Rightarrow> [Fx_Wait (wt_id w) r])
        (te_waiters e)))"

subsection \<open>The operations\<close>

definition describe_entries :: "terminal_entry list \<Rightarrow> string" where
  "describe_entries es = join_with '', '' (map (\<lambda>e. te_id e @ '' ('' @ te_label e @ '')'') es)"

definition quoted :: "string \<Rightarrow> string" where
  "quoted s = [CHR 0x22] @ s @ [CHR 0x22]"

definition entryOf :: "registry \<Rightarrow> term_id \<Rightarrow> string + terminal_entry" where
  "entryOf r tid =
     (case find_key te_id tid (rg_entries r) of
        None \<Rightarrow> Inl (''terminal '' @ quoted tid @ '' is not open'')
      | Some e \<Rightarrow> Inr e)"

definition requireLive :: "terminal_entry \<Rightarrow> string + terminal_entry" where
  "requireLive e =
     (if te_state e = Exited then Inl (''terminal '' @ quoted (te_id e) @ '' has already exited'')
      else Inr e)"

definition put_entry :: "terminal_entry \<Rightarrow> registry \<Rightarrow> registry" where
  "put_entry e r = r\<lparr>rg_entries := replace_key te_id e (rg_entries r)\<rparr>"

text \<open>\<open>open\<close>: the spawn request, and the continuation once the shell has been allocated.\<close>

definition reg_spawn_request :: "terminal_settings \<Rightarrow> path \<Rightarrow> int \<Rightarrow> int \<Rightarrow> tty_request" where
  "reg_spawn_request st cwd cols rows =
     \<lparr>tq_argv = ts_shell st # ts_shellArgs st, tq_cwd = cwd, tq_env = Some (ts_env st),
      tq_cols = cols, tq_rows = rows, tq_graceMs = Some (ts_graceMs st)\<rparr>"

definition reg_opened ::
    "(path \<Rightarrow> string) \<Rightarrow> (path \<Rightarrow> path) \<Rightarrow> session_id \<Rightarrow> path \<Rightarrow> int \<Rightarrow> int \<Rightarrow> int \<Rightarrow> registry
      \<Rightarrow> registry \<times> terminal_entry" where
  "reg_opened machine directory sessionId cwd cols rows pid r =
     (let ordinal = rg_nextOrdinal r + 1;
          entry = \<lparr>te_id = ''t'' @ str_nat ordinal, te_label = ''Terminal '' @ str_nat ordinal,
            te_sessionId = sessionId, te_machine = machine cwd, te_cwd = directory cwd, te_pid = pid,
            te_buffer = [], te_bytes = 0, te_dropped = 0, te_state = Running, te_cols = cols,
            te_rows = rows, te_attaches = [], te_waiters = [], te_timer = False, te_paused = False,
            te_inflight = False\<rparr>
      in (r\<lparr>rg_nextOrdinal := ordinal, rg_entries := rg_entries r @ [entry]\<rparr>, entry))"

text \<open>\<open>kill\<close>: the part before \<open>terminate()\<close> settles, which is all that changes the table.\<close>

definition reg_kill :: "regex_engine \<Rightarrow> term_id \<Rightarrow> registry \<Rightarrow> registry \<times> bool \<times> registry_effect list" where
  "reg_kill rx tid r =
     (case find_key te_id tid (rg_entries r) of
        None \<Rightarrow> (r, False, [])
      | Some e \<Rightarrow>
          (let e' = e\<lparr>te_timer := False, te_attaches := [], te_state := Exited\<rparr>;
               (_, fx) = reg_notify rx e'
           in (r\<lparr>rg_entries := drop_key te_id tid (rg_entries r)\<rparr>, True, fx @ [Fx_Terminate tid])))"

definition reg_attach :: "term_id \<Rightarrow> sink \<Rightarrow> registry \<Rightarrow> string + registry \<times> terminal_entry \<times> registry_effect list" where
  "reg_attach tid sk r =
     bind_res (entryOf r tid) (\<lambda>e0. bind_res (requireLive e0) (\<lambda>e.
       let e' = e\<lparr>te_timer := False,
                  te_state := (if te_state e = Detached then Running else te_state e),
                  te_attaches := (if sk \<in> set (te_attaches e) then te_attaches e else te_attaches e @ [sk])\<rparr>
       in Inr (put_entry e' r, e', if te_buffer e' \<noteq> [] then [Fx_Output sk (te_buffer e')] else [])))"

definition reg_detach ::
    "regex_engine \<Rightarrow> terminal_settings \<Rightarrow> term_id \<Rightarrow> sink \<Rightarrow> registry \<Rightarrow> registry \<times> registry_effect list" where
  "reg_detach rx st tid sk r =
     (case find_key te_id tid (rg_entries r) of
        None \<Rightarrow> (r, [])
      | Some e \<Rightarrow>
          (let e' = e\<lparr>te_attaches := removeAll sk (te_attaches e)\<rparr>;
               grace = (case ts_detachGraceMs st of None \<Rightarrow> 0 | Some g \<Rightarrow> g)
           in if te_attaches e' \<noteq> [] then (put_entry e' r, [])
              else if te_state e' = Exited
              then (case reg_kill rx tid (put_entry e' r) of (r', _, fx) \<Rightarrow> (r', fx))
              else if te_timer e' \<or> grace \<le> 0 then (put_entry (e'\<lparr>te_state := Detached\<rparr>) r, [])
              else (put_entry (e'\<lparr>te_state := Detached, te_timer := True\<rparr>) r, [])))"

text \<open>\<open>pump\<close>: one \<open>data\<close> event of the PTY, and the settling of its deliveries.\<close>

definition reg_data :: "regex_engine \<Rightarrow> term_id \<Rightarrow> bytes \<Rightarrow> registry \<Rightarrow> registry \<times> registry_effect list" where
  "reg_data rx tid chunk r =
     (case find_key te_id tid (rg_entries r) of
        None \<Rightarrow> (r, [])
      | Some e \<Rightarrow>
          (let (e', fx) = reg_notify rx (reg_append chunk e)
           in if te_attaches e' = [] then (put_entry e' r, fx)
              else (put_entry (e'\<lparr>te_paused := True, te_inflight := True\<rparr>) r,
                    fx @ Fx_Pause tid # map (\<lambda>sk. Fx_Output sk chunk) (te_attaches e'))))"

definition reg_delivered :: "term_id \<Rightarrow> registry \<Rightarrow> registry \<times> registry_effect list" where
  "reg_delivered tid r =
     (case find_key te_id tid (rg_entries r) of
        None \<Rightarrow> (r, [])
      | Some e \<Rightarrow>
          if te_state e = Running
          then (put_entry (e\<lparr>te_inflight := False, te_paused := False\<rparr>) r, [Fx_Resume tid])
          else (put_entry (e\<lparr>te_inflight := False\<rparr>) r, []))"

text \<open>\<open>settle\<close>: the top-level process ended, or the terminal failed.\<close>

definition reg_settle ::
    "regex_engine \<Rightarrow> term_id \<Rightarrow> string + tty_outcome \<Rightarrow> registry \<Rightarrow> registry \<times> registry_effect list" where
  "reg_settle rx tid outcome r =
     (case find_key te_id tid (rg_entries r) of
        None \<Rightarrow> (r, [])
      | Some e \<Rightarrow>
          (let reports = map (\<lambda>sk. case outcome of Inr ok \<Rightarrow> Fx_Exit sk ok | Inl err \<Rightarrow> Fx_Fail sk err)
                 (te_attaches e);
               (e', fx) = reg_notify rx (e\<lparr>te_state := Exited\<rparr>)
           in if te_attaches e' = []
              then (case reg_kill rx tid (put_entry e' r) of (r', _, fx') \<Rightarrow> (r', reports @ fx @ fx'))
              else (put_entry e' r, reports @ fx)))"

text \<open>\<open>resize\<close> after the provider answered.\<close>

definition reg_resized :: "term_id \<Rightarrow> int \<Rightarrow> int \<Rightarrow> bool \<Rightarrow> registry \<Rightarrow> registry" where
  "reg_resized tid cols rows accepted r =
     (case find_key te_id tid (rg_entries r) of
        None \<Rightarrow> r
      | Some e \<Rightarrow> if accepted then put_entry (e\<lparr>te_cols := cols, te_rows := rows\<rparr>) r else r)"

definition listFor :: "session_id \<Rightarrow> registry \<Rightarrow> terminal_view list" where
  "listFor sessionId r =
     map (\<lambda>e. \<lparr>tv_id = te_id e, tv_label = te_label e, tv_cwd = te_cwd e, tv_machine = te_machine e,
               tv_pid = te_pid e, tv_state = te_state e, tv_cols = te_cols e, tv_rows = te_rows e\<rparr>)
       (filter (\<lambda>e. te_sessionId e = sessionId) (rg_entries r))"

definition requireOwned :: "session_id \<Rightarrow> term_id option \<Rightarrow> registry \<Rightarrow> string + terminal_entry" where
  "requireOwned sessionId tid r =
     (let mine = filter (\<lambda>e. te_sessionId e = sessionId) (rg_entries r) in
      case tid of
        Some i \<Rightarrow>
          (case find_key te_id i mine of
             None \<Rightarrow> Inl (''no terminal '' @ quoted i @ '' is open in this session'' @
               (if mine = [] then ''; this session has no open terminal''
                else ''; open terminals: '' @ describe_entries mine))
           | Some e \<Rightarrow> requireLive e)
      | None \<Rightarrow>
          (let live = filter (\<lambda>e. te_state e \<noteq> Exited) mine in
           if live = [] then
             Inl (if mine = [] then ''this session has no open terminal; open one in the sidebar first''
                  else ''every terminal in this session has exited: '' @ describe_entries mine)
           else if length live > 1 then
             Inl (''this session has '' @ str_nat (length live) @ '' open terminals; '' @
                  ''pass '' @ quoted ''terminal'' @ '' with one of: '' @ describe_entries live)
           else Inr (hd live)))"

text \<open>\<open>write\<close> and \<open>keys\<close>: what is asked of the PTY and answered once it has taken the bytes.\<close>

definition reg_write :: "term_id \<Rightarrow> string \<Rightarrow> registry \<Rightarrow> string + nat \<times> registry_effect list" where
  "reg_write tid text r =
     bind_res (entryOf r tid) (\<lambda>e0. bind_res (requireLive e0) (\<lambda>e.
       Inr (length text, [Fx_Write tid text])))"

fun resolve_keys :: "string list \<Rightarrow> string + string" where
  "resolve_keys [] = Inr []"
| "resolve_keys (name # names) =
     (case key_sequence name of
        None \<Rightarrow> Inl (''unknown key '' @ quoted name @ ''; known keys are '' @ join_with '', '' KEY_NAMES)
      | Some s \<Rightarrow> bind_res (resolve_keys names) (\<lambda>rest. Inr (s @ rest)))"

definition reg_keys :: "term_id \<Rightarrow> string list \<Rightarrow> registry \<Rightarrow> string + (nat \<times> nat) \<times> registry_effect list" where
  "reg_keys tid names r =
     bind_res (entryOf r tid) (\<lambda>e0. bind_res (requireLive e0) (\<lambda>e.
       bind_res (resolve_keys names) (\<lambda>bs.
         Inr ((length bs, length names), [Fx_Write tid bs]))))"

definition reg_read_id :: "term_id \<Rightarrow> int option \<Rightarrow> int option \<Rightarrow> registry \<Rightarrow> string + terminal_read" where
  "reg_read_id tid offset lines r =
     bind_res (entryOf r tid) (\<lambda>e. Inr (reg_read e offset lines))"

text \<open>\<open>wait\<close> up to its first, synchronous check; \<open>aborted\<close> is the signal's state then.\<close>

definition wait_budget :: "int option \<Rightarrow> int" where
  "wait_budget timeoutMs =
     min (max (case timeoutMs of None \<Rightarrow> DEFAULT_WAIT_MS | Some t \<Rightarrow> t) 1) MAX_WAIT_MS"

definition reg_wait ::
    "regex_engine \<Rightarrow> term_id \<Rightarrow> wait_id \<Rightarrow> int option \<Rightarrow> string option \<Rightarrow> string option \<Rightarrow> bool \<Rightarrow> registry
      \<Rightarrow> string + registry \<times> registry_effect list" where
  "reg_wait rx tid wid offset mt regex aborted r =
     bind_res (entryOf r tid) (\<lambda>e.
       let start = (case offset of None \<Rightarrow> retainedStart e | Some f \<Rightarrow> f) in
       bind_res (compile_matcher rx mt regex) (\<lambda>test.
         let w = \<lparr>wt_id = wid, wt_start = start, wt_matcher = test\<rparr> in
         if aborted then Inr (r, [Fx_Wait_Cancelled wid])
         else (case wait_check rx e w of
             Some res \<Rightarrow> Inr (r, [Fx_Wait wid res])
           | None \<Rightarrow> Inr (put_entry (e\<lparr>te_waiters := te_waiters e @ [w]\<rparr>) r, []))))"

text \<open>A pending wait's timer, and its abort.\<close>

definition reg_timeout :: "term_id \<Rightarrow> wait_id \<Rightarrow> registry \<Rightarrow> registry \<times> registry_effect list" where
  "reg_timeout tid wid r =
     (case find_key te_id tid (rg_entries r) of
        None \<Rightarrow> (r, [])
      | Some e \<Rightarrow>
          (case find_key wt_id wid (te_waiters e) of
             None \<Rightarrow> (r, [])
           | Some w \<Rightarrow> (put_entry (e\<lparr>te_waiters := drop_key wt_id wid (te_waiters e)\<rparr>) r,
                [Fx_Wait wid (wait_result e w False Reason_timeout)])))"

definition reg_abort :: "term_id \<Rightarrow> wait_id \<Rightarrow> registry \<Rightarrow> registry \<times> registry_effect list" where
  "reg_abort tid wid r =
     (case find_key te_id tid (rg_entries r) of
        None \<Rightarrow> (r, [])
      | Some e \<Rightarrow>
          (case find_key wt_id wid (te_waiters e) of
             None \<Rightarrow> (r, [])
           | Some w \<Rightarrow> (put_entry (e\<lparr>te_waiters := drop_key wt_id wid (te_waiters e)\<rparr>) r,
                [Fx_Wait_Cancelled wid])))"

text \<open>The detach valve's timer fires.\<close>

definition reg_valve :: "regex_engine \<Rightarrow> term_id \<Rightarrow> registry \<Rightarrow> registry \<times> registry_effect list" where
  "reg_valve rx tid r =
     (case find_key te_id tid (rg_entries r) of
        None \<Rightarrow> (r, [])
      | Some e \<Rightarrow>
          (if te_timer e
           then (case reg_kill rx tid (put_entry (e\<lparr>te_timer := False\<rparr>) r) of (r', _, fx) \<Rightarrow> (r', fx))
           else (r, [])))"

fun kill_all :: "regex_engine \<Rightarrow> term_id list \<Rightarrow> registry \<Rightarrow> registry \<times> registry_effect list" where
  "kill_all rx [] r = (r, [])"
| "kill_all rx (tid # ids) r =
     (case reg_kill rx tid r of (r1, _, fx) \<Rightarrow>
       (case kill_all rx ids r1 of (r2, fx') \<Rightarrow> (r2, fx @ fx')))"

definition releaseSession :: "regex_engine \<Rightarrow> session_id \<Rightarrow> registry \<Rightarrow> registry \<times> registry_effect list" where
  "releaseSession rx sessionId r =
     kill_all rx (map te_id (filter (\<lambda>e. te_sessionId e = sessionId) (rg_entries r))) r"

definition disposeAll :: "regex_engine \<Rightarrow> registry \<Rightarrow> registry \<times> registry_effect list" where
  "disposeAll rx r = kill_all rx (map te_id (rg_entries r)) r"

end
