(* ===== verification/Registry_Runs.thy ===== *)
theory Registry_Runs
  imports Terminal_Registry
begin

section \<open>Runs of the terminal registry\<close>

text \<open>
  The registry driven by the event loop: every synchronous piece of \<open>terminal/host/registry.ts\<close>
  is an event, a run is the list of the events so far, and the invariant says what holds of every
  entry after any run. The entry's ring buffer interprets the window contract of
  \<open>Byte_Windows\<close>.
\<close>

subsection \<open>The ring buffer is a byte window\<close>

definition ring_ok :: "terminal_entry \<Rightarrow> bool" where
  "ring_ok e \<longleftrightarrow> te_dropped e + length (te_buffer e) = te_bytes e \<and> length (te_buffer e) \<le> BUFFER_BYTES"

definition ring_blank :: "terminal_entry \<Rightarrow> terminal_entry" where
  "ring_blank e = e\<lparr>te_buffer := [], te_bytes := 0, te_dropped := 0\<rparr>"

lemma reg_append_buffer:
  assumes "ring_ok e"
  shows "te_buffer (reg_append chunk e) = tail_of BUFFER_BYTES (te_buffer e @ chunk)"
proof (cases "BUFFER_BYTES \<le> length chunk")
  case True
  then show ?thesis by (simp add: reg_append_def tail_of_def Let_def)
next
  case False
  let ?l = "length (te_buffer e @ chunk)"
  have "nat (int ?l - int BUFFER_BYTES) = ?l - BUFFER_BYTES" by linarith
  then show ?thesis using False by (simp add: reg_append_def tail_of_def Let_def)
qed

lemma reg_append_bytes: "te_bytes (reg_append chunk e) = te_bytes e + length chunk"
  by (simp add: reg_append_def Let_def)

lemma reg_append_dropped:
  assumes "ring_ok e"
  shows "te_dropped (reg_append chunk e) + length (te_buffer (reg_append chunk e)) =
    te_dropped e + length (te_buffer e) + length chunk"
proof -
  have "te_dropped (reg_append chunk e) =
      te_bytes e + length chunk - length (te_buffer (reg_append chunk e))"
    by (simp add: reg_append_def Let_def)
  moreover have "length (te_buffer (reg_append chunk e)) \<le> te_bytes e + length chunk"
    using assms by (auto simp: reg_append_buffer [OF assms] ring_ok_def)
  ultimately show ?thesis using assms by (simp only: ring_ok_def)
qed

lemma reg_append_ok:
  assumes "ring_ok e"
  shows "ring_ok (reg_append chunk e)"
  using reg_append_dropped [OF assms, of chunk] reg_append_buffer [OF assms, of chunk] assms
  by (simp add: ring_ok_def reg_append_bytes)

lemma ring_blank_simps [simp]:
  "ring_ok (ring_blank e)" "te_buffer (ring_blank e) = []" "te_dropped (ring_blank e) = 0"
  by (simp_all add: ring_ok_def ring_blank_def)

interpretation ring: byte_window "ring_blank e" reg_append te_buffer te_dropped BUFFER_BYTES ring_ok for e
  by unfold_locales
    (rule ring_blank_simps reg_append_ok reg_append_buffer reg_append_dropped, assumption?)+

lemma ring_tracks_cong:
  "te_buffer e = te_buffer e' \<Longrightarrow> te_bytes e = te_bytes e' \<Longrightarrow> te_dropped e = te_dropped e' \<Longrightarrow>
    ring.tracks e s = ring.tracks e' s"
  by (simp add: ring.tracks_def ring_ok_def)

lemma reg_append_rest [simp]:
  "te_id (reg_append c e) = te_id e" "te_state (reg_append c e) = te_state e"
  "te_attaches (reg_append c e) = te_attaches e" "te_waiters (reg_append c e) = te_waiters e"
  "te_timer (reg_append c e) = te_timer e" "te_paused (reg_append c e) = te_paused e"
  "te_inflight (reg_append c e) = te_inflight e" "te_sessionId (reg_append c e) = te_sessionId e"
  by (simp_all add: reg_append_def Let_def)

subsection \<open>Events\<close>

datatype registry_event =
    Ev_Opened session_id path int int int
  | Ev_Attach term_id sink
  | Ev_Detach term_id sink
  | Ev_Data term_id bytes
  | Ev_Delivered term_id
  | Ev_Settled term_id "string + tty_outcome"
  | Ev_Kill term_id
  | Ev_Valve term_id
  | Ev_Resized term_id int int bool
  | Ev_Wait term_id wait_id "int option" "string option" "string option" bool
  | Ev_Timeout term_id wait_id
  | Ev_Abort term_id wait_id
  | Ev_Release session_id
  | Ev_DisposeAll

record registry_env =
  re_rx :: regex_engine
  re_settings :: terminal_settings
  re_machine :: "path \<Rightarrow> string"
  re_directory :: "path \<Rightarrow> path"

definition reg_apply :: "registry_env \<Rightarrow> registry_event \<Rightarrow> registry \<Rightarrow> registry \<times> registry_effect list" where
  "reg_apply env ev r =
     (case ev of
        Ev_Opened s cwd cols rows pid \<Rightarrow>
          (fst (reg_opened (re_machine env) (re_directory env) s cwd cols rows pid r), [])
      | Ev_Attach tid sk \<Rightarrow>
          (case reg_attach tid sk r of Inl _ \<Rightarrow> (r, []) | Inr (r', _, fx) \<Rightarrow> (r', fx))
      | Ev_Detach tid sk \<Rightarrow> reg_detach (re_rx env) (re_settings env) tid sk r
      | Ev_Data tid chunk \<Rightarrow> reg_data (re_rx env) tid chunk r
      | Ev_Delivered tid \<Rightarrow> reg_delivered tid r
      | Ev_Settled tid outcome \<Rightarrow> reg_settle (re_rx env) tid outcome r
      | Ev_Kill tid \<Rightarrow> (case reg_kill (re_rx env) tid r of (r', _, fx) \<Rightarrow> (r', fx))
      | Ev_Valve tid \<Rightarrow> reg_valve (re_rx env) tid r
      | Ev_Resized tid cols rows acc \<Rightarrow> (reg_resized tid cols rows acc r, [])
      | Ev_Wait tid wid offset mt regex aborted \<Rightarrow>
          (case reg_wait (re_rx env) tid wid offset mt regex aborted r of Inl _ \<Rightarrow> (r, []) | Inr p \<Rightarrow> p)
      | Ev_Timeout tid wid \<Rightarrow> reg_timeout tid wid r
      | Ev_Abort tid wid \<Rightarrow> reg_abort tid wid r
      | Ev_Release s \<Rightarrow> releaseSession (re_rx env) s r
      | Ev_DisposeAll \<Rightarrow> disposeAll (re_rx env) r)"

text \<open>
  What the event loop may deliver: a PTY emits data only while its stream flows (Node delivers
  none after \<open>pause()\<close>), deliveries settle only while some are pending, and a wait is a new one.
  Events of a terminal that has left the table act on an entry nobody can reach any more and
  are left out.
\<close>

definition can_happen :: "registry_event \<Rightarrow> registry \<Rightarrow> bool" where
  "can_happen ev r =
     (case ev of
        Ev_Data tid chunk \<Rightarrow>
          (case find_key te_id tid (rg_entries r) of None \<Rightarrow> False | Some e \<Rightarrow> \<not> te_paused e)
      | Ev_Delivered tid \<Rightarrow>
          (case find_key te_id tid (rg_entries r) of None \<Rightarrow> False | Some e \<Rightarrow> te_inflight e)
      | Ev_Wait tid wid _ _ _ _ \<Rightarrow>
          list_all (\<lambda>e. wid \<notin> set (map wt_id (te_waiters e))) (rg_entries r)
      | _ \<Rightarrow> True)"

definition empty_registry :: registry where
  "empty_registry = \<lparr>rg_entries = [], rg_nextOrdinal = 0\<rparr>"

inductive reg_run :: "registry_env \<Rightarrow> registry_event list \<Rightarrow> registry \<Rightarrow> bool" for env where
  run_empty: "reg_run env [] empty_registry"
| run_step: "reg_run env evs r \<Longrightarrow> can_happen ev r \<Longrightarrow> reg_run env (evs @ [ev]) (fst (reg_apply env ev r))"

inductive_cases reg_run_snocE: "reg_run env (evs @ [ev]) r"

text \<open>Executing a list of events, for concrete runs.\<close>

fun run_events :: "registry_env \<Rightarrow> registry_event list \<Rightarrow> registry \<Rightarrow> registry option" where
  "run_events env [] r = Some r"
| "run_events env (ev # evs) r =
     (if can_happen ev r then run_events env evs (fst (reg_apply env ev r)) else None)"

lemma run_events_append:
  "reg_run env pre r \<Longrightarrow> run_events env evs r = Some r' \<Longrightarrow> reg_run env (pre @ evs) r'"
proof (induction evs arbitrary: pre r)
  case (Cons ev evs)
  then have "reg_run env (pre @ [ev]) (fst (reg_apply env ev r))"
    by (auto intro: run_step split: if_splits)
  from Cons.IH [OF this] Cons.prems show ?case by (auto split: if_splits)
qed simp

lemma run_events_run: "run_events env evs empty_registry = Some r \<Longrightarrow> reg_run env evs r"
  using run_events_append [OF run_empty] by simp

text \<open>Everything the PTY of one terminal has emitted in a run.\<close>

definition stream_of :: "term_id \<Rightarrow> registry_event list \<Rightarrow> bytes" where
  "stream_of tid evs =
     concat (map (\<lambda>ev. case ev of Ev_Data t chunk \<Rightarrow> if t = tid then chunk else [] | _ \<Rightarrow> []) evs)"

lemma stream_of_simps [simp]:
  "stream_of tid [] = []"
  "stream_of tid (evs @ [ev]) =
     stream_of tid evs @ (case ev of Ev_Data t chunk \<Rightarrow> if t = tid then chunk else [] | _ \<Rightarrow> [])"
  by (simp_all add: stream_of_def)

subsection \<open>The invariant\<close>

definition term_name :: "nat \<Rightarrow> term_id" where
  "term_name k = ''t'' @ str_nat k"

lemma term_name_inject [simp]: "term_name j = term_name k \<longleftrightarrow> j = k"
  by (simp add: term_name_def str_nat_inject)

definition entry_ok :: "regex_engine \<Rightarrow> bytes \<Rightarrow> terminal_entry \<Rightarrow> bool" where
  "entry_ok rx s e \<longleftrightarrow>
     ring.tracks e s
   \<and> distinct (te_attaches e)
   \<and> (te_state e = Detached \<longrightarrow> te_attaches e = [])
   \<and> (te_state e = Exited \<longrightarrow> te_attaches e \<noteq> [])
   \<and> (te_timer e \<longrightarrow> te_state e = Detached)
   \<and> (te_inflight e \<longrightarrow> te_paused e)
   \<and> distinct (map wt_id (te_waiters e))
   \<and> (\<forall>w \<in> set (te_waiters e). wait_check rx e w = None)"

definition ids_ok :: "registry \<Rightarrow> bool" where
  "ids_ok r \<longleftrightarrow> (\<exists>ks. sorted_wrt (<) ks \<and> set ks \<subseteq> {1..rg_nextOrdinal r}
     \<and> map te_id (rg_entries r) = map term_name ks)"

definition reg_inv :: "regex_engine \<Rightarrow> (term_id \<Rightarrow> bytes) \<Rightarrow> registry \<Rightarrow> bool" where
  "reg_inv rx str r \<longleftrightarrow> ids_ok r
     \<and> (\<forall>e \<in> set (rg_entries r). entry_ok rx (str (te_id e)) e)
     \<and> (\<forall>k > rg_nextOrdinal r. str (term_name k) = [])"

lemma wait_check_cong:
  "te_buffer e = te_buffer e' \<Longrightarrow> te_bytes e = te_bytes e' \<Longrightarrow> te_dropped e = te_dropped e' \<Longrightarrow>
   (te_state e = Exited) = (te_state e' = Exited) \<Longrightarrow> te_id e = te_id e' \<Longrightarrow>
    wait_check rx e w = wait_check rx e' w"
  by (simp add: wait_check_def wait_result_def textFrom_def)

lemma ids_ok_distinct: "ids_ok r \<Longrightarrow> distinct (map te_id (rg_entries r))"
  unfolding ids_ok_def
  by (elim exE conjE, simp only:) (auto simp: strict_sorted_iff distinct_map intro!: inj_onI)

lemma ids_ok_put [simp]: "ids_ok (put_entry e r) = ids_ok r"
  by (simp add: ids_ok_def put_entry_def store_simps)

lemma map_filter_subseq_ids:
  assumes "map f xs = map g ks" "sorted_wrt (<) (ks :: nat list)"
  shows "\<exists>ks'. sorted_wrt (<) ks' \<and> set ks' \<subseteq> set ks \<and> map f (filter P xs) = map g ks'"
  using assms
proof (induction xs arbitrary: ks)
  case (Cons x xs)
  then obtain k ks1 where ks: "ks = k # ks1" "f x = g k" "map f xs = map g ks1" by (cases ks) auto
  with Cons.prems have "sorted_wrt (<) ks1" by simp
  from Cons.IH [OF ks(3) this] obtain ks' where
    ks': "sorted_wrt (<) ks'" "set ks' \<subseteq> set ks1" "map f (filter P xs) = map g ks'" by auto
  show ?case
  proof (cases "P x")
    case True
    with ks ks' Cons.prems show ?thesis by (intro exI [of _ "k # ks'"]) auto
  next
    case False
    with ks ks' show ?thesis by (intro exI [of _ ks']) auto
  qed
qed simp

lemma ids_ok_drop: "ids_ok r \<Longrightarrow> ids_ok (r\<lparr>rg_entries := drop_key te_id tid (rg_entries r)\<rparr>)"
  unfolding ids_ok_def drop_key_def using map_filter_subseq_ids by fastforce

lemma inv_put:
  assumes "reg_inv rx str r" "entry_ok rx (str (te_id e)) e"
  shows "reg_inv rx str (put_entry e r)"
proof -
  have "ids_ok (put_entry e r)" using assms by (simp add: reg_inv_def)
  with assms show ?thesis by (auto simp: reg_inv_def put_entry_def replace_key_def)
qed

lemma inv_drop:
  "reg_inv rx str r \<Longrightarrow> reg_inv rx str (r\<lparr>rg_entries := drop_key te_id tid (rg_entries r)\<rparr>)"
  by (auto simp: reg_inv_def drop_key_def dest: ids_ok_drop [of _ tid])

lemma inv_find:
  assumes "reg_inv rx str r" "find_key te_id tid (rg_entries r) = Some e"
  shows "te_id e = tid" "entry_ok rx (str tid) e"
  using assms find_key_Some [OF assms(2)] by (auto simp: reg_inv_def)

subsection \<open>Every operation preserves the invariant\<close>

lemma kill_table [simp]:
  "fst (reg_kill rx tid r) = r\<lparr>rg_entries := drop_key te_id tid (rg_entries r)\<rparr>"
proof (cases "find_key te_id tid (rg_entries r)")
  case None
  then have "drop_key te_id tid (rg_entries r) = rg_entries r"
    by (auto simp: find_key_None drop_key_def intro!: filter_True)
  with None show ?thesis by (simp add: reg_kill_def)
qed (simp add: reg_kill_def Let_def split: prod.splits)

lemma drop_put [simp]:
  "te_id e = tid \<Longrightarrow> drop_key te_id tid (rg_entries (put_entry e r)) = drop_key te_id tid (rg_entries r)"
  by (auto simp: put_entry_def drop_key_def replace_key_def filter_map comp_def intro!: map_idI)

lemma put_rest [simp]: "rg_nextOrdinal (put_entry e r) = rg_nextOrdinal r"
  by (simp add: put_entry_def)

lemma kill_case [simp]:
  "(case reg_kill rx tid r of (r', b, fx) \<Rightarrow> (r', fx)) =
     (r\<lparr>rg_entries := drop_key te_id tid (rg_entries r)\<rparr>, snd (snd (reg_kill rx tid r)))"
  using kill_table [of rx tid r] by (cases "reg_kill rx tid r") (simp del: kill_table)

lemma put_overwritten [simp]: "(put_entry e r)\<lparr>rg_entries := xs\<rparr> = r\<lparr>rg_entries := xs\<rparr>"
  by (simp add: put_entry_def)

lemma notify_entry [simp]:
  "te_id (fst (reg_notify rx e)) = te_id e" "te_state (fst (reg_notify rx e)) = te_state e"
  "te_attaches (fst (reg_notify rx e)) = te_attaches e" "te_timer (fst (reg_notify rx e)) = te_timer e"
  "te_paused (fst (reg_notify rx e)) = te_paused e" "te_inflight (fst (reg_notify rx e)) = te_inflight e"
  "te_buffer (fst (reg_notify rx e)) = te_buffer e" "te_bytes (fst (reg_notify rx e)) = te_bytes e"
  "te_dropped (fst (reg_notify rx e)) = te_dropped e"
  by (simp_all add: reg_notify_def)

text \<open>Notifying leaves exactly the waiters that could not finish.\<close>

lemma notify_waiters:
  "w \<in> set (te_waiters (fst (reg_notify rx e))) \<longleftrightarrow> w \<in> set (te_waiters e) \<and> wait_check rx e w = None"
  by (auto simp: reg_notify_def)

lemma notify_distinct:
  "distinct (map wt_id (te_waiters e)) \<Longrightarrow> distinct (map wt_id (te_waiters (fst (reg_notify rx e))))"
  by (simp add: reg_notify_def distinct_map_filter)

lemma notify_settled:
  "w \<in> set (te_waiters (fst (reg_notify rx e))) \<Longrightarrow> wait_check rx (fst (reg_notify rx e)) w = None"
  using wait_check_cong [of "fst (reg_notify rx e)" e rx w] by (simp add: notify_waiters)

lemma notify_tracks: "ring.tracks (fst (reg_notify rx e)) s = ring.tracks e s"
  by (rule ring_tracks_cong) simp_all

lemma entry_ok_update:
  assumes "entry_ok rx s e"
    and "te_buffer e' = te_buffer e" "te_bytes e' = te_bytes e" "te_dropped e' = te_dropped e"
    and "te_id e' = te_id e" "(te_state e' = Exited) = (te_state e = Exited)"
    and "te_waiters e' = te_waiters e"
    and "distinct (te_attaches e')" "te_state e' = Detached \<longrightarrow> te_attaches e' = []"
    and "te_state e' = Exited \<longrightarrow> te_attaches e' \<noteq> []" "te_timer e' \<longrightarrow> te_state e' = Detached"
    and "te_inflight e' \<longrightarrow> te_paused e'"
  shows "entry_ok rx s e'"
  using assms ring_tracks_cong [of e' e s] wait_check_cong [of e' e rx]
  unfolding entry_ok_def by simp

lemma inv_opened:
  assumes "reg_inv rx str r"
  shows "reg_inv rx str (fst (reg_opened machine directory s cwd cols rows pid r))"
proof -
  let ?n = "rg_nextOrdinal r + 1"
  let ?e = "snd (reg_opened machine directory s cwd cols rows pid r)"
  have e: "te_id ?e = term_name ?n" "te_buffer ?e = []" "te_bytes ?e = 0" "te_dropped ?e = 0"
    "te_state ?e = Running" "te_attaches ?e = []" "te_waiters ?e = []" "\<not> te_timer ?e" "\<not> te_inflight ?e"
    by (simp_all add: reg_opened_def Let_def term_name_def)
  have r: "fst (reg_opened machine directory s cwd cols rows pid r) =
      r\<lparr>rg_nextOrdinal := ?n, rg_entries := rg_entries r @ [?e]\<rparr>"
    by (simp add: reg_opened_def Let_def)
  from assms obtain ks where ks: "sorted_wrt (<) ks" "set ks \<subseteq> {1..rg_nextOrdinal r}"
    "map te_id (rg_entries r) = map term_name ks" by (auto simp: reg_inv_def ids_ok_def)
  then have "sorted_wrt (<) (ks @ [?n])" "set (ks @ [?n]) \<subseteq> {1..?n}"
    "map te_id (rg_entries r @ [?e]) = map term_name (ks @ [?n])"
    by (auto simp: sorted_wrt_append e)
  then have "ids_ok (fst (reg_opened machine directory s cwd cols rows pid r))"
    unfolding r ids_ok_def by (intro exI [of _ "ks @ [?n]"]) simp
  moreover have "str (term_name ?n) = []" using assms by (simp add: reg_inv_def)
  then have "entry_ok rx (str (te_id ?e)) ?e"
    using ring_tracks_cong [of ?e "ring_blank ?e" "[]"] ring.tracks_new [of ?e] e
    by (simp add: entry_ok_def ring_blank_def)
  ultimately show ?thesis using assms unfolding r by (auto simp: reg_inv_def)
qed

lemma inv_attach:
  assumes "reg_inv rx str r" "reg_attach tid sk r = Inr (r', e', fx)"
  shows "reg_inv rx str r'"
proof -
  from assms(2) obtain e where e: "find_key te_id tid (rg_entries r) = Some e" "te_state e \<noteq> Exited"
    by (auto simp: reg_attach_def entryOf_def requireLive_def split: option.splits if_splits)
  note ok = inv_find [OF assms(1) e(1)]
  from assms(2) e have r': "r' = put_entry e' r" and e': "e' = e\<lparr>te_timer := False,
      te_state := (if te_state e = Detached then Running else te_state e),
      te_attaches := (if sk \<in> set (te_attaches e) then te_attaches e else te_attaches e @ [sk])\<rparr>"
    by (auto simp: reg_attach_def entryOf_def requireLive_def Let_def split: if_splits)
  have "entry_ok rx (str (te_id e')) e'"
    by (rule entry_ok_update [of _ _ e]) (use ok e in \<open>auto simp: e' entry_ok_def\<close>)
  then show ?thesis unfolding r' using assms(1) by (intro inv_put)
qed

lemma inv_detach:
  assumes "reg_inv rx str r"
  shows "reg_inv rx str (fst (reg_detach rx st tid sk r))"
proof (cases "find_key te_id tid (rg_entries r)")
  case None
  with assms show ?thesis by (simp add: reg_detach_def)
next
  case (Some e)
  note ok = inv_find [OF assms Some]
  let ?e = "e\<lparr>te_attaches := removeAll sk (te_attaches e)\<rparr>"
  let ?d = "?e\<lparr>te_state := Detached\<rparr>"
  have stay: "entry_ok rx (str (te_id ?e)) ?e" if "te_attaches ?e \<noteq> []"
    by (rule entry_ok_update [of _ _ e]) (use ok that in \<open>auto simp: entry_ok_def distinct_removeAll\<close>)
  have gone: "entry_ok rx (str (te_id ?d)) ?d" "entry_ok rx (str (te_id ?d)) (?d\<lparr>te_timer := True\<rparr>)"
    if "te_attaches ?e = []" "te_state e \<noteq> Exited"
    by (rule entry_ok_update [of _ _ e]; use ok that in \<open>simp add: entry_ok_def\<close>)+
  have valve: "reg_inv rx str (put_entry (?d\<lparr>te_timer := True\<rparr>) r)"
    if "te_attaches ?e = []" "te_state e \<noteq> Exited"
    using gone(2) [OF that] by (intro inv_put [OF assms]) simp
  show ?thesis
    using inv_put [OF assms stay] inv_put [OF assms gone(1)] valve
      inv_drop [OF assms, of tid] ok(1)
    by (simp add: reg_detach_def Some Let_def)
qed

text \<open>The table after the operations that go through \<open>notify\<close> or \<open>kill\<close>.\<close>

lemma data_table:
  assumes "find_key te_id tid (rg_entries r) = Some e"
  shows "fst (reg_data rx tid chunk r) =
    (let n = fst (reg_notify rx (reg_append chunk e))
     in put_entry (if te_attaches e = [] then n else n\<lparr>te_paused := True, te_inflight := True\<rparr>) r)"
  by (simp add: reg_data_def assms Let_def split_beta)

lemma settle_table:
  assumes "find_key te_id tid (rg_entries r) = Some e"
  shows "fst (reg_settle rx tid outcome r) =
    (if te_attaches e = [] then r\<lparr>rg_entries := drop_key te_id tid (rg_entries r)\<rparr>
     else put_entry (fst (reg_notify rx (e\<lparr>te_state := Exited\<rparr>))) r)"
  using find_key_Some [OF assms] by (simp add: reg_settle_def assms Let_def split_beta)

lemma valve_table:
  assumes "find_key te_id tid (rg_entries r) = Some e"
  shows "fst (reg_valve rx tid r) =
    (if te_timer e then r\<lparr>rg_entries := drop_key te_id tid (rg_entries r)\<rparr> else r)"
  using find_key_Some [OF assms] by (simp add: reg_valve_def assms split_beta)

lemma inv_data:
  assumes inv: "reg_inv rx str r" and find: "find_key te_id tid (rg_entries r) = Some e"
  shows "reg_inv rx (\<lambda>t. str t @ (if t = tid then chunk else [])) (fst (reg_data rx tid chunk r))"
    (is "reg_inv rx ?str _")
proof -
  note ok = inv_find [OF inv find]
  let ?n = "fst (reg_notify rx (reg_append chunk e))"
  have tr: "ring.tracks (reg_append chunk e) (str tid @ chunk)"
    using ok(2) by (auto simp: entry_ok_def intro: ring.tracks_push)
  then have n: "entry_ok rx (str tid @ chunk) ?n"
    using ok(2) notify_settled [of _ rx "reg_append chunk e"] notify_distinct [of "reg_append chunk e" rx]
    by (simp add: entry_ok_def notify_tracks)
  have p: "entry_ok rx (str tid @ chunk) (?n\<lparr>te_paused := True, te_inflight := True\<rparr>)"
    by (rule entry_ok_update [OF n]) (use n in \<open>auto simp: entry_ok_def\<close>)
  define e' where "e' = (if te_attaches e = [] then ?n else ?n\<lparr>te_paused := True, te_inflight := True\<rparr>)"
  have e': "fst (reg_data rx tid chunk r) = put_entry e' r" "te_id e' = tid"
    "entry_ok rx (str tid @ chunk) e'"
    using n p ok(1) by (simp_all add: data_table [OF find] Let_def e'_def)
  have "tid \<noteq> term_name k" if "k > rg_nextOrdinal r" for k
  proof
    assume tid: "tid = term_name k"
    have "tid \<in> te_id ` set (rg_entries r)" using find_key_Some [OF find] by auto
    moreover obtain ks where "set ks \<subseteq> {1..rg_nextOrdinal r}" "map te_id (rg_entries r) = map term_name ks"
      using inv by (auto simp: reg_inv_def ids_ok_def)
    ultimately obtain j where "j \<le> rg_nextOrdinal r" "tid = term_name j"
      by (metis (no_types, lifting) atLeastAtMost_iff image_iff image_set subsetD)
    with tid that show False by simp
  qed
  moreover have "ids_ok (put_entry e' r)" using inv by (simp add: reg_inv_def)
  ultimately show ?thesis
    using inv e'(2,3) unfolding e'(1) by (fastforce simp: reg_inv_def put_entry_def replace_key_def)
qed

lemma inv_delivered:
  assumes "reg_inv rx str r"
  shows "reg_inv rx str (fst (reg_delivered tid r))"
proof (cases "find_key te_id tid (rg_entries r)")
  case None
  with assms show ?thesis by (simp add: reg_delivered_def)
next
  case (Some e)
  note ok = inv_find [OF assms Some]
  let ?a = "e\<lparr>te_inflight := False, te_paused := False\<rparr>" and ?b = "e\<lparr>te_inflight := False\<rparr>"
  have "entry_ok rx (str (te_id ?a)) ?a" "entry_ok rx (str (te_id ?b)) ?b"
    by (rule entry_ok_update [of _ _ e]; use ok in \<open>simp add: entry_ok_def\<close>)+
  with assms show ?thesis by (auto simp: reg_delivered_def Some intro: inv_put)
qed

lemma inv_settle:
  assumes "reg_inv rx str r"
  shows "reg_inv rx str (fst (reg_settle rx tid outcome r))"
proof (cases "find_key te_id tid (rg_entries r)")
  case None
  with assms show ?thesis by (simp add: reg_settle_def)
next
  case (Some e)
  note ok = inv_find [OF assms Some]
  let ?x = "e\<lparr>te_state := Exited\<rparr>"
  let ?n = "fst (reg_notify rx ?x)"
  have "entry_ok rx (str (te_id ?n)) ?n" if "te_attaches e \<noteq> []"
    using that ok notify_settled [of _ rx ?x] notify_distinct [of ?x rx] ring_tracks_cong [of ?x e]
    by (auto simp: entry_ok_def notify_tracks)
  then show ?thesis
    using inv_put [OF assms, of ?n] inv_drop [OF assms, of tid] by (simp add: settle_table [OF Some])
qed

lemma inv_resized: "reg_inv rx str r \<Longrightarrow> reg_inv rx str (reg_resized tid cols rows acc r)"
proof (cases "find_key te_id tid (rg_entries r)")
  case (Some e)
  assume inv: "reg_inv rx str r"
  note ok = inv_find [OF inv Some]
  let ?e = "e\<lparr>te_cols := cols, te_rows := rows\<rparr>"
  have "entry_ok rx (str (te_id ?e)) ?e"
    by (rule entry_ok_update [of _ _ e]) (use ok in \<open>auto simp: entry_ok_def\<close>)
  with inv show ?thesis by (simp add: reg_resized_def Some inv_put)
qed (simp add: reg_resized_def)

lemma inv_wait:
  assumes inv: "reg_inv rx str r" and new: "can_happen (Ev_Wait tid wid offset mt regex aborted) r"
    and res: "reg_wait rx tid wid offset mt regex aborted r = Inr (r', fx)"
  shows "reg_inv rx str r'"
proof -
  from res obtain e where find: "find_key te_id tid (rg_entries r) = Some e"
    by (auto simp: reg_wait_def entryOf_def split: option.splits)
  note ok = inv_find [OF inv find]
  have fresh: "wid \<notin> set (map wt_id (te_waiters e))"
    using new find_key_Some [OF find] by (auto simp: can_happen_def list_all_iff)
  consider "r' = r" | w where "r' = put_entry (e\<lparr>te_waiters := te_waiters e @ [w]\<rparr>) r"
      "wait_check rx e w = None" "wt_id w = wid"
    using res by (auto simp: reg_wait_def entryOf_def find Let_def bind_res_Inr_iff split: if_splits option.splits)
  then show ?thesis
  proof cases
    case (2 w)
    let ?e = "e\<lparr>te_waiters := te_waiters e @ [w]\<rparr>"
    have "wait_check rx ?e v = wait_check rx e v" for v by (rule wait_check_cong) simp_all
    then have "entry_ok rx (str (te_id ?e)) ?e"
      using ok fresh 2 ring_tracks_cong [of ?e e] by (auto simp: entry_ok_def)
    with inv show ?thesis unfolding 2(1) by (intro inv_put)
  qed (use inv in simp)
qed

lemma entry_ok_drop_waiter:
  assumes "entry_ok rx s e"
  shows "entry_ok rx s (e\<lparr>te_waiters := drop_key wt_id wid (te_waiters e)\<rparr>)" (is "entry_ok rx s ?e")
proof -
  have "wait_check rx ?e v = wait_check rx e v" for v by (rule wait_check_cong) simp_all
  with assms show ?thesis
    using ring_tracks_cong [of ?e e] distinct_drop_key [of wt_id "te_waiters e" wid]
    by (auto simp: entry_ok_def drop_key_def)
qed

lemma inv_timeout: "reg_inv rx str r \<Longrightarrow> reg_inv rx str (fst (reg_timeout tid wid r))"
  using inv_find [of rx str r tid]
  by (auto simp: reg_timeout_def split: option.splits intro!: inv_put entry_ok_drop_waiter)

lemma inv_abort: "reg_inv rx str r \<Longrightarrow> reg_inv rx str (fst (reg_abort tid wid r))"
  using inv_find [of rx str r tid]
  by (auto simp: reg_abort_def split: option.splits intro!: inv_put entry_ok_drop_waiter)

lemma inv_valve:
  assumes "reg_inv rx str r"
  shows "reg_inv rx str (fst (reg_valve rx tid r))"
proof (cases "find_key te_id tid (rg_entries r)")
  case None
  with assms show ?thesis by (simp add: reg_valve_def)
next
  case (Some e)
  with assms inv_drop [OF assms, of tid] show ?thesis by (simp add: valve_table [OF Some])
qed

lemma inv_kill_all: "reg_inv rx str r \<Longrightarrow> reg_inv rx str (fst (kill_all rx ids r))"
proof (induction ids arbitrary: r)
  case (Cons i ids)
  from Cons.IH [OF inv_drop [OF Cons.prems, of i]] show ?case
    by (simp add: split_beta)
qed simp

lemma inv_step:
  assumes inv: "reg_inv (re_rx env) (\<lambda>t. stream_of t evs) r" and can: "can_happen ev r"
  shows "reg_inv (re_rx env) (\<lambda>t. stream_of t (evs @ [ev])) (fst (reg_apply env ev r))"
proof (cases ev)
  case (Ev_Opened s cwd cols rows pid)
  with inv show ?thesis by (simp add: reg_apply_def inv_opened)
next
  case (Ev_Attach tid sk)
  with inv show ?thesis by (auto simp: reg_apply_def intro: inv_attach split: sum.splits)
next
  case (Ev_Data tid chunk)
  with can obtain e where "find_key te_id tid (rg_entries r) = Some e"
    by (auto simp: can_happen_def split: option.splits)
  from inv_data [OF inv this, of chunk] Ev_Data show ?thesis
    by (simp add: reg_apply_def eq_commute [of tid])
next
  case (Ev_Kill tid)
  with inv show ?thesis by (simp add: reg_apply_def inv_drop)
next
  case (Ev_Wait tid wid offset mt regex aborted)
  with inv can show ?thesis by (auto simp: reg_apply_def intro: inv_wait split: sum.splits)
qed (use inv in \<open>auto simp: reg_apply_def releaseSession_def disposeAll_def
  intro: inv_detach inv_delivered inv_settle inv_valve inv_resized inv_timeout inv_abort inv_kill_all\<close>)

lemma run_inv: "reg_run env evs r \<Longrightarrow> reg_inv (re_rx env) (\<lambda>t. stream_of t evs) r"
proof (induction evs r rule: reg_run.induct)
  case run_empty
  show ?case by (simp add: reg_inv_def ids_ok_def empty_registry_def exI [of _ "[]"])
next
  case (run_step evs r ev)
  then show ?case by (intro inv_step)
qed

lemmas run_entry = inv_find [OF run_inv]

lemma run_tracks:
  assumes "reg_run env evs r" "find_key te_id tid (rg_entries r) = Some e"
  shows "ring.tracks e (stream_of tid evs)"
  using run_entry(2) [OF assms] by (simp add: entry_ok_def)

lemma tracks_bytes: "ring.tracks e s \<Longrightarrow> te_bytes e = length s"
  by (auto simp only: ring.tracks_def ring_ok_def)

text \<open>What \<open>textFrom\<close> decodes, in terms of the stream.\<close>

lemma textFrom_stream:
  assumes "ring.tracks e s" "int (te_dropped e) \<le> from"
  shows "textFrom e from = (utf8_text (drop (nat from) s), False)"
proof -
  have "nat from - te_dropped e = nat (from - int (te_dropped e))" by linarith
  with ring.tracks_read [OF assms(1), of "nat from"] assms(2) show ?thesis
    by (simp add: textFrom_def Let_def max_def nat_le_iff)
qed

subsection \<open>A paused PTY with nothing in flight\<close>

definition same_flow :: "terminal_entry \<Rightarrow> terminal_entry \<Rightarrow> bool" where
  "same_flow e e' \<longleftrightarrow> te_buffer e' = te_buffer e \<and> te_bytes e' = te_bytes e
     \<and> te_paused e' = te_paused e \<and> te_inflight e' = te_inflight e"

lemma same_flow_refl [simp]: "same_flow e e"
  by (simp add: same_flow_def)

definition kept_flow :: "term_id \<Rightarrow> terminal_entry \<Rightarrow> registry \<Rightarrow> bool" where
  "kept_flow tid e r = (case find_key te_id tid (rg_entries r) of None \<Rightarrow> True | Some e' \<Rightarrow> same_flow e e')"

lemma kept_drop [simp]:
  "kept_flow tid e r \<Longrightarrow> kept_flow tid e (r\<lparr>rg_entries := drop_key te_id t (rg_entries r)\<rparr>)"
  by (simp add: kept_flow_def store_simps)

lemma kept_put:
  assumes "kept_flow tid e r" "find_key te_id t (rg_entries r) = Some e0" "te_id e1 = t"
    and "tid = t \<Longrightarrow> same_flow e0 e1"
  shows "kept_flow tid e (put_entry e1 r)"
  using assms by (auto simp: kept_flow_def put_entry_def store_simps same_flow_def)

lemma kept_kill_all: "kept_flow tid e r \<Longrightarrow> kept_flow tid e (fst (kill_all rx ids r))"
proof (induction ids arbitrary: r)
  case (Cons i ids)
  from Cons.IH [OF kept_drop [OF Cons.prems, of i]] show ?case by (simp add: split_beta)
qed simp

lemma kept_step:
  assumes kept: "kept_flow tid e r" and known: "tid \<noteq> term_name (rg_nextOrdinal r + 1)"
    and not_data: "\<And>chunk. ev \<noteq> Ev_Data tid chunk" and not_delivered: "ev \<noteq> Ev_Delivered tid"
  shows "kept_flow tid e (fst (reg_apply env ev r))"
proof (cases ev)
  case (Ev_Opened s cwd cols rows pid)
  with kept known show ?thesis
    by (auto simp: reg_apply_def kept_flow_def reg_opened_def Let_def store_simps term_name_def
      split: option.splits)
next
  case (Ev_Attach t sk)
  with kept show ?thesis
    by (auto simp: reg_apply_def reg_attach_def entryOf_def requireLive_def Let_def same_flow_def
      intro!: kept_put dest: find_key_Some split: option.splits)
next
  case (Ev_Detach t sk)
  with kept show ?thesis
    by (auto simp: reg_apply_def reg_detach_def Let_def same_flow_def
      intro!: kept_put dest: find_key_Some split: option.splits)
next
  case (Ev_Data t chunk)
  then have "t \<noteq> tid" using not_data by auto
  show ?thesis
  proof (cases "find_key te_id t (rg_entries r)")
    case None
    with Ev_Data kept show ?thesis by (simp add: reg_apply_def reg_data_def)
  next
    case (Some e0)
    with Ev_Data kept \<open>t \<noteq> tid\<close> show ?thesis
      by (auto simp: reg_apply_def data_table Let_def intro!: kept_put dest: find_key_Some)
  qed
next
  case (Ev_Delivered t)
  then have "t \<noteq> tid" using not_delivered by auto
  with Ev_Delivered kept show ?thesis
    by (auto simp: reg_apply_def reg_delivered_def intro!: kept_put dest: find_key_Some split: option.splits)
next
  case (Ev_Settled t outcome)
  show ?thesis
  proof (cases "find_key te_id t (rg_entries r)")
    case None
    with Ev_Settled kept show ?thesis by (simp add: reg_apply_def reg_settle_def)
  next
    case (Some e0)
    with Ev_Settled kept show ?thesis
      by (auto simp: reg_apply_def settle_table same_flow_def intro!: kept_put dest: find_key_Some)
  qed
next
  case (Ev_Valve t)
  show ?thesis
  proof (cases "find_key te_id t (rg_entries r)")
    case None
    with Ev_Valve kept show ?thesis by (simp add: reg_apply_def reg_valve_def)
  qed (use Ev_Valve kept in \<open>simp add: reg_apply_def valve_table\<close>)
next
  case (Ev_Wait t wid offset mt regex aborted)
  with kept show ?thesis
    by (auto simp: reg_apply_def reg_wait_def entryOf_def Let_def same_flow_def bind_res_def
      intro!: kept_put dest: find_key_Some split: option.splits sum.splits)
qed (use kept in \<open>auto simp: reg_apply_def releaseSession_def disposeAll_def kept_kill_all
    reg_resized_def reg_timeout_def reg_abort_def same_flow_def
    intro!: kept_put dest: find_key_Some split: option.splits\<close>)
lemma reg_apply_ordinal:
  "rg_nextOrdinal (fst (reg_apply env ev r)) =
     rg_nextOrdinal r + (case ev of Ev_Opened _ _ _ _ _ \<Rightarrow> 1 | _ \<Rightarrow> 0)"
proof -
  have kill: "rg_nextOrdinal (fst (kill_all rx ids r)) = rg_nextOrdinal r" for rx ids
    by (induction ids arbitrary: r) (simp_all add: split_beta)
  show ?thesis
    by (cases ev) (auto simp: reg_apply_def reg_opened_def Let_def reg_attach_def entryOf_def
      requireLive_def reg_detach_def reg_data_def split_beta reg_delivered_def reg_settle_def
      reg_valve_def reg_resized_def reg_wait_def bind_res_def reg_timeout_def reg_abort_def
      releaseSession_def disposeAll_def kill split: option.splits sum.splits)
qed

lemma stuck_run:
  assumes "run_events env evs' r = Some r'" "kept_flow tid e r"
    and "te_paused e" "\<not> te_inflight e" "tid = term_name k" "k \<le> rg_nextOrdinal r"
  shows "kept_flow tid e r'"
  using assms
proof (induction evs' arbitrary: r)
  case (Cons ev evs')
  then have can: "can_happen ev r" and run: "run_events env evs' (fst (reg_apply env ev r)) = Some r'"
    by (auto split: if_splits)
  have "\<And>chunk. ev \<noteq> Ev_Data tid chunk" "ev \<noteq> Ev_Delivered tid"
    using can Cons.prems by (auto simp: can_happen_def kept_flow_def same_flow_def split: option.splits)
  moreover have "tid \<noteq> term_name (rg_nextOrdinal r + 1)" using Cons.prems by simp
  ultimately have "kept_flow tid e (fst (reg_apply env ev r))"
    using Cons.prems by (intro kept_step)
  moreover have "k \<le> rg_nextOrdinal (fst (reg_apply env ev r))"
    using Cons.prems by (simp add: reg_apply_ordinal)
  ultimately show ?case using Cons.IH [OF run] Cons.prems by blast
qed simp

end
