(* ===== verification/Registry_Properties.thy ===== *)
theory Registry_Properties
  imports Registry_Runs
begin

section \<open>What the terminal registry guarantees\<close>

text \<open>
  The properties of \<open>terminal/host/registry.ts\<close> over its runs: the retained output, resumed
  reads, waits, ownership, keystrokes, the end of a terminal, and the one reachable state in
  which a terminal stops producing output.
\<close>

lemma find_entry:
  assumes "reg_run env evs r" "e \<in> set (rg_entries r)"
  shows "find_key te_id (te_id e) (rg_entries r) = Some e"
proof -
  have "distinct (map te_id (rg_entries r))"
    using run_inv [OF assms(1)] by (simp add: reg_inv_def ids_ok_distinct)
  then show ?thesis using assms(2) by (rule find_key_distinct)
qed

text \<open>A concrete run the witnesses share: one shell, its tab attached, one chunk delivered.\<close>

definition demo_env :: registry_env where
  "demo_env = \<lparr>re_rx = (\<lambda>s. Inl ''bad''), re_settings = \<lparr>ts_shell = ''bash'', ts_shellArgs = [],
     ts_env = [], ts_graceMs = 3000, ts_detachGraceMs = None\<rparr>, re_machine = (\<lambda>_. ''host''),
     re_directory = (\<lambda>d. d)\<rparr>"

definition demo_entry :: terminal_entry where
  "demo_entry = \<lparr>te_id = ''t1'', te_label = ''Terminal 1'', te_sessionId = ''s'', te_machine = ''host'',
     te_cwd = ''/w'', te_pid = 7, te_buffer = ''hi'', te_bytes = 2, te_dropped = 0, te_state = Running,
     te_cols = 80, te_rows = 24, te_attaches = [1], te_waiters = [], te_timer = False,
     te_paused = True, te_inflight = True\<rparr>"

definition demo_events :: "registry_event list" where
  "demo_events = [Ev_Opened ''s'' ''/w'' 80 24 7, Ev_Attach ''t1'' 1, Ev_Data ''t1'' ''hi'']"

lemmas reg_defs = reg_apply_def reg_opened_def reg_attach_def reg_detach_def reg_data_def
  reg_delivered_def reg_settle_def reg_kill_def reg_notify_def reg_append_def entryOf_def
  requireLive_def put_entry_def can_happen_def find_key_def replace_key_def drop_key_def
  empty_registry_def Let_def BUFFER_BYTES_def str_nat_1 str_nat_2

lemma demo_steps: "run_events demo_env demo_events empty_registry =
    Some \<lparr>rg_entries = [demo_entry], rg_nextOrdinal = 1\<rparr>"
  by (simp add: demo_env_def demo_events_def demo_entry_def reg_defs)

lemma demo_run: "reg_run demo_env demo_events \<lparr>rg_entries = [demo_entry], rg_nextOrdinal = 1\<rparr>"
  using demo_steps by (rule run_events_run)

subsection \<open>Retained output\<close>

text \<open>C12: after any run of the registry, a terminal retains exactly the last 256 KiB its PTY has
  emitted, \<open>bytes\<close> is the absolute offset just past them and \<open>dropped\<close> the bytes before.\<close>

theorem registry_ring:
  assumes "reg_run env evs r" "e \<in> set (rg_entries r)"
  shows "te_buffer e = tail_of BUFFER_BYTES (stream_of (te_id e) evs)
    \<and> te_bytes e = length (stream_of (te_id e) evs)
    \<and> te_dropped e = length (stream_of (te_id e) evs) - BUFFER_BYTES"
proof -
  have tr: "ring.tracks e (stream_of (te_id e) evs)"
    using run_tracks [OF assms(1) find_entry [OF assms]] .
  then show ?thesis
    using ring.tracks_lost [OF tr] tracks_bytes [OF tr] by (simp add: ring.tracks_def)
qed

theorem registry_ring_witness: "te_buffer demo_entry = ''hi'' \<and> te_dropped demo_entry = 0"
proof -
  have "demo_entry \<in> set (rg_entries \<lparr>rg_entries = [demo_entry], rg_nextOrdinal = 1\<rparr>)" by simp
  from registry_ring [OF demo_run this] show ?thesis
    by (simp add: demo_events_def demo_entry_def stream_of_def tail_of_def BUFFER_BYTES_def)
qed

text \<open>Reads chain: if a terminal is read after one part of a run and read again, after more of
  it, from the offset the first read answered with, a second page that is not flagged truncated is
  exactly the text of the bytes the PTY emitted in between, nothing repeated and nothing lost.\<close>

theorem reads_resume:
  assumes first: "reg_run env evs r" "reg_read_id tid o1 l1 r = Inr p1"
    and second: "reg_run env (evs @ evs') r'" "reg_read_id tid (Some (int (tr_offset p1))) l2 r' = Inr p2"
    and whole: "\<not> tr_truncated p2"
  shows "tr_text p2 = utf8_text (stream_of tid evs')
    \<and> tr_offset p2 = tr_offset p1 + length (stream_of tid evs')"
proof -
  obtain e where e: "find_key te_id tid (rg_entries r) = Some e" and p1: "tr_offset p1 = te_bytes e"
    using first(2) by (auto simp: reg_read_id_def entryOf_def reg_read_def Let_def split: option.splits)
  obtain e' where e': "find_key te_id tid (rg_entries r') = Some e'"
    and p2: "p2 = reg_read e' (Some (int (te_bytes e))) l2"
    using second(2) p1 by (auto simp: reg_read_id_def entryOf_def split: option.splits)
  have s: "stream_of tid (evs @ evs') = stream_of tid evs @ stream_of tid evs'"
    by (simp add: stream_of_def)
  note tr = run_tracks [OF first(1) e] and tr' = run_tracks [OF second(1) e']
  have b: "te_bytes e = length (stream_of tid evs)" "te_bytes e' = length (stream_of tid evs @ stream_of tid evs')"
    using tracks_bytes [OF tr] tracks_bytes [OF tr'] s by simp_all
  have "int (te_dropped e') \<le> int (te_bytes e)"
    using whole by (auto simp: p2 reg_read_def Let_def textFrom_def)
  then have t: "textFrom e' (int (te_bytes e)) = (utf8_text (stream_of tid evs'), False)"
    using textFrom_stream [OF tr', of "int (te_bytes e)"] s b by simp
  have "fst (tailLines x n) = x" if "\<not> snd (tailLines x n)" for x n
    using that by (auto simp: tailLines_def Let_def split: if_splits)
  then have "tr_text p2 = utf8_text (stream_of tid evs')"
    using whole t by (auto simp: p2 reg_read_def Let_def)
  then show ?thesis using b p1 by (simp add: p2 reg_read_def Let_def)
qed

theorem reads_resume_witness:
  "\<exists>p. reg_read_id ''t1'' (Some 0) None \<lparr>rg_entries = [demo_entry], rg_nextOrdinal = 1\<rparr> = Inr p
    \<and> tr_text p = ''hi''"
proof -
  let ?r0 = "\<lparr>rg_entries = [demo_entry\<lparr>te_buffer := [], te_bytes := 0, te_paused := False, te_inflight := False\<rparr>],
    rg_nextOrdinal = 1\<rparr>"
  let ?pre = "[Ev_Opened ''s'' ''/w'' 80 24 7, Ev_Attach ''t1'' 1]"
  have "run_events demo_env ?pre empty_registry = Some ?r0"
    by (simp add: demo_env_def demo_entry_def reg_defs)
  then have r0: "reg_run demo_env ?pre ?r0" by (rule run_events_run)
  have p1: "reg_read_id ''t1'' None None ?r0 = Inr \<lparr>tr_id = ''t1'', tr_offset = 0, tr_text = [], tr_truncated = False\<rparr>"
    by (simp add: reg_read_id_def entryOf_def find_key_def demo_entry_def reg_read_def textFrom_def
      tailLines_def Let_def DEFAULT_READ_LINES_def MAX_READ_LINES_def)
  have r1: "reg_run demo_env (?pre @ [Ev_Data ''t1'' ''hi'']) \<lparr>rg_entries = [demo_entry], rg_nextOrdinal = 1\<rparr>"
    using demo_run by (simp add: demo_events_def)
  have dec: "utf8_text ''hi'' = ''hi''" by code_simp
  obtain p where p: "reg_read_id ''t1'' (Some (int (tr_offset \<lparr>tr_id = ''t1'', tr_offset = 0, tr_text = [], tr_truncated = False\<rparr>)))
      None \<lparr>rg_entries = [demo_entry], rg_nextOrdinal = 1\<rparr> = Inr p" "\<not> tr_truncated p"
    by (simp add: reg_read_id_def entryOf_def find_key_def demo_entry_def reg_read_def textFrom_def
      tailLines_def Let_def DEFAULT_READ_LINES_def MAX_READ_LINES_def dec del: utf8_text.simps)
  from reads_resume [OF r0 p1 r1 p] p(1) dec show ?thesis
    by (simp add: stream_of_def del: utf8_text.simps)
qed

subsection \<open>Identity and lifecycle\<close>

text \<open>The table lists terminals in the order they were opened, each under the ordinal its opening
  took, so an id is never reused; and after any run an exited terminal is in the table only while
  somebody watches it, a detached one has no watcher, a pending valve belongs to a detached one,
  and a chunk in flight has its PTY paused.\<close>

theorem registry_lifecycle:
  assumes "reg_run env evs r"
  shows "(\<exists>ks. sorted_wrt (<) ks
      \<and> set ks \<subseteq> {1..length (filter (\<lambda>ev. case ev of Ev_Opened _ _ _ _ _ \<Rightarrow> True | _ \<Rightarrow> False) evs)}
      \<and> map te_id (rg_entries r) = map term_name ks)
    \<and> (\<forall>e \<in> set (rg_entries r).
        (te_state e = Exited \<longrightarrow> te_attaches e \<noteq> [] \<and> te_waiters e = [])
      \<and> (te_state e = Detached \<longrightarrow> te_attaches e = [])
      \<and> (te_timer e \<longrightarrow> te_state e = Detached)
      \<and> (te_inflight e \<longrightarrow> te_paused e))"
proof -
  have "rg_nextOrdinal r =
      length (filter (\<lambda>ev. case ev of Ev_Opened _ _ _ _ _ \<Rightarrow> True | _ \<Rightarrow> False) evs)"
    using assms
    by (induction evs r rule: reg_run.induct)
      (auto simp: empty_registry_def reg_apply_ordinal split: registry_event.splits)
  moreover have "te_waiters e = []"
    if "entry_ok (re_rx env) s e" "te_state e = Exited" for s e
  proof (cases "te_waiters e")
    case (Cons w ws)
    with that have "wait_check (re_rx env) e w = None" by (simp add: entry_ok_def)
    with that(2) show ?thesis by (simp add: wait_check_def split: if_splits)
  qed
  ultimately show ?thesis
    using run_inv [OF assms] by (simp add: reg_inv_def ids_ok_def) (auto simp: entry_ok_def)
qed

theorem registry_lifecycle_witness: "te_inflight demo_entry \<and> te_paused demo_entry"
  using registry_lifecycle [OF demo_run] by (simp add: demo_entry_def)

text \<open>No wake-up is lost: while a wait is pending its terminal has not exited and nothing the
  terminal retains from the wait's start offset matches, so a match or an exit that happens is
  always reported in the event that caused it.\<close>

theorem no_lost_wakeup:
  assumes "reg_run env evs r" "e \<in> set (rg_entries r)" "w \<in> set (te_waiters e)"
  shows "te_state e \<noteq> Exited
    \<and> \<not> matcher_test (re_rx env) (wt_matcher w) (fst (textFrom e (wt_start w)))"
proof -
  have "entry_ok (re_rx env) (stream_of (te_id e) evs) e"
    using run_inv [OF assms(1)] assms(2) by (simp add: reg_inv_def)
  with assms(3) have "wait_check (re_rx env) e w = None" by (simp add: entry_ok_def)
  then show ?thesis by (auto simp: wait_check_def split: if_splits)
qed

definition waiting_entry :: terminal_entry where
  "waiting_entry = demo_entry\<lparr>te_waiters := [\<lparr>wt_id = 5, wt_start = 0, wt_matcher = Match_Text ''ok''\<rparr>]\<rparr>"

theorem no_lost_wakeup_witness: "te_state waiting_entry \<noteq> Exited"
proof -
  let ?r = "\<lparr>rg_entries = [waiting_entry], rg_nextOrdinal = 1\<rparr>"
  have "\<not> js_includes ''hi'' ''ok''" "utf8_text ''hi'' = ''hi''" by code_simp+
  then have "run_events demo_env [Ev_Wait ''t1'' 5 (Some 0) (Some ''ok'') None False]
      \<lparr>rg_entries = [demo_entry], rg_nextOrdinal = 1\<rparr> = Some ?r"
    by (simp add: demo_env_def waiting_entry_def demo_entry_def reg_defs reg_wait_def compile_matcher_def
      wait_check_def matcher_test_def textFrom_def del: utf8_text.simps)
  then have "reg_run demo_env (demo_events @ [Ev_Wait ''t1'' 5 (Some 0) (Some ''ok'') None False]) ?r"
    by (rule run_events_append [OF demo_run])
  from no_lost_wakeup [OF this, of waiting_entry "\<lparr>wt_id = 5, wt_start = 0, wt_matcher = Match_Text ''ok''\<rparr>"]
  show ?thesis by (simp add: waiting_entry_def)
qed

text \<open>A PTY paused with no delivery pending never produces output again while it stays open,
  whatever happens next: nothing but the settling of a delivery resumes it.\<close>

theorem paused_without_delivery_is_stuck:
  assumes "reg_run env evs r" "find_key te_id tid (rg_entries r) = Some e"
    and "te_paused e" "\<not> te_inflight e"
    and "run_events env evs' r = Some r'" "find_key te_id tid (rg_entries r') = Some e'"
  shows "te_paused e' \<and> te_buffer e' = te_buffer e \<and> te_bytes e' = te_bytes e"
proof -
  have "tid \<in> te_id ` set (rg_entries r)" using find_key_Some [OF assms(2)] by auto
  moreover obtain ks where "set ks \<subseteq> {1..rg_nextOrdinal r}" "map te_id (rg_entries r) = map term_name ks"
    using run_inv [OF assms(1)] by (auto simp: reg_inv_def ids_ok_def)
  ultimately obtain k where k: "k \<le> rg_nextOrdinal r" "tid = term_name k"
    by (metis (no_types, lifting) atLeastAtMost_iff image_iff image_set subsetD)
  have "kept_flow tid e r" using assms(2) by (simp add: kept_flow_def)
  from stuck_run [OF assms(5) this assms(3,4) k(2,1)] assms(3,6)
  show ?thesis by (simp add: kept_flow_def same_flow_def)
qed

text \<open>The witness is the run of a browser that goes away while a chunk is on its way to it: the tab
  detaches, the delivery settles, and a later reattach finds the terminal running and silent.\<close>

theorem paused_without_delivery_is_stuck_witness:
  "\<exists>r. run_events demo_env (demo_events @ [Ev_Detach ''t1'' 1, Ev_Delivered ''t1'', Ev_Attach ''t1'' 2]) empty_registry
      = Some r \<and> map te_state (rg_entries r) = [Running] \<and> map te_paused (rg_entries r) = [True]"
proof -
  let ?e = "demo_entry\<lparr>te_attaches := [], te_state := Detached, te_inflight := False\<rparr>"
  let ?e' = "demo_entry\<lparr>te_attaches := [2], te_inflight := False\<rparr>"
  let ?r = "\<lparr>rg_entries = [?e], rg_nextOrdinal = 1\<rparr>" and ?r' = "\<lparr>rg_entries = [?e'], rg_nextOrdinal = 1\<rparr>"
  have s: "run_events demo_env (demo_events @ [Ev_Detach ''t1'' 1, Ev_Delivered ''t1'']) empty_registry = Some ?r"
    and s': "run_events demo_env (demo_events @ [Ev_Detach ''t1'' 1, Ev_Delivered ''t1'', Ev_Attach ''t1'' 2]) empty_registry = Some ?r'"
    and more: "run_events demo_env [Ev_Attach ''t1'' 2] ?r = Some ?r'"
    by (simp_all add: demo_env_def demo_events_def demo_entry_def reg_defs)
  have "find_key te_id ''t1'' (rg_entries ?r) = Some ?e" "find_key te_id ''t1'' (rg_entries ?r') = Some ?e'"
    by (simp_all add: find_key_def demo_entry_def)
  from paused_without_delivery_is_stuck [OF run_events_run [OF s] this(1) _ _ more this(2)] s'
  show ?thesis by (simp add: demo_entry_def)
qed

subsection \<open>Ending terminals\<close>

text \<open>Ending a terminal takes it out of the table and settles every pending wait on it with
  reason \<open>exit\<close>, in order, before its PTY is terminated; no attached consumer is told anything.\<close>

theorem kill_settles_waits:
  assumes "reg_run env evs r" "find_key te_id tid (rg_entries r) = Some e"
  shows "\<exists>fx. reg_kill (re_rx env) tid r = (r\<lparr>rg_entries := drop_key te_id tid (rg_entries r)\<rparr>, True, fx)
    \<and> fx = map (\<lambda>w. Fx_Wait (wt_id w) (wait_result e w False Reason_exit)) (te_waiters e) @ [Fx_Terminate tid]
    \<and> find_key te_id tid (rg_entries (fst (reg_kill (re_rx env) tid r))) = None"
proof -
  let ?x = "e\<lparr>te_timer := False, te_attaches := [], te_state := Exited\<rparr>"
  have res: "wait_check (re_rx env) ?x w = Some (wait_result e w False Reason_exit)"
    if "w \<in> set (te_waiters e)" for w
  proof -
    have "wait_check (re_rx env) e w = None"
      using run_entry(2) [OF assms] that by (simp add: entry_ok_def)
    then have "\<not> matcher_test (re_rx env) (wt_matcher w) (fst (textFrom e (wt_start w)))"
      by (simp add: wait_check_def split: if_splits)
    then show ?thesis by (simp add: wait_check_def wait_result_def textFrom_def)
  qed
  have "concat (map (\<lambda>w. case wait_check (re_rx env) ?x w of None \<Rightarrow> [] | Some r \<Rightarrow> [Fx_Wait (wt_id w) r]) ws)
      = map (\<lambda>w. Fx_Wait (wt_id w) (wait_result e w False Reason_exit)) ws"
    if "set ws \<subseteq> set (te_waiters e)" for ws
    using that res by (induction ws) auto
  then have "snd (reg_notify (re_rx env) ?x) =
      map (\<lambda>w. Fx_Wait (wt_id w) (wait_result e w False Reason_exit)) (te_waiters e)"
    by (simp add: reg_notify_def)
  then have "reg_kill (re_rx env) tid r = (r\<lparr>rg_entries := drop_key te_id tid (rg_entries r)\<rparr>, True,
      map (\<lambda>w. Fx_Wait (wt_id w) (wait_result e w False Reason_exit)) (te_waiters e) @ [Fx_Terminate tid])"
    by (simp add: reg_kill_def assms(2) split_beta Let_def)
  then show ?thesis by (simp add: store_simps)
qed

theorem kill_settles_waits_witness:
  "snd (snd (reg_kill (re_rx demo_env) ''t1'' \<lparr>rg_entries = [demo_entry], rg_nextOrdinal = 1\<rparr>)) = [Fx_Terminate ''t1'']"
proof -
  have "find_key te_id ''t1'' (rg_entries \<lparr>rg_entries = [demo_entry], rg_nextOrdinal = 1\<rparr>) = Some demo_entry"
    by (simp add: find_key_def demo_entry_def)
  from kill_settles_waits [OF demo_run this] show ?thesis by (auto simp: demo_entry_def)
qed

lemma kill_all_entries:
  "rg_entries (fst (kill_all rx ids r)) = filter (\<lambda>e. te_id e \<notin> set ids) (rg_entries r)"
  by (induction ids arbitrary: r) (auto simp: split_beta drop_key_def intro!: filter_cong)

text \<open>A Session that ends takes exactly its own terminals with it, and the plugin's teardown
  takes all of them.\<close>

theorem release_takes_own_terminals:
  assumes "reg_run env evs r"
  shows "rg_entries (fst (releaseSession (re_rx env) s r)) = filter (\<lambda>e. te_sessionId e \<noteq> s) (rg_entries r)
    \<and> rg_entries (fst (disposeAll (re_rx env) r)) = []"
proof -
  have d: "distinct (map te_id (rg_entries r))"
    using run_inv [OF assms] by (simp add: reg_inv_def ids_ok_distinct)
  have "te_sessionId e = s \<longleftrightarrow> te_id e \<in> te_id ` {x \<in> set (rg_entries r). te_sessionId x = s}"
    if "e \<in> set (rg_entries r)" for e
    using that d by (auto simp: distinct_map inj_on_def)
  then show ?thesis
    by (auto simp: releaseSession_def disposeAll_def kill_all_entries intro!: filter_cong)
qed

theorem release_takes_own_terminals_witness:
  "rg_entries (fst (releaseSession (re_rx demo_env) ''s'' \<lparr>rg_entries = [demo_entry], rg_nextOrdinal = 1\<rparr>)) = []"
  using release_takes_own_terminals [OF demo_run, of "''s''"] by (simp add: demo_entry_def)

subsection \<open>Ownership\<close>

text \<open>What a Session is told about terminals, the refusals included, depends on its own
  terminals alone: two registries that agree on them answer \<open>requireOwned\<close> and \<open>listFor\<close> alike.\<close>

theorem session_isolated:
  assumes "filter (\<lambda>e. te_sessionId e = s) (rg_entries r1) = filter (\<lambda>e. te_sessionId e = s) (rg_entries r2)"
  shows "requireOwned s tid r1 = requireOwned s tid r2 \<and> listFor s r1 = listFor s r2"
  using assms by (simp add: requireOwned_def listFor_def)

theorem session_isolated_witness:
  "requireOwned ''other'' (Some ''t1'') \<lparr>rg_entries = [demo_entry], rg_nextOrdinal = 1\<rparr> =
   requireOwned ''other'' (Some ''t1'') empty_registry"
  using session_isolated [of "''other''" "\<lparr>rg_entries = [demo_entry], rg_nextOrdinal = 1\<rparr>" empty_registry]
  by (simp add: demo_entry_def empty_registry_def)

text \<open>A terminal is granted exactly when it is the Session's own, live, and either the one named
  or, with none named, the only live one.\<close>

theorem requireOwned_grants:
  assumes "reg_run env evs r"
  shows "requireOwned s tid r = Inr e \<longleftrightarrow>
    e \<in> set (rg_entries r) \<and> te_sessionId e = s \<and> te_state e \<noteq> Exited
    \<and> (case tid of Some i \<Rightarrow> te_id e = i
       | None \<Rightarrow> filter (\<lambda>x. te_sessionId x = s \<and> te_state x \<noteq> Exited) (rg_entries r) = [e])"
proof -
  let ?mine = "filter (\<lambda>e. te_sessionId e = s) (rg_entries r)"
  have d: "distinct (map te_id ?mine)"
    using run_inv [OF assms] by (simp add: reg_inv_def ids_ok_distinct distinct_map_filter)
  show ?thesis
  proof (cases tid)
    case None
    let ?live = "filter (\<lambda>x. te_state x \<noteq> Exited) ?mine"
    have "?live = filter (\<lambda>x. te_sessionId x = s \<and> te_state x \<noteq> Exited) (rg_entries r)"
      by (simp add: conj_commute)
    moreover have "requireOwned s tid r = Inr e \<longleftrightarrow> ?live = [e]"
      using None by (cases ?live rule: remdups_adj.cases) (auto simp: requireOwned_def Let_def)
    moreover have "?live = [e] \<Longrightarrow> e \<in> set (rg_entries r) \<and> te_sessionId e = s \<and> te_state e \<noteq> Exited"
      by (drule arg_cong [where f = set]) auto
    ultimately show ?thesis using None by auto
  next
    case (Some i)
    then have "requireOwned s tid r = Inr e \<longleftrightarrow> find_key te_id i ?mine = Some e \<and> te_state e \<noteq> Exited"
      by (auto simp: requireOwned_def Let_def requireLive_def split: option.splits)
    also have "find_key te_id i ?mine = Some e \<longleftrightarrow> e \<in> set ?mine \<and> te_id e = i"
      using find_key_Some [of te_id i ?mine e] find_key_distinct [OF d, of e] by auto
    finally show ?thesis using Some by auto
  qed
qed

theorem requireOwned_grants_witness:
  "requireOwned ''s'' None \<lparr>rg_entries = [demo_entry], rg_nextOrdinal = 1\<rparr> = Inr demo_entry"
  using requireOwned_grants [OF demo_run, of "''s''" None demo_entry] by (simp add: demo_entry_def)

subsection \<open>Keystrokes\<close>

lemma resolve_keys_some:
  "resolve_keys names = Inr bs \<longleftrightarrow>
     (\<forall>n \<in> set names. key_sequence n \<noteq> None) \<and> bs = concat (map (the \<circ> key_sequence) names)"
  by (induction names arbitrary: bs) (auto split: option.splits simp: bind_res_Inr_iff)

text \<open>Keystrokes are all or nothing: on a live terminal either every name has a sequence and
  one write delivers all of them in order, or nothing is written and the call fails.\<close>

theorem keys_all_or_nothing:
  assumes "find_key te_id tid (rg_entries r) = Some e" "te_state e \<noteq> Exited"
  shows "if \<forall>n \<in> set names. key_sequence n \<noteq> None
    then let bs = concat (map (the \<circ> key_sequence) names)
         in reg_keys tid names r = Inr ((length bs, length names), [Fx_Write tid bs])
    else \<exists>err. reg_keys tid names r = Inl err"
proof -
  have "reg_keys tid names r = bind_res (resolve_keys names) (\<lambda>bs. Inr ((length bs, length names), [Fx_Write tid bs]))"
    using assms by (simp add: reg_keys_def entryOf_def requireLive_def)
  moreover have "resolve_keys names = Inr bs \<Longrightarrow> bs = concat (map (the \<circ> key_sequence) names)" for bs
    using resolve_keys_some [of names bs] by blast
  ultimately show ?thesis
    using resolve_keys_some [of names] by (cases "resolve_keys names") (auto simp: Let_def)
qed

theorem keys_all_or_nothing_witness:
  "reg_keys ''t1'' [''ctrl+c'', ''enter''] \<lparr>rg_entries = [demo_entry], rg_nextOrdinal = 1\<rparr> =
     Inr ((2, 2), [Fx_Write ''t1'' [CHR 0x03, CHR 0x0D]])"
proof -
  have k: "key_sequence ''ctrl+c'' = Some [CHR 0x03]" "key_sequence ''enter'' = Some [CHR 0x0D]"
    by code_simp+
  have "find_key te_id ''t1'' (rg_entries \<lparr>rg_entries = [demo_entry], rg_nextOrdinal = 1\<rparr>) = Some demo_entry"
    "te_state demo_entry \<noteq> Exited" by (simp_all add: find_key_def demo_entry_def)
  from keys_all_or_nothing [OF this, of "[''ctrl+c'', ''enter'']"] k show ?thesis by (simp add: Let_def)
qed

text \<open>A name that is no key is not always refused: one every object inherits, like
  \<open>constructor\<close>, is absent from the documented names and yet typed into the terminal as the source
  text of a native function.\<close>

theorem inherited_name_is_typed:
  assumes "find_key te_id tid (rg_entries r) = Some e" "te_state e \<noteq> Exited"
  shows "''constructor'' \<notin> set KEY_NAMES
    \<and> reg_keys tid [''constructor''] r =
        Inr ((35, 1), [Fx_Write tid ''function Object() { [native code] }''])"
proof -
  have "''constructor'' \<notin> set KEY_NAMES" by code_simp
  moreover have "resolve_keys [''constructor''] = Inr ''function Object() { [native code] }''" by code_simp
  ultimately show ?thesis using assms
    by (simp add: reg_keys_def entryOf_def requireLive_def del: resolve_keys.simps)
qed

theorem inherited_name_is_typed_witness:
  "\<exists>text. reg_keys ''t1'' [''constructor''] \<lparr>rg_entries = [demo_entry], rg_nextOrdinal = 1\<rparr> =
     Inr ((35, 1), [Fx_Write ''t1'' text])"
  using inherited_name_is_typed [of "''t1''" "\<lparr>rg_entries = [demo_entry], rg_nextOrdinal = 1\<rparr>" demo_entry]
  by (simp add: find_key_def demo_entry_def)

subsection \<open>Where a wait begins\<close>

lemma utf8_conts_high:
  "c \<in> set (utf8_conts k lo hi s) \<Longrightarrow> 0x80 \<le> lo \<Longrightarrow> 0x80 \<le> byte c"
  by (induction k lo hi s rule: utf8_conts.induct) (auto split: if_splits)

lemma utf8_lead_low: "utf8_lead c = Some (k, lo, hi) \<Longrightarrow> 0x80 \<le> lo"
  by (auto simp: utf8_lead_def Let_def split: if_splits)

text \<open>An ASCII byte never stands inside a multi-byte sequence, so text may be cut before it.\<close>

lemma utf8_valid_before_ascii:
  assumes "utf8_valid (p @ c # t)" "byte c < 0x80"
  shows "utf8_valid p"
  using assms(1)
proof (induction p rule: length_induct)
  case (1 p)
  show ?case
  proof (cases p)
    case (Cons x p')
    with 1 have "utf8_valid (x # p' @ c # t)" by simp
    then obtain k lo hi where l: "utf8_lead x = Some (k, lo, hi)"
      and k: "length (utf8_conts k lo hi (p' @ c # t)) = k" and v: "utf8_valid (drop k (p' @ c # t))"
      by (rule utf8_valid_Cons)
    have tk: "take k (p' @ c # t) = utf8_conts k lo hi (p' @ c # t)"
      using utf8_conts_prefix [of k lo hi "p' @ c # t"] k by simp
    have le: "k \<le> length p'"
    proof (rule ccontr)
      assume "\<not> k \<le> length p'"
      then have "c \<in> set (take k (p' @ c # t))" by (simp add: take_Cons')
      with tk utf8_conts_high [of c k lo hi] utf8_lead_low [OF l] assms(2) show False by auto
    qed
    with v have "utf8_valid (drop k p' @ c # t)" by simp
    with 1 Cons have v': "utf8_valid (drop k p')" by simp
    have "utf8_conts k lo hi (take k p' @ []) = take k p'"
      using utf8_conts_self [of "take k p'" k lo hi "p' @ c # t" "[]"] tk k le by simp
    then have "utf8_text (x # take k p' @ drop k p') = x # take k p' @ utf8_text (drop k p')"
      using l le utf8_conts_append [of k lo hi "take k p'" "drop k p'"] by (simp add: Let_def)
    with v' Cons show ?thesis by (simp add: utf8_valid_def)
  qed simp
qed

lemma join_with_append:
  "as \<noteq> [] \<Longrightarrow> bs \<noteq> [] \<Longrightarrow> join_with sep (as @ bs) = join_with sep as @ sep @ join_with sep bs"
  by (induction sep as rule: join_with.induct) (auto simp: neq_Nil_conv)

lemma tailLines_suffix:
  assumes "0 < n"
  shows "fst (tailLines x n) = x \<or> (\<exists>p. x = p @ CHR 0x0A # fst (tailLines x n))"
proof (cases "int (length (split_on (CHR 0x0A) x)) \<le> n")
  case False
  let ?ps = "split_on (CHR 0x0A) x" and ?k = "length (split_on (CHR 0x0A) x) - nat n"
  have "take ?k ?ps \<noteq> []" "drop ?k ?ps \<noteq> []" using False assms by auto
  from join_with_append [OF this, of "[CHR 0x0A]"]
  have "x = join_with [CHR 0x0A] (take ?k ?ps) @ CHR 0x0A # join_with [CHR 0x0A] (drop ?k ?ps)"
    by (simp add: join_split)
  with False show ?thesis by (auto simp: tailLines_def Let_def)
qed (simp add: tailLines_def)

text \<open>A wait that names no offset searches, over output that is well-formed text, exactly what a
  default read returns.\<close>

theorem default_wait_searches_default_read:
  assumes "reg_run env evs r" "e \<in> set (rg_entries r)" "utf8_valid (te_buffer e)"
  shows "fst (textFrom e (retainedStart e)) = tr_text (reg_read e None None)"
proof -
  have b: "te_dropped e + length (te_buffer e) = te_bytes e"
    using run_tracks [OF assms(1) find_entry [OF assms(1,2)]]
    by (auto simp only: ring.tracks_def ring_ok_def)
  let ?t = "fst (tailLines (te_buffer e) DEFAULT_READ_LINES)"
  have all: "fst (textFrom e (int (te_dropped e))) = te_buffer e"
    using assms(3) by (simp add: textFrom_def utf8_valid_def)
  have suffix: "te_buffer e = ?t \<or> (\<exists>p. te_buffer e = p @ CHR 0x0A # ?t)"
    using tailLines_suffix [of DEFAULT_READ_LINES "te_buffer e"] by (auto simp: DEFAULT_READ_LINES_def)
  then have valid: "utf8_valid ?t"
  proof
    assume "\<exists>p. te_buffer e = p @ CHR 0x0A # ?t"
    then obtain p where p: "te_buffer e = p @ CHR 0x0A # ?t" ..
    have "utf8_valid p" using assms(3) p by (intro utf8_valid_before_ascii [of p "CHR 0x0A" ?t]) (simp_all add: byte_def)
    then have "utf8_valid (p @ [CHR 0x0A])"
      by (intro utf8_valid_append) (simp_all add: utf8_valid_ascii byte_def)
    then show ?thesis using assms(3) p utf8_valid_suffix [of "p @ [CHR 0x0A]" ?t] by simp
  qed (use assms(3) in simp)
  from suffix obtain q where q: "te_buffer e = q @ ?t" by (metis append_Cons append_Nil append_assoc)
  then have l: "length (te_buffer e) = length q + length ?t" by (metis length_append)
  have len: "length ?t \<le> length (te_buffer e)" "drop (length (te_buffer e) - length ?t) (te_buffer e) = ?t"
    using l by simp (subst q, simp add: l)
  have "retainedStart e = int (te_bytes e) - int (length ?t)"
    using b len(1) by (simp add: retainedStart_def Let_def all max_def)
  then have "nat (max (retainedStart e) (int (te_dropped e)) - int (te_dropped e)) = length (te_buffer e) - length ?t"
    using b len(1) by simp
  then have "fst (textFrom e (retainedStart e)) = ?t"
    using len(2) valid by (simp add: textFrom_def Let_def utf8_valid_def)
  then show ?thesis
    by (simp add: reg_read_def Let_def all DEFAULT_READ_LINES_def MAX_READ_LINES_def)
qed

theorem default_wait_searches_default_read_witness:
  "fst (textFrom demo_entry (retainedStart demo_entry)) = tr_text (reg_read demo_entry None None)"
proof -
  have "demo_entry \<in> set (rg_entries \<lparr>rg_entries = [demo_entry], rg_nextOrdinal = 1\<rparr>)" by simp
  moreover have "utf8_valid (te_buffer demo_entry)" unfolding demo_entry_def by code_simp
  ultimately show ?thesis by (rule default_wait_searches_default_read [OF demo_run])
qed

end
