(* ===== verification/Terminal_Socket.thy ===== *)
theory Terminal_Socket
  imports Registry_Properties Complex_Main
begin

section \<open>One browser socket, one terminal: terminal/host/terminal.ts\<close>

text \<open>
  The bridge between an accepted browser socket and the registry, with the workspace lookup of
  \<open>terminal/host/workspace.ts\<close> and the frames of \<open>terminal/shared/wire.ts\<close>. The socket's own
  variables are a record; every handler, and every continuation after an \<open>await\<close>, is one function
  on that record and the registry. The socket is the sink \<open>sk\<close> of the registry.
\<close>

subsection \<open>Frames and sizes\<close>

text \<open>A number of a decoded frame: finite, or anything \<open>Number.isFinite\<close> refuses (a missing field,
  a string, an overflowing literal).\<close>

datatype measured = Finite rat | Not_Finite

datatype client_frame =
    OpenFrame session_id measured measured
  | AttachFrame session_id term_id measured measured
  | InputFrame string
  | ResizeFrame measured measured

datatype host_frame =
    ReadyFrame int path term_id string
  | ExitFrame "int option" "string option"
  | ErrorFrame string
  | SizeFrame int int bool

definition MAX_DIMENSION :: int where "MAX_DIMENSION = 1000"
definition MAX_PENDING_INPUT :: nat where "MAX_PENDING_INPUT = 256"

definition dimension :: "measured \<Rightarrow> int \<Rightarrow> int" where
  "dimension value fallback =
     (case value of Not_Finite \<Rightarrow> fallback | Finite x \<Rightarrow> min MAX_DIMENSION (max 1 \<lfloor>x\<rfloor>))"

subsection \<open>terminal/host/workspace.ts\<close>

text \<open>The two session stores answer with a header, whose \<open>cwd\<close> may be absent.\<close>

definition resolveWorkspace ::
    "(session_id \<Rightarrow> string option option) \<Rightarrow> (session_id \<Rightarrow> string option option) \<Rightarrow> session_id \<Rightarrow> string + path" where
  "resolveWorkspace sessions persisted sessionId =
     (if trim sessionId = [] then Inl ''no session identity was supplied, so the workspace is unknown''
      else
        (let header = (case sessions sessionId of Some h \<Rightarrow> Some h | None \<Rightarrow> persisted sessionId) in
         case header of
           Some (Some cwd) \<Rightarrow>
             if cwd = [] then Inl (''session '' @ quoted sessionId @ '' is unknown, so its workspace is too'')
             else Inr cwd
         | _ \<Rightarrow> Inl (''session '' @ quoted sessionId @ '' is unknown, so its workspace is too'')))"

subsection \<open>The socket's state\<close>

record socket_state =
  so_entryId :: "term_id option"
  so_opening :: bool
  so_closed :: bool
  so_requested :: "int \<times> int"
  so_applied :: "(int \<times> int) option"
  so_typed :: "string list"
  so_live :: bool

definition socket_fresh :: socket_state where
  "socket_fresh = \<lparr>so_entryId = None, so_opening = False, so_closed = False, so_requested = (80, 24),
     so_applied = None, so_typed = [], so_live = True\<rparr>"

datatype socket_effect =
    Sx_Post host_frame
  | Sx_Close nat string
  | Sx_Send bytes
  | Sx_Resolve session_id
  | Sx_Spawn session_id path int int
  | Sx_Resize term_id int int
  | Sx_Registry registry_effect

type_synonym socket_step = "socket_state \<times> registry \<times> socket_effect list"

definition sock_post :: "socket_state \<Rightarrow> host_frame \<Rightarrow> socket_effect list" where
  "sock_post s frame = (if so_live s then [Sx_Post frame] else [])"

text \<open>The sink: what a registry effect on this socket does to it, and the effects on others.\<close>

definition sink_effect :: "sink \<Rightarrow> socket_state \<Rightarrow> registry_effect \<Rightarrow> socket_effect list" where
  "sink_effect sk s fx =
     (case fx of
        Fx_Output k chunk \<Rightarrow>
          if k = sk then (if so_live s then [Sx_Send chunk] else []) else [Sx_Registry fx]
      | Fx_Exit k outcome \<Rightarrow>
          if k = sk then sock_post s (ExitFrame (to_exitCode outcome) (to_signal outcome)) @
            [Sx_Close 1000 ''terminal exited'']
          else [Sx_Registry fx]
      | Fx_Fail k err \<Rightarrow>
          if k = sk then sock_post s (ErrorFrame err) @ [Sx_Close 1011 ''terminal failed'']
          else [Sx_Registry fx]
      | _ \<Rightarrow> [Sx_Registry fx])"

definition sink_effects :: "sink \<Rightarrow> socket_state \<Rightarrow> registry_effect list \<Rightarrow> socket_effect list" where
  "sink_effects sk s fxs = concat (map (sink_effect sk s) fxs)"

subsection \<open>The handlers\<close>

definition sock_stop ::
    "sink \<Rightarrow> regex_engine \<Rightarrow> terminal_settings \<Rightarrow> socket_state \<Rightarrow> registry \<Rightarrow> socket_step" where
  "sock_stop sk rx st s r =
     (if so_closed s then (s, r, [])
      else (let s' = s\<lparr>so_closed := True, so_entryId := None\<rparr> in
        case so_entryId s of
          None \<Rightarrow> (s', r, [])
        | Some current \<Rightarrow>
            (case reg_detach rx st current sk r of (r', fx) \<Rightarrow> (s', r', sink_effects sk s' fx))))"

definition sock_claim :: "socket_state \<Rightarrow> bool" where
  "sock_claim s = (so_entryId s = None \<and> \<not> so_opening s)"

definition claim_refusal :: "socket_state \<Rightarrow> socket_effect list" where
  "claim_refusal s = sock_post s (ErrorFrame ''this connection already owns a terminal'')"

fun flush_writes :: "term_id \<Rightarrow> registry \<Rightarrow> string list \<Rightarrow> socket_effect list" where
  "flush_writes tid r [] = []"
| "flush_writes tid r (d # ds) =
     (case reg_write tid d r of Inl _ \<Rightarrow> [] | Inr (_, fx) \<Rightarrow> map Sx_Registry fx) @ flush_writes tid r ds"

text \<open>\<open>open\<close>, up to the workspace lookup; after it; and after the registry has the shell.\<close>

definition sock_open :: "session_id \<Rightarrow> measured \<Rightarrow> measured \<Rightarrow> socket_state \<Rightarrow> registry \<Rightarrow> socket_step" where
  "sock_open sessionId cols rows s r =
     (if so_closed s then (s, r, [])
      else if \<not> sock_claim s then (s, r, claim_refusal s)
      else (s\<lparr>so_requested := (dimension cols 80, dimension rows 24), so_opening := True\<rparr>, r,
            [Sx_Resolve sessionId]))"

definition sock_workspace :: "session_id \<Rightarrow> string + path \<Rightarrow> socket_state \<Rightarrow> registry \<Rightarrow> socket_step" where
  "sock_workspace sessionId res s r =
     (case res of
        Inl err \<Rightarrow> (s\<lparr>so_opening := False\<rparr>, r, sock_post s (ErrorFrame err))
      | Inr cwd \<Rightarrow> (s, r, [Sx_Spawn sessionId cwd (fst (so_requested s)) (snd (so_requested s))]))"

definition sock_opened ::
    "sink \<Rightarrow> regex_engine \<Rightarrow> string + terminal_entry \<Rightarrow> socket_state \<Rightarrow> registry \<Rightarrow> socket_step" where
  "sock_opened sk rx res s r =
     (case res of
        Inl err \<Rightarrow> (s\<lparr>so_opening := False\<rparr>, r, sock_post s (ErrorFrame err))
      | Inr entry \<Rightarrow>
          if so_closed s
          then (case reg_kill rx (te_id entry) r of
              (r', _, fx) \<Rightarrow> (s\<lparr>so_opening := False\<rparr>, r', sink_effects sk s fx))
          else
            (let s1 = s\<lparr>so_entryId := Some (te_id entry), so_applied := Some (so_requested s),
                        so_opening := False\<rparr>
             in case reg_attach (te_id entry) sk r of
                  Inl err \<Rightarrow> (s1, r, sock_post s1 (ErrorFrame err))
                | Inr (r', _, fx) \<Rightarrow>
                    (s1\<lparr>so_typed := []\<rparr>, r',
                     sink_effects sk s1 fx @
                     sock_post s1 (ReadyFrame (te_pid entry) (te_cwd entry) (te_id entry) (te_label entry)) @
                     flush_writes (te_id entry) r' (so_typed s1))))"

definition sock_applySize :: "measured \<Rightarrow> measured \<Rightarrow> socket_state \<Rightarrow> registry \<Rightarrow> socket_step" where
  "sock_applySize cols rows s r =
     (let next = (dimension cols (fst (so_requested s)), dimension rows (snd (so_requested s)));
          s1 = s\<lparr>so_requested := next\<rparr>
      in case so_entryId s of
           None \<Rightarrow> (s1, r, [])
         | Some current \<Rightarrow>
             if so_applied s = Some next then (s1, r, [])
             else (s1\<lparr>so_applied := Some next\<rparr>, r, [Sx_Resize current (fst next) (snd next)]))"

definition sock_resized ::
    "term_id \<Rightarrow> int \<Rightarrow> int \<Rightarrow> bool \<Rightarrow> socket_state \<Rightarrow> registry \<Rightarrow> socket_step" where
  "sock_resized tid cols rows accepted s r =
     (s, reg_resized tid cols rows accepted r, sock_post s (SizeFrame cols rows accepted))"

definition sock_attach ::
    "sink \<Rightarrow> session_id \<Rightarrow> term_id \<Rightarrow> measured \<Rightarrow> measured \<Rightarrow> socket_state \<Rightarrow> registry \<Rightarrow> socket_step" where
  "sock_attach sk sessionId tid cols rows s r =
     (if so_closed s then (s, r, [])
      else if \<not> sock_claim s then (s, r, claim_refusal s)
      else
        (case bind_res (requireOwned sessionId (Some tid) r) (\<lambda>_. reg_attach tid sk r) of
           Inl err \<Rightarrow> (s, r, sock_post s (ErrorFrame err))
         | Inr (r', entry, fx) \<Rightarrow>
             (let s1 = s\<lparr>so_entryId := Some (te_id entry), so_applied := Some (te_cols entry, te_rows entry),
                         so_typed := []\<rparr>
              in case sock_applySize cols rows s1 r' of
                   (s2, r2, fx2) \<Rightarrow>
                     (s2, r2,
                      sink_effects sk s fx @
                      sock_post s1 (ReadyFrame (te_pid entry) (te_cwd entry) (te_id entry) (te_label entry)) @
                      flush_writes (te_id entry) r' (so_typed s) @ fx2))))"

definition sock_input :: "string \<Rightarrow> socket_state \<Rightarrow> registry \<Rightarrow> socket_step" where
  "sock_input d s r =
     (case so_entryId s of
        None \<Rightarrow> ((if length (so_typed s) < MAX_PENDING_INPUT then s\<lparr>so_typed := so_typed s @ [d]\<rparr> else s), r, [])
      | Some current \<Rightarrow> (s, r, flush_writes current r [d]))"

definition sock_message :: "sink \<Rightarrow> client_frame \<Rightarrow> socket_state \<Rightarrow> registry \<Rightarrow> socket_step" where
  "sock_message sk frame s r =
     (case frame of
        OpenFrame sessionId cols rows \<Rightarrow> sock_open sessionId cols rows s r
      | AttachFrame sessionId tid cols rows \<Rightarrow> sock_attach sk sessionId tid cols rows s r
      | InputFrame d \<Rightarrow> sock_input d s r
      | ResizeFrame cols rows \<Rightarrow> sock_applySize cols rows s r)"

subsection \<open>What a socket does over its life\<close>

text \<open>One event of the socket, whatever the rest of the host has done to the registry meanwhile.
  The continuations of \<open>open\<close> run only while it is pending.\<close>

inductive sock_step ::
    "sink \<Rightarrow> regex_engine \<Rightarrow> terminal_settings \<Rightarrow> socket_state \<Rightarrow> socket_state \<Rightarrow> bool"
  for sk rx st where
  step_message: "sock_message sk frame s r = (s', r', fx) \<Longrightarrow> sock_step sk rx st s s'"
| step_workspace: "so_opening s \<Longrightarrow> sock_workspace sid res s r = (s', r', fx) \<Longrightarrow> sock_step sk rx st s s'"
| step_opened: "so_opening s \<Longrightarrow> sock_opened sk rx ores s r = (s', r', fx) \<Longrightarrow> sock_step sk rx st s s'"
| step_resized: "sock_resized tid c w acc s r = (s', r', fx) \<Longrightarrow> sock_step sk rx st s s'"
| step_stop: "sock_stop sk rx st s r = (s', r', fx) \<Longrightarrow> sock_step sk rx st s s'"
| step_closing: "sock_step sk rx st s (s\<lparr>so_live := False\<rparr>)"

definition sock_ok :: "socket_state \<Rightarrow> bool" where
  "sock_ok s \<longleftrightarrow> (so_opening s \<longrightarrow> so_entryId s = None) \<and> (so_closed s \<longrightarrow> so_entryId s = None)
     \<and> length (so_typed s) \<le> MAX_PENDING_INPUT"

definition sock_later :: "term_id \<Rightarrow> socket_state \<Rightarrow> bool" where
  "sock_later i s \<longleftrightarrow> so_entryId s = Some i \<or> (so_entryId s = None \<and> so_closed s)"

lemma applySize_state:
  assumes "sock_applySize cols rows s r = (s', r', fx)"
  shows "so_entryId s' = so_entryId s \<and> so_opening s' = so_opening s \<and> so_closed s' = so_closed s
    \<and> so_typed s' = so_typed s"
  using assms by (auto simp: sock_applySize_def Let_def split: option.splits if_splits)

lemma attach_id: "reg_attach tid sk r = Inr (r', entry, fx) \<Longrightarrow> te_id entry = tid"
  by (auto simp: reg_attach_def entryOf_def requireLive_def Let_def dest: find_key_Some
    split: option.splits if_splits)

lemma attach_result:
  assumes "reg_attach tid sk r = Inr (r', e', fx)"
  shows "find_key te_id tid (rg_entries r') = Some e' \<and> te_state e' \<noteq> Exited"
proof -
  from assms obtain e where e: "find_key te_id tid (rg_entries r) = Some e" "te_state e \<noteq> Exited"
    by (auto simp: reg_attach_def entryOf_def requireLive_def split: option.splits if_splits)
  with assms have "r' = put_entry e' r" "te_state e' \<noteq> Exited"
    by (auto simp: reg_attach_def entryOf_def requireLive_def Let_def split: if_splits)
  with e attach_id [OF assms] show ?thesis by (simp add: put_entry_def store_simps)
qed

lemma message_ok:
  assumes "sock_message sk frame s r = (s', r', fx)" "sock_ok s"
  shows "sock_ok s' \<and> (sock_later i s \<longrightarrow> sock_later i s')"
proof (cases frame)
  case (OpenFrame a b c)
  with assms show ?thesis
    by (auto simp: sock_message_def sock_open_def sock_ok_def sock_later_def sock_claim_def split: if_splits)
next
  case (AttachFrame a b c d)
  with assms show ?thesis
    by (auto simp: sock_message_def sock_attach_def sock_ok_def sock_later_def sock_claim_def Let_def
      split: if_splits sum.splits prod.splits dest!: applySize_state)
next
  case (InputFrame d)
  with assms show ?thesis
    by (auto simp: sock_message_def sock_input_def sock_ok_def sock_later_def split: option.splits if_splits)
next
  case (ResizeFrame c d)
  with assms show ?thesis
    by (auto simp: sock_message_def sock_ok_def sock_later_def dest!: applySize_state)
qed

lemma opened_ok:
  assumes "sock_opened sk rx res s r = (s', r', fx)" "sock_ok s" "so_opening s"
  shows "sock_ok s' \<and> (sock_later i s \<longrightarrow> sock_later i s')"
  using assms
  by (auto simp: sock_opened_def sock_ok_def sock_later_def Let_def split: sum.splits if_splits prod.splits)

lemma stop_ok:
  assumes "sock_stop sk rx st s r = (s', r', fx)" "sock_ok s"
  shows "sock_ok s' \<and> (sock_later i s \<longrightarrow> sock_later i s')"
  using assms
  by (auto simp: sock_stop_def sock_ok_def sock_later_def Let_def split: if_splits option.splits prod.splits)

lemma step_ok:
  assumes "sock_step sk rx st s s'" "sock_ok s"
  shows "sock_ok s' \<and> (sock_later i s \<longrightarrow> sock_later i s')"
  using assms
proof (induction s s' rule: sock_step.induct)
  case (step_message frame s r s' r' fx)
  then show ?case by (rule message_ok)
next
  case (step_opened s ores r s' r' fx)
  from opened_ok [OF step_opened(2,3,1)] show ?case .
next
  case (step_stop s r s' r' fx)
  then show ?case by (rule stop_ok)
qed (auto simp: sock_workspace_def sock_resized_def sock_ok_def sock_later_def split: sum.splits)

lemma steps_ok:
  assumes "(sock_step sk rx st)\<^sup>*\<^sup>* s s'" "sock_ok s"
  shows "sock_ok s' \<and> (sock_later i s \<longrightarrow> sock_later i s')"
  using assms by (induction rule: rtranclp_induct) (auto dest: step_ok)

text \<open>A socket whose \<open>open\<close> is pending, and the registry it will attach to, for the witnesses.\<close>

definition demo_opening :: socket_state where
  "demo_opening = socket_fresh\<lparr>so_opening := True\<rparr>"

definition demo_shell :: terminal_entry where
  "demo_shell = demo_entry\<lparr>te_buffer := [], te_bytes := 0, te_attaches := [], te_paused := False,
     te_inflight := False\<rparr>"

definition demo_table :: registry where
  "demo_table = \<lparr>rg_entries = [demo_shell], rg_nextOrdinal = 1\<rparr>"

lemma demo_find: "find_key te_id (te_id demo_shell) (rg_entries demo_table) = Some demo_shell"
  by (simp add: demo_table_def find_key_def)

lemma demo_shell_id [simp]: "te_id demo_shell = ''t1''"
  by (simp add: demo_shell_def demo_entry_def)

lemma demo_live: "te_state demo_shell \<noteq> Exited"
  by (simp add: demo_shell_def demo_entry_def)

lemma demo_attached:
  "reg_attach (te_id demo_shell) 2 demo_table =
     Inr (demo_table\<lparr>rg_entries := [demo_shell\<lparr>te_attaches := [2]\<rparr>]\<rparr>, demo_shell\<lparr>te_attaches := [2]\<rparr>, [])"
  by (simp add: reg_attach_def entryOf_def find_key_def requireLive_def Let_def put_entry_def
    demo_table_def demo_shell_def demo_entry_def replace_key_def)

lemma fresh_ok: "sock_ok socket_fresh"
  by (simp add: sock_ok_def socket_fresh_def)

text \<open>A socket serves at most one terminal in its life: once it has taken one on, it never owns
  another, and after it is closed it owns none.\<close>

theorem socket_owns_one:
  assumes "(sock_step sk rx st)\<^sup>*\<^sup>* socket_fresh s" "so_entryId s = Some i"
    and "(sock_step sk rx st)\<^sup>*\<^sup>* s s'"
  shows "(so_entryId s' = Some i \<and> \<not> so_closed s') \<or> (so_entryId s' = None \<and> so_closed s')"
proof -
  have ok: "sock_ok s" using steps_ok [OF assms(1) fresh_ok] by blast
  have "sock_later i s" using assms(2) by (simp add: sock_later_def)
  with steps_ok [OF assms(3) ok, of i] show ?thesis by (auto simp: sock_later_def sock_ok_def)
qed

theorem socket_owns_one_witness:
  "\<exists>s s'. (sock_step 2 (\<lambda>_. Inl []) (re_settings demo_env))\<^sup>*\<^sup>* s s' \<and> so_entryId s = Some ''t1'' \<and> so_closed s'"
proof -
  let ?step = "sock_step 2 (\<lambda>_. Inl []) (re_settings demo_env)"
  let ?open = "\<lambda>s. s\<lparr>so_requested := (80, 24), so_opening := True\<rparr>"
  have open': "?step socket_fresh (?open socket_fresh)"
    by (rule step_message [where frame = "OpenFrame ''s'' Not_Finite Not_Finite" and r = demo_table])
      (simp add: sock_message_def sock_open_def socket_fresh_def sock_claim_def dimension_def)
  obtain s r' fx where opened: "sock_opened 2 (\<lambda>_. Inl []) (Inr demo_shell) (?open socket_fresh) demo_table = (s, r', fx)"
    by (metis prod_cases3)
  then have owned: "so_entryId s = Some ''t1''"
    by (auto simp: sock_opened_def socket_fresh_def demo_attached [simplified] Let_def)
  have path: "?step\<^sup>*\<^sup>* socket_fresh s"
    using open' step_opened [OF _ opened, where st = "re_settings demo_env"] by (simp add: converse_rtranclp_into_rtranclp)
  obtain s' r'' fx' where stop: "sock_stop 2 (\<lambda>_. Inl []) (re_settings demo_env) s r' = (s', r'', fx')"
    by (metis prod_cases3)
  then have stopped: "?step\<^sup>*\<^sup>* s s'" by (intro r_into_rtranclp step_stop)
  have "so_closed s'" using stop owned by (auto simp: sock_stop_def Let_def split: if_splits prod.splits)
  with socket_owns_one [OF path owned stopped] stopped owned show ?thesis by blast
qed

definition input_all :: "string list \<Rightarrow> socket_state \<Rightarrow> registry \<Rightarrow> socket_state" where
  "input_all ds s r = foldl (\<lambda>s d. fst (sock_input d s r)) s ds"

lemma input_all_state:
  assumes "so_entryId s = None"
  shows "input_all ds s r = s\<lparr>so_typed := so_typed s @ take (MAX_PENDING_INPUT - length (so_typed s)) ds\<rparr>"
  using assms
proof (induction ds arbitrary: s)
  case (Cons d ds)
  show ?case
  proof (cases "length (so_typed s) < MAX_PENDING_INPUT")
    case True
    then have "MAX_PENDING_INPUT - length (so_typed s) = Suc (MAX_PENDING_INPUT - length (so_typed s @ [d]))"
      by simp
    with True Cons.IH [of "s\<lparr>so_typed := so_typed s @ [d]\<rparr>"] Cons.prems show ?thesis
      by (simp add: input_all_def sock_input_def)
  next
    case False
    with Cons.IH [of s] Cons.prems show ?thesis by (simp add: input_all_def sock_input_def)
  qed
qed (simp add: input_all_def)

lemma flush_writes_live:
  assumes "find_key te_id tid (rg_entries r) = Some e" "te_state e \<noteq> Exited"
  shows "flush_writes tid r ds = map (\<lambda>d. Sx_Registry (Fx_Write tid d)) ds"
  using assms by (induction ds) (auto simp: reg_write_def entryOf_def requireLive_def)

text \<open>Keystrokes typed before the shell exists, up to 256 of them, are delivered to it in order as
  soon as it does, right after \<open>ready\<close>.\<close>

theorem early_keystrokes_kept:
  assumes "so_opening s" "\<not> so_closed s" "so_entryId s = None" "so_typed s = []"
    and "reg_attach (te_id e) sk r = Inr (r', e', fx)"
    and "sock_opened sk rx (Inr e) (input_all ds s r0) r = (s', r'', fx')"
  shows "so_typed s' = [] \<and> (\<exists>pre. fx' = pre @
    sock_post s (ReadyFrame (te_pid e) (te_cwd e) (te_id e) (te_label e)) @
    map (\<lambda>d. Sx_Registry (Fx_Write (te_id e) d)) (take 256 ds))"
proof -
  let ?s = "input_all ds s r0"
  have typed: "?s = s\<lparr>so_typed := take 256 ds\<rparr>"
    using input_all_state [OF assms(3), of ds r0] assms(4) by (simp add: MAX_PENDING_INPUT_def)
  have "find_key te_id (te_id e) (rg_entries r') = Some e'" "te_state e' \<noteq> Exited"
    using attach_result [OF assms(5)] by auto
  from flush_writes_live [OF this] assms(2,5,6) show ?thesis
    unfolding typed by (auto simp: sock_opened_def Let_def sock_post_def)
qed

theorem early_keystrokes_kept_witness:
  "Sx_Registry (Fx_Write ''t1'' ''ls'') \<in> set (snd (snd
     (sock_opened 2 (\<lambda>_. Inl []) (Inr demo_shell) (input_all [''ls''] demo_opening demo_table) demo_table)))"
proof -
  have s: "so_opening demo_opening" "\<not> so_closed demo_opening" "so_entryId demo_opening = None" "so_typed demo_opening = []"
    by (simp_all add: demo_opening_def socket_fresh_def)
  obtain s' r' fx where o: "sock_opened 2 (\<lambda>_. Inl []) (Inr demo_shell) (input_all [''ls''] demo_opening demo_table) demo_table = (s', r', fx)"
    by (metis prod_cases3)
  from early_keystrokes_kept [OF s demo_attached o] o show ?thesis
    by (auto simp: demo_shell_def demo_entry_def)
qed

text \<open>A size measured while the registry is allocating the shell is lost: the socket records it
  as applied although the PTY was spawned with the older one, so asking for it again does
  nothing, and the shell keeps the stale size.\<close>

theorem resize_during_allocation_lost:
  assumes "so_opening s" "\<not> so_closed s" "so_entryId s = None"
    and "find_key te_id (te_id e) (rg_entries r) = Some e" "te_state e \<noteq> Exited"
    and resize: "sock_applySize cols rows s r0 = (s1, r0', fx1)"
    and opened: "sock_opened sk rx (Inr e) s1 r = (s2, r2, fx2)"
    and again: "sock_applySize cols rows s2 r2 = (s3, r3, fx3)"
  shows "so_applied s3 = Some (so_requested s3)
    \<and> so_requested s3 = (dimension cols (fst (so_requested s)), dimension rows (snd (so_requested s)))
    \<and> fx1 = [] \<and> fx3 = [] \<and> (\<forall>tid c w. Sx_Resize tid c w \<notin> set fx2)
    \<and> (\<exists>e'. find_key te_id (te_id e) (rg_entries r3) = Some e' \<and> te_cols e' = te_cols e \<and> te_rows e' = te_rows e)"
proof -
  let ?sz = "(dimension cols (fst (so_requested s)), dimension rows (snd (so_requested s)))"
  have s1: "s1 = s\<lparr>so_requested := ?sz\<rparr>" "fx1 = []"
    using resize assms(3) by (auto simp: sock_applySize_def Let_def)
  obtain r' e' fx where at: "reg_attach (te_id e) sk r = Inr (r', e', fx)"
    and e': "te_cols e' = te_cols e" "te_rows e' = te_rows e"
    using assms(4,5) by (auto simp: reg_attach_def entryOf_def requireLive_def Let_def)
  have s2: "s2 = s1\<lparr>so_entryId := Some (te_id e), so_applied := Some ?sz, so_opening := False, so_typed := []\<rparr>"
    "r2 = r'" and fx2: "fx2 = sink_effects sk (s1\<lparr>so_entryId := Some (te_id e), so_applied := Some ?sz, so_opening := False\<rparr>) fx
      @ sock_post s1 (ReadyFrame (te_pid e) (te_cwd e) (te_id e) (te_label e)) @ flush_writes (te_id e) r' (so_typed s1)"
    using opened at s1 assms(2) by (auto simp: sock_opened_def Let_def sock_post_def)
  have "dimension cols (dimension cols f) = dimension cols f" for cols f
    by (simp add: dimension_def split: measured.splits)
  then have s3: "s3 = s2" "r3 = r2" "fx3 = []"
    using again s1(1) s2(1) by (auto simp: sock_applySize_def Let_def split: if_splits)
  have no_resize: "Sx_Resize tid c w \<notin> set (sink_effects sk x ys)" for tid c w x ys
    by (auto simp: sink_effects_def sink_effect_def sock_post_def split: registry_effect.splits if_splits)
  have "Sx_Resize tid c w \<notin> set (flush_writes t rr ds)" for tid c w t rr ds
    by (induction ds) (auto split: sum.splits)
  with no_resize fx2 have "Sx_Resize tid c w \<notin> set fx2" for tid c w
    by (auto simp: sock_post_def)
  moreover have "find_key te_id (te_id e) (rg_entries r3) = Some e'"
    using attach_result [OF at] s2(2) s3(2) by simp
  ultimately show ?thesis using e' s1 s2(1) s3 by simp
qed

theorem resize_during_allocation_lost_witness:
  "\<exists>s1 r1. sock_applySize (Finite 100) (Finite 30) demo_opening demo_table = (s1, r1, [])
    \<and> so_requested s1 = (100, 30)"
proof -
  have s: "so_opening demo_opening" "\<not> so_closed demo_opening" "so_entryId demo_opening = None"
    by (simp_all add: demo_opening_def socket_fresh_def)
  obtain s1 r1 fx1 where a: "sock_applySize (Finite 100) (Finite 30) demo_opening demo_table = (s1, r1, fx1)"
    by (metis prod_cases3)
  obtain s2 r2 fx2 where b: "sock_opened 2 (\<lambda>_. Inl []) (Inr demo_shell) s1 demo_table = (s2, r2, fx2)"
    by (metis prod_cases3)
  obtain s3 r3 fx3 where c: "sock_applySize (Finite 100) (Finite 30) s2 r2 = (s3, r3, fx3)"
    by (metis prod_cases3)
  from resize_during_allocation_lost [OF s demo_find demo_live a b c] a show ?thesis
    by (auto simp: sock_applySize_def demo_opening_def socket_fresh_def dimension_def MAX_DIMENSION_def)
qed

text \<open>Closing a socket detaches its terminal once and never ends a live one; a second close does
  nothing.\<close>

theorem close_detaches_once:
  assumes "so_entryId s = Some i" "\<not> so_closed s"
    and "find_key te_id i (rg_entries r) = Some e" "te_state e \<noteq> Exited"
    and "sock_stop sk rx st s r = (s1, r1, fx1)"
    and "sock_stop sk rx st s1 r1' = (s2, r2, fx2)"
  shows "r1 = fst (reg_detach rx st i sk r) \<and> fx1 = [] \<and> so_entryId s1 = None
    \<and> (\<exists>e'. find_key te_id i (rg_entries r1) = Some e' \<and> te_state e' \<noteq> Exited)
    \<and> s2 = s1 \<and> r2 = r1' \<and> fx2 = []"
proof -
  have s1: "s1 = s\<lparr>so_closed := True, so_entryId := None\<rparr>" "r1 = fst (reg_detach rx st i sk r)"
    "fx1 = sink_effects sk s1 (snd (reg_detach rx st i sk r))"
    using assms(1,2,5) by (auto simp: sock_stop_def Let_def split: prod.splits)
  have id: "te_id e = i" using find_key_Some [OF assms(3)] by simp
  have d: "snd (reg_detach rx st i sk r) = []"
    "\<exists>e'. find_key te_id i (rg_entries (fst (reg_detach rx st i sk r))) = Some e' \<and> te_state e' \<noteq> Exited"
    using assms(3,4) id by (auto simp: reg_detach_def Let_def put_entry_def store_simps)
  have "s2 = s1 \<and> r2 = r1' \<and> fx2 = []"
    using assms(6) s1(1) by (auto simp: sock_stop_def)
  with s1 d show ?thesis by (auto simp: sink_effects_def)
qed

theorem close_detaches_once_witness:
  "\<exists>s1 r1. sock_stop 2 (\<lambda>_. Inl []) (re_settings demo_env) (socket_fresh\<lparr>so_entryId := Some ''t1''\<rparr>) demo_table
     = (s1, r1, []) \<and> so_entryId s1 = None"
proof -
  let ?s = "socket_fresh\<lparr>so_entryId := Some ''t1''\<rparr>"
  have s: "so_entryId ?s = Some ''t1''" "\<not> so_closed ?s" by (simp_all add: socket_fresh_def)
  have f: "find_key te_id ''t1'' (rg_entries demo_table) = Some demo_shell"
    using demo_find by (simp add: demo_shell_def demo_entry_def)
  obtain s1 r1 fx1 where a: "sock_stop 2 (\<lambda>_. Inl []) (re_settings demo_env) ?s demo_table = (s1, r1, fx1)"
    by (metis prod_cases3)
  obtain s2 r2 fx2 where b: "sock_stop 2 (\<lambda>_. Inl []) (re_settings demo_env) s1 r1 = (s2, r2, fx2)"
    by (metis prod_cases3)
  from close_detaches_once [OF s f demo_live a b] a show ?thesis by simp
qed

end
