(* ===== verification/Terminal_Tool.thy ===== *)
theory Terminal_Tool
  imports Registry_Properties
begin

section \<open>The model-facing terminal tool: tools/terminal.ts\<close>

text \<open>
  The one tool a model drives terminals with. An argument that is absent is \<open>None\<close>; the calling
  Session comes from the run context, \<open>None\<close> when the run has no agent. A call answers at once,
  or registers a wait whose result arrives as a later \<open>Fx_Wait\<close>.
\<close>

datatype action = Act_list | Act_read | Act_send | Act_keys | Act_wait

record tool_args =
  ta_action :: action
  ta_terminal :: "term_id option"
  ta_text :: "string option"
  ta_enter :: "bool option"
  ta_keys :: "string list option"
  ta_lines :: "int option"
  ta_offset :: "int option"
  ta_match :: "string option"
  ta_regex :: "string option"
  ta_timeoutMs :: "int option"

datatype tool_value =
    Value_List "terminal_view list"
  | Value_Read terminal_read
  | Value_Write term_id nat nat
  | Value_Wait terminal_wait

definition action_name :: "action \<Rightarrow> string" where
  "action_name a = (case a of Act_list \<Rightarrow> ''list'' | Act_read \<Rightarrow> ''read'' | Act_send \<Rightarrow> ''send''
     | Act_keys \<Rightarrow> ''keys'' | Act_wait \<Rightarrow> ''wait'')"

text \<open>\<open>PARAM_ACTIONS\<close>: for each optional parameter whether it is present, and its actions.\<close>

definition PARAM_ACTIONS :: "(string \<times> (tool_args \<Rightarrow> bool) \<times> action list) list" where
  "PARAM_ACTIONS =
     [(''terminal'', \<lambda>a. ta_terminal a \<noteq> None, [Act_read, Act_send, Act_keys, Act_wait]),
      (''text'', \<lambda>a. ta_text a \<noteq> None, [Act_send]),
      (''enter'', \<lambda>a. ta_enter a \<noteq> None, [Act_send]),
      (''keys'', \<lambda>a. ta_keys a \<noteq> None, [Act_keys]),
      (''lines'', \<lambda>a. ta_lines a \<noteq> None, [Act_read]),
      (''offset'', \<lambda>a. ta_offset a \<noteq> None, [Act_read, Act_wait]),
      (''match'', \<lambda>a. ta_match a \<noteq> None, [Act_wait]),
      (''regex'', \<lambda>a. ta_regex a \<noteq> None, [Act_wait]),
      (''timeoutMs'', \<lambda>a. ta_timeoutMs a \<noteq> None, [Act_wait])]"

definition rejectForeign :: "tool_args \<Rightarrow> action \<Rightarrow> string option" where
  "rejectForeign args act =
     (case List.find (\<lambda>(name, present, allowed). present args \<and> act \<notin> set allowed) PARAM_ACTIONS of
        None \<Rightarrow> None
      | Some (name, present, allowed) \<Rightarrow>
          Some (quoted name @ '' is valid only with action '' @
            join_with '' or '' (map action_name allowed) @ '', not '' @ quoted (action_name act)))"

subsection \<open>Rendering\<close>

definition state_name :: "term_state \<Rightarrow> string" where
  "state_name s = (case s of Running \<Rightarrow> ''running'' | Detached \<Rightarrow> ''detached'' | Exited \<Rightarrow> ''exited'')"

definition reason_name :: "wait_reason \<Rightarrow> string" where
  "reason_name r = (case r of Reason_match \<Rightarrow> ''match'' | Reason_exit \<Rightarrow> ''exit'' | Reason_timeout \<Rightarrow> ''timeout'')"

definition renderPage :: "term_id \<Rightarrow> nat \<Rightarrow> string \<Rightarrow> string \<Rightarrow> string" where
  "renderPage tid offset txt label =
     (let marker = ''['' @ tid @ (if label = [] then [] else '' '' @ label) @ '' offset '' @ str_nat offset @ '']''
      in if txt = [] then marker else marker @ CHR 0x0A # txt)"

definition middle_dot :: string where
  "middle_dot = '' '' @ [CHR 0xC2, CHR 0xB7] @ '' ''"

definition renderValue :: "tool_value \<Rightarrow> string" where
  "renderValue v =
     (case v of
        Value_List [] \<Rightarrow> ''No terminal is open in this session.''
      | Value_List ts \<Rightarrow>
          join_with [CHR 0x0A] (map (\<lambda>t. tv_id t @ '' ('' @ tv_label t @ '') '' @ state_name (tv_state t) @
            middle_dot @ tv_cwd t @ middle_dot @ tv_machine t) ts)
      | Value_Write tid bs ks \<Rightarrow>
          (if ks = 0 then ''Wrote '' @ str_nat bs @ '' byte(s) to '' @ tid @ ''.''
           else ''Sent '' @ str_nat ks @ '' key(s) to '' @ tid @ ''.'')
      | Value_Wait w \<Rightarrow> renderPage (tw_id w) (tw_offset w) (tw_text w) (reason_name (tw_reason w))
      | Value_Read p \<Rightarrow> renderPage (tr_id p) (tr_offset p) (tr_text p)
          (if tr_text p = [] then ''no output'' else if tr_truncated p then ''truncated'' else []))"

subsection \<open>Execution\<close>

record tool_result =
  tx_value :: "tool_value option"
  tx_registry :: registry
  tx_effects :: "registry_effect list"

text \<open>One action on the terminal the Session was granted.\<close>

definition tool_read :: "tool_args \<Rightarrow> term_id \<Rightarrow> registry \<Rightarrow> string + tool_result" where
  "tool_read args tid r =
     bind_res (reg_read_id tid (ta_offset args) (ta_lines args) r) (\<lambda>p.
       Inr \<lparr>tx_value = Some (Value_Read p), tx_registry = r, tx_effects = []\<rparr>)"

definition tool_send :: "tool_args \<Rightarrow> term_id \<Rightarrow> registry \<Rightarrow> string + tool_result" where
  "tool_send args tid r =
     (case ta_text args of
        None \<Rightarrow> Inl (''send requires '' @ quoted ''text'')
      | Some txt \<Rightarrow>
          (let payload = (if ta_enter args = Some False then txt else txt @ [CHR 0x0D])
           in bind_res (reg_write tid payload r) (\<lambda>(n, fx).
                Inr \<lparr>tx_value = Some (Value_Write tid n 0), tx_registry = r, tx_effects = fx\<rparr>)))"

definition tool_keys :: "tool_args \<Rightarrow> term_id \<Rightarrow> registry \<Rightarrow> string + tool_result" where
  "tool_keys args tid r =
     (case ta_keys args of
        Some (k # ks) \<Rightarrow>
          bind_res (reg_keys tid (k # ks) r) (\<lambda>((n, count), fx).
            Inr \<lparr>tx_value = Some (Value_Write tid n count), tx_registry = r, tx_effects = fx\<rparr>)
      | _ \<Rightarrow> Inl (''keys requires a non-empty '' @ quoted ''keys'' @ '' array''))"

definition tool_wait ::
    "regex_engine \<Rightarrow> wait_id \<Rightarrow> bool \<Rightarrow> tool_args \<Rightarrow> term_id \<Rightarrow> registry \<Rightarrow> string + tool_result" where
  "tool_wait rx wid aborted args tid r =
     (if (ta_match args = None) = (ta_regex args = None)
      then Inl (if ta_match args = None
        then ''wait requires exactly one of '' @ quoted ''match'' @ '' and '' @ quoted ''regex''
        else ''wait accepts only one of '' @ quoted ''match'' @ '' and '' @ quoted ''regex'')
      else bind_res (reg_wait rx tid wid (ta_offset args) (ta_match args) (ta_regex args) aborted r)
        (\<lambda>(r', fx). Inr \<lparr>tx_value = None, tx_registry = r', tx_effects = fx\<rparr>))"

definition tool_execute ::
    "regex_engine \<Rightarrow> wait_id \<Rightarrow> bool \<Rightarrow> session_id option \<Rightarrow> tool_args \<Rightarrow> registry \<Rightarrow> string + tool_result" where
  "tool_execute rx wid aborted agent args r =
     (case agent of
        None \<Rightarrow> Inl ''the terminal tool requires an Agent Session''
      | Some sessionId \<Rightarrow>
     (case rejectForeign args (ta_action args) of
        Some err \<Rightarrow> Inl err
      | None \<Rightarrow>
     (if ta_action args = Act_list
      then Inr \<lparr>tx_value = Some (Value_List (listFor sessionId r)), tx_registry = r, tx_effects = []\<rparr>
      else bind_res (requireOwned sessionId (ta_terminal args) r) (\<lambda>entry.
        if ta_action args = Act_read then tool_read args (te_id entry) r
        else if ta_action args = Act_send then tool_send args (te_id entry) r
        else if ta_action args = Act_keys then tool_keys args (te_id entry) r
        else tool_wait rx wid aborted args (te_id entry) r))))"

lemma tool_execute_granted:
  assumes "tool_execute rx wid aborted (Some s) args r = Inr res" "ta_action args \<noteq> Act_list"
  obtains e where "requireOwned s (ta_terminal args) r = Inr e"
    "tool_read args (te_id e) r = Inr res \<or> tool_send args (te_id e) r = Inr res \<or>
     tool_keys args (te_id e) r = Inr res \<or> tool_wait rx wid aborted args (te_id e) r = Inr res"
  using assms by (auto simp: tool_execute_def bind_res_Inr_iff split: option.splits if_splits)

subsection \<open>Properties\<close>

text \<open>Which terminal an effect acts on; a settled wait acts on none.\<close>

definition effect_terminal :: "registry_effect \<Rightarrow> term_id option" where
  "effect_terminal fx = (case fx of Fx_Write tid _ \<Rightarrow> Some tid | Fx_Terminate tid \<Rightarrow> Some tid
     | Fx_Pause tid \<Rightarrow> Some tid | Fx_Resume tid \<Rightarrow> Some tid | _ \<Rightarrow> None)"

definition only_waiters_differ :: "session_id \<Rightarrow> terminal_entry \<Rightarrow> terminal_entry \<Rightarrow> bool" where
  "only_waiters_differ s e e' \<longleftrightarrow>
     e' = e\<lparr>te_waiters := te_waiters e'\<rparr> \<and> (te_waiters e' \<noteq> te_waiters e \<longrightarrow> te_sessionId e = s)"

lemma wait_effects:
  assumes "reg_wait rx tid wid offset mt regex aborted r = Inr (r', fx)"
  shows "\<forall>f \<in> set fx. effect_terminal f = None"
  using assms by (auto simp: reg_wait_def entryOf_def Let_def bind_res_Inr_iff effect_terminal_def
    split: option.splits if_splits)

lemma wait_table:
  assumes "reg_wait rx tid wid offset mt regex aborted r = Inr (r', fx)"
    and "find_key te_id tid (rg_entries r) = Some e"
  shows "r' = r \<or> (\<exists>ws. r' = put_entry (e\<lparr>te_waiters := ws\<rparr>) r)"
  using assms by (auto simp: reg_wait_def entryOf_def Let_def bind_res_Inr_iff
    split: option.splits if_splits)

lemma put_waiters:
  assumes "distinct (map te_id es)" "e \<in> set es" "te_sessionId e = s"
  shows "list_all2 (only_waiters_differ s) es (replace_key te_id (e\<lparr>te_waiters := ws\<rparr>) es)"
proof (rule list_all2_all_nthI)
  fix i assume "i < length es"
  then show "only_waiters_differ s (es ! i) (replace_key te_id (e\<lparr>te_waiters := ws\<rparr>) es ! i)"
    using assms by (auto simp: replace_key_def only_waiters_differ_def distinct_map inj_on_def)
qed (simp add: replace_key_def)

lemma requireOwned_grants_alt:
  "requireOwned s tid r = Inr e \<Longrightarrow> e \<in> set (rg_entries r) \<and> te_sessionId e = s \<and> te_state e \<noteq> Exited"
proof (cases tid)
  case None
  let ?live = "filter (\<lambda>x. te_state x \<noteq> Exited) (filter (\<lambda>e. te_sessionId e = s) (rg_entries r))"
  assume "requireOwned s tid r = Inr e"
  with None have "?live \<noteq> []" "e = hd ?live" by (auto simp: requireOwned_def Let_def split: if_splits)
  then have "e \<in> set ?live" by (metis hd_in_set)
  then show ?thesis by simp
qed (auto simp: requireOwned_def requireLive_def Let_def split: option.splits if_splits dest!: find_key_Some)

text \<open>Whatever a model passes, a tool call neither opens nor ends a terminal and changes no entry
  but by adding a wait to one of the calling Session's own; every byte it writes goes to a live
  terminal of that Session.\<close>

theorem tool_confined:
  assumes run: "reg_run env evs r" and call: "tool_execute rx wid aborted (Some s) args r = Inr res"
  shows "list_all2 (only_waiters_differ s) (rg_entries r) (rg_entries (tx_registry res))
    \<and> rg_nextOrdinal (tx_registry res) = rg_nextOrdinal r
    \<and> (\<forall>fx \<in> set (tx_effects res). \<forall>tid. effect_terminal fx = Some tid \<longrightarrow>
        (\<exists>bs. fx = Fx_Write tid bs) \<and>
        (\<exists>e \<in> set (rg_entries r). te_id e = tid \<and> te_sessionId e = s \<and> te_state e \<noteq> Exited))"
proof -
  have refl: "list_all2 (only_waiters_differ s) es es" for es
    by (simp add: list_all2_same only_waiters_differ_def)
  have d: "distinct (map te_id (rg_entries r))"
    using run_inv [OF run] by (simp add: reg_inv_def ids_ok_distinct)
  show ?thesis
  proof (cases "ta_action args = Act_list")
    case True
    with call refl show ?thesis by (auto simp: tool_execute_def split: option.splits)
  next
    case False
    obtain e where own: "requireOwned s (ta_terminal args) r = Inr e"
      and act: "tool_read args (te_id e) r = Inr res \<or> tool_send args (te_id e) r = Inr res \<or>
        tool_keys args (te_id e) r = Inr res \<or> tool_wait rx wid aborted args (te_id e) r = Inr res"
      using tool_execute_granted [OF call False] by blast
    have e: "e \<in> set (rg_entries r)" "te_sessionId e = s" "te_state e \<noteq> Exited"
      using requireOwned_grants_alt [OF own] by auto
    have f: "find_key te_id (te_id e) (rg_entries r) = Some e" using find_entry [OF run e(1)] .
    have quiet: ?thesis if "tx_registry res = r" "\<forall>fx \<in> set (tx_effects res). \<exists>bs. fx = Fx_Write (te_id e) bs"
    proof (intro conjI ballI allI impI)
      fix fx tid assume "fx \<in> set (tx_effects res)" "effect_terminal fx = Some tid"
      with that(2) obtain bs where fx: "fx = Fx_Write (te_id e) bs" "tid = te_id e"
        by (auto simp: effect_terminal_def)
      show "\<exists>bs. fx = Fx_Write tid bs" using fx by simp
      show "\<exists>e \<in> set (rg_entries r). te_id e = tid \<and> te_sessionId e = s \<and> te_state e \<noteq> Exited"
        using fx e by auto
    qed (use that(1) refl in simp_all)
    from act show ?thesis
    proof (elim disjE)
      assume "tool_wait rx wid aborted args (te_id e) r = Inr res"
      then obtain r' fx where w: "reg_wait rx (te_id e) wid (ta_offset args) (ta_match args) (ta_regex args) aborted r = Inr (r', fx)"
        and res: "res = \<lparr>tx_value = None, tx_registry = r', tx_effects = fx\<rparr>"
        by (auto simp: tool_wait_def bind_res_Inr_iff split: if_splits)
      from wait_table [OF w f] have "list_all2 (only_waiters_differ s) (rg_entries r) (rg_entries r')
          \<and> rg_nextOrdinal r' = rg_nextOrdinal r"
        using refl put_waiters [OF d e(1,2)] by (auto simp: put_entry_def)
      with wait_effects [OF w] res show ?thesis by auto
    next
      assume "tool_read args (te_id e) r = Inr res"
      then show ?thesis by (intro quiet) (auto simp: tool_read_def bind_res_Inr_iff)
    next
      assume "tool_send args (te_id e) r = Inr res"
      then show ?thesis
        by (intro quiet) (auto simp: tool_send_def reg_write_def Let_def bind_res_Inr_iff split: option.splits)
    next
      assume "tool_keys args (te_id e) r = Inr res"
      then show ?thesis
        by (intro quiet) (auto simp: tool_keys_def reg_keys_def bind_res_Inr_iff split: option.splits list.splits)
    qed
  qed
qed

definition demo_args :: tool_args where
  "demo_args = \<lparr>ta_action = Act_send, ta_terminal = None, ta_text = Some ''ls'', ta_enter = None,
     ta_keys = None, ta_lines = None, ta_offset = None, ta_match = None, ta_regex = None,
     ta_timeoutMs = None\<rparr>"

theorem tool_confined_witness:
  "\<exists>res. tool_execute (\<lambda>_. Inl []) 9 False (Some ''s'') demo_args \<lparr>rg_entries = [demo_entry], rg_nextOrdinal = 1\<rparr> = Inr res
    \<and> tx_effects res = [Fx_Write ''t1'' [CHR ''l'', CHR ''s'', CHR 0x0D]]
    \<and> list_all2 (only_waiters_differ ''s'') [demo_entry] (rg_entries (tx_registry res))"
proof -
  let ?r = "\<lparr>rg_entries = [demo_entry], rg_nextOrdinal = 1\<rparr>"
  let ?res = "\<lparr>tx_value = Some (Value_Write ''t1'' 3 0), tx_registry = ?r,
      tx_effects = [Fx_Write ''t1'' [CHR ''l'', CHR ''s'', CHR 0x0D]]\<rparr>"
  have "rejectForeign demo_args Act_send = None"
    by (simp add: rejectForeign_def PARAM_ACTIONS_def demo_args_def)
  then have call: "tool_execute (\<lambda>_. Inl []) 9 False (Some ''s'') demo_args ?r = Inr ?res"
    by (simp add: tool_execute_def tool_send_def demo_args_def requireOwned_def demo_entry_def reg_write_def entryOf_def
      find_key_def requireLive_def Let_def)
  from tool_confined [OF demo_run call] call show ?thesis by simp
qed

end
