(* ===== verification/Base64.thy ===== *)
theory Base64
  imports Byte_Windows
begin

section \<open>Base64 and base64url\<close>

text \<open>
  \<open>buffer.toString('base64')\<close>, \<open>toString('base64url')\<close> and \<open>Buffer.from(text, 'base64')\<close>, which
  the wire carries bytes in and anchor ids are built with. As Node's, the decoder takes both
  alphabets, skips characters of neither and stops at the first \<open>=\<close>.
\<close>

definition b64_alphabet :: "bool \<Rightarrow> string" where
  "b64_alphabet url =
     ''ABCDEFGHIJKLMNOPQRSTUVWXYZabcdefghijklmnopqrstuvwxyz0123456789'' @ (if url then ''-_'' else ''+/'')"

definition b64_char :: "bool \<Rightarrow> nat \<Rightarrow> char" where
  "b64_char url i = b64_alphabet url ! i"

definition b64_val :: "char \<Rightarrow> nat option" where
  "b64_val c =
     (if c = CHR ''-'' then Some 62 else if c = CHR ''_'' then Some 63
      else map_of (zip (b64_alphabet False) [0..<64]) c)"

definition byte_of :: "nat \<Rightarrow> char" where
  "byte_of n = char_of n"

definition byte_val :: "char \<Rightarrow> nat" where
  "byte_val c = of_char c"

text \<open>Three bytes to four sextets, and back.\<close>

fun to_sextets :: "bytes \<Rightarrow> nat list" where
  "to_sextets [] = []"
| "to_sextets [a] = [byte_val a div 4, byte_val a mod 4 * 16]"
| "to_sextets [a, b] =
     [byte_val a div 4, byte_val a mod 4 * 16 + byte_val b div 16, byte_val b mod 16 * 4]"
| "to_sextets (a # b # c # rest) =
     byte_val a div 4 # (byte_val a mod 4 * 16 + byte_val b div 16) #
     (byte_val b mod 16 * 4 + byte_val c div 64) # (byte_val c mod 64) # to_sextets rest"

fun of_sextets :: "nat list \<Rightarrow> bytes" where
  "of_sextets [] = []"
| "of_sextets [x] = []"
| "of_sextets [x, y] = [byte_of (x * 4 + y div 16)]"
| "of_sextets [x, y, z] = [byte_of (x * 4 + y div 16), byte_of (y mod 16 * 16 + z div 4)]"
| "of_sextets (x # y # z # w # rest) =
     byte_of (x * 4 + y div 16) # byte_of (y mod 16 * 16 + z div 4) # byte_of (z mod 4 * 64 + w) #
     of_sextets rest"

definition base64_encode :: "bytes \<Rightarrow> string" where
  "base64_encode bs =
     map (b64_char False) (to_sextets bs) @
     (if length bs mod 3 = 1 then ''=='' else if length bs mod 3 = 2 then ''='' else [])"

definition base64url_encode :: "bytes \<Rightarrow> string" where
  "base64url_encode bs = map (b64_char True) (to_sextets bs)"

definition base64_decode :: "string \<Rightarrow> bytes" where
  "base64_decode s = of_sextets (List.map_filter b64_val (takeWhile (\<lambda>c. c \<noteq> CHR ''='') s))"

lemma byte_val_less: "byte_val c < 256"
  by (simp add: byte_val_def)

lemma byte_of_val [simp]: "byte_of (byte_val c) = c"
  by (simp add: byte_of_def byte_val_def)

lemma sextets_less: "x \<in> set (to_sextets bs) \<Longrightarrow> x < 64"
proof (induction bs rule: to_sextets.induct)
  case (4 a b c rest)
  then show ?case using byte_val_less [of a] byte_val_less [of b] byte_val_less [of c]
    by (auto simp: less_mult_imp_div_less)
next
  case (2 a)
  then show ?case using byte_val_less [of a] by auto
next
  case (3 a b)
  then show ?case using byte_val_less [of a] byte_val_less [of b] by auto
qed simp

lemma join_high: "byte_val a div 4 * 4 + (byte_val a mod 4 * 16 + byte_val b div 16) div 16 = byte_val a"
proof -
  have "byte_val b div 16 < 16" using byte_val_less [of b] by simp
  then have "(byte_val a mod 4 * 16 + byte_val b div 16) div 16 = byte_val a mod 4" by simp
  then show ?thesis by simp
qed

lemma join_mid:
  "(byte_val a mod 4 * 16 + byte_val b div 16) mod 16 * 16 + (byte_val b mod 16 * 4 + byte_val c div 64) div 4 = byte_val b"
proof -
  have "byte_val b div 16 < 16" "byte_val c div 64 < 4"
    using byte_val_less [of b] byte_val_less [of c] by simp_all
  then have "(byte_val a mod 4 * 16 + byte_val b div 16) mod 16 = byte_val b div 16"
    "(byte_val b mod 16 * 4 + byte_val c div 64) div 4 = byte_val b mod 16" by simp_all
  then show ?thesis by simp
qed

lemma join_low: "(byte_val b mod 16 * 4 + byte_val c div 64) mod 4 * 64 + byte_val c mod 64 = byte_val c"
proof -
  have "byte_val c div 64 < 4" using byte_val_less [of c] by simp
  then have "(byte_val b mod 16 * 4 + byte_val c div 64) mod 4 = byte_val c div 64" by simp
  then show ?thesis by simp
qed

lemma of_to_sextets: "of_sextets (to_sextets bs) = bs"
proof (induction bs rule: to_sextets.induct)
  case (2 a)
  then show ?case using byte_val_less [of a] by simp
next
  case (3 a b)
  have "byte_val b div 16 < 16" using byte_val_less [of b] by simp
  then show ?case using join_high [of a b] by simp
next
  case (4 a b c rest)
  then show ?case using join_high [of a b] join_mid [of a b c] join_low [of b c] by simp
qed simp

lemma alphabet_length: "length (b64_alphabet url) = 64"
  by (simp add: b64_alphabet_def)

lemma alphabet_distinct: "distinct (b64_alphabet False)"
  by (simp add: b64_alphabet_def)

lemma alphabet_specials:
  "CHR ''-'' \<notin> set (b64_alphabet False)" "CHR ''_'' \<notin> set (b64_alphabet False)"
  "CHR ''='' \<notin> set (b64_alphabet url)"
  by (simp_all add: b64_alphabet_def)

lemma b64_val_plain: "i < 64 \<Longrightarrow> b64_val (b64_char False i) = Some i"
proof -
  assume i: "i < 64"
  then have "b64_alphabet False ! i \<in> set (b64_alphabet False)" by (simp add: alphabet_length)
  moreover have "map_of (zip (b64_alphabet False) [0..<64]) (b64_alphabet False ! i) = Some ([0..<64] ! i)"
    using i by (intro map_of_zip_nth alphabet_distinct) (simp_all add: alphabet_length)
  ultimately show ?thesis using i alphabet_specials(1,2) by (auto simp: b64_val_def b64_char_def)
qed

lemma b64_val_char: "i < 64 \<Longrightarrow> b64_val (b64_char url i) = Some i \<and> b64_char url i \<noteq> CHR ''=''"
proof -
  assume i: "i < 64"
  have "b64_val (b64_char True i) = Some i"
  proof (cases "i < 62")
    case True
    then have "b64_char True i = b64_char False i"
      unfolding b64_char_def b64_alphabet_def by (subst nth_append, subst nth_append) simp
    with b64_val_plain i show ?thesis by simp
  next
    case False
    with i have "i = 62 \<or> i = 63" by auto
    then show ?thesis by (auto simp: b64_char_def b64_alphabet_def b64_val_def)
  qed
  moreover have "b64_char url i \<in> set (b64_alphabet url)"
    using i by (simp add: b64_char_def alphabet_length)
  then have "b64_char url i \<noteq> CHR ''=''" using alphabet_specials(3) by metis
  ultimately show ?thesis using b64_val_plain [OF i] by (cases url) auto
qed

lemma map_filter_b64: "\<forall>x \<in> set xs. x < 64 \<Longrightarrow> List.map_filter b64_val (map (b64_char url) xs) = xs"
  by (induction xs) (auto simp: List.map_filter_def b64_val_char)

lemma takeWhile_b64: "\<forall>x \<in> set xs. x < 64 \<Longrightarrow>
  takeWhile (\<lambda>c. c \<noteq> CHR ''='') (map (b64_char url) xs @ ys) = map (b64_char url) xs @ takeWhile (\<lambda>c. c \<noteq> CHR ''='') ys"
  by (induction xs) (auto simp: b64_val_char)

lemma base64_roundtrip [simp]: "base64_decode (base64_encode bs) = bs"
proof -
  have s: "\<forall>x \<in> set (to_sextets bs). x < 64" using sextets_less by blast
  have "base64_decode (base64_encode bs) = of_sextets (List.map_filter b64_val (map (b64_char False) (to_sextets bs)))"
    unfolding base64_decode_def base64_encode_def takeWhile_b64 [OF s] by simp
  then show ?thesis using s by (simp add: map_filter_b64 of_to_sextets)
qed

lemma base64url_roundtrip [simp]: "base64_decode (base64url_encode bs) = bs"
proof -
  have s: "\<forall>x \<in> set (to_sextets bs). x < 64" using sextets_less by blast
  have "takeWhile (\<lambda>c. c \<noteq> CHR ''='') (map (b64_char True) (to_sextets bs)) = map (b64_char True) (to_sextets bs)"
    using takeWhile_b64 [OF s, of True "[]"] by (simp only: append_Nil2 takeWhile.simps)
  then have "base64_decode (base64url_encode bs) = of_sextets (List.map_filter b64_val (map (b64_char True) (to_sextets bs)))"
    by (simp only: base64_decode_def base64url_encode_def)
  with s show ?thesis by (simp only: map_filter_b64 of_to_sextets)
qed

lemma base64url_chars: "c \<in> set (base64url_encode bs) \<Longrightarrow> c \<in> set (b64_alphabet True)"
proof -
  assume "c \<in> set (base64url_encode bs)"
  then obtain x where "x < 64" "c = b64_char True x"
    using sextets_less by (auto simp: base64url_encode_def)
  then show ?thesis by (simp add: b64_char_def alphabet_length)
qed

end
