(* ===== verification/Routing_Subprocess.thy ===== *)
theory Routing_Subprocess
  imports Routing Utf8 Base64
begin

section \<open>The subprocess router: plugin/routing/subprocess.ts\<close>

text \<open>
  Where a process runs, the argv it runs with, the proxy handle of a remote process, and the
  local mirror of its collected output, which is fetched from the daemon's window (modelled in
  \<open>Byte_Windows\<close>). The composed local runtime, the daemon's answers and the lookup of the
  node's program host are parameters.
\<close>

subsection \<open>CollectedMirror\<close>

record collected_mirror =
  cm_chunks :: "bytes list"
  cm_start :: nat
  cm_end :: nat
  cm_dropped :: bool
  cm_maxBytes :: nat

definition cm_new :: "nat \<Rightarrow> collected_mirror" where
  "cm_new maxBytes = \<lparr>cm_chunks = [], cm_start = 0, cm_end = 0, cm_dropped = False, cm_maxBytes = maxBytes\<rparr>"

definition cm_reset :: "bytes \<Rightarrow> nat \<Rightarrow> collected_mirror \<Rightarrow> collected_mirror" where
  "cm_reset bs nextOffset m =
     m\<lparr>cm_chunks := (if length bs > 0 then [bs] else []), cm_start := nextOffset - length bs,
       cm_end := nextOffset, cm_dropped := True\<rparr>"

text \<open>The loop of \<open>push\<close>.\<close>

fun cm_trim :: "bytes list \<Rightarrow> collected_mirror \<Rightarrow> collected_mirror" where
  "cm_trim [] m = m\<lparr>cm_chunks := []\<rparr>"
| "cm_trim (head # chunks) m =
     (let retained = cm_end m - cm_start m in
      if retained > cm_maxBytes m then
        (let overflow = retained - cm_maxBytes m in
         if length head \<le> overflow
         then cm_trim chunks (m\<lparr>cm_start := cm_start m + length head, cm_dropped := True\<rparr>)
         else m\<lparr>cm_chunks := drop overflow head # chunks, cm_start := cm_start m + overflow,
                cm_dropped := True\<rparr>)
      else m\<lparr>cm_chunks := head # chunks\<rparr>)"

definition cm_push :: "bytes \<Rightarrow> collected_mirror \<Rightarrow> collected_mirror" where
  "cm_push bs m =
     (if length bs = 0 then m
      else cm_trim (cm_chunks m @ [bs]) (m\<lparr>cm_end := cm_end m + length bs\<rparr>))"

definition cm_readFrom :: "nat \<Rightarrow> collected_mirror \<Rightarrow> string \<times> nat \<times> bool" where
  "cm_readFrom fromByte m =
     (if fromByte < cm_start m then (utf8_text (concat (cm_chunks m)), cm_end m, True)
      else if fromByte \<ge> cm_end m then ([], cm_end m, cm_dropped m)
      else (utf8_text (drop (fromByte - cm_start m) (concat (cm_chunks m))), cm_end m, cm_dropped m))"

definition cm_window :: "collected_mirror \<Rightarrow> bytes" where
  "cm_window m = concat (cm_chunks m)"

definition cm_ok :: "nat \<Rightarrow> collected_mirror \<Rightarrow> bool" where
  "cm_ok cap m \<longleftrightarrow> cm_maxBytes m = cap \<and> cm_end m = cm_start m + length (cm_window m)
     \<and> length (cm_window m) \<le> cap"

lemma cm_trim_spec:
  assumes "cm_end m = cm_start m + length (concat chunks)"
  shows "cm_window (cm_trim chunks m) = tail_of (cm_maxBytes m) (concat chunks)
    \<and> cm_maxBytes (cm_trim chunks m) = cm_maxBytes m \<and> cm_end (cm_trim chunks m) = cm_end m
    \<and> cm_start (cm_trim chunks m) = cm_start m + (length (concat chunks) - cm_maxBytes m)
    \<and> (cm_dropped (cm_trim chunks m) \<longleftrightarrow> cm_dropped m \<or> length (concat chunks) > cm_maxBytes m)"
  using assms
proof (induction chunks m rule: cm_trim.induct)
  case (1 m)
  then show ?case by (simp add: cm_window_def tail_of_def)
next
  case (2 head chunks m)
  let ?r = "length head + length (concat chunks)"
  have r: "cm_end m - cm_start m = ?r" using 2(2) by simp
  show ?case
  proof (cases "?r > cm_maxBytes m \<and> length head \<le> ?r - cm_maxBytes m")
    case True
    let ?m = "m\<lparr>cm_start := cm_start m + length head, cm_dropped := True\<rparr>"
    have "cm_end ?m = cm_start ?m + length (concat chunks)" using 2(2) by simp
    with 2(1) [OF refl _ refl] True r have ih:
      "cm_window (cm_trim chunks ?m) = tail_of (cm_maxBytes m) (concat chunks)
      \<and> cm_maxBytes (cm_trim chunks ?m) = cm_maxBytes m \<and> cm_end (cm_trim chunks ?m) = cm_end m
      \<and> cm_start (cm_trim chunks ?m) = cm_start m + length head + (length (concat chunks) - cm_maxBytes m)
      \<and> cm_dropped (cm_trim chunks ?m)" by simp
    have "cm_trim (head # chunks) m = cm_trim chunks ?m" using True r by (simp add: Let_def)
    moreover have "tail_of (cm_maxBytes m) (head @ concat chunks) = tail_of (cm_maxBytes m) (concat chunks)"
      using True by (simp add: tail_of_def)
    moreover have "length head + (length (concat chunks) - cm_maxBytes m) = ?r - cm_maxBytes m"
      using True by auto
    ultimately show ?thesis using ih True by simp
  next
    case False
    with r show ?thesis by (auto simp: cm_window_def tail_of_def Let_def)
  qed
qed

lemma cm_push_spec:
  assumes "cm_ok cap m"
  shows "cm_ok cap (cm_push bs m)" "cm_window (cm_push bs m) = tail_of cap (cm_window m @ bs)"
    "cm_end (cm_push bs m) = cm_end m + length bs"
    "cm_dropped (cm_push bs m) \<longleftrightarrow> cm_dropped m \<or> length (cm_window m) + length bs > cap"
proof -
  let ?m = "m\<lparr>cm_end := cm_end m + length bs\<rparr>"
  have "cm_end ?m = cm_start ?m + length (concat (cm_chunks m @ [bs]))"
    using assms by (simp add: cm_ok_def cm_window_def)
  note spec = cm_trim_spec [OF this]
  have n: "length (concat (cm_chunks m)) \<le> cap" "cm_maxBytes m = cap" using assms by (auto simp: cm_ok_def cm_window_def)
  show "cm_window (cm_push bs m) = tail_of cap (cm_window m @ bs)"
    using spec n by (auto simp: cm_push_def cm_window_def tail_of_def)
  show "cm_end (cm_push bs m) = cm_end m + length bs" using spec by (simp add: cm_push_def)
  show "cm_dropped (cm_push bs m) \<longleftrightarrow> cm_dropped m \<or> length (cm_window m) + length bs > cap"
    using spec n by (auto simp: cm_push_def cm_window_def)
  show "cm_ok cap (cm_push bs m)"
    using spec n assms by (cases "bs = []") (auto simp: cm_push_def cm_ok_def cm_window_def [of m])
qed

lemma cm_push_start:
  assumes "cm_ok cap m"
  shows "cm_start (cm_push bs m) + length (cm_window (cm_push bs m)) =
    cm_start m + length (cm_window m) + length bs"
  using cm_push_spec(1,3) [OF assms, of bs] assms by (simp add: cm_ok_def)

lemma cm_new_spec: "cm_ok cap (cm_new cap)" "cm_window (cm_new cap) = []" "cm_start (cm_new cap) = 0"
  by (simp_all add: cm_new_def cm_ok_def cm_window_def)

interpretation mirror: byte_window "cm_new cap" cm_push cm_window cm_start cap "cm_ok cap" for cap
  by unfold_locales (rule cm_new_spec cm_push_spec cm_push_start, assumption?)+

subsection \<open>drain\<close>

text \<open>One answer of \<open>sp.readOutput\<close>: base64 data, the offset to resume from, whether the offset
  asked for had already been dropped. The daemon may answer the \<open>k\<close>-th request differently from
  the ones before; \<open>None\<close> is a loop that has not returned within the fuel.\<close>

type_synonym output_answer = "string \<times> nat \<times> bool"

fun drain ::
    "nat \<Rightarrow> (nat \<Rightarrow> nat \<Rightarrow> 'e + output_answer) \<Rightarrow> nat \<Rightarrow> collected_mirror \<Rightarrow> ('e + collected_mirror \<times> nat) option"
  where
  "drain 0 ask k m = None"
| "drain (Suc fuel) ask k m =
     (case ask k (cm_end m) of
        Inl err \<Rightarrow> Some (Inl err)
      | Inr (dat, nextOffset, lossy) \<Rightarrow>
          (let bs = base64_decode dat in
           if lossy then
             (let m' = cm_reset bs nextOffset m
              in if nextOffset \<le> cm_end m' then Some (Inr (m', Suc k)) else drain fuel ask (Suc k) m')
           else if length bs = 0 then Some (Inr (m, Suc k))
           else
             (let m' = cm_push bs m
              in if nextOffset \<le> cm_end m' then Some (Inr (m', Suc k)) else drain fuel ask (Suc k) m')))"

text \<open>What the daemon puts on the wire for one read of its window.\<close>

definition wire_read :: "stream_buffer \<Rightarrow> nat \<Rightarrow> output_answer" where
  "wire_read b fromByte = (case sb_read fromByte b of (bs, nextOffset, lossy) \<Rightarrow> (base64_encode bs, nextOffset, lossy))"

text \<open>For a process that has exited and whose daemon window stands at the end of its output, draining
  a collected stream returns after a single request, whatever that output is, and leaves the
  mirror with the last \<open>maxBytes\<close> bytes of it, at their absolute offsets, flagged lossy exactly when
  something before them is gone.\<close>

theorem drain_collects_tail:
  assumes "daemon_window.tracks cap b s"
  shows "\<exists>m. drain (Suc fuel) (\<lambda>k from. Inr (wire_read b from)) k (cm_new cap) = Some (Inr (m, Suc k))
    \<and> cm_window m = tail_of cap s \<and> cm_end m = length s \<and> cm_start m = length s - cap
    \<and> (cm_dropped m \<longleftrightarrow> length s > cap)
    \<and> cm_readFrom 0 m = (utf8_text (tail_of cap s), length s, length s > cap)"
proof -
  have read: "sb_read 0 b = (if length s > cap then tail_of cap s else s, length s, length s > cap)"
    using sb_read_fed [OF assms, of 0] by auto
  define bs where "bs = (if length s > cap then tail_of cap s else s)"
  have wire: "wire_read b 0 = (base64_encode bs, length s, length s > cap)"
    by (simp add: wire_read_def read bs_def)
  have bs: "bs = tail_of cap s" by (simp add: bs_def tail_of_short)
  consider (lost) "length s > cap" | (none) "s = []" | (all) "length s \<le> cap" "s \<noteq> []" by fastforce
  then show ?thesis
  proof cases
    case lost
    let ?m = "cm_reset bs (length s) (cm_new cap)"
    have l: "length bs = cap" using lost bs by simp
    have m: "cm_window ?m = bs" "cm_end ?m = length s" "cm_start ?m = length s - cap" "cm_dropped ?m"
      using l by (auto simp: cm_reset_def cm_window_def cm_new_def)
    have "drain (Suc fuel) (\<lambda>k from. Inr (wire_read b from)) k (cm_new cap) = Some (Inr (?m, Suc k))"
      using lost wire m(2) by (simp add: cm_new_def)
    with lost m bs show ?thesis
      by (intro exI [of _ ?m]) (auto simp: cm_readFrom_def cm_window_def simp del: drain.simps)
  next
    case none
    then have "drain (Suc fuel) (\<lambda>k from. Inr (wire_read b from)) k (cm_new cap) = Some (Inr (cm_new cap, Suc k))"
      using wire bs by (simp add: cm_new_def tail_of_def)
    moreover have "cm_readFrom 0 (cm_new cap) = ([], 0, False)" "cm_end (cm_new cap) = 0"
      "\<not> cm_dropped (cm_new cap)" by (simp_all add: cm_new_def cm_readFrom_def)
    ultimately show ?thesis using none
      by (intro exI [of _ "cm_new cap"]) (simp add: cm_new_spec tail_of_def del: drain.simps)
  next
    case all
    let ?m = "cm_push s (cm_new cap)"
    have eq: "bs = s" using all by (simp add: bs_def)
    have m: "cm_window ?m = s" "cm_end ?m = length s" "\<not> cm_dropped ?m" "cm_start ?m = 0"
      using cm_push_spec(2,3,4) [OF cm_new_spec(1) [of cap], of s] cm_push_start [OF cm_new_spec(1) [of cap], of s] all cm_new_spec
      by (auto simp: tail_of_short cm_new_def)
    have "drain (Suc fuel) (\<lambda>k from. Inr (wire_read b from)) k (cm_new cap) = Some (Inr (?m, Suc k))"
      using all wire m(2) eq by (simp add: cm_new_def)
    with all m show ?thesis
      by (intro exI [of _ ?m]) (auto simp: cm_readFrom_def cm_window_def tail_of_short simp del: drain.simps)
  qed
qed

theorem drain_collects_tail_witness:
  "\<exists>m. drain 1 (\<lambda>k from. Inr (wire_read (sb_push ''abcd'' (sb_new 3)) from) :: unit + output_answer) 0 (cm_new 3)
     = Some (Inr (m, 1)) \<and> cm_window m = ''bcd''"
proof -
  have "daemon_window.tracks 3 (sb_push ''abcd'' (sb_new 3)) ([] @ ''abcd'')"
    by (rule daemon_window.tracks_push [OF daemon_window.tracks_new])
  then have "daemon_window.tracks 3 (sb_push ''abcd'' (sb_new 3)) ''abcd''" by simp
  from drain_collects_tail [OF this, of 0 0] show ?thesis by (auto simp: tail_of_def)
qed

subsection \<open>The argv a node runs\<close>

definition HOST_SANDBOX_RUNNERS :: "string list" where
  "HOST_SANDBOX_RUNNERS = [''sandbox-exec'', ''bwrap'', ''landlock-run'']"

definition SYSTEM_EXECUTABLE_PREFIXES :: "string list" where
  "SYSTEM_EXECUTABLE_PREFIXES =
     [''/bin/'', ''/sbin/'', ''/usr/bin/'', ''/usr/sbin/'', ''/usr/local/bin/'', ''/usr/local/sbin/'']"

definition stripHostSandbox :: "string list \<Rightarrow> string list" where
  "stripHostSandbox argv =
     (case argv of
        [] \<Rightarrow> argv
      | head # _ \<Rightarrow>
          if posix_basename head \<notin> set HOST_SANDBOX_RUNNERS then argv
          else (let after = dropWhile (\<lambda>a. a \<noteq> ''--'') argv
                in if length after > 1 then tl after else argv))"

definition PTC_BOOTSTRAP :: string where "PTC_BOOTSTRAP = ''process.js''"
definition PTC_PACKAGE_SEGMENT :: string where "PTC_PACKAGE_SEGMENT = ''/dsh-ptc-runtime-node/''"

text \<open>\<open>/^[1-9][0-9]*$/\<close>, and the part of a path after its last slash.\<close>

definition is_limit :: "string \<Rightarrow> bool" where
  "is_limit s = (case s of [] \<Rightarrow> False
     | d # ds \<Rightarrow> d \<in> set ''123456789'' \<and> list_all (\<lambda>c. c \<in> set ''0123456789'') ds)"

definition after_last_slash :: "string \<Rightarrow> string" where
  "after_last_slash s = last (split_on (CHR ''/'') s)"

definition ptcBootstrapIndex :: "string list \<Rightarrow> nat option" where
  "ptcBootstrapIndex argv =
     (if length argv < 3 then None
      else
        (let limit = argv ! (length argv - 1); bootstrap = argv ! (length argv - 2) in
         if \<not> is_limit limit then None
         else if \<not> sublist PTC_PACKAGE_SEGMENT bootstrap then None
         else if after_last_slash bootstrap \<noteq> PTC_BOOTSTRAP then None
         else Some (length argv - 2)))"

text \<open>\<open>stat path\<close> is the node's answer to \<open>fs.stat\<close>: an error, no entry, or an entry.\<close>

definition missingOnNode :: "(path \<Rightarrow> 'e + 'st option) \<Rightarrow> path \<Rightarrow> bool" where
  "missingOnNode stat p = (case stat p of Inr None \<Rightarrow> True | _ \<Rightarrow> False)"

definition translateRemoteArgv ::
    "(node_id \<Rightarrow> 'e + path) \<Rightarrow> node_id \<Rightarrow> (path \<Rightarrow> 'e + 'st option) \<Rightarrow> string list \<Rightarrow> 'e + string list" where
  "translateRemoteArgv ptcHost nodeId stat argv =
     (let translated = stripHostSandbox argv in
      case ptcBootstrapIndex translated of
        Some bootstrap \<Rightarrow>
          bind_res (ptcHost nodeId) (\<lambda>host.
            Inr ([host] @ take (bootstrap - 1) (drop 1 translated) @ [translated ! (bootstrap + 1)]))
      | None \<Rightarrow>
          (case translated of
             [] \<Rightarrow> Inr translated
           | head # args \<Rightarrow>
               if startsWith head ''/'' \<and>
                  \<not> list_ex (\<lambda>p. startsWith head p) SYSTEM_EXECUTABLE_PREFIXES \<and>
                  missingOnNode stat head
               then Inr (posix_basename head # args)
               else Inr translated))"

definition rewriteExecutable :: "string list \<Rightarrow> string \<Rightarrow> string list" where
  "rewriteExecutable argv remoteRipgrep =
     (case argv of
        [] \<Rightarrow> argv
      | head # args \<Rightarrow>
          if \<not> startsWith head ''/'' then argv
          else if after_last_slash head \<noteq> ''rg'' then argv
          else remoteRipgrep # args)"

text \<open>\<open>spawn\<close>: which machine runs the process, with which cwd and argv.\<close>

datatype 'c proc_dispatch = Proc_Local "string list" path | Proc_Remote 'c node_id path "string list"

definition subprocess_spawn ::
    "string option \<Rightarrow> anchor_route list \<Rightarrow> (node_id \<rightharpoonup> 'c) \<Rightarrow> path \<Rightarrow> string list \<Rightarrow> string + 'c proc_dispatch" where
  "subprocess_spawn remoteRipgrep anchors channel cwd argv =
     bind_res (remoteTarget cwd anchors channel) (\<lambda>remote.
       case remote of
         None \<Rightarrow> Inr (Proc_Local argv cwd)
       | Some r \<Rightarrow> Inr (Proc_Remote (rt_channel r) (rt_nodeId r) (rt_remotePath r)
           (rewriteExecutable argv (case remoteRipgrep of None \<Rightarrow> ''rg'' | Some b \<Rightarrow> b))))"

definition proc_at_home :: "string + 'c proc_dispatch \<Rightarrow> bool" where
  "proc_at_home r = (case r of Inr (Proc_Local _ _) \<Rightarrow> True | _ \<Rightarrow> False)"

definition proc_on_node :: "string + 'c proc_dispatch \<Rightarrow> node_id \<Rightarrow> path \<Rightarrow> bool" where
  "proc_on_node r n p = (case r of Inr (Proc_Remote _ m q _) \<Rightarrow> m = n \<and> q = p | _ \<Rightarrow> False)"

interpretation proc_seam: route_dispatch
  "\<lambda>d. classifyPath d None anchors" "\<lambda>d. subprocess_spawn rg anchors channel d argv"
  proc_at_home proc_on_node
  by unfold_locales
    (auto simp: subprocess_spawn_def remoteTarget_def proc_at_home_def proc_on_node_def
      split: route.splits option.splits)

text \<open>A directory one machine serves is never also served here or by another machine: the
  subprocess router and the terminal router agree on the machine and on the path it is asked for.\<close>

theorem routers_agree:
  assumes "proc_on_node (subprocess_spawn rg anchors channel d argv) n p"
  shows "\<not> proc_at_home (subprocess_spawn rg anchors channel d argv)
    \<and> \<not> tty_at_home (routing_tty_spawn anchors (tagged channel) (q\<lparr>tq_cwd := d\<rparr>))
    \<and> tty_on_node (routing_tty_spawn anchors (tagged channel) (q\<lparr>tq_cwd := d\<rparr>)) n p
    \<and> (\<forall>m w. tty_on_node (routing_tty_spawn anchors (tagged channel) (q\<lparr>tq_cwd := d\<rparr>)) m w \<longrightarrow> m = n \<and> w = p)"
proof -
  have cls: "classifyPath d None anchors = Remote_Route n p" using assms by (rule proc_seam.node_law)
  from assms obtain c where "channel n = Some c"
    by (auto simp: proc_on_node_def subprocess_spawn_def remoteTarget_def cls split: option.splits sum.splits)
  with cls have t: "tty_on_node (routing_tty_spawn anchors (tagged channel) (q\<lparr>tq_cwd := d\<rparr>)) n p"
    by (simp add: tty_on_node_def routing_tty_spawn_def remoteTarget_def tagged_def)
  from tty_seam.one_machine [OF t] proc_seam.one_machine [OF assms] t show ?thesis by blast
qed

theorem routers_agree_witness:
  "\<exists>q :: tty_request. tty_on_node (routing_tty_spawn [\<lparr>ar_nodeId = ''n'', ar_anchorPath = ''/l/w'', ar_remoteRoot = ''/r''\<rparr>]
     (tagged [''n'' \<mapsto> ()]) (q\<lparr>tq_cwd := ''/l/w''\<rparr>)) ''n'' ''/r''"
proof -
  let ?as = "[\<lparr>ar_nodeId = ''n'', ar_anchorPath = ''/l/w'', ar_remoteRoot = ''/r''\<rparr>]"
  have cls: "classifyPath ''/l/w'' None ?as = Remote_Route ''n'' ''/r''" by code_simp
  then have "proc_on_node (subprocess_spawn None ?as [''n'' \<mapsto> ()] ''/l/w'' []) ''n'' ''/r''"
    by (simp add: proc_on_node_def subprocess_spawn_def remoteTarget_def)
  from routers_agree [OF this] show ?thesis by blast
qed

text \<open>A command the host's sandbox wrapped reaches the node as the command itself; a PTC program as
  the node's own host with the heap options and the frame limit; and the program asked for on a
  node is never an absolute host path the node is known not to have, outside the directories every
  node has.\<close>

theorem argv_translated:
  "(posix_basename runner \<in> set HOST_SANDBOX_RUNNERS \<and> runner \<noteq> ''--'' \<and> ''--'' \<notin> set profile \<and> cmd \<noteq> [] \<longrightarrow>
      stripHostSandbox (runner # profile @ ''--'' # cmd) = cmd)
   \<and> (stripHostSandbox argv = interp # opts @ [bootstrap, limit] \<and> is_limit limit
        \<and> sublist PTC_PACKAGE_SEGMENT bootstrap \<and> after_last_slash bootstrap = PTC_BOOTSTRAP
        \<and> ptcHost n = Inr host \<longrightarrow>
      translateRemoteArgv ptcHost n stat argv = Inr (host # opts @ [limit]))
   \<and> (translateRemoteArgv ptcHost n stat argv = Inr (prog # args) \<and> ptcBootstrapIndex (stripHostSandbox argv) = None
        \<and> startsWith prog ''/'' \<and> \<not> list_ex (\<lambda>p. startsWith prog p) SYSTEM_EXECUTABLE_PREFIXES \<longrightarrow>
      stat prog \<noteq> Inr None)"
proof (intro conjI impI; elim conjE)
  assume "posix_basename runner \<in> set HOST_SANDBOX_RUNNERS" "runner \<noteq> ''--''" "''--'' \<notin> set profile" "cmd \<noteq> []"
  moreover from this have "dropWhile (\<lambda>a. a \<noteq> ''--'') (profile @ ''--'' # cmd) = ''--'' # cmd"
    by (subst dropWhile_append2) auto
  ultimately show "stripHostSandbox (runner # profile @ ''--'' # cmd) = cmd"
    by (simp add: stripHostSandbox_def)
next
  assume a: "stripHostSandbox argv = interp # opts @ [bootstrap, limit]" "is_limit limit"
    "sublist PTC_PACKAGE_SEGMENT bootstrap" "after_last_slash bootstrap = PTC_BOOTSTRAP" "ptcHost n = Inr host"
  have "(interp # opts @ [bootstrap, limit]) ! Suc (length opts) = bootstrap"
    "(interp # opts @ [bootstrap, limit]) ! Suc (Suc (length opts)) = limit"
    by (simp_all add: nth_append)
  with a show "translateRemoteArgv ptcHost n stat argv = Inr (host # opts @ [limit])"
    by (simp add: translateRemoteArgv_def ptcBootstrapIndex_def Let_def)
next
  assume t: "translateRemoteArgv ptcHost n stat argv = Inr (prog # args)"
    and none: "ptcBootstrapIndex (stripHostSandbox argv) = None"
    and abs: "startsWith prog ''/''" and sys: "\<not> list_ex (\<lambda>p. startsWith prog p) SYSTEM_EXECUTABLE_PREFIXES"
  have base: "\<not> startsWith (posix_basename x) ''/''" for x
    using split_on_no_sep [of "CHR ''/''" "rev (dropWhile (\<lambda>c. c = CHR ''/'') (rev x))"]
    by (cases "posix_basename x") (auto simp: posix_basename_def startsWith_def Let_def,
        metis last_in_set list.set_intros(1) split_on_not_Nil)
  from t none obtain head where "stripHostSandbox argv = head # args"
    and h: "prog = (if startsWith head ''/'' \<and> \<not> list_ex (\<lambda>p. startsWith head p) SYSTEM_EXECUTABLE_PREFIXES \<and>
        missingOnNode stat head then posix_basename head else head)"
    by (auto simp: translateRemoteArgv_def Let_def split: list.splits if_splits)
  then have "prog = head" "\<not> missingOnNode stat head" using abs sys base [of head] by (auto split: if_splits)
  then show "stat prog \<noteq> Inr None" by (auto simp: missingOnNode_def)
qed

theorem argv_translated_witness:
  "stripHostSandbox [''/usr/bin/bwrap'', ''--ro-bind'', ''--'', ''ls'', ''-l''] = [''ls'', ''-l'']
   \<and> translateRemoteArgv (\<lambda>_. Inr ''/n/host'' :: unit + path) ''n'' (\<lambda>_. Inr None :: unit + unit option)
       [''/h/node'', ''-o'', ''/h/dsh-ptc-runtime-node/process.js'', ''64''] = Inr [''/n/host'', ''-o'', ''64'']
   \<and> (\<lambda>p. if p = ''/opt/x'' then Inr (Some ()) else Inr None :: unit + unit option) ''/opt/x'' \<noteq> Inr None"
proof (intro conjI)
  have "posix_basename ''/usr/bin/bwrap'' \<in> set HOST_SANDBOX_RUNNERS \<and> ''/usr/bin/bwrap'' \<noteq> ''--'' \<and>
      ''--'' \<notin> set [''--ro-bind''] \<and> [''ls'', ''-l''] \<noteq> []" by code_simp
  from argv_translated [THEN conjunct1, THEN mp, OF this]
  show "stripHostSandbox [''/usr/bin/bwrap'', ''--ro-bind'', ''--'', ''ls'', ''-l''] = [''ls'', ''-l'']" by simp
  let ?argv = "[''/h/node'', ''-o'', ''/h/dsh-ptc-runtime-node/process.js'', ''64'']"
  let ?host = "\<lambda>_. Inr ''/n/host'' :: unit + path"
  have "stripHostSandbox ?argv = ''/h/node'' # [''-o''] @ [''/h/dsh-ptc-runtime-node/process.js'', ''64''] \<and> is_limit ''64''
      \<and> sublist PTC_PACKAGE_SEGMENT ''/h/dsh-ptc-runtime-node/process.js''
      \<and> after_last_slash ''/h/dsh-ptc-runtime-node/process.js'' = PTC_BOOTSTRAP \<and> ?host ''n'' = Inr ''/n/host''"
    by code_simp
  from argv_translated [where opts = "[''-o'']" and argv = ?argv and interp = "''/h/node''" and limit = "''64''"
      and bootstrap = "''/h/dsh-ptc-runtime-node/process.js''" and ptcHost = ?host and n = "''n''"
      and host = "''/n/host''" and stat = "\<lambda>_. Inr None :: unit + unit option",
      THEN conjunct2, THEN conjunct1, THEN mp] this
  show "translateRemoteArgv ?host ''n'' (\<lambda>_. Inr None :: unit + unit option) ?argv = Inr [''/n/host'', ''-o'', ''64'']"
    by simp
  let ?stat = "\<lambda>p. if p = ''/opt/x'' then Inr (Some ()) else Inr None :: unit + unit option"
  have "translateRemoteArgv ?host ''n'' ?stat [''/opt/x'', ''y''] = Inr (''/opt/x'' # [''y'']) \<and>
      ptcBootstrapIndex (stripHostSandbox [''/opt/x'', ''y'']) = None \<and> startsWith ''/opt/x'' ''/'' \<and>
      \<not> list_ex (\<lambda>p. startsWith ''/opt/x'' p) SYSTEM_EXECUTABLE_PREFIXES"
    by code_simp
  from argv_translated [where argv = "[''/opt/x'', ''y'']" and ptcHost = ?host and n = "''n''"
      and stat = ?stat and prog = "''/opt/x''" and args = "[''y'']", THEN conjunct2, THEN conjunct2, THEN mp, OF this]
  show "?stat ''/opt/x'' \<noteq> Inr None" .
qed

end
