(* ===== verification/Remote_Process.thy ===== *)
theory Remote_Process
  imports Routing_Subprocess Terminal_Registry
begin

section \<open>The proxy handle of a remote process: createRemoteHandle\<close>

text \<open>
  \<open>createRemoteHandle\<close> of \<open>plugin/routing/subprocess.ts\<close> and the terminal activity of
  \<open>spawnTerminal\<close>. The handle exists before the daemon has answered, so frames, control bytes and
  a termination may arrive before the process id does. Each function is one synchronous piece; the
  requests it issues are returned in order. What has been written to a piped stream is kept as a
  byte string.
\<close>

type_synonym proc_id = string

datatype stdin_mode = Stdin_Pipe | Stdin_Ignore | Stdin_Data string
datatype out_mode = Out_Inherit | Out_Pipe | Out_Collect nat

record spawn_stdio =
  ss_stdin :: stdin_mode
  ss_stdout :: out_mode
  ss_stderr :: out_mode
  ss_control :: bool

datatype pipe_stream = Pipe_Stdout | Pipe_Stderr | Pipe_Control

record pipe_frame =
  pf_procId :: proc_id
  pf_stream :: pipe_stream
  pf_data :: string

datatype wire_out = Wire_Inherit | Wire_Pipe | Wire_Max nat
datatype wire_stdin = Wire_Stdin_Pipe | Wire_Stdin_Ignore | Wire_Stdin_Data string

record spawn_request =
  sr_argv :: "string list"
  sr_cwd :: path
  sr_stdin :: wire_stdin
  sr_stdout :: wire_out
  sr_stderr :: wire_out
  sr_control :: bool
  sr_graceMs :: int
  sr_env :: "(string \<times> string) list option"

definition collectSpec :: "out_mode \<Rightarrow> wire_out" where
  "collectSpec mode = (case mode of Out_Pipe \<Rightarrow> Wire_Pipe | Out_Collect n \<Rightarrow> Wire_Max n | Out_Inherit \<Rightarrow> Wire_Inherit)"

definition definedEnv :: "(string \<times> string option) list \<Rightarrow> (string \<times> string) list" where
  "definedEnv env = List.map_filter (\<lambda>(k, v). map_option (Pair k) v) env"

definition remote_spawn_request ::
    "string list \<Rightarrow> path \<Rightarrow> spawn_stdio \<Rightarrow> int \<Rightarrow> (string \<times> string option) list option \<Rightarrow> spawn_request" where
  "remote_spawn_request argv remoteCwd stdio graceMs env =
     \<lparr>sr_argv = argv, sr_cwd = remoteCwd,
      sr_stdin = (case ss_stdin stdio of Stdin_Pipe \<Rightarrow> Wire_Stdin_Pipe | Stdin_Ignore \<Rightarrow> Wire_Stdin_Ignore
        | Stdin_Data d \<Rightarrow> Wire_Stdin_Data d),
      sr_stdout = collectSpec (ss_stdout stdio), sr_stderr = collectSpec (ss_stderr stdio),
      sr_control = ss_control stdio, sr_graceMs = graceMs, sr_env = map_option definedEnv env\<rparr>"

subsection \<open>The handle\<close>

record remote_handle =
  rh_procId :: "proc_id option"
  rh_bufferedFrames :: "pipe_frame list"
  rh_pendingControl :: "string list"
  rh_listening :: bool
  rh_terminated :: bool
  rh_startFailure :: bool
  rh_stdout :: bytes
  rh_stderr :: bytes
  rh_control :: bytes
  rh_ended :: bool
  rh_done :: "(string + tty_outcome) option"

datatype sp_request =
    Sp_WriteControl proc_id string
  | Sp_Terminate proc_id
  | Sp_WriteStdin proc_id string
  | Sp_CloseStdin proc_id
  | Sp_WaitForExit proc_id

definition rh_new :: "spawn_stdio \<Rightarrow> remote_handle" where
  "rh_new stdio =
     \<lparr>rh_procId = None, rh_bufferedFrames = [], rh_pendingControl = [],
      rh_listening = (ss_stdout stdio = Out_Pipe \<or> ss_stderr stdio = Out_Pipe \<or> ss_control stdio),
      rh_terminated = False, rh_startFailure = False, rh_stdout = [], rh_stderr = [],
      rh_control = [], rh_ended = False, rh_done = None\<rparr>"

definition deliverPipeFrame :: "spawn_stdio \<Rightarrow> remote_handle \<Rightarrow> pipe_frame \<Rightarrow> remote_handle" where
  "deliverPipeFrame stdio h frame =
     (if Some (pf_procId frame) \<noteq> rh_procId h then h
      else
        (let bs = base64_decode (pf_data frame) in
         case pf_stream frame of
           Pipe_Control \<Rightarrow> if ss_control stdio then h\<lparr>rh_control := rh_control h @ bs\<rparr> else h
         | Pipe_Stdout \<Rightarrow> if ss_stdout stdio = Out_Pipe then h\<lparr>rh_stdout := rh_stdout h @ bs\<rparr> else h
         | Pipe_Stderr \<Rightarrow> if ss_stderr stdio = Out_Pipe then h\<lparr>rh_stderr := rh_stderr h @ bs\<rparr> else h))"

definition rh_frame :: "spawn_stdio \<Rightarrow> remote_handle \<Rightarrow> pipe_frame \<Rightarrow> remote_handle" where
  "rh_frame stdio h frame =
     (if \<not> rh_listening h then h
      else if rh_procId h = None then h\<lparr>rh_bufferedFrames := rh_bufferedFrames h @ [frame]\<rparr>
      else deliverPipeFrame stdio h frame)"

definition rh_controlWrite :: "bytes \<Rightarrow> remote_handle \<Rightarrow> remote_handle \<times> sp_request list" where
  "rh_controlWrite chunk h =
     (let dat = base64_encode chunk in
      case rh_procId h of
        None \<Rightarrow> (h\<lparr>rh_pendingControl := rh_pendingControl h @ [dat]\<rparr>, [])
      | Some pid \<Rightarrow> (h, [Sp_WriteControl pid dat]))"

definition closePipes :: "remote_handle \<Rightarrow> remote_handle" where
  "closePipes h = h\<lparr>rh_listening := False, rh_ended := True\<rparr>"

text \<open>The daemon answered \<open>sp.spawn\<close>; what \<open>run\<close> asks up to its wait for the exit.\<close>

definition rh_started :: "spawn_stdio \<Rightarrow> proc_id \<Rightarrow> remote_handle \<Rightarrow> remote_handle \<times> sp_request list" where
  "rh_started stdio pid h =
     (let h1 = h\<lparr>rh_procId := Some pid\<rparr>;
          h2 = foldl (deliverPipeFrame stdio) (h1\<lparr>rh_bufferedFrames := []\<rparr>) (rh_bufferedFrames h1)
      in (h2\<lparr>rh_pendingControl := []\<rparr>,
          map (Sp_WriteControl pid) (rh_pendingControl h2) @
          (if rh_terminated h2 then [Sp_Terminate pid] else []) @
          (case ss_stdin stdio of
             Stdin_Data d \<Rightarrow> [Sp_WriteStdin pid d, Sp_CloseStdin pid]
           | _ \<Rightarrow> []) @
          [Sp_WaitForExit pid]))"

definition rh_startFailed :: "string \<Rightarrow> remote_handle \<Rightarrow> remote_handle" where
  "rh_startFailed err h = (closePipes (h\<lparr>rh_startFailure := True\<rparr>))\<lparr>rh_done := Some (Inl err)\<rparr>"

text \<open>The end of \<open>run\<close>: the outcome asked for after the last drain, or the failure on the way.\<close>

definition rh_finished :: "string + tty_outcome option \<Rightarrow> remote_handle \<Rightarrow> remote_handle" where
  "rh_finished res h =
     (closePipes h)\<lparr>rh_done := Some (case res of
        Inl err \<Rightarrow> Inl err
      | Inr None \<Rightarrow> Inr \<lparr>to_exitCode = None, to_signal = None\<rparr>
      | Inr (Some outcome) \<Rightarrow> Inr outcome)\<rparr>"

definition rh_terminate :: "remote_handle \<Rightarrow> remote_handle \<times> sp_request list" where
  "rh_terminate h =
     (h\<lparr>rh_terminated := True\<rparr>,
      case rh_procId h of None \<Rightarrow> [] | Some pid \<Rightarrow> [Sp_Terminate pid])"

definition rh_waitForExit :: "bool \<Rightarrow> remote_handle \<Rightarrow> (string + bool) option" where
  "rh_waitForExit aborted h =
     (if rh_startFailure h then Some (Inr False)
      else (case rh_done h of
        None \<Rightarrow> None
      | Some (Inl err) \<Rightarrow> Some (Inl err)
      | Some (Inr _) \<Rightarrow> Some (Inr (\<not> aborted))))"

subsection \<open>The activity of a remote terminal\<close>

datatype activity_state = Activity_unknown | Activity_idle | Activity_busy

text \<open>\<open>foreground\<close> is the daemon's answer: no group, or whether it waits for input.\<close>

definition observe_activity ::
    "bool option \<Rightarrow> activity_state \<times> nat \<Rightarrow> activity_state \<times> nat" where
  "observe_activity foreground observed =
     (let state = (case foreground of None \<Rightarrow> Activity_unknown
        | Some inputWaiting \<Rightarrow> if inputWaiting then Activity_idle else Activity_busy)
      in if state \<noteq> fst observed then (state, snd observed + 1) else observed)"

subsection \<open>Properties\<close>

lemma deliver_keeps [simp]:
  "rh_procId (deliverPipeFrame stdio h f) = rh_procId h"
  "rh_listening (deliverPipeFrame stdio h f) = rh_listening h"
  "rh_pendingControl (deliverPipeFrame stdio h f) = rh_pendingControl h"
  "rh_terminated (deliverPipeFrame stdio h f) = rh_terminated h"
  "rh_bufferedFrames (deliverPipeFrame stdio h f) = rh_bufferedFrames h"
  by (simp_all add: deliverPipeFrame_def Let_def split: pipe_stream.splits)

lemma deliver_all_keeps [simp]:
  "rh_procId (foldl (deliverPipeFrame stdio) h fs) = rh_procId h"
  "rh_listening (foldl (deliverPipeFrame stdio) h fs) = rh_listening h"
  "rh_pendingControl (foldl (deliverPipeFrame stdio) h fs) = rh_pendingControl h"
  "rh_terminated (foldl (deliverPipeFrame stdio) h fs) = rh_terminated h"
  by (induction fs arbitrary: h) simp_all

definition payload :: "proc_id \<Rightarrow> pipe_stream \<Rightarrow> pipe_frame list \<Rightarrow> bytes" where
  "payload pid stream fs =
     concat (map (\<lambda>f. base64_decode (pf_data f)) (filter (\<lambda>f. pf_procId f = pid \<and> pf_stream f = stream) fs))"

lemma payload_simps [simp]:
  "payload pid stream [] = []"
  "payload pid stream (f # fs) =
     (if pf_procId f = pid \<and> pf_stream f = stream then base64_decode (pf_data f) else []) @ payload pid stream fs"
  by (simp_all add: payload_def)

lemma payload_append [simp]: "payload pid stream (fs @ gs) = payload pid stream fs @ payload pid stream gs"
  by (simp add: payload_def)

lemma deliver_all:
  assumes "rh_procId h = Some pid" "ss_stdout stdio = Out_Pipe" "ss_control stdio"
  shows "rh_stdout (foldl (deliverPipeFrame stdio) h fs) = rh_stdout h @ payload pid Pipe_Stdout fs
    \<and> rh_control (foldl (deliverPipeFrame stdio) h fs) = rh_control h @ payload pid Pipe_Control fs"
  using assms(1)
proof (induction fs arbitrary: h)
  case (Cons f fs)
  from Cons.IH [of "deliverPipeFrame stdio h f"] Cons.prems assms(2,3) show ?case
    by (auto simp: deliverPipeFrame_def Let_def split: pipe_stream.splits)
qed simp

lemma frames_before:
  assumes "rh_listening h" "rh_procId h = None"
  shows "foldl (rh_frame stdio) h fs = h\<lparr>rh_bufferedFrames := rh_bufferedFrames h @ fs\<rparr>"
  using assms by (induction fs arbitrary: h) (simp_all add: rh_frame_def)

lemma frames_after:
  assumes "rh_listening h" "rh_procId h = Some pid"
  shows "foldl (rh_frame stdio) h fs = foldl (deliverPipeFrame stdio) h fs"
  using assms by (induction fs arbitrary: h) (simp_all add: rh_frame_def)

lemma controls_before:
  assumes "rh_procId h = None"
  shows "foldl (\<lambda>h c. fst (rh_controlWrite c h)) h cs =
    h\<lparr>rh_pendingControl := rh_pendingControl h @ map base64_encode cs\<rparr>"
  using assms by (induction cs arbitrary: h) (simp_all add: rh_controlWrite_def)

text \<open>Output a remote process pushes reaches the piped streams complete, in order and free of any
  other process's frames, however many frames arrive before the daemon has told which process it
  is; control bytes and a termination asked for that early are forwarded, in order, as soon as it
  has, before the wait for the exit.\<close>

theorem early_traffic_kept:
  assumes pipe: "ss_stdout stdio = Out_Pipe" "ss_control stdio"
    and early: "h1 = foldl (\<lambda>h c. fst (rh_controlWrite c h)) (foldl (rh_frame stdio) (rh_new stdio) fs1) cs"
    and kill: "h2 = (if term then fst (rh_terminate h1) else h1)"
    and start: "rh_started stdio pid h2 = (h3, reqs)"
    and late: "h4 = foldl (rh_frame stdio) h3 fs2"
  shows "rh_stdout h4 = payload pid Pipe_Stdout (fs1 @ fs2)
    \<and> rh_control h4 = payload pid Pipe_Control (fs1 @ fs2)
    \<and> (\<exists>rest. reqs = map (Sp_WriteControl pid) (map base64_encode cs) @
         (if term then [Sp_Terminate pid] else []) @ rest @ [Sp_WaitForExit pid])"
proof -
  let ?n = "rh_new stdio"
  have n: "rh_listening ?n" "rh_procId ?n = None" "rh_stdout ?n = []" "rh_control ?n = []"
    "rh_pendingControl ?n = []" "\<not> rh_terminated ?n" "rh_bufferedFrames ?n = []"
    using pipe by (simp_all add: rh_new_def)
  have h2: "h2 = ?n\<lparr>rh_bufferedFrames := fs1, rh_pendingControl := map base64_encode cs, rh_terminated := term\<rparr>"
    using n by (simp add: kill early frames_before controls_before rh_terminate_def)
  let ?h = "?n\<lparr>rh_pendingControl := map base64_encode cs, rh_terminated := term, rh_procId := Some pid, rh_bufferedFrames := []\<rparr>"
  let ?d = "foldl (deliverPipeFrame stdio) ?h fs1"
  have s: "h3 = ?d\<lparr>rh_pendingControl := []\<rparr>"
    "reqs = map (Sp_WriteControl pid) (map base64_encode cs) @ (if term then [Sp_Terminate pid] else []) @
       (case ss_stdin stdio of Stdin_Data d \<Rightarrow> [Sp_WriteStdin pid d, Sp_CloseStdin pid] | _ \<Rightarrow> []) @ [Sp_WaitForExit pid]"
    using start by (auto simp: h2 rh_started_def Let_def)
  have "rh_stdout ?d = payload pid Pipe_Stdout fs1 \<and> rh_control ?d = payload pid Pipe_Control fs1"
    using deliver_all [of ?h pid stdio fs1] pipe n by simp
  moreover have "h4 = foldl (deliverPipeFrame stdio) h3 fs2"
    unfolding late by (rule frames_after) (simp_all add: s(1) n)
  ultimately show ?thesis
    using deliver_all [of h3 pid stdio fs2] pipe s by auto
qed

theorem early_traffic_kept_witness:
  "let stdio = \<lparr>ss_stdin = Stdin_Ignore, ss_stdout = Out_Pipe, ss_stderr = Out_Inherit, ss_control = True\<rparr>;
       frame = \<lparr>pf_procId = ''p'', pf_stream = Pipe_Stdout, pf_data = ''aGk=''\<rparr>
   in rh_stdout (fst (rh_started stdio ''p'' (rh_frame stdio (rh_new stdio) frame))) = ''hi''"
proof -
  let ?stdio = "\<lparr>ss_stdin = Stdin_Ignore, ss_stdout = Out_Pipe, ss_stderr = Out_Inherit, ss_control = True\<rparr>"
  let ?f = "\<lparr>pf_procId = ''p'', pf_stream = Pipe_Stdout, pf_data = ''aGk=''\<rparr>"
  obtain h3 reqs where st: "rh_started ?stdio ''p'' (foldl (rh_frame ?stdio) (rh_new ?stdio) [?f]) = (h3, reqs)"
    by (cases "rh_started ?stdio ''p'' (foldl (rh_frame ?stdio) (rh_new ?stdio) [?f])") auto
  have p: "ss_stdout ?stdio = Out_Pipe" "ss_control ?stdio" by simp_all
  let ?h1 = "foldl (rh_frame ?stdio) (rh_new ?stdio) [?f]"
  have c: "?h1 = foldl (\<lambda>h c. fst (rh_controlWrite c h)) ?h1 []" by simp
  have k: "?h1 = (if False then fst (rh_terminate ?h1) else ?h1)" by simp
  have "base64_decode ''aGk='' = ''hi''" by code_simp
  with early_traffic_kept [OF p c k st refl, of "[]"] st
  show ?thesis by simp
qed

end
