(* ===== verification/Text_Chunks.thy ===== *)
theory Text_Chunks
  imports Utf8
begin

section \<open>Text in chunks: fs.readTextChunk and the loop that pulls it\<close>

text \<open>
  A remote text file is read through \<open>fs.readTextChunk\<close>: the daemon
  (\<open>read_text_chunk\<close> in \<open>agent/src/fs.rs\<close>) answers a window cut back to a code-point boundary, and the
  filesystem router (\<open>remoteTextStream\<close> in \<open>plugin/routing/fs.ts\<close>) asks until the end of the content.
  The contract between them is a locale; the daemon's model interprets it, and what the router
  needs is proved from it alone.
\<close>

subsection \<open>The contract and the pulling loop\<close>

text \<open>\<open>aborted k\<close> is the signal's state before the \<open>k\<close>-th request; \<open>None\<close> is a loop that has not
  returned within the fuel. The second component counts the requests issued.\<close>

fun pull ::
    "nat \<Rightarrow> 'e \<Rightarrow> (nat \<Rightarrow> bool) \<Rightarrow> (nat \<Rightarrow> nat \<Rightarrow> 'e + string \<times> nat \<times> bool) \<Rightarrow> nat \<Rightarrow> nat \<Rightarrow> nat \<Rightarrow>
      string list \<Rightarrow> (('e + string list) \<times> nat) option" where
  "pull 0 abort_err aborted chunk len k offset acc = None"
| "pull (Suc fuel) abort_err aborted chunk len k offset acc =
     (if aborted k then Some (Inl abort_err, k)
      else
        (case chunk offset len of
           Inl err \<Rightarrow> Some (Inl err, Suc k)
         | Inr (txt, nextOffset, eof) \<Rightarrow>
             (let acc' = (if length txt > 0 then acc @ [txt] else acc)
              in if eof then Some (Inr acc', Suc k)
                 else pull fuel abort_err aborted chunk len (Suc k) nextOffset acc')))"

locale text_chunks =
  fixes chunk :: "nat \<Rightarrow> nat \<Rightarrow> 'e + string \<times> nat \<times> bool"
    and content :: bytes
    and boundary :: "nat \<Rightarrow> bool"
  assumes slice: "boundary offset \<Longrightarrow> \<exists>nextOffset. offset \<le> nextOffset \<and> boundary nextOffset
      \<and> chunk offset len =
          Inr (take (nextOffset - offset) (drop offset content), nextOffset, length content \<le> nextOffset)
      \<and> (nextOffset < length content \<longrightarrow> offset < nextOffset)"
begin

lemma pull_file:
  assumes "boundary offset" "length content - offset < fuel" "\<And>j. \<not> aborted j"
  shows "\<exists>chunks n. pull fuel err aborted chunk len k offset acc = Some (Inr (acc @ chunks), n)
    \<and> concat chunks = drop offset content \<and> n \<le> k + fuel"
  using assms
proof (induction fuel arbitrary: offset k acc)
  case (Suc fuel)
  obtain nxt where nxt: "offset \<le> nxt" "boundary nxt"
    "chunk offset len = Inr (take (nxt - offset) (drop offset content), nxt, length content \<le> nxt)"
    "nxt < length content \<longrightarrow> offset < nxt"
    using slice [OF Suc.prems(1)] by blast
  let ?t = "take (nxt - offset) (drop offset content)"
  let ?acc = "if length ?t > 0 then acc @ [?t] else acc"
  have split: "drop offset content = ?t @ drop nxt content"
    using nxt(1) by (metis add.commute append_take_drop_id drop_drop le_add_diff_inverse2)
  have acc: "\<exists>cs. ?acc = acc @ cs \<and> concat cs = ?t"
    by (cases "length ?t > 0") auto
  show ?case
  proof (cases "length content \<le> nxt")
    case True
    then have "pull (Suc fuel) err aborted chunk len k offset acc = Some (Inr ?acc, Suc k)"
      using nxt(3) Suc.prems(3) by simp
    moreover have "?t = drop offset content" using split True by simp
    ultimately show ?thesis using acc by auto
  next
    case False
    then have step: "pull (Suc fuel) err aborted chunk len k offset acc =
        pull fuel err aborted chunk len (Suc k) nxt ?acc"
      using nxt(3) Suc.prems(3) by (simp add: Let_def)
    from False nxt(4) Suc.prems(2) have "length content - nxt < fuel" by linarith
    from Suc.IH [OF nxt(2) this Suc.prems(3), of "Suc k" ?acc] obtain cs n where
      "pull fuel err aborted chunk len (Suc k) nxt ?acc = Some (Inr (?acc @ cs), n)"
      "concat cs = drop nxt content" "n \<le> Suc k + fuel" by blast
    moreover obtain cs1 where "?acc = acc @ cs1" "concat cs1 = ?t" using acc by blast
    ultimately show ?thesis using step split
      by (intro exI [of _ "cs1 @ cs"] exI [of _ n]) simp
  qed
qed simp

end

subsection \<open>The daemon: agent/src/fs.rs\<close>

definition continuation :: "char \<Rightarrow> bool" where
  "continuation c \<longleftrightarrow> byte c div 64 = 2"

text \<open>\<open>trailing_fragment_length\<close>, over the reversed window.\<close>

fun fragment_scan :: "nat \<Rightarrow> nat \<Rightarrow> bytes \<Rightarrow> nat" where
  "fragment_scan back 0 cs = 0"
| "fragment_scan back (Suc n) [] = 0"
| "fragment_scan back (Suc n) (c # cs) =
     (if continuation c then fragment_scan (back + 1) n cs
      else if byte c < 0x80 then back - 1
      else
        (let width = (if byte c \<ge> 0xf0 then 4 else if byte c \<ge> 0xe0 then 3 else 2)
         in if width > back then back else 0))"

definition trailing_fragment_length :: "bytes \<Rightarrow> nat" where
  "trailing_fragment_length bs = fragment_scan 1 3 (rev bs)"

definition decode_text :: "bytes \<Rightarrow> string + string" where
  "decode_text bs =
     (if CHR 0x00 \<in> set bs then Inl ''FS_NOT_TEXT'' else if utf8_valid bs then Inr bs else Inl ''FS_NOT_TEXT'')"

text \<open>\<open>read_text_chunk\<close> of a regular file with content \<open>content\<close>; a failure is its code.\<close>

definition read_text_chunk :: "bytes \<Rightarrow> nat \<Rightarrow> nat \<Rightarrow> string + string \<times> nat \<times> bool" where
  "read_text_chunk content offset len =
     (if offset \<ge> length content then Inr ([], offset, True)
      else
        (let wanted = min (max len 4) (length content - offset);
             window = take wanted (drop offset content);
             fragment = trailing_fragment_length window
         in if fragment > 0 \<and> offset + length window \<ge> length content then Inl ''FS_NOT_TEXT''
            else
              (let usable = (if fragment > 0 \<and> fragment < length window
                             then take (length window - fragment) window else window);
                   next_offset = offset + length usable
               in bind_res (decode_text usable) (\<lambda>txt. Inr (txt, next_offset, next_offset \<ge> length content)))))"

subsection \<open>Cutting well-formed text\<close>

definition part_of_seq :: "bytes \<Rightarrow> bool" where
  "part_of_seq frag \<longleftrightarrow> (\<exists>c s k lo hi. frag = c # s \<and> utf8_lead c = Some (k, lo, hi) \<and> length s < k
     \<and> list_all continuation s)"

lemma conts_continuation:
  "0x80 \<le> lo \<Longrightarrow> hi \<le> 0xBF \<Longrightarrow> list_all continuation (utf8_conts k lo hi s)"
  by (induction k lo hi s rule: utf8_conts.induct) (auto simp: continuation_def)

lemma lead_bounds: "utf8_lead c = Some (k, lo, hi) \<Longrightarrow> 0x80 \<le> lo \<and> hi \<le> 0xBF \<and> k \<le> 3"
  by (auto simp: utf8_lead_def Let_def split: if_splits)

lemma lead_not_continuation: "utf8_lead c = Some (k, lo, hi) \<Longrightarrow> \<not> continuation c"
  by (auto simp: utf8_lead_def Let_def continuation_def split: if_splits)

lemma lead_width:
  "utf8_lead c = Some (k, lo, hi) \<Longrightarrow> \<not> byte c < 0x80 \<Longrightarrow>
    (if byte c \<ge> 0xf0 then 4 else if byte c \<ge> 0xe0 then 3 else 2) = Suc k"
  by (auto simp: utf8_lead_def Let_def split: if_splits)

lemma lead_ascii: "utf8_lead c = Some (k, lo, hi) \<Longrightarrow> byte c < 0x80 \<longleftrightarrow> k = 0"
  by (auto simp: utf8_lead_def Let_def split: if_splits)

text \<open>A prefix of well-formed text is well-formed text and the beginning of one sequence.\<close>

lemma cut_valid:
  assumes "utf8_valid v" "w \<le> length v"
  shows "\<exists>p frag. take w v = p @ frag \<and> utf8_valid p \<and> utf8_valid (drop (length p) v)
    \<and> (frag = [] \<or> part_of_seq frag) \<and> (w = length v \<longrightarrow> frag = [])"
  using assms
proof (induction v arbitrary: w rule: length_induct)
  case (1 v)
  show ?case
  proof (cases v)
    case Nil
    then show ?thesis by auto
  next
    case (Cons c s)
    with 1 have "utf8_valid (c # s)" by simp
    then obtain k lo hi where l: "utf8_lead c = Some (k, lo, hi)"
      and k: "length (utf8_conts k lo hi s) = k" and v: "utf8_valid (drop k s)"
      by (rule utf8_valid_Cons)
    have ks: "take k s = utf8_conts k lo hi s" using utf8_conts_prefix [of k lo hi s] k by simp
    then have len: "k \<le> length s" by (metis k length_take min.cobounded1 min_def)
    have conts: "list_all continuation (take k s)"
      using lead_bounds [OF l] by (simp add: ks conts_continuation)
    show ?thesis
    proof (cases "w \<le> k")
      case True
      then have "take w v = [] @ take w v" "w \<noteq> length v" using len Cons by auto
      moreover have "take w v = [] \<or> part_of_seq (take w v)"
      proof (cases w)
        case (Suc w')
        then have "take w v = c # take w' s" "length (take w' s) < k" using True Cons by auto
        moreover have "take w' s = take w' (take k s)" using Suc True by (simp add: min_def)
        then have "list_all continuation (take w' s)" using conts by (metis in_set_takeD list_all_iff)
        ultimately show ?thesis using l by (auto simp: part_of_seq_def)
      qed simp
      ultimately show ?thesis using 1 by (metis drop_0 list.size(3) utf8_valid_Nil)
    next
      case False
      then have w: "w - Suc k \<le> length (drop k s)" "length (drop k s) < length v" using 1 Cons len by auto
      from 1(1) [rule_format, OF w(2) v w(1)] obtain p frag where
        p: "take (w - Suc k) (drop k s) = p @ frag" "utf8_valid p" "utf8_valid (drop (length p) (drop k s))"
          "frag = [] \<or> part_of_seq frag" "w - Suc k = length (drop k s) \<longrightarrow> frag = []" by blast
      have "take w v = c # take (w - 1) s" using False Cons by (cases w) auto
      also have "take (w - 1) s = take k s @ take (w - Suc k) (drop k s)"
        proof -
        have "w - 1 = k + (w - Suc k)" using False by simp
        then show ?thesis by (simp only: take_add)
      qed
      finally have split: "take w v = (c # take k s @ p) @ frag" using p(1) by simp
      have "utf8_conts k lo hi (take k s @ []) = take k s"
        using utf8_conts_self [of "take k s" k lo hi s "[]"] ks k len by simp
      then have "utf8_text (c # take k s) = c # take k s"
        using l len by (simp add: Let_def)
      then have "utf8_valid ((c # take k s) @ p)"
        using p(2) by (intro utf8_valid_append) (simp_all add: utf8_valid_def)
      moreover have "drop (length (c # take k s @ p)) v = drop (length p) (drop k s)"
        using Cons len by (simp add: min_def add.commute)
      moreover have "w = length v \<longrightarrow> w - Suc k = length (drop k s)" using Cons len by auto
      ultimately show ?thesis using split p by (metis append_Cons)
    qed
  qed
qed

subsection \<open>The fragment the daemon holds back\<close>

text \<open>Well-formed text ends with a whole sequence.\<close>

lemma valid_last:
  assumes "utf8_valid p" "p \<noteq> []"
  shows "\<exists>q c s k lo hi. p = q @ c # s \<and> utf8_lead c = Some (k, lo, hi) \<and> length s = k \<and> list_all continuation s"
  using assms
proof (induction p rule: length_induct)
  case (1 p)
  then obtain c s where p: "p = c # s" by (cases p) auto
  with 1 have "utf8_valid (c # s)" by simp
  then obtain k lo hi where l: "utf8_lead c = Some (k, lo, hi)"
    and k: "length (utf8_conts k lo hi s) = k" and v: "utf8_valid (drop k s)"
    by (rule utf8_valid_Cons)
  have ks: "take k s = utf8_conts k lo hi s" using utf8_conts_prefix [of k lo hi s] k by simp
  then have conts: "list_all continuation (take k s)" "length (take k s) = k"
    using lead_bounds [OF l] k by (simp_all add: conts_continuation)
  show ?case
  proof (cases "drop k s")
    case Nil
    then have "take k s = s" by simp
    with l conts p show ?thesis by (intro exI [of _ "[]"]) auto
  next
    case (Cons a as)
    then have "length (drop k s) < length p" "drop k s \<noteq> []"
      using p by (metis diff_le_self length_Cons length_drop less_Suc_eq_le, simp)
    from 1(1) [rule_format, OF this(1) v this(2)] obtain q c' s' k' lo' hi' where
      "drop k s = q @ c' # s'" "utf8_lead c' = Some (k', lo', hi')" "length s' = k'" "list_all continuation s'"
      by blast
    moreover have "p = c # take k s @ drop k s" using p by simp
    ultimately show ?thesis by (intro exI [of _ "c # take k s @ q"]) auto
  qed
qed

lemma scan_continuations:
  assumes "list_all continuation r" "length r \<le> n"
  shows "fragment_scan i n (r @ t) = fragment_scan (i + length r) (n - length r) t"
  using assms
proof (induction r arbitrary: i n)
  case (Cons x xs)
  then obtain m where "n = Suc m" "length xs \<le> m" by (cases n) auto
  with Cons show ?case by simp
qed simp

lemma fragment_part:
  assumes "part_of_seq frag"
  shows "trailing_fragment_length (p @ frag) = length frag"
proof -
  from assms obtain c s k lo hi where f: "frag = c # s" "utf8_lead c = Some (k, lo, hi)" "length s < k"
    "list_all continuation s" by (auto simp: part_of_seq_def)
  have k: "k \<le> 3" using lead_bounds [OF f(2)] by simp
  have "trailing_fragment_length (p @ frag) = fragment_scan 1 3 (rev s @ c # rev p)"
    by (simp add: trailing_fragment_length_def f(1))
  also have "\<dots> = fragment_scan (1 + length s) (3 - length s) (c # rev p)"
    using f(3,4) k scan_continuations [of "rev s" 3 1 "c # rev p"] by (simp add: list_all_iff)
  also have "\<dots> = Suc (length s)"
  proof -
    obtain m where m: "3 - length s = Suc m" using f(3) k by (cases "3 - length s") auto
    have "\<not> byte c < 0x80" using lead_ascii [OF f(2)] f(3) by simp
    with m lead_width [OF f(2)] lead_not_continuation [OF f(2)] f(3) show ?thesis
      by (simp add: Let_def)
  qed
  finally show ?thesis using f(1) by simp
qed

lemma fragment_valid:
  assumes "utf8_valid p"
  shows "trailing_fragment_length p = 0"
proof (cases "p = []")
  case True
  then show ?thesis by (simp add: trailing_fragment_length_def eval_nat_numeral)
next
  case False
  from valid_last [OF assms False] obtain q c s k lo hi where p: "p = q @ c # s"
    "utf8_lead c = Some (k, lo, hi)" "length s = k" "list_all continuation s" by blast
  have k: "k \<le> 3" using lead_bounds [OF p(2)] by simp
  have "trailing_fragment_length p = fragment_scan 1 3 (rev s @ c # rev q)"
    by (simp add: trailing_fragment_length_def p(1))
  also have "\<dots> = fragment_scan (1 + k) (3 - k) (c # rev q)"
    using p(3,4) k scan_continuations [of "rev s" 3 1 "c # rev q"] by (simp add: list_all_iff)
  also have "\<dots> = 0"
  proof (cases "3 - k")
    case (Suc m)
    show ?thesis
    proof (cases "byte c < 0x80")
      case True
      with Suc lead_ascii [OF p(2)] lead_not_continuation [OF p(2)] show ?thesis
        by (simp add: eval_nat_numeral)
    next
      case False
      with Suc lead_width [OF p(2)] lead_not_continuation [OF p(2)] show ?thesis by (simp add: Let_def)
    qed
  qed simp
  finally show ?thesis .
qed

text \<open>Where the daemon reads text: the rest of the file is well-formed, and holds no NUL.\<close>

definition text_boundary :: "bytes \<Rightarrow> nat \<Rightarrow> bool" where
  "text_boundary content offset \<longleftrightarrow> utf8_valid (drop offset content) \<and> CHR 0x00 \<notin> set content"

lemma chunk_slice:
  assumes "text_boundary content offset"
  shows "\<exists>nextOffset. offset \<le> nextOffset \<and> text_boundary content nextOffset
      \<and> read_text_chunk content offset len =
          Inr (take (nextOffset - offset) (drop offset content), nextOffset, length content \<le> nextOffset)
      \<and> (nextOffset < length content \<longrightarrow> offset < nextOffset)"
proof (cases "offset \<ge> length content")
  case True
  with assms show ?thesis by (intro exI [of _ offset]) (simp add: read_text_chunk_def)
next
  case False
  define rest where "rest = drop offset content"
  define w where "w = min (max len 4) (length content - offset)"
  have valid: "utf8_valid rest" and nul: "CHR 0x00 \<notin> set content"
    using assms by (auto simp: text_boundary_def rest_def)
  have le: "w \<le> length rest" by (simp add: w_def rest_def)
  obtain p frag where p: "take w rest = p @ frag" "utf8_valid p" "utf8_valid (drop (length p) rest)"
    "frag = [] \<or> part_of_seq frag" "w = length rest \<longrightarrow> frag = []"
    using cut_valid [OF valid le] by blast
  have lens: "length (take w rest) = w" "w = length p + length frag"
    using le arg_cong [OF p(1), of length] by simp_all
  have frag: "trailing_fragment_length (take w rest) = length frag"
    using p(1,2,4) fragment_part fragment_valid by auto
  have small: "length frag \<le> 3"
    using p(4) lead_bounds by (force simp: part_of_seq_def)
  have prog: "p \<noteq> []"
  proof
    assume "p = []"
    then have "w \<le> 3" using lens small by simp
    then have "w = length rest" by (simp add: w_def rest_def)
    with p(5) lens \<open>p = []\<close> have "length rest = 0" by simp
    with False show False by (simp add: rest_def)
  qed
  have usable: "(if length frag > 0 \<and> length frag < w then take (w - length frag) (take w rest) else take w rest) = p"
    using p(1) lens prog by auto
  have "set p \<subseteq> set content"
    using p(1) by (metis rest_def le_supI1 order_refl set_append set_drop_subset set_take_subset subset_trans sup_ge1)
  then have dec: "decode_text p = Inr p" using nul p(2) by (auto simp: decode_text_def)
  have "\<not> (length frag > 0 \<and> offset + w \<ge> length content)"
    using p(5) le by (auto simp: rest_def)
  then have "read_text_chunk content offset len = Inr (p, offset + length p, length content \<le> offset + length p)"
    using False
    by (simp only: read_text_chunk_def Let_def w_def [symmetric] rest_def [symmetric] frag lens(1) usable
      dec bind_res_simps if_False not_False_eq_True)
  moreover have "p = take (length p) rest"
    using p(1) lens by (metis append_eq_conv_conj le_add1 min.absorb1 take_take)
  moreover have "text_boundary content (offset + length p)"
    using p(3) nul by (simp add: text_boundary_def rest_def add.commute)
  ultimately show ?thesis using prog by (intro exI [of _ "offset + length p"]) (simp add: rest_def)
qed

interpretation agent_text: text_chunks "read_text_chunk content" content "text_boundary content" for content
  by unfold_locales (rule chunk_slice)

end
