(* ===== verification/Routing_Fs.thy ===== *)
theory Routing_Fs
  imports Routing Base64 Text_Chunks
begin

section \<open>The filesystem router: plugin/routing/fs.ts\<close>

text \<open>
  The routing filesystem: which machine a path or a target belongs to, the requests it makes
  there, and the errors it answers with. The composed local filesystem and each node's channel
  are records of functions, one per seam verb or wire method of \<open>remote/protocol.ts\<close>. Every
  operation answers a result and the calls it made, in order. \<open>aborted\<close> is the state of the
  caller's signal (for a streamed read, before each round trip).
\<close>

subsection \<open>Values on the seam and on the wire\<close>

datatype fs_failure =
    Fs_Error string string
  | Node_Request_Error string string
  | Other_Error string

text \<open>\<open>Fs_Error message code\<close> is the seam's typed error, \<open>Node_Request_Error message code\<close> a daemon
  failure, \<open>Other_Error\<close> anything the transport raises.\<close>

datatype wire_type = Type_file | Type_directory | Type_symlink | Type_other

record wire_stat =
  ws_version :: string
  ws_type :: wire_type
  ws_size :: "nat option"

record fs_target =
  ft_targetKey :: string
  ft_displayPath :: path

record wire_dir_entry =
  wd_name :: string
  wd_type :: wire_type
  wd_canonicalPath :: path
  wd_version :: "string option"
  wd_size :: "nat option"

record fs_dir_entry =
  fe_name :: string
  fe_type :: wire_type
  fe_target :: fs_target
  fe_version :: "string option"
  fe_size :: "nat option"

datatype write_intent = CreateIfAbsent | ReplaceIfVersion string

record write_outcome =
  wo_operation :: string
  wo_version :: string
  wo_before :: "string option"
  wo_after :: string

record edit_request =
  er_oldString :: string
  er_newString :: string
  er_replaceAll :: bool

record edit_outcome =
  eo_version :: string
  eo_before :: string
  eo_after :: string

datatype sandbox_mode = Danger_full_access | Read_only | Workspace_write

record fs_channel =
  fc_resolve :: "path \<Rightarrow> fs_failure + path"
  fc_stat :: "path \<Rightarrow> fs_failure + wire_stat option"
  fc_lstat :: "path \<Rightarrow> fs_failure + wire_stat option"
  fc_readTextChunk :: "path \<Rightarrow> nat \<Rightarrow> nat \<Rightarrow> fs_failure + string \<times> nat \<times> bool"
  fc_readBytes :: "path \<Rightarrow> nat \<Rightarrow> fs_failure + string"
  fc_readByteRange :: "path \<Rightarrow> nat \<Rightarrow> nat \<Rightarrow> fs_failure + string"
  fc_listDir :: "path \<Rightarrow> fs_failure + wire_dir_entry list"
  fc_writeText :: "path \<Rightarrow> string \<Rightarrow> write_intent option \<Rightarrow> fs_failure + write_outcome"
  fc_editText :: "path \<Rightarrow> edit_request \<Rightarrow> string option \<Rightarrow> fs_failure + edit_outcome"

record local_fs =
  lf_resolve :: "path \<Rightarrow> path option \<Rightarrow> fs_failure + fs_target"
  lf_processPath :: "fs_target \<Rightarrow> path"
  lf_fileUrl :: "fs_target \<Rightarrow> string"
  lf_contains :: "fs_target \<Rightarrow> fs_target \<Rightarrow> bool"
  lf_stat :: "fs_target \<Rightarrow> fs_failure + wire_stat option"
  lf_lstat :: "path \<Rightarrow> path option \<Rightarrow> fs_failure + wire_stat option"
  lf_readText :: "fs_target \<Rightarrow> fs_failure + string"
  lf_streamText :: "fs_target \<Rightarrow> fs_failure + string list"
  lf_readBytes :: "fs_target \<Rightarrow> nat \<Rightarrow> fs_failure + bytes"
  lf_readByteRange :: "fs_target \<Rightarrow> nat \<Rightarrow> nat \<Rightarrow> fs_failure + bytes"
  lf_listDir :: "fs_target \<Rightarrow> fs_failure + fs_dir_entry list"
  lf_writeText :: "fs_target \<Rightarrow> string \<Rightarrow> write_intent option \<Rightarrow> sandbox_mode option \<Rightarrow> fs_failure + write_outcome"
  lf_editText :: "fs_target \<Rightarrow> edit_request \<Rightarrow> string option \<Rightarrow> sandbox_mode option \<Rightarrow> fs_failure + edit_outcome"

record fs_deps =
  fd_local :: local_fs
  fd_anchors :: "anchor_route list"
  fd_channel :: "node_id \<rightharpoonup> fs_channel"

text \<open>A call: one verb of the local filesystem, or one wire method of one node on one path.\<close>

datatype fs_call = Call_Local string | Call_Node node_id string path

type_synonym 'r fs_out = "(fs_failure + 'r) \<times> fs_call list"

subsection \<open>Keys and errors\<close>

definition TARGET_KEY_PREFIX :: string where "TARGET_KEY_PREFIX = ''node:''"

definition TEXT_CHUNK_BYTES :: nat where "TEXT_CHUNK_BYTES = 2 ^ 20"

definition REMOTE_TEMP_ROOT :: path where "REMOTE_TEMP_ROOT = ''/tmp''"

datatype parsed_key = Local_Key | Remote_Key node_id path

definition composeKey :: "node_id \<Rightarrow> path \<Rightarrow> string" where
  "composeKey nodeId remotePath = TARGET_KEY_PREFIX @ nodeId @ '':'' @ remotePath"

definition parseKey :: "string \<Rightarrow> parsed_key" where
  "parseKey raw =
     (if \<not> startsWith raw TARGET_KEY_PREFIX then Local_Key
      else
        (let rest = drop (length TARGET_KEY_PREFIX) raw;
             node = takeWhile (\<lambda>c. c \<noteq> CHR '':'') rest;
             after = dropWhile (\<lambda>c. c \<noteq> CHR '':'') rest
         in if after = [] \<or> node = [] \<or> \<not> startsWith (tl after) ''/'' then Local_Key
            else Remote_Key node (tl after)))"

definition isFsErrorCode :: "string \<Rightarrow> bool" where
  "isFsErrorCode code = startsWith code ''FS_''"

definition toFsError :: "fs_failure \<Rightarrow> fs_failure" where
  "toFsError err =
     (case err of
        Node_Request_Error msg code \<Rightarrow> if isFsErrorCode code then Fs_Error msg code else err
      | _ \<Rightarrow> err)"

definition map_failure :: "('e \<Rightarrow> 'f) \<Rightarrow> 'e + 'a \<Rightarrow> 'f + 'a" where
  "map_failure f r = (case r of Inl e \<Rightarrow> Inl (f e) | Inr x \<Rightarrow> Inr x)"

definition quote_name :: "string \<Rightarrow> string" where
  "quote_name s = [CHR 0x22] @ s @ [CHR 0x22]"

definition requireChannel :: "fs_deps \<Rightarrow> node_id \<Rightarrow> fs_failure + fs_channel" where
  "requireChannel deps nodeId =
     (case fd_channel deps nodeId of
        None \<Rightarrow> Inl (Fs_Error (''remote node '' @ quote_name nodeId @
          '' is not connected; open the machine before using this workspace'') ''FS_IO_ERROR'')
      | Some ch \<Rightarrow> Inr ch)"

definition fs_ask :: "fs_deps \<Rightarrow> node_id \<Rightarrow> string \<Rightarrow> path \<Rightarrow> (fs_channel \<Rightarrow> fs_failure + 'r) \<Rightarrow> 'r fs_out" where
  "fs_ask deps nodeId meth p call =
     (case requireChannel deps nodeId of
        Inl err \<Rightarrow> (Inl (toFsError err), [])
      | Inr ch \<Rightarrow> (map_failure toFsError (call ch), [Call_Node nodeId meth p]))"

definition abort_error :: fs_failure where
  "abort_error = Fs_Error ''filesystem operation aborted'' ''FS_ABORTED''"

definition unless_aborted :: "bool \<Rightarrow> 'r fs_out \<Rightarrow> 'r fs_out" where
  "unless_aborted aborted out = (if aborted then (Inl abort_error, []) else out)"

definition ambiguousError :: "path \<Rightarrow> node_id list \<Rightarrow> fs_failure" where
  "ambiguousError remotePath nodeIds = Fs_Error (ambiguousPathMessage remotePath nodeIds) ''FS_IO_ERROR''"

definition map_out :: "('a \<Rightarrow> 'b) \<Rightarrow> 'a fs_out \<Rightarrow> 'b fs_out" where
  "map_out f out = (case fst out of Inl e \<Rightarrow> (Inl e, snd out) | Inr x \<Rightarrow> (Inr (f x), snd out))"

definition fs_local :: "string \<Rightarrow> fs_failure + 'r \<Rightarrow> 'r fs_out" where
  "fs_local verb r = (r, [Call_Local verb])"

subsection \<open>Writing on a node\<close>

definition remoteWriteAllowed :: "sandbox_mode option \<Rightarrow> path \<Rightarrow> path option \<Rightarrow> bool" where
  "remoteWriteAllowed policy remotePath remoteRoot =
     (case policy of
        None \<Rightarrow> True
      | Some Danger_full_access \<Rightarrow> True
      | Some Read_only \<Rightarrow> False
      | Some Workspace_write \<Rightarrow>
          if isWithin REMOTE_TEMP_ROOT remotePath then True
          else (case remoteRoot of None \<Rightarrow> False | Some root \<Rightarrow> isWithin root remotePath))"

definition anchorFor :: "fs_deps \<Rightarrow> node_id \<Rightarrow> path \<Rightarrow> anchor_route option" where
  "anchorFor deps nodeId remotePath =
     List.find (\<lambda>a. ar_nodeId a = nodeId \<and> isWithin (ar_remoteRoot a) remotePath) (fd_anchors deps)"

definition mode_name :: "sandbox_mode option \<Rightarrow> string" where
  "mode_name policy = (case policy of None \<Rightarrow> ''undefined'' | Some Danger_full_access \<Rightarrow> ''danger-full-access''
     | Some Read_only \<Rightarrow> ''read-only'' | Some Workspace_write \<Rightarrow> ''workspace-write'')"

definition requireRemoteWrite ::
    "fs_deps \<Rightarrow> node_id \<Rightarrow> path \<Rightarrow> string \<Rightarrow> sandbox_mode option \<Rightarrow> fs_failure option" where
  "requireRemoteWrite deps nodeId remotePath verb policy =
     (if remoteWriteAllowed policy remotePath (map_option ar_remoteRoot (anchorFor deps nodeId remotePath))
      then None
      else Some (Fs_Error (''remote '' @ verb @ '' denied by the '' @ mode_name policy @ '' policy: '' @ remotePath)
        ''FS_SANDBOX_DENIED''))"

subsection \<open>The verbs\<close>

definition fs_resolve :: "fs_deps \<Rightarrow> bool \<Rightarrow> path \<Rightarrow> path option \<Rightarrow> fs_target fs_out" where
  "fs_resolve deps aborted p cwd =
     unless_aborted aborted
       (case classifyPath p cwd (fd_anchors deps) of
          Local_Route \<Rightarrow> fs_local ''resolve'' (lf_resolve (fd_local deps) p cwd)
        | Ambiguous_Route q ids \<Rightarrow> (Inl (ambiguousError q ids), [])
        | Remote_Route nodeId q \<Rightarrow>
            map_out (\<lambda>canonicalPath. \<lparr>ft_targetKey = composeKey nodeId canonicalPath, ft_displayPath = canonicalPath\<rparr>)
              (fs_ask deps nodeId ''fs.resolve'' q (\<lambda>ch. fc_resolve ch q)))"

definition fs_processPath :: "fs_deps \<Rightarrow> fs_target \<Rightarrow> path" where
  "fs_processPath deps target =
     (case parseKey (ft_targetKey target) of
        Local_Key \<Rightarrow> lf_processPath (fd_local deps) target | Remote_Key _ p \<Rightarrow> p)"

text \<open>\<open>encodeURIComponent\<close> of a segment, over its UTF-8 bytes.\<close>

definition hex_digit :: "nat \<Rightarrow> char" where
  "hex_digit n = ''0123456789ABCDEF'' ! n"

definition uri_unreserved :: "char \<Rightarrow> bool" where
  "uri_unreserved c \<longleftrightarrow> c \<in> set (''ABCDEFGHIJKLMNOPQRSTUVWXYZabcdefghijklmnopqrstuvwxyz0123456789-_.!~*'' @ [CHR 0x27] @ ''()'')"

definition encodeURIComponent :: "string \<Rightarrow> string" where
  "encodeURIComponent s = concat (map (\<lambda>c. if uri_unreserved c then [c]
     else [CHR ''%'', hex_digit (byte c div 16), hex_digit (byte c mod 16)]) s)"

definition fs_fileUrl :: "fs_deps \<Rightarrow> fs_target \<Rightarrow> string" where
  "fs_fileUrl deps target =
     (case parseKey (ft_targetKey target) of
        Local_Key \<Rightarrow> lf_fileUrl (fd_local deps) target
      | Remote_Key _ p \<Rightarrow> ''file://'' @ join_with ''/'' (map encodeURIComponent (split_on (CHR ''/'') p)))"

definition fs_contains :: "fs_deps \<Rightarrow> fs_target \<Rightarrow> fs_target \<Rightarrow> bool" where
  "fs_contains deps par child =
     (case (parseKey (ft_targetKey par), parseKey (ft_targetKey child)) of
        (Local_Key, Local_Key) \<Rightarrow> lf_contains (fd_local deps) par child
      | (Remote_Key n p, Remote_Key m q) \<Rightarrow> n = m \<and> isWithin p q
      | _ \<Rightarrow> False)"

definition fs_stat :: "fs_deps \<Rightarrow> bool \<Rightarrow> fs_target \<Rightarrow> wire_stat option fs_out" where
  "fs_stat deps aborted target =
     unless_aborted aborted
       (case parseKey (ft_targetKey target) of
          Local_Key \<Rightarrow> fs_local ''stat'' (lf_stat (fd_local deps) target)
        | Remote_Key n p \<Rightarrow> fs_ask deps n ''fs.stat'' p (\<lambda>ch. fc_stat ch p))"

definition fs_lstat :: "fs_deps \<Rightarrow> bool \<Rightarrow> path \<Rightarrow> path option \<Rightarrow> wire_stat option fs_out" where
  "fs_lstat deps aborted p cwd =
     unless_aborted aborted
       (case classifyPath p cwd (fd_anchors deps) of
          Local_Route \<Rightarrow> fs_local ''lstat'' (lf_lstat (fd_local deps) p cwd)
        | Ambiguous_Route q ids \<Rightarrow> (Inl (ambiguousError q ids), [])
        | Remote_Route n q \<Rightarrow> fs_ask deps n ''fs.lstat'' q (\<lambda>ch. fc_lstat ch q))"

text \<open>\<open>streamText\<close> yields the chunks of \<open>remoteTextStream\<close>; \<open>readText\<close> joins them. \<open>None\<close> is a pull
  that has not ended within the fuel.\<close>

definition remoteTextStream ::
    "nat \<Rightarrow> fs_channel \<Rightarrow> node_id \<Rightarrow> path \<Rightarrow> (nat \<Rightarrow> bool) \<Rightarrow> string list fs_out option" where
  "remoteTextStream fuel ch nodeId remotePath aborted =
     map_option (\<lambda>(r, n). (r, replicate n (Call_Node nodeId ''fs.readTextChunk'' remotePath)))
       (pull fuel abort_error aborted
         (\<lambda>offset len. map_failure toFsError (fc_readTextChunk ch remotePath offset len)) TEXT_CHUNK_BYTES 0 0 [])"

definition fs_streamText ::
    "nat \<Rightarrow> fs_deps \<Rightarrow> bool \<Rightarrow> (nat \<Rightarrow> bool) \<Rightarrow> fs_target \<Rightarrow> string list fs_out option" where
  "fs_streamText fuel deps aborted later target =
     (if aborted then Some (Inl abort_error, [])
      else
        (case parseKey (ft_targetKey target) of
           Local_Key \<Rightarrow> Some (fs_local ''streamText'' (lf_streamText (fd_local deps) target))
         | Remote_Key n p \<Rightarrow>
             (case requireChannel deps n of
                Inl err \<Rightarrow> Some (Inl err, [])
              | Inr ch \<Rightarrow> remoteTextStream fuel ch n p later)))"

definition fs_readText ::
    "nat \<Rightarrow> fs_deps \<Rightarrow> bool \<Rightarrow> (nat \<Rightarrow> bool) \<Rightarrow> fs_target \<Rightarrow> string fs_out option" where
  "fs_readText fuel deps aborted later target =
     (if aborted then Some (Inl abort_error, [])
      else
        (case parseKey (ft_targetKey target) of
           Local_Key \<Rightarrow> Some (fs_local ''readText'' (lf_readText (fd_local deps) target))
         | Remote_Key n p \<Rightarrow>
             (case requireChannel deps n of
                Inl err \<Rightarrow> Some (Inl err, [])
              | Inr ch \<Rightarrow> map_option (map_out concat) (remoteTextStream fuel ch n p later))))"

definition fs_readBytes :: "fs_deps \<Rightarrow> bool \<Rightarrow> fs_target \<Rightarrow> nat \<Rightarrow> bytes fs_out" where
  "fs_readBytes deps aborted target maxBytes =
     unless_aborted aborted
       (case parseKey (ft_targetKey target) of
          Local_Key \<Rightarrow> fs_local ''readBytes'' (lf_readBytes (fd_local deps) target maxBytes)
        | Remote_Key n p \<Rightarrow> map_out base64_decode (fs_ask deps n ''fs.readBytes'' p (\<lambda>ch. fc_readBytes ch p maxBytes)))"

definition fs_readByteRange :: "fs_deps \<Rightarrow> bool \<Rightarrow> fs_target \<Rightarrow> nat \<Rightarrow> nat \<Rightarrow> bytes fs_out" where
  "fs_readByteRange deps aborted target offset len =
     unless_aborted aborted
       (case parseKey (ft_targetKey target) of
          Local_Key \<Rightarrow> fs_local ''readByteRange'' (lf_readByteRange (fd_local deps) target offset len)
        | Remote_Key n p \<Rightarrow>
            map_out base64_decode (fs_ask deps n ''fs.readByteRange'' p (\<lambda>ch. fc_readByteRange ch p offset len)))"

definition fs_listDir :: "fs_deps \<Rightarrow> bool \<Rightarrow> fs_target \<Rightarrow> fs_dir_entry list fs_out" where
  "fs_listDir deps aborted target =
     unless_aborted aborted
       (case parseKey (ft_targetKey target) of
          Local_Key \<Rightarrow> fs_local ''listDir'' (lf_listDir (fd_local deps) target)
        | Remote_Key n p \<Rightarrow>
            map_out (map (\<lambda>e. \<lparr>fe_name = wd_name e, fe_type = wd_type e,
                fe_target = \<lparr>ft_targetKey = composeKey n (wd_canonicalPath e), ft_displayPath = wd_canonicalPath e\<rparr>,
                fe_version = wd_version e, fe_size = wd_size e\<rparr>))
              (fs_ask deps n ''fs.listDir'' p (\<lambda>ch. fc_listDir ch p)))"

definition fs_writeText ::
    "fs_deps \<Rightarrow> bool \<Rightarrow> fs_target \<Rightarrow> string \<Rightarrow> write_intent option \<Rightarrow> sandbox_mode option \<Rightarrow> write_outcome fs_out" where
  "fs_writeText deps aborted target content expected policy =
     unless_aborted aborted
       (case parseKey (ft_targetKey target) of
          Local_Key \<Rightarrow> fs_local ''writeText'' (lf_writeText (fd_local deps) target content expected policy)
        | Remote_Key n p \<Rightarrow>
            (case requireRemoteWrite deps n p ''write'' policy of
               Some err \<Rightarrow> (Inl err, [])
             | None \<Rightarrow> fs_ask deps n ''fs.writeText'' p (\<lambda>ch. fc_writeText ch p content expected)))"

definition fs_editText ::
    "fs_deps \<Rightarrow> bool \<Rightarrow> fs_target \<Rightarrow> edit_request \<Rightarrow> string option \<Rightarrow> sandbox_mode option \<Rightarrow> edit_outcome fs_out" where
  "fs_editText deps aborted target edit expected policy =
     unless_aborted aborted
       (case parseKey (ft_targetKey target) of
          Local_Key \<Rightarrow> fs_local ''editText'' (lf_editText (fd_local deps) target edit expected policy)
        | Remote_Key n p \<Rightarrow>
            (case requireRemoteWrite deps n p ''edit'' policy of
               Some err \<Rightarrow> (Inl err, [])
             | None \<Rightarrow> fs_ask deps n ''fs.editText'' p (\<lambda>ch. fc_editText ch p edit expected)))"

subsection \<open>Properties\<close>

lemma startsWith_append [simp]: "startsWith (p @ s) p"
  by (simp add: startsWith_def)

lemma parse_compose:
  assumes "n \<noteq> []" "CHR '':'' \<notin> set n" "is_absolute p"
  shows "parseKey (composeKey n p) = Remote_Key n p"
proof -
  have "takeWhile (\<lambda>c. c \<noteq> CHR '':'') (n @ CHR '':'' # p) = n"
    "dropWhile (\<lambda>c. c \<noteq> CHR '':'') (n @ CHR '':'' # p) = CHR '':'' # p"
    using assms(2) by (auto simp: takeWhile_append2 dropWhile_append2 takeWhile_append dropWhile_append takeWhile_eq_all_conv)
  with assms(1,3) show ?thesis
    by (simp add: parseKey_def composeKey_def TARGET_KEY_PREFIX_def startsWith_def Let_def is_absolute_def)
qed

lemma compose_parse:
  assumes "parseKey raw = Remote_Key n p"
  shows "composeKey n p = raw \<and> n \<noteq> [] \<and> CHR '':'' \<notin> set n \<and> is_absolute p"
proof -
  let ?rest = "drop (length TARGET_KEY_PREFIX) raw"
  have pre: "startsWith raw TARGET_KEY_PREFIX" and n: "n = takeWhile (\<lambda>c. c \<noteq> CHR '':'') ?rest"
    and aft: "dropWhile (\<lambda>c. c \<noteq> CHR '':'') ?rest \<noteq> []" and p: "p = tl (dropWhile (\<lambda>c. c \<noteq> CHR '':'') ?rest)"
    and ok: "n \<noteq> []" "startsWith p ''/''"
    using assms by (auto simp: parseKey_def Let_def split: if_splits)
  have "hd (dropWhile (\<lambda>c. c \<noteq> CHR '':'') ?rest) = CHR '':''" using hd_dropWhile [OF aft] by simp
  with aft p have "dropWhile (\<lambda>c. c \<noteq> CHR '':'') ?rest = CHR '':'' # p" by (metis list.collapse)
  with n have "?rest = n @ CHR '':'' # p" by (metis takeWhile_dropWhile_id)
  with pre have "raw = TARGET_KEY_PREFIX @ n @ CHR '':'' # p"
    by (metis append_take_drop_id startsWith_def)
  moreover have "CHR '':'' \<notin> set n" using n by (auto dest: set_takeWhileD)
  ultimately show ?thesis using ok by (simp add: composeKey_def is_absolute_def)
qed

text \<open>C3: target keys are faithful: a key minted for a machine and a path parses back to exactly them,
  and every key that parses as remote is the one minted for what it parses to, so two machines or
  two paths never share a key.\<close>

theorem key_roundtrip:
  "(n \<noteq> [] \<and> CHR '':'' \<notin> set n \<and> is_absolute p \<longrightarrow> parseKey (composeKey n p) = Remote_Key n p)
   \<and> (parseKey raw = Remote_Key m q \<longrightarrow> composeKey m q = raw \<and> m \<noteq> [] \<and> CHR '':'' \<notin> set m \<and> is_absolute q)"
  using parse_compose compose_parse by blast

theorem key_roundtrip_witness:
  "parseKey ''node:box:/srv/a:b'' = Remote_Key ''box'' ''/srv/a:b'' \<and> composeKey ''box'' ''/srv/a:b'' = ''node:box:/srv/a:b''"
proof -
  have "parseKey ''node:box:/srv/a:b'' = Remote_Key ''box'' ''/srv/a:b''" by code_simp
  with key_roundtrip [THEN conjunct2, THEN mp, OF this] show ?thesis by simp
qed

text \<open>The calls each verb makes on a target.\<close>

definition target_calls ::
    "nat \<Rightarrow> fs_deps \<Rightarrow> bool \<Rightarrow> (nat \<Rightarrow> bool) \<Rightarrow> fs_target \<Rightarrow> nat \<Rightarrow> nat \<Rightarrow> string \<Rightarrow> edit_request \<Rightarrow>
      write_intent option \<Rightarrow> string option \<Rightarrow> sandbox_mode option \<Rightarrow> fs_call list list" where
  "target_calls fuel deps aborted later target a b content edit intent version policy =
     [snd (fs_stat deps aborted target),
      (case fs_streamText fuel deps aborted later target of None \<Rightarrow> [] | Some out \<Rightarrow> snd out),
      (case fs_readText fuel deps aborted later target of None \<Rightarrow> [] | Some out \<Rightarrow> snd out),
      snd (fs_readBytes deps aborted target a),
      snd (fs_readByteRange deps aborted target a b),
      snd (fs_listDir deps aborted target),
      snd (fs_writeText deps aborted target content intent policy),
      snd (fs_editText deps aborted target edit version policy)]"

definition owner_call :: "fs_target \<Rightarrow> fs_call \<Rightarrow> bool" where
  "owner_call target c =
     (case parseKey (ft_targetKey target) of
        Local_Key \<Rightarrow> (\<exists>verb. c = Call_Local verb)
      | Remote_Key n p \<Rightarrow> (\<exists>meth. c = Call_Node n meth p))"

lemma ask_calls: "c \<in> set (snd (fs_ask deps n meth p call)) \<Longrightarrow> c = Call_Node n meth p"
  by (auto simp: fs_ask_def split: sum.splits)

lemma map_out_calls [simp]: "snd (map_out f out) = snd out"
  by (simp add: map_out_def split: sum.splits)

lemma stream_calls:
  "Some (r, calls) = remoteTextStream fuel ch n p later \<Longrightarrow> c \<in> set calls \<Longrightarrow>
    c = Call_Node n ''fs.readTextChunk'' p"
  by (drule sym) (auto simp: remoteTextStream_def map_option_eq_Some)

lemma joined_stream_calls:
  "Some (r, calls) = map_option (map_out concat) (remoteTextStream fuel ch n p later) \<Longrightarrow> c \<in> set calls \<Longrightarrow>
    c = Call_Node n ''fs.readTextChunk'' p"
proof -
  assume a: "Some (r, calls) = map_option (map_out concat) (remoteTextStream fuel ch n p later)" "c \<in> set calls"
  then obtain out where "remoteTextStream fuel ch n p later = Some out" "map_out concat out = (r, calls)"
    using a(1) [symmetric] by (auto simp: map_option_eq_Some)
  moreover from this(2) have "snd out = calls" by (metis map_out_calls snd_conv)
  ultimately show ?thesis using a(2) stream_calls [of "fst out" calls] by (metis prod.collapse)
qed

lemma streamText_owner:
  "c \<in> set (case fs_streamText fuel deps aborted later target of None \<Rightarrow> [] | Some out \<Rightarrow> snd out) \<Longrightarrow>
    owner_call target c"
  by (cases "parseKey (ft_targetKey target)")
    (auto simp: fs_streamText_def owner_call_def fs_local_def dest: stream_calls joined_stream_calls
      split: if_splits sum.splits)

lemma readText_owner:
  "c \<in> set (case fs_readText fuel deps aborted later target of None \<Rightarrow> [] | Some out \<Rightarrow> snd out) \<Longrightarrow>
    owner_call target c"
  by (cases "parseKey (ft_targetKey target)")
    (auto simp: fs_readText_def owner_call_def fs_local_def dest: stream_calls joined_stream_calls
      split: if_splits sum.splits)

lemma simple_owner:
  assumes "c \<in> set (snd (unless_aborted aborted (case parseKey (ft_targetKey target) of
    Local_Key \<Rightarrow> fs_local verb r | Remote_Key n p \<Rightarrow> remote n p)))"
    and "\<And>n p. c \<in> set (snd (remote n p)) \<Longrightarrow> \<exists>meth. c = Call_Node n meth p"
  shows "owner_call target c"
  using assms by (auto simp: unless_aborted_def owner_call_def fs_local_def split: if_splits parsed_key.splits)

text \<open>C5: a target is only ever served by its owner: whatever verb is asked of it, every call goes to the
  machine its key names, on the path its key names, or to the local filesystem for a local key; and
  an operation whose signal has already fired makes no call at all.\<close>

theorem target_served_by_owner:
  "list_all (list_all (owner_call target)) (target_calls fuel deps aborted later target a b content edit intent version policy)
   \<and> list_all (\<lambda>calls. calls = []) (target_calls fuel deps True later target a b content edit intent version policy)"
proof
  show "list_all (list_all (owner_call target)) (target_calls fuel deps aborted later target a b content edit intent version policy)"
  proof -
    have "\<forall>c \<in> set (snd (fs_stat deps aborted target)). owner_call target c"
      "\<forall>c \<in> set (snd (fs_readBytes deps aborted target a)). owner_call target c"
      "\<forall>c \<in> set (snd (fs_readByteRange deps aborted target a b)). owner_call target c"
      "\<forall>c \<in> set (snd (fs_listDir deps aborted target)). owner_call target c"
      by (auto simp: fs_stat_def fs_readBytes_def fs_readByteRange_def fs_listDir_def
        dest!: ask_calls elim!: simple_owner)
    moreover have "\<forall>c \<in> set (snd (fs_writeText deps aborted target content intent policy)). owner_call target c"
      "\<forall>c \<in> set (snd (fs_editText deps aborted target edit version policy)). owner_call target c"
      by (auto simp: fs_writeText_def fs_editText_def dest!: ask_calls elim!: simple_owner split: option.splits)
    ultimately show ?thesis using streamText_owner readText_owner
      by (simp add: target_calls_def list_all_iff)
  qed
  show "list_all (\<lambda>calls. calls = []) (target_calls fuel deps True later target a b content edit intent version policy)"
    by (simp add: target_calls_def fs_stat_def fs_streamText_def fs_readText_def fs_readBytes_def
      fs_readByteRange_def fs_listDir_def fs_writeText_def fs_editText_def unless_aborted_def)
qed

definition permitted :: "fs_deps \<Rightarrow> node_id \<Rightarrow> path \<Rightarrow> sandbox_mode option \<Rightarrow> bool" where
  "permitted deps n p policy \<longleftrightarrow>
     (case policy of
        None \<Rightarrow> True | Some Danger_full_access \<Rightarrow> True | Some Read_only \<Rightarrow> False
      | Some Workspace_write \<Rightarrow> isWithin ''/tmp'' p \<or>
          (\<exists>a \<in> set (fd_anchors deps). ar_nodeId a = n \<and> isWithin (ar_remoteRoot a) p))"

lemma allowed_permitted:
  "remoteWriteAllowed policy p (map_option ar_remoteRoot (anchorFor deps n p)) \<longleftrightarrow> permitted deps n p policy"
proof -
  have "(case map_option ar_remoteRoot (anchorFor deps n p) of None \<Rightarrow> False | Some root \<Rightarrow> isWithin root p) \<longleftrightarrow>
      (\<exists>a \<in> set (fd_anchors deps). ar_nodeId a = n \<and> isWithin (ar_remoteRoot a) p)"
  proof (cases "anchorFor deps n p")
    case None
    then have "\<not> (\<exists>a \<in> set (fd_anchors deps). ar_nodeId a = n \<and> isWithin (ar_remoteRoot a) p)"
      by (auto simp: anchorFor_def find_None_iff)
    with None show ?thesis by simp
  next
    case (Some a)
    then have "a \<in> set (fd_anchors deps)" "ar_nodeId a = n" "isWithin (ar_remoteRoot a) p"
      by (auto simp: anchorFor_def find_Some_iff)
    with Some show ?thesis by auto
  qed
  then show ?thesis
    by (auto simp: remoteWriteAllowed_def permitted_def REMOTE_TEMP_ROOT_def split: option.splits sandbox_mode.splits)
qed

text \<open>C6: a remote mutation reaches the machine exactly when the policy permits the path: under
  \<open>workspace-write\<close> below \<open>/tmp\<close> or below the remote root of some anchor of that machine, never
  under \<open>read-only\<close>, always otherwise; a refused one makes no call and says \<open>FS_SANDBOX_DENIED\<close>.\<close>

theorem remote_write_policy:
  assumes "parseKey (ft_targetKey target) = Remote_Key n p" "fd_channel deps n = Some ch"
  shows "(snd (fs_writeText deps False target content intent policy) = [Call_Node n ''fs.writeText'' p]) = permitted deps n p policy
    \<and> (snd (fs_editText deps False target edit version policy) = [Call_Node n ''fs.editText'' p]) = permitted deps n p policy
    \<and> (\<not> permitted deps n p policy \<longrightarrow>
        snd (fs_writeText deps False target content intent policy) = []
        \<and> snd (fs_editText deps False target edit version policy) = []
        \<and> (\<exists>msg. fst (fs_writeText deps False target content intent policy) = Inl (Fs_Error msg ''FS_SANDBOX_DENIED''))
        \<and> (\<exists>msg. fst (fs_editText deps False target edit version policy) = Inl (Fs_Error msg ''FS_SANDBOX_DENIED'')))"
  using assms
  by (simp add: fs_writeText_def fs_editText_def unless_aborted_def requireRemoteWrite_def allowed_permitted
    fs_ask_def requireChannel_def)

text \<open>C8: reading a remote text file ends, and returns the whole file: for every well-formed text without
  NUL the daemon holds, however its chunks fall across code points, \<open>readText\<close> answers exactly that
  text within at most one request per byte and one more.\<close>

theorem readText_whole_file:
  assumes "parseKey (ft_targetKey target) = Remote_Key n p" "fd_channel deps n = Some ch"
    and daemon: "\<forall>offset len. fc_readTextChunk ch p offset len =
      map_failure (Node_Request_Error ''not text'') (read_text_chunk content offset len)"
    and "utf8_valid content" "CHR 0x00 \<notin> set content" "\<forall>k. \<not> later k" "length content < fuel"
  shows "\<exists>calls. fs_readText fuel deps False later target = Some (Inr content, calls)
    \<and> length calls \<le> fuel \<and> set calls \<subseteq> {Call_Node n ''fs.readTextChunk'' p}"
proof -
  define chunk where "chunk = (\<lambda>offset len. map_failure toFsError (fc_readTextChunk ch p offset len))"
  have same: "chunk offset len = map_failure (\<lambda>c. toFsError (Node_Request_Error ''not text'' c)) (read_text_chunk content offset len)" for offset len
    using daemon by (simp add: chunk_def map_failure_def split: sum.splits)
  have tc: "text_chunks chunk content (text_boundary content)"
  proof unfold_locales
    fix offset len assume "text_boundary content offset"
    from chunk_slice [OF this, of len] show "\<exists>nextOffset. offset \<le> nextOffset \<and> text_boundary content nextOffset
      \<and> chunk offset len = Inr (take (nextOffset - offset) (drop offset content), nextOffset, length content \<le> nextOffset)
      \<and> (nextOffset < length content \<longrightarrow> offset < nextOffset)"
      by (auto simp: same map_failure_def)
  qed
  have b: "text_boundary content 0" using assms(4,5) by (simp add: text_boundary_def)
  obtain chunks m where "pull fuel abort_error later chunk TEXT_CHUNK_BYTES 0 0 [] = Some (Inr chunks, m)"
    "concat chunks = content" "m \<le> fuel"
    using text_chunks.pull_file [OF tc b, of fuel later abort_error TEXT_CHUNK_BYTES 0 "[]"] assms(6,7) by auto
  then show ?thesis using assms(1,2)
    by (auto simp: fs_readText_def requireChannel_def remoteTextStream_def chunk_def map_out_def)
qed

text \<open>A node holding one file, and a router over it, for the witnesses.\<close>

definition demo_failure :: fs_failure where
  "demo_failure = Other_Error ''closed''"

definition demo_channel :: "bytes \<Rightarrow> fs_channel" where
  "demo_channel content = \<lparr>fc_resolve = Inr, fc_stat = (\<lambda>_. Inr None), fc_lstat = (\<lambda>_. Inr None),
     fc_readTextChunk = (\<lambda>p offset len. map_failure (Node_Request_Error ''not text'') (read_text_chunk content offset len)),
     fc_readBytes = (\<lambda>_ _. Inl demo_failure), fc_readByteRange = (\<lambda>_ _ _. Inl demo_failure),
     fc_listDir = (\<lambda>_. Inr []), fc_writeText = (\<lambda>_ _ _. Inl demo_failure), fc_editText = (\<lambda>_ _ _. Inl demo_failure)\<rparr>"

definition demo_local :: local_fs where
  "demo_local = \<lparr>lf_resolve = (\<lambda>_ _. Inl demo_failure), lf_processPath = ft_displayPath, lf_fileUrl = ft_displayPath,
     lf_contains = (\<lambda>_ _. False), lf_stat = (\<lambda>_. Inr None), lf_lstat = (\<lambda>_ _. Inr None),
     lf_readText = (\<lambda>_. Inl demo_failure), lf_streamText = (\<lambda>_. Inl demo_failure),
     lf_readBytes = (\<lambda>_ _. Inl demo_failure), lf_readByteRange = (\<lambda>_ _ _. Inl demo_failure),
     lf_listDir = (\<lambda>_. Inr []), lf_writeText = (\<lambda>_ _ _ _. Inl demo_failure), lf_editText = (\<lambda>_ _ _ _. Inl demo_failure)\<rparr>"

definition demo_deps :: "bytes \<Rightarrow> fs_deps" where
  "demo_deps content = \<lparr>fd_local = demo_local,
     fd_anchors = [\<lparr>ar_nodeId = ''n'', ar_anchorPath = ''/l/w'', ar_remoteRoot = ''/srv/app''\<rparr>],
     fd_channel = [''n'' \<mapsto> demo_channel content]\<rparr>"

theorem remote_write_policy_witness:
  "let t = \<lparr>ft_targetKey = ''node:n:/srv/app-old/f'', ft_displayPath = ''/srv/app-old/f''\<rparr>
   in snd (fs_writeText (demo_deps []) False t ''x'' None (Some Workspace_write)) = []"
proof -
  let ?t = "\<lparr>ft_targetKey = ''node:n:/srv/app-old/f'', ft_displayPath = ''/srv/app-old/f''\<rparr>"
  have k: "parseKey (ft_targetKey ?t) = Remote_Key ''n'' ''/srv/app-old/f''" by code_simp
  have c: "fd_channel (demo_deps []) ''n'' = Some (demo_channel [])" by (simp add: demo_deps_def)
  have "\<not> isWithin ''/tmp'' ''/srv/app-old/f'' \<and> \<not> isWithin ''/srv/app'' ''/srv/app-old/f''" by code_simp
  then have "\<not> permitted (demo_deps []) ''n'' ''/srv/app-old/f'' (Some Workspace_write)"
    by (simp add: permitted_def demo_deps_def)
  with remote_write_policy [OF k c, of "''x''" None "Some Workspace_write"] show ?thesis by simp
qed

theorem readText_whole_file_witness:
  "\<exists>calls. fs_readText 3 (demo_deps ''hi'') False (\<lambda>_. False)
     \<lparr>ft_targetKey = ''node:n:/f'', ft_displayPath = ''/f''\<rparr> = Some (Inr ''hi'', calls) \<and> length calls \<le> 3"
proof -
  let ?t = "\<lparr>ft_targetKey = ''node:n:/f'', ft_displayPath = ''/f''\<rparr>"
  have k: "parseKey (ft_targetKey ?t) = Remote_Key ''n'' ''/f''" by code_simp
  have c: "fd_channel (demo_deps ''hi'') ''n'' = Some (demo_channel ''hi'')" by (simp add: demo_deps_def)
  have d: "\<forall>offset len. fc_readTextChunk (demo_channel ''hi'') ''/f'' offset len =
      map_failure (Node_Request_Error ''not text'') (read_text_chunk ''hi'' offset len)"
    by (simp add: demo_channel_def)
  have v: "utf8_valid ''hi''" "CHR 0x00 \<notin> set ''hi''" by code_simp+
  from readText_whole_file [OF k c d v, of "\<lambda>_. False" 3] show ?thesis by auto
qed

end
