(* ===== verification/Documents.thy ===== *)
theory Documents
  imports Prelude
begin

section \<open>The durable JSON documents: storage/document.ts\<close>

text \<open>
  The document the node and repository stores share, at the level of JSON values:
  \<open>JSON.parse\<close> and \<open>JSON.stringify\<close> take the file's text to a value and back. What a store
  needs of its list of records is a locale, from which the run of a store is shown to be a finite
  map; the stores interpret it.
\<close>

subsection \<open>JSON values\<close>

text \<open>A number is a whole one below \<open>10 ^ 21\<close> in size, or another one kept as its text.\<close>

datatype js_number = Whole int | Fraction string

datatype json =
    JNull
  | JBool bool
  | JNum js_number
  | JStr string
  | JArr "json list"
  | JObj "(string \<times> json) list"

definition jfield :: "json \<Rightarrow> string \<Rightarrow> json option" where
  "jfield v k = (case v of JObj fs \<Rightarrow> map_of fs k | _ \<Rightarrow> None)"

definition jstring :: "json option \<Rightarrow> string option" where
  "jstring v = (case v of Some (JStr s) \<Rightarrow> Some s | _ \<Rightarrow> None)"

definition jnumber :: "json option \<Rightarrow> js_number option" where
  "jnumber v = (case v of Some (JNum n) \<Rightarrow> Some n | _ \<Rightarrow> None)"

text \<open>\<open>value === undefined || typeof value === ...\<close>: absent, or of the type.\<close>

definition optional :: "(json option \<Rightarrow> 'a option) \<Rightarrow> json option \<Rightarrow> 'a option option" where
  "optional rd v = (case v of None \<Rightarrow> Some None | Some _ \<Rightarrow> map_option Some (rd v))"

lemma jfield_JObj [simp]: "jfield (JObj fs) k = map_of fs k"
  by (simp add: jfield_def)

lemma jstring_simps [simp]: "jstring (Some (JStr s)) = Some s" "jstring None = None"
  by (simp_all add: jstring_def)

lemma jnumber_simps [simp]: "jnumber (Some (JNum n)) = Some n" "jnumber None = None"
  by (simp_all add: jnumber_def)

lemma optional_simps [simp]: "optional rd None = Some None" "optional rd (Some v) = map_option Some (rd (Some v))"
  by (simp_all add: optional_def)

subsection \<open>Reading and writing\<close>

datatype file_state = File_Absent | File_Unreadable string | File_Malformed | File_Json json

datatype document_error =
    Read_Failed string
  | Not_Json
  | Not_A_Document
  | No_List
  | Bad_Version "json option"
  | Bad_Entry
  | Bad_Old_Entry nat string

text \<open>The guard and the rendering of a record come as one pair: \<open>ds_read\<close> is the record an entry
  is, if the guard accepts it.\<close>

record 'r document_spec =
  ds_version :: int
  ds_key :: string
  ds_read :: "json \<Rightarrow> 'r option"
  ds_render :: "'r \<Rightarrow> json"
  ds_migrate :: "(json \<Rightarrow> nat \<Rightarrow> document_error + 'r) option"

fun migrate_all :: "(json \<Rightarrow> nat \<Rightarrow> document_error + 'r) \<Rightarrow> nat \<Rightarrow> json list \<Rightarrow> document_error + 'r list" where
  "migrate_all f i [] = Inr []"
| "migrate_all f i (v # vs) =
     bind_res (f v i) (\<lambda>r. bind_res (migrate_all f (Suc i) vs) (\<lambda>rs. Inr (r # rs)))"

definition readDocument :: "'r document_spec \<Rightarrow> file_state \<Rightarrow> document_error + 'r list" where
  "readDocument spec st =
     (case st of
        File_Absent \<Rightarrow> Inr []
      | File_Unreadable err \<Rightarrow> Inl (Read_Failed err)
      | File_Malformed \<Rightarrow> Inl Not_Json
      | File_Json parsed \<Rightarrow>
          (case parsed of
             JObj _ \<Rightarrow>
               (case jfield parsed (ds_key spec) of
                  Some (JArr entries) \<Rightarrow>
                    (if jfield parsed ''version'' = Some (JNum (Whole 1)) \<and> ds_migrate spec \<noteq> None
                     then migrate_all (the (ds_migrate spec)) 0 entries
                     else if jfield parsed ''version'' \<noteq> Some (JNum (Whole (ds_version spec)))
                     then Inl (Bad_Version (jfield parsed ''version''))
                     else if \<not> list_all (\<lambda>v. ds_read spec v \<noteq> None) entries then Inl Bad_Entry
                     else Inr (map (\<lambda>v. the (ds_read spec v)) entries))
                | _ \<Rightarrow> Inl No_List)
           | JArr _ \<Rightarrow> Inl No_List
           | _ \<Rightarrow> Inl Not_A_Document))"

definition document_json :: "'r document_spec \<Rightarrow> 'r list \<Rightarrow> json" where
  "document_json spec records =
     JObj [(''version'', JNum (Whole (ds_version spec))), (ds_key spec, JArr (map (ds_render spec) records))]"

text \<open>\<open>writeDocument\<close>: the atomic write either replaces the file or fails and leaves it.\<close>

definition writeDocument :: "'r document_spec \<Rightarrow> string option \<Rightarrow> 'r list \<Rightarrow> file_state \<Rightarrow> string + file_state" where
  "writeDocument spec failure records disk =
     (case failure of Some err \<Rightarrow> Inl err | None \<Rightarrow> Inr (File_Json (document_json spec records)))"

lemma document_roundtrip_spec:
  assumes "ds_key spec \<noteq> ''version''" "\<And>r. r \<in> set records \<Longrightarrow> ds_read spec (ds_render spec r) = Some r"
    and "ds_version spec \<noteq> 1 \<or> ds_migrate spec = None"
  shows "readDocument spec (File_Json (document_json spec records)) = Inr records"
proof -
  have "map (\<lambda>v. the (ds_read spec v)) (map (ds_render spec) records) = records"
    using assms(2) by (induction records) auto
  moreover have "list_all (\<lambda>v. ds_read spec v \<noteq> None) (map (ds_render spec) records)"
    using assms(2) by (auto simp: list_all_iff)
  ultimately show ?thesis using assms(1,3) by (auto simp: readDocument_def document_json_def)
qed

subsection \<open>A list of records as a map\<close>

locale record_store =
  fixes key :: "'r \<Rightarrow> 'k"
    and ins :: "'r \<Rightarrow> 'r list \<Rightarrow> 'r list"
    and del :: "'k \<Rightarrow> 'r list \<Rightarrow> 'r list"
  assumes ins_find: "find_key key k (ins r rs) = (if k = key r then Some r else find_key key k rs)"
    and ins_distinct: "distinct (map key rs) \<Longrightarrow> distinct (map key (ins r rs))"
    and del_find: "find_key key k (del j rs) = (if k = j then None else find_key key k rs)"
    and del_distinct: "distinct (map key rs) \<Longrightarrow> distinct (map key (del j rs))"
begin

definition view :: "'r list \<Rightarrow> 'k \<rightharpoonup> 'r" where
  "view rs = (\<lambda>k. find_key key k rs)"

lemma view_ins: "view (ins r rs) = (view rs)(key r \<mapsto> r)"
  by (auto simp: view_def ins_find)

lemma view_del: "view (del k rs) = (view rs)(k := None)"
  by (auto simp: view_def del_find)

text \<open>Any sequence of insertions and deletions is the same sequence of map updates.\<close>

definition run :: "('r + 'k) list \<Rightarrow> 'r list \<Rightarrow> 'r list" where
  "run ops rs = foldl (\<lambda>rs op. case op of Inl r \<Rightarrow> ins r rs | Inr k \<Rightarrow> del k rs) rs ops"

definition map_run :: "('r + 'k) list \<Rightarrow> ('k \<rightharpoonup> 'r) \<Rightarrow> ('k \<rightharpoonup> 'r)" where
  "map_run ops m = foldl (\<lambda>m op. case op of Inl r \<Rightarrow> m(key r \<mapsto> r) | Inr k \<Rightarrow> m(k := None)) m ops"

lemma run_refines: "view (run ops rs) = map_run ops (view rs)"
  by (induction ops arbitrary: rs) (auto simp: run_def map_run_def view_ins view_del split: sum.splits)

lemma run_distinct: "distinct (map key rs) \<Longrightarrow> distinct (map key (run ops rs))"
  by (induction ops arbitrary: rs) (auto simp: run_def ins_distinct del_distinct split: sum.splits)

end

text \<open>The list operations the stores use: replace in place or append, and filter out.\<close>

definition upsert_list :: "('r \<Rightarrow> 'k) \<Rightarrow> 'r \<Rightarrow> 'r list \<Rightarrow> 'r list" where
  "upsert_list key r rs = (case find_key key (key r) rs of None \<Rightarrow> rs @ [r] | Some _ \<Rightarrow> replace_key key r rs)"

lemma upsert_list_find:
  "find_key key k (upsert_list key r rs) = (if k = key r then Some r else find_key key k rs)"
  by (auto simp: upsert_list_def store_simps split: option.splits)

lemma upsert_list_distinct:
  "distinct (map key rs) \<Longrightarrow> distinct (map key (upsert_list key r rs))"
  by (auto simp: upsert_list_def store_simps find_key_None split: option.splits)

lemma record_store_lists: "record_store key (upsert_list key) (drop_key key)"
  by unfold_locales
    (simp_all add: upsert_list_find upsert_list_distinct distinct_drop_key store_simps)

end
