(* ===== verification/Node_Store.thy ===== *)
theory Node_Store
  imports Documents
begin

section \<open>The node registry: storage/nodes.ts\<close>

text \<open>
  The configured machines, held in memory and in one JSON document. An update has two halves: the
  code up to the write, which computes the next list from the memory it finds, and the code after
  it, which replaces the memory. \<open>stamp\<close> and \<open>uuid\<close> are the values the clock and \<open>randomUUID\<close> give.
\<close>

subsection \<open>Records\<close>

datatype transport =
    Ssh string "js_number option" "string option"
  | Local_Transport
  | Direct string js_number

record node_record =
  nd_nodeId :: string
  nd_title :: string
  nd_transport :: transport
  nd_token :: string
  nd_createdAt :: string
  nd_updatedAt :: string

record node_view =
  nv_nodeId :: string
  nv_title :: string
  nv_transport :: transport
  nv_hasToken :: bool
  nv_createdAt :: string
  nv_updatedAt :: string

record node_draft =
  ndr_nodeId :: "string option"
  ndr_title :: "string option"
  ndr_transport :: transport
  ndr_token :: string

definition LOCAL_NODE_ID :: string where "LOCAL_NODE_ID = ''local''"

definition LOCAL_TITLE :: string where "LOCAL_TITLE = ''Local''"

definition js_number_text :: "js_number \<Rightarrow> string" where
  "js_number_text n =
     (case n of
        Whole i \<Rightarrow> (if i < 0 then ''-'' @ str_nat (nat (- i)) else str_nat (nat i))
      | Fraction s \<Rightarrow> s)"

definition defaultNodeTitle :: "transport \<Rightarrow> string" where
  "defaultNodeTitle t =
     (case t of
        Local_Transport \<Rightarrow> LOCAL_TITLE
      | Ssh target _ _ \<Rightarrow> target
      | Direct host port \<Rightarrow> host @ '':'' @ js_number_text port)"

definition localNode :: node_record where
  "localNode =
     \<lparr>nd_nodeId = LOCAL_NODE_ID, nd_title = LOCAL_TITLE, nd_transport = Local_Transport, nd_token = [],
      nd_createdAt = ''1970-01-01T00:00:00.000Z'', nd_updatedAt = ''1970-01-01T00:00:00.000Z''\<rparr>"

definition toNodeView :: "node_record \<Rightarrow> node_view" where
  "toNodeView r =
     \<lparr>nv_nodeId = nd_nodeId r, nv_title = nd_title r, nv_transport = nd_transport r,
      nv_hasToken = (length (nd_token r) > 0), nv_createdAt = nd_createdAt r, nv_updatedAt = nd_updatedAt r\<rparr>"

subsection \<open>The document's entries\<close>

text \<open>The transport a parsed value is, if \<open>isTransport\<close> accepts it.\<close>

definition isTransport :: "json option \<Rightarrow> transport option" where
  "isTransport v =
     (case v of
        Some (JObj fs) \<Rightarrow>
          (if map_of fs ''kind'' = Some (JStr ''local'') then Some Local_Transport
           else if map_of fs ''kind'' = Some (JStr ''ssh'') then
             (case (jstring (map_of fs ''target''), optional jnumber (map_of fs ''sshPort''),
                    optional jstring (map_of fs ''identityFile'')) of
                (Some target, Some port, Some identity) \<Rightarrow> Some (Ssh target port identity)
              | _ \<Rightarrow> None)
           else if map_of fs ''kind'' = Some (JStr ''direct'') then
             (case (jstring (map_of fs ''host''), jnumber (map_of fs ''port'')) of
                (Some host, Some port) \<Rightarrow> Some (Direct host port)
              | _ \<Rightarrow> None)
           else None)
      | _ \<Rightarrow> None)"

definition isNodeRecord :: "json \<Rightarrow> node_record option" where
  "isNodeRecord v =
     (case (jstring (jfield v ''nodeId''), jstring (jfield v ''title''), isTransport (jfield v ''transport''),
            jstring (jfield v ''token''), jstring (jfield v ''createdAt''), jstring (jfield v ''updatedAt'')) of
        (Some nodeId, Some title, Some transport, Some token, Some created, Some updated) \<Rightarrow>
          Some \<lparr>nd_nodeId = nodeId, nd_title = title, nd_transport = transport, nd_token = token,
                nd_createdAt = created, nd_updatedAt = updated\<rparr>
      | _ \<Rightarrow> None)"

text \<open>\<open>JSON.stringify\<close> of a record: an absent field is left out.\<close>

definition transport_json :: "transport \<Rightarrow> json" where
  "transport_json t =
     (case t of
        Local_Transport \<Rightarrow> JObj [(''kind'', JStr ''local'')]
      | Ssh target port identity \<Rightarrow>
          JObj ([(''kind'', JStr ''ssh''), (''target'', JStr target)] @
                (case port of None \<Rightarrow> [] | Some n \<Rightarrow> [(''sshPort'', JNum n)]) @
                (case identity of None \<Rightarrow> [] | Some s \<Rightarrow> [(''identityFile'', JStr s)]))
      | Direct host port \<Rightarrow> JObj [(''kind'', JStr ''direct''), (''host'', JStr host), (''port'', JNum port)])"

definition node_json :: "node_record \<Rightarrow> json" where
  "node_json r =
     JObj [(''nodeId'', JStr (nd_nodeId r)), (''title'', JStr (nd_title r)),
           (''transport'', transport_json (nd_transport r)), (''token'', JStr (nd_token r)),
           (''createdAt'', JStr (nd_createdAt r)), (''updatedAt'', JStr (nd_updatedAt r))]"

text \<open>\<open>migrateV1\<close>: the fields in the order they are checked, the first unusable one named.\<close>

definition v1_fields :: "string list" where
  "v1_fields = [''nodeId'', ''title'', ''host'', ''token'', ''createdAt'', ''updatedAt'']"

definition migrateV1 :: "json \<Rightarrow> nat \<Rightarrow> document_error + node_record" where
  "migrateV1 v index =
     (case List.find (\<lambda>f. jstring (jfield v f) = None) v1_fields of
        Some f \<Rightarrow> Inl (Bad_Old_Entry index f)
      | None \<Rightarrow>
          (case jnumber (jfield v ''port'') of
             None \<Rightarrow> Inl (Bad_Old_Entry index ''port'')
           | Some port \<Rightarrow>
               Inr \<lparr>nd_nodeId = the (jstring (jfield v ''nodeId'')), nd_title = the (jstring (jfield v ''title'')),
                    nd_transport = Direct (the (jstring (jfield v ''host''))) port,
                    nd_token = the (jstring (jfield v ''token'')),
                    nd_createdAt = the (jstring (jfield v ''createdAt'')),
                    nd_updatedAt = the (jstring (jfield v ''updatedAt''))\<rparr>))"

definition node_document :: "node_record document_spec" where
  "node_document =
     \<lparr>ds_version = 2, ds_key = ''nodes'', ds_read = isNodeRecord, ds_render = node_json,
      ds_migrate = Some migrateV1\<rparr>"

subsection \<open>The registry\<close>

datatype store_error =
    Not_Loaded
  | Local_Built_In
  | Write_Failed string
  | Load_Failed document_error

record node_store =
  ns_nodes :: "node_record list"
  ns_loaded :: bool

definition requireLoaded :: "node_store \<Rightarrow> (store_error + 'a) \<Rightarrow> store_error + 'a" where
  "requireLoaded s k = (if ns_loaded s then k else Inl Not_Loaded)"

definition createNodeRegistry :: node_store where
  "createNodeRegistry = \<lparr>ns_nodes = [], ns_loaded = False\<rparr>"

definition node_load :: "file_state \<Rightarrow> node_store \<Rightarrow> (store_error + node_record list) \<times> node_store" where
  "node_load disk s =
     (case readDocument node_document disk of
        Inl e \<Rightarrow> (Inl (Load_Failed e), s)
      | Inr rs \<Rightarrow> (Inr rs, \<lparr>ns_nodes = rs, ns_loaded = True\<rparr>))"

definition node_list :: "node_store \<Rightarrow> store_error + node_record list" where
  "node_list s = requireLoaded s (Inr (localNode # ns_nodes s))"

definition node_get :: "string \<Rightarrow> node_store \<Rightarrow> store_error + node_record option" where
  "node_get nodeId s =
     requireLoaded s (Inr (if nodeId = LOCAL_NODE_ID then Some localNode
                           else find_key nd_nodeId nodeId (ns_nodes s)))"

definition node_existing :: "node_draft \<Rightarrow> node_record list \<Rightarrow> node_record option" where
  "node_existing d nodes = (case ndr_nodeId d of None \<Rightarrow> None | Some i \<Rightarrow> find_key nd_nodeId i nodes)"

definition node_title :: "node_draft \<Rightarrow> string" where
  "node_title d =
     (case ndr_title d of
        None \<Rightarrow> defaultNodeTitle (ndr_transport d)
      | Some t \<Rightarrow> if trim t = [] then defaultNodeTitle (ndr_transport d) else trim t)"

definition node_record_of :: "string \<Rightarrow> string \<Rightarrow> node_draft \<Rightarrow> node_record list \<Rightarrow> node_record" where
  "node_record_of stamp uuid d nodes =
     \<lparr>nd_nodeId = (case node_existing d nodes of
                     Some e \<Rightarrow> nd_nodeId e
                   | None \<Rightarrow> (case ndr_nodeId d of Some i \<Rightarrow> i | None \<Rightarrow> uuid)),
      nd_title = node_title d,
      nd_transport = ndr_transport d,
      nd_token = ndr_token d,
      nd_createdAt = (case node_existing d nodes of Some e \<Rightarrow> nd_createdAt e | None \<Rightarrow> stamp),
      nd_updatedAt = stamp\<rparr>"

text \<open>\<open>upsert\<close> up to the write: the record and the list to publish.\<close>

definition node_upsert_begin ::
  "string \<Rightarrow> string \<Rightarrow> node_draft \<Rightarrow> node_store \<Rightarrow> store_error + node_record \<times> node_record list" where
  "node_upsert_begin stamp uuid d s =
     requireLoaded s
       (if ndr_nodeId d = Some LOCAL_NODE_ID then Inl Local_Built_In
        else let r = node_record_of stamp uuid d (ns_nodes s) in
          Inr (r, case node_existing d (ns_nodes s) of
                    None \<Rightarrow> ns_nodes s @ [r]
                  | Some _ \<Rightarrow> replace_key nd_nodeId r (ns_nodes s)))"

text \<open>The write and what follows it; a failed write leaves the memory and the file.\<close>

definition node_commit ::
  "string option \<Rightarrow> node_record list \<Rightarrow> 'a \<Rightarrow> node_store \<times> file_state \<Rightarrow> (store_error + 'a) \<times> node_store \<times> file_state" where
  "node_commit failure nodes result sd =
     (case writeDocument node_document failure nodes (snd sd) of
        Inl err \<Rightarrow> (Inl (Write_Failed err), sd)
      | Inr disk \<Rightarrow> (Inr result, (fst sd)\<lparr>ns_nodes := nodes\<rparr>, disk))"

definition node_upsert ::
  "string \<Rightarrow> string \<Rightarrow> string option \<Rightarrow> node_draft \<Rightarrow> node_store \<times> file_state
     \<Rightarrow> (store_error + node_record) \<times> node_store \<times> file_state" where
  "node_upsert stamp uuid failure d sd =
     (case node_upsert_begin stamp uuid d (fst sd) of
        Inl e \<Rightarrow> (Inl e, sd)
      | Inr (r, nodes) \<Rightarrow> node_commit failure nodes r sd)"

definition node_remove ::
  "string option \<Rightarrow> string \<Rightarrow> node_store \<times> file_state \<Rightarrow> (store_error + bool) \<times> node_store \<times> file_state" where
  "node_remove failure nodeId sd =
     (if \<not> ns_loaded (fst sd) then (Inl Not_Loaded, sd)
      else if nodeId = LOCAL_NODE_ID then (Inr False, sd)
      else let nodes = drop_key nd_nodeId nodeId (ns_nodes (fst sd)) in
        if length nodes = length (ns_nodes (fst sd)) then (Inr False, sd)
        else node_commit failure nodes True sd)"

subsection \<open>What is written is read back\<close>

lemma transport_roundtrip: "isTransport (Some (transport_json t)) = Some t"
  by (cases t) (auto simp: isTransport_def transport_json_def split: option.splits)

lemma node_json_roundtrip: "isNodeRecord (node_json r) = Some r"
  by (simp add: isNodeRecord_def node_json_def transport_roundtrip)

lemma node_document_roundtrip:
  "readDocument node_document (File_Json (document_json node_document rs)) = Inr rs"
  by (rule document_roundtrip_spec) (simp_all add: node_document_def node_json_roundtrip)

subsection \<open>The registry as a map\<close>

interpretation nodes_map: record_store nd_nodeId "upsert_list nd_nodeId" "drop_key nd_nodeId"
  by (rule record_store_lists)

text \<open>One operation of the registry with the values it meets, and a run of them; the log has the
  changes that were reported as made.\<close>

datatype node_op =
    Node_Upsert string string "string option" node_draft
  | Node_Remove "string option" string

definition node_step ::
  "node_op \<Rightarrow> node_store \<times> file_state \<Rightarrow> (node_record + string) list \<times> node_store \<times> file_state" where
  "node_step op sd =
     (case op of
        Node_Upsert stamp uuid failure d \<Rightarrow>
          (case node_upsert stamp uuid failure d sd of
             (Inr r, sd') \<Rightarrow> ([Inl r], sd')
           | (Inl _, sd') \<Rightarrow> ([], sd'))
      | Node_Remove failure nodeId \<Rightarrow>
          (case node_remove failure nodeId sd of
             (Inr True, sd') \<Rightarrow> ([Inr nodeId], sd')
           | (_, sd') \<Rightarrow> ([], sd')))"

fun node_run ::
  "node_op list \<Rightarrow> node_store \<times> file_state \<Rightarrow> (node_record + string) list \<times> node_store \<times> file_state" where
  "node_run [] sd = ([], sd)"
| "node_run (op # ops) sd =
     (case node_step op sd of (log, sd1) \<Rightarrow> (case node_run ops sd1 of (log', sd2) \<Rightarrow> (log @ log', sd2)))"

text \<open>The generated ids are new: not the id of the built-in machine, of one that is stored, or one
  a caller named or an operation generated before.\<close>

fun fresh_uuids :: "node_op list \<Rightarrow> string set \<Rightarrow> bool" where
  "fresh_uuids [] known \<longleftrightarrow> True"
| "fresh_uuids (Node_Upsert _ uuid _ d # ops) known \<longleftrightarrow>
     uuid \<notin> known \<and> uuid \<noteq> LOCAL_NODE_ID \<and> fresh_uuids ops (insert uuid (set_option (ndr_nodeId d)) \<union> known)"
| "fresh_uuids (Node_Remove _ _ # ops) known \<longleftrightarrow> fresh_uuids ops known"

lemma fresh_uuids_mono: "fresh_uuids ops known \<Longrightarrow> known' \<subseteq> known \<Longrightarrow> fresh_uuids ops known'"
proof (induction ops known arbitrary: known' rule: fresh_uuids.induct)
  case (2 stamp uuid failure d ops known)
  have "insert uuid (set_option (ndr_nodeId d)) \<union> known' \<subseteq> insert uuid (set_option (ndr_nodeId d)) \<union> known"
    using 2(3) by blast
  with 2 show ?case by auto
qed auto

abbreviation node_ids :: "node_store \<Rightarrow> string set" where
  "node_ids s \<equiv> nd_nodeId ` set (ns_nodes s)"

definition in_sync :: "node_store \<times> file_state \<Rightarrow> bool" where
  "in_sync sd \<longleftrightarrow>
     ns_loaded (fst sd) \<and> readDocument node_document (snd sd) = Inr (ns_nodes (fst sd)) \<and>
     distinct (map nd_nodeId (ns_nodes (fst sd))) \<and> LOCAL_NODE_ID \<notin> nd_nodeId ` set (ns_nodes (fst sd))"

abbreviation node_table :: "node_store \<Rightarrow> string \<rightharpoonup> node_record" where
  "node_table s \<equiv> nodes_map.view (ns_nodes s)"

lemma node_commit_cases:
  "node_commit failure nodes result sd =
     (case failure of
        Some err \<Rightarrow> (Inl (Write_Failed err), sd)
      | None \<Rightarrow> (Inr result, (fst sd)\<lparr>ns_nodes := nodes\<rparr>, File_Json (document_json node_document nodes)))"
  by (simp add: node_commit_def writeDocument_def split: option.splits)

lemma upsert_list_ids: "nd_nodeId ` set (upsert_list nd_nodeId r rs) = insert (nd_nodeId r) (nd_nodeId ` set rs)"
proof (cases "find_key nd_nodeId (nd_nodeId r) rs")
  case None
  then show ?thesis by (auto simp: upsert_list_def)
next
  case (Some e)
  have "nd_nodeId ` set (replace_key nd_nodeId r rs) = nd_nodeId ` set rs"
    by (metis list.set_map map_key_replace_key)
  moreover have "nd_nodeId r \<in> nd_nodeId ` set rs" using find_key_Some [OF Some] by (metis imageI)
  ultimately show ?thesis using Some by (auto simp: upsert_list_def)
qed

lemma upsert_begin_list:
  assumes "ns_loaded s" "ndr_nodeId d \<noteq> Some LOCAL_NODE_ID" "uuid \<notin> nd_nodeId ` set (ns_nodes s)"
  shows "node_upsert_begin stamp uuid d s =
    Inr (node_record_of stamp uuid d (ns_nodes s),
         upsert_list nd_nodeId (node_record_of stamp uuid d (ns_nodes s)) (ns_nodes s))"
proof (cases "node_existing d (ns_nodes s)")
  case None
  then have "find_key nd_nodeId (nd_nodeId (node_record_of stamp uuid d (ns_nodes s))) (ns_nodes s) = None"
    using assms(3)
    by (auto simp: node_record_of_def node_existing_def find_key_None split: option.splits)
  with None assms show ?thesis
    by (simp add: node_upsert_begin_def requireLoaded_def upsert_list_def Let_def)
next
  case (Some e)
  then have found: "find_key nd_nodeId (nd_nodeId e) (ns_nodes s) = Some e"
    by (auto simp: node_existing_def dest: find_key_Some split: option.splits)
  have "nd_nodeId (node_record_of stamp uuid d (ns_nodes s)) = nd_nodeId e"
    by (simp add: node_record_of_def Some)
  with Some assms(1,2) found show ?thesis
    by (simp add: node_upsert_begin_def requireLoaded_def upsert_list_def Let_def)
qed

lemma record_of_id:
  "nd_nodeId (node_record_of stamp uuid d rs) = (case ndr_nodeId d of None \<Rightarrow> uuid | Some i \<Rightarrow> i)"
  by (auto simp: node_record_of_def node_existing_def dest: find_key_Some split: option.splits)

lemma node_step_in_sync:
  assumes "in_sync (s, disk)" "fresh_uuids (op # ops) (node_ids s)" "node_step op (s, disk) = (log, s', disk')"
  shows "in_sync (s', disk')" "fresh_uuids ops (node_ids s')"
    "node_table s' = nodes_map.map_run log (node_table s)"
proof -
  have loaded: "ns_loaded s" using assms(1) by (simp add: in_sync_def)
  have "in_sync (s', disk') \<and> fresh_uuids ops (node_ids s') \<and>
      node_table s' = nodes_map.map_run log (node_table s)"
  proof (cases op)
    case (Node_Upsert stamp uuid failure d)
    have fresh: "uuid \<notin> nd_nodeId ` set (ns_nodes s)" "uuid \<noteq> LOCAL_NODE_ID"
      and rest: "fresh_uuids ops (insert uuid (set_option (ndr_nodeId d)) \<union> node_ids s)"
      using assms(2) by (auto simp: Node_Upsert)
    show ?thesis
    proof (cases "ndr_nodeId d = Some LOCAL_NODE_ID \<or> failure \<noteq> None")
      case True
      then have "\<exists>e. node_upsert stamp uuid failure d (s, disk) = (Inl e, s, disk)"
        using loaded upsert_begin_list [OF loaded _ fresh(1), of d stamp]
        by (cases "ndr_nodeId d = Some LOCAL_NODE_ID")
          (auto simp: node_upsert_def node_commit_cases node_upsert_begin_def requireLoaded_def)
      then have "log = []" "s' = s" "disk' = disk"
        using assms(3) by (auto simp: Node_Upsert node_step_def)
      with assms(1) show ?thesis
        by (auto simp: nodes_map.map_run_def intro: fresh_uuids_mono [OF rest])
    next
      case False
      let ?r = "node_record_of stamp uuid d (ns_nodes s)"
      let ?rs = "upsert_list nd_nodeId ?r (ns_nodes s)"
      from False have eqs: "log = [Inl ?r]" "s' = s\<lparr>ns_nodes := ?rs\<rparr>"
          "disk' = File_Json (document_json node_document ?rs)"
        using assms(3) upsert_begin_list [OF loaded, of d uuid] fresh
        by (auto simp: Node_Upsert node_step_def node_upsert_def node_commit_cases)
      have "nd_nodeId ?r \<noteq> LOCAL_NODE_ID" using False fresh by (auto simp: record_of_id split: option.splits)
      then have "in_sync (s', disk')"
        using assms(1) upsert_list_ids [of ?r "ns_nodes s"]
        by (simp add: eqs in_sync_def node_document_roundtrip upsert_list_distinct)
      moreover have "fresh_uuids ops (node_ids s')"
        by (rule fresh_uuids_mono [OF rest]) (auto simp: eqs upsert_list_ids record_of_id split: option.splits)
      moreover have "node_table s' = nodes_map.map_run log (node_table s)"
        by (simp add: eqs nodes_map.map_run_def nodes_map.view_ins)
      ultimately show ?thesis by blast
    qed
  next
    case (Node_Remove failure nodeId)
    let ?rs = "drop_key nd_nodeId nodeId (ns_nodes s)"
    show ?thesis
    proof (cases "nodeId = LOCAL_NODE_ID \<or> length ?rs = length (ns_nodes s) \<or> failure \<noteq> None")
      case True
      then have "log = []" "s' = s" "disk' = disk"
        using assms(3) loaded
        by (auto simp: Node_Remove node_step_def node_remove_def node_commit_cases Let_def split: if_splits)
      with assms(1,2) show ?thesis
        by (auto simp: Node_Remove nodes_map.map_run_def)
    next
      case False
      then have eqs: "log = [Inr nodeId]" "s' = s\<lparr>ns_nodes := ?rs\<rparr>"
          "disk' = File_Json (document_json node_document ?rs)"
        using assms(3) loaded
        by (auto simp: Node_Remove node_step_def node_remove_def node_commit_cases Let_def)
      have "set ?rs \<subseteq> set (ns_nodes s)" by (auto simp: drop_key_def)
      moreover from this have "in_sync (s', disk')"
        using assms(1) by (auto simp: eqs in_sync_def node_document_roundtrip distinct_drop_key)
      moreover have "node_table s' = nodes_map.map_run log (node_table s)"
        by (simp add: eqs nodes_map.map_run_def nodes_map.view_del)
      moreover have "fresh_uuids ops (node_ids s')"
        using assms(2) by (auto simp: eqs Node_Remove drop_key_def elim!: fresh_uuids_mono)
      ultimately show ?thesis by blast
    qed
  qed
  then show "in_sync (s', disk')" "fresh_uuids ops (node_ids s')"
    "node_table s' = nodes_map.map_run log (node_table s)" by auto
qed

lemma map_run_append:
  "nodes_map.map_run (xs @ ys) m = nodes_map.map_run ys (nodes_map.map_run xs m)"
  by (simp add: nodes_map.map_run_def)

lemma node_run_in_sync:
  "in_sync (s, disk) \<Longrightarrow> fresh_uuids ops (node_ids s) \<Longrightarrow> node_run ops (s, disk) = (log, s', disk') \<Longrightarrow>
     in_sync (s', disk') \<and> node_table s' = nodes_map.map_run log (node_table s)"
proof (induction ops arbitrary: s disk log)
  case Nil
  then show ?case by (simp add: nodes_map.map_run_def)
next
  case (Cons op ops)
  obtain l1 s1 d1 where step: "node_step op (s, disk) = (l1, s1, d1)" by (metis surj_pair)
  obtain l2 where rest: "node_run ops (s1, d1) = (l2, s', disk')" "log = l1 @ l2"
    using Cons.prems(3) step by (auto split: prod.splits)
  note sync = node_step_in_sync [OF Cons.prems(1,2) step]
  show ?case using Cons.IH [OF sync(1,2) rest(1)] sync(3) rest(2) by (simp add: map_run_append)
qed

subsection \<open>Properties\<close>

lemma load_in_sync:
  "in_sync (s, disk) \<Longrightarrow> snd (node_load disk createNodeRegistry) = s"
  by (simp add: in_sync_def node_load_def createNodeRegistry_def)

text \<open>C10: a run of registry operations, failed writes included, is the run of the reported changes
  on a finite map from ids to records; afterwards a registry that loads the file is in the state of
  this one, so the memory and the document never part.\<close>

theorem registry_refines_map:
  assumes "in_sync (s, disk)" "fresh_uuids ops (node_ids s)" "node_run ops (s, disk) = (log, s', disk')"
  shows "node_table s' = nodes_map.map_run log (node_table s) \<and>
    snd (node_load disk' createNodeRegistry) = s'"
  using node_run_in_sync [OF assms] load_in_sync by blast

definition sample_draft :: "string option \<Rightarrow> string \<Rightarrow> node_draft" where
  "sample_draft i target =
     \<lparr>ndr_nodeId = i, ndr_title = None, ndr_transport = Ssh target None None, ndr_token = ''t''\<rparr>"

definition sample_ops :: "node_op list" where
  "sample_ops =
     [Node_Upsert ''d1'' ''u1'' None (sample_draft None ''a''), Node_Upsert ''d2'' ''u2'' (Some ''EIO'') (sample_draft None ''b''),
      Node_Upsert ''d3'' ''u3'' None (sample_draft (Some ''u1'') ''c''), Node_Upsert ''d4'' ''u4'' None (sample_draft None ''d''),
      Node_Remove None ''u4'']"

definition sample_node :: "string \<Rightarrow> node_record" where
  "sample_node target =
     \<lparr>nd_nodeId = ''u1'', nd_title = target, nd_transport = Ssh target None None, nd_token = ''t'',
      nd_createdAt = ''d1'', nd_updatedAt = ''d3''\<rparr>"

definition loaded_empty :: node_store where
  "loaded_empty = \<lparr>ns_nodes = [], ns_loaded = True\<rparr>"

lemma sample_sync: "in_sync (loaded_empty, File_Absent)" "fresh_uuids sample_ops (node_ids loaded_empty)"
  by (simp_all add: in_sync_def readDocument_def loaded_empty_def sample_ops_def
      sample_draft_def LOCAL_NODE_ID_def)

lemma sample_run: "fst (snd (node_run sample_ops (loaded_empty, File_Absent))) = \<lparr>ns_nodes = [sample_node ''c''], ns_loaded = True\<rparr>"
  by code_simp

lemma sample_run_eq:
  "node_run sample_ops (loaded_empty, File_Absent) =
     (fst (node_run sample_ops (loaded_empty, File_Absent)), \<lparr>ns_nodes = [sample_node ''c''], ns_loaded = True\<rparr>,
      snd (snd (node_run sample_ops (loaded_empty, File_Absent))))"
  by (metis prod.collapse sample_run)

theorem registry_refines_map_witness:
  "snd (node_load (snd (snd (node_run sample_ops (loaded_empty, File_Absent)))) createNodeRegistry) =
     \<lparr>ns_nodes = [sample_node ''c''], ns_loaded = True\<rparr>"
  using registry_refines_map [OF sample_sync sample_run_eq] by (rule conjunct2)

text \<open>C11: the local machine is in every list exactly once, at its head, and is what its id
  resolves to, after any run of operations; no request to configure or remove it has any effect.\<close>

theorem local_machine_protected:
  assumes "in_sync (s, disk)" "fresh_uuids ops (node_ids s)" "node_run ops (s, disk) = (log, s', disk')"
  shows "node_list s' = Inr (localNode # ns_nodes s') \<and>
      LOCAL_NODE_ID \<notin> nd_nodeId ` set (ns_nodes s') \<and>
      node_get LOCAL_NODE_ID s' = Inr (Some localNode) \<and>
      node_upsert stamp uuid failure (d\<lparr>ndr_nodeId := Some LOCAL_NODE_ID\<rparr>) (s', disk') = (Inl Local_Built_In, s', disk') \<and>
      node_remove failure LOCAL_NODE_ID (s', disk') = (Inr False, s', disk')"
  using node_run_in_sync [OF assms]
  by (simp add: in_sync_def node_list_def node_get_def node_upsert_def node_upsert_begin_def node_remove_def
      requireLoaded_def)

theorem local_machine_protected_witness:
  "node_remove None LOCAL_NODE_ID (\<lparr>ns_nodes = [sample_node ''c''], ns_loaded = True\<rparr>,
      snd (snd (node_run sample_ops (loaded_empty, File_Absent)))) =
    (Inr False, \<lparr>ns_nodes = [sample_node ''c''], ns_loaded = True\<rparr>,
      snd (snd (node_run sample_ops (loaded_empty, File_Absent))))"
  using local_machine_protected [OF sample_sync sample_run_eq] by blast

text \<open>An accepted update is what its id resolves to, every other id resolves as before, the
  creation instant of a known machine is kept and the title is never blank when the transport names
  a place; a refused write changes neither the registry nor the file.\<close>

theorem node_upsert_law:
  assumes "in_sync (s, disk)" "ndr_nodeId d \<noteq> Some LOCAL_NODE_ID"
    and "uuid \<notin> nd_nodeId ` set (ns_nodes s)" "uuid \<noteq> LOCAL_NODE_ID"
    and "node_upsert stamp uuid failure d (s, disk) = (res, s', disk')"
  shows "case failure of
      Some err \<Rightarrow> res = Inl (Write_Failed err) \<and> s' = s \<and> disk' = disk
    | None \<Rightarrow> \<exists>r. res = Inr r \<and> nd_nodeId r = (case ndr_nodeId d of None \<Rightarrow> uuid | Some i \<Rightarrow> i) \<and>
        (\<forall>k. node_get k s' = (if k = nd_nodeId r then Inr (Some r) else node_get k s)) \<and>
        nd_updatedAt r = stamp \<and> nd_transport r = ndr_transport d \<and> nd_token r = ndr_token d \<and>
        nd_createdAt r = (case node_get (nd_nodeId r) s of Inr (Some e) \<Rightarrow> nd_createdAt e | _ \<Rightarrow> stamp) \<and>
        (nd_title r = [] \<longrightarrow> defaultNodeTitle (ndr_transport d) = [])"
proof -
  have loaded: "ns_loaded s" using assms(1) by (simp add: in_sync_def)
  let ?r = "node_record_of stamp uuid d (ns_nodes s)"
  have eq: "node_upsert stamp uuid failure d (s, disk) =
      node_commit failure (upsert_list nd_nodeId ?r (ns_nodes s)) ?r (s, disk)"
    by (simp add: node_upsert_def upsert_begin_list [OF loaded assms(2,3)])
  show ?thesis
  proof (cases failure)
    case (Some err)
    with eq assms(5) show ?thesis by (simp add: node_commit_cases)
  next
    case None
    have "nd_nodeId ?r \<noteq> LOCAL_NODE_ID" using assms(2,4) by (auto simp: record_of_id split: option.splits)
    moreover have "find_key nd_nodeId uuid (ns_nodes s) = None" using assms(3) by (simp add: find_key_None)
    moreover have "res = Inr ?r" "s' = s\<lparr>ns_nodes := upsert_list nd_nodeId ?r (ns_nodes s)\<rparr>"
      using eq assms(5) None by (simp_all add: node_commit_cases)
    moreover have "nd_createdAt ?r =
        (case find_key nd_nodeId (nd_nodeId ?r) (ns_nodes s) of Some e \<Rightarrow> nd_createdAt e | None \<Rightarrow> stamp)"
      using \<open>find_key nd_nodeId uuid (ns_nodes s) = None\<close> unfolding record_of_id
      by (auto simp: node_record_of_def node_existing_def split: option.splits)
    moreover have "nd_title ?r = [] \<longrightarrow> defaultNodeTitle (ndr_transport d) = []"
      by (auto simp: node_record_of_def node_title_def split: option.splits if_splits)
    moreover have "nd_updatedAt ?r = stamp" "nd_transport ?r = ndr_transport d" "nd_token ?r = ndr_token d"
      by (simp_all add: node_record_of_def)
    moreover note record_of_id [of stamp uuid d "ns_nodes s"]
    ultimately show ?thesis using loaded None
      by (auto simp: node_get_def requireLoaded_def upsert_list_find intro!: exI [of _ ?r] split: option.splits)
  qed
qed

theorem node_upsert_law_witness:
  "node_upsert ''d1'' ''u1'' (Some ''EIO'') (sample_draft None ''a'') (loaded_empty, File_Absent) =
     (Inl (Write_Failed ''EIO''), loaded_empty, File_Absent)"
  using node_upsert_law [OF sample_sync(1), of "sample_draft None ''a''" "''u1''" "''d1''" "Some ''EIO''"]
  by (cases "node_upsert ''d1'' ''u1'' (Some ''EIO'') (sample_draft None ''a'') (loaded_empty, File_Absent)")
    (simp add: sample_draft_def loaded_empty_def LOCAL_NODE_ID_def)

subsection \<open>Old documents, and two processes\<close>

text \<open>What an entry of revision 1 says of a machine.\<close>

definition v1_means :: "json \<Rightarrow> node_record \<Rightarrow> bool" where
  "v1_means e r \<longleftrightarrow>
     (case nd_transport r of
        Direct host port \<Rightarrow>
          jfield e ''host'' = Some (JStr host) \<and> jfield e ''port'' = Some (JNum port)
      | _ \<Rightarrow> False) \<and>
     jfield e ''nodeId'' = Some (JStr (nd_nodeId r)) \<and> jfield e ''title'' = Some (JStr (nd_title r)) \<and>
     jfield e ''token'' = Some (JStr (nd_token r)) \<and> jfield e ''createdAt'' = Some (JStr (nd_createdAt r)) \<and>
     jfield e ''updatedAt'' = Some (JStr (nd_updatedAt r))"

lemma jstring_Some_iff: "jstring v = Some s \<longleftrightarrow> v = Some (JStr s)"
  by (auto simp: jstring_def split: option.splits json.splits)

lemma jnumber_Some_iff: "jnumber v = Some n \<longleftrightarrow> v = Some (JNum n)"
  by (auto simp: jnumber_def split: option.splits json.splits)

lemma migrateV1_iff: "migrateV1 e i = Inr r \<longleftrightarrow> v1_means e r"
proof -
  have "v1_means e r \<longleftrightarrow>
      (\<exists>ident title host token created updated port.
         jstring (jfield e ''nodeId'') = Some ident \<and> jstring (jfield e ''title'') = Some title \<and>
         jstring (jfield e ''host'') = Some host \<and> jstring (jfield e ''token'') = Some token \<and>
         jstring (jfield e ''createdAt'') = Some created \<and> jstring (jfield e ''updatedAt'') = Some updated \<and>
         jnumber (jfield e ''port'') = Some port \<and>
         r = \<lparr>nd_nodeId = ident, nd_title = title, nd_transport = Direct host port, nd_token = token,
              nd_createdAt = created, nd_updatedAt = updated\<rparr>)"
    by (cases r) (auto simp: v1_means_def jstring_Some_iff jnumber_Some_iff split: transport.splits)
  also have "\<dots> \<longleftrightarrow> migrateV1 e i = Inr r"
    by (auto simp: migrateV1_def v1_fields_def split: option.splits if_splits)
  finally show ?thesis by blast
qed

lemma migrate_all_iff: "migrate_all migrateV1 i es = Inr rs \<longleftrightarrow> list_all2 v1_means es rs"
  by (induction es arbitrary: i rs) (auto simp: bind_res_Inr_iff migrateV1_iff list_all2_Cons1)

text \<open>A document of revision 1 loads exactly when every entry has its seven fields, each machine
  with the same id, secret and instants and its address as a direct transport; the first accepted
  write leaves a document of this revision from which all the machines but a replaced one are read
  back unchanged.\<close>

theorem old_document_upgrades:
  assumes "jfield v ''version'' = Some (JNum (Whole 1))" "jfield v ''nodes'' = Some (JArr es)"
  shows "(\<forall>rs. readDocument node_document (File_Json v) = Inr rs \<longleftrightarrow> list_all2 v1_means es rs) \<and>
    (\<forall>rs stamp uuid d r s' disk'.
       list_all2 v1_means es rs \<and> ndr_nodeId d \<noteq> Some LOCAL_NODE_ID \<and> uuid \<notin> nd_nodeId ` set rs \<and>
       node_upsert stamp uuid None d (snd (node_load (File_Json v) createNodeRegistry), File_Json v) = (Inr r, s', disk')
       \<longrightarrow> readDocument node_document disk' = Inr (upsert_list nd_nodeId r rs))"
proof -
  obtain fs where fs: "v = JObj fs" using assms(1) by (auto simp: jfield_def split: json.splits)
  have iff: "readDocument node_document (File_Json v) = Inr rs \<longleftrightarrow> list_all2 v1_means es rs" for rs
    using assms by (simp add: readDocument_def fs node_document_def migrate_all_iff)
  have "readDocument node_document disk' = Inr (upsert_list nd_nodeId r rs)"
    if "list_all2 v1_means es rs" "ndr_nodeId d \<noteq> Some LOCAL_NODE_ID" "uuid \<notin> nd_nodeId ` set rs"
      "node_upsert stamp uuid None d (snd (node_load (File_Json v) createNodeRegistry), File_Json v) = (Inr r, s', disk')"
    for rs stamp uuid d r s' disk'
  proof -
    have "snd (node_load (File_Json v) createNodeRegistry) = \<lparr>ns_nodes = rs, ns_loaded = True\<rparr>"
      using that(1) iff [of rs] by (simp add: node_load_def)
    with that show ?thesis
      by (auto simp: node_upsert_def upsert_begin_list node_commit_cases node_document_roundtrip)
  qed
  with iff show ?thesis by blast
qed

definition sample_v1 :: json where
  "sample_v1 =
     JObj [(''version'', JNum (Whole 1)),
           (''nodes'', JArr [JObj [(''nodeId'', JStr ''n''), (''title'', JStr ''T''), (''host'', JStr ''h''),
                                   (''port'', JNum (Whole 7001)), (''token'', JStr ''s''),
                                   (''createdAt'', JStr ''c''), (''updatedAt'', JStr ''u'')]])]"

theorem old_document_upgrades_witness:
  "readDocument node_document (File_Json sample_v1) =
     Inr [\<lparr>nd_nodeId = ''n'', nd_title = ''T'', nd_transport = Direct ''h'' (Whole 7001), nd_token = ''s'',
           nd_createdAt = ''c'', nd_updatedAt = ''u''\<rparr>]"
proof -
  let ?es = "[JObj [(''nodeId'', JStr ''n''), (''title'', JStr ''T''), (''host'', JStr ''h''), (''port'', JNum (Whole 7001)),
      (''token'', JStr ''s''), (''createdAt'', JStr ''c''), (''updatedAt'', JStr ''u'')]]"
  have "jfield sample_v1 ''version'' = Some (JNum (Whole 1))" "jfield sample_v1 ''nodes'' = Some (JArr ?es)"
    by (simp_all add: sample_v1_def)
  from old_document_upgrades [OF this, THEN conjunct1] show ?thesis
    by (simp add: v1_means_def)
qed

text \<open>The lock is taken for the write alone. Of two processes that loaded the same document, each
  of which adds a machine, the second to write publishes the list it read before the first one
  wrote: the first machine was reported as stored and is gone from the file.\<close>

theorem other_process_update_lost:
  assumes "readDocument node_document disk = Inr rs" "u1 \<noteq> u2" "{u1, u2} \<inter> nd_nodeId ` set rs = {}"
    and "ndr_nodeId d1 = None" "ndr_nodeId d2 = None"
    and "node_upsert t1 u1 None d1 (snd (node_load disk createNodeRegistry), disk) = (res1, a, disk1)"
    and "node_upsert t2 u2 None d2 (snd (node_load disk createNodeRegistry), disk1) = (res2, b, disk2)"
  shows "\<exists>r1 r2. res1 = Inr r1 \<and> res2 = Inr r2 \<and> readDocument node_document disk1 = Inr (rs @ [r1]) \<and>
      readDocument node_document disk2 = Inr (rs @ [r2]) \<and> nd_nodeId r1 \<notin> nd_nodeId ` set (rs @ [r2])"
proof -
  have load: "snd (node_load disk createNodeRegistry) = \<lparr>ns_nodes = rs, ns_loaded = True\<rparr>"
    using assms(1) by (simp add: node_load_def)
  have begun: "node_upsert_begin t u d \<lparr>ns_nodes = rs, ns_loaded = True\<rparr> =
      Inr (node_record_of t u d rs, rs @ [node_record_of t u d rs])" if "ndr_nodeId d = None" for t u d
    using that by (simp add: node_upsert_begin_def requireLoaded_def node_existing_def Let_def)
  have ids: "nd_nodeId (node_record_of t1 u1 d1 rs) = u1" "nd_nodeId (node_record_of t2 u2 d2 rs) = u2"
    using assms(4,5) by (simp_all add: record_of_id)
  have "res1 = Inr (node_record_of t1 u1 d1 rs)" "disk1 = File_Json (document_json node_document (rs @ [node_record_of t1 u1 d1 rs]))"
    using assms(6) by (simp_all add: load node_upsert_def begun [OF assms(4)] node_commit_cases)
  moreover have "res2 = Inr (node_record_of t2 u2 d2 rs)" "disk2 = File_Json (document_json node_document (rs @ [node_record_of t2 u2 d2 rs]))"
    using assms(7) by (simp_all add: load node_upsert_def begun [OF assms(5)] node_commit_cases)
  ultimately show ?thesis using assms(2,3) by (simp add: node_document_roundtrip ids)
qed

definition both_updates :: "(store_error + node_record) \<times> node_store \<times> file_state" where
  "both_updates =
     node_upsert ''t2'' ''u2'' None (sample_draft None ''b'')
       (snd (node_load File_Absent createNodeRegistry),
        snd (snd (node_upsert ''t1'' ''u1'' None (sample_draft None ''a'')
          (snd (node_load File_Absent createNodeRegistry), File_Absent))))"

lemma both_updates_eq:
  "\<exists>res1 a disk1 res2 b disk2.
     node_upsert ''t1'' ''u1'' None (sample_draft None ''a'') (snd (node_load File_Absent createNodeRegistry), File_Absent) = (res1, a, disk1) \<and>
     node_upsert ''t2'' ''u2'' None (sample_draft None ''b'') (snd (node_load File_Absent createNodeRegistry), disk1) = (res2, b, disk2) \<and>
     both_updates = (res2, b, disk2)"
  by (metis both_updates_def prod.collapse)

theorem other_process_update_lost_witness:
  "\<exists>r2. fst both_updates = Inr r2 \<and> readDocument node_document (snd (snd both_updates)) = Inr [r2]"
proof -
  obtain res1 a disk1 res2 b disk2 where
    runs: "node_upsert ''t1'' ''u1'' None (sample_draft None ''a'') (snd (node_load File_Absent createNodeRegistry), File_Absent) = (res1, a, disk1)"
      "node_upsert ''t2'' ''u2'' None (sample_draft None ''b'') (snd (node_load File_Absent createNodeRegistry), disk1) = (res2, b, disk2)"
    and both: "both_updates = (res2, b, disk2)"
    using both_updates_eq by blast
  have "readDocument node_document File_Absent = Inr []" by (simp add: readDocument_def)
  from other_process_update_lost [OF this _ _ _ _ runs]
  obtain r2 where "res2 = Inr r2" "readDocument node_document disk2 = Inr [r2]" by (auto simp: sample_draft_def)
  moreover from this both have "fst both_updates = Inr r2" "snd (snd both_updates) = disk2" by (metis fst_conv, metis snd_conv)
  ultimately show ?thesis by metis
qed

text \<open>What leaves the registry for a browser or a model tells of the secret only whether there is
  one: machines that differ in a secret both have give the same view.\<close>

lemma view_hides_secret:
  "toNodeView (r\<lparr>nd_token := t\<rparr>) = toNodeView (r\<lparr>nd_token := u\<rparr>) \<longleftrightarrow> (t = [] \<longleftrightarrow> u = [])"
  by (auto simp: toNodeView_def)

end
