(* ===== verification/Repo_Store.thy ===== *)
theory Repo_Store
  imports Node_Store Posix_Paths
begin

section \<open>The repository store: storage/repos.ts\<close>

text \<open>
  The registered repositories, kept as the machines are: in memory and in one JSON document of the
  first revision, which nothing migrates. An update again has a half before the write and one after.
\<close>

record repo_record =
  rr_repoId :: string
  rr_nodeId :: string
  rr_repoPath :: string
  rr_name :: string
  rr_createdAt :: string

record repo_draft =
  rd_repoId :: "string option"
  rd_nodeId :: string
  rd_repoPath :: string
  rd_name :: "string option"

definition isRepoRecord :: "json \<Rightarrow> repo_record option" where
  "isRepoRecord v =
     (case (jstring (jfield v ''repoId''), jstring (jfield v ''nodeId''), jstring (jfield v ''repoPath''),
            jstring (jfield v ''name''), jstring (jfield v ''createdAt'')) of
        (Some repoId, Some nodeId, Some repoPath, Some name, Some created) \<Rightarrow>
          Some \<lparr>rr_repoId = repoId, rr_nodeId = nodeId, rr_repoPath = repoPath, rr_name = name,
                rr_createdAt = created\<rparr>
      | _ \<Rightarrow> None)"

definition repo_json :: "repo_record \<Rightarrow> json" where
  "repo_json r =
     JObj [(''repoId'', JStr (rr_repoId r)), (''nodeId'', JStr (rr_nodeId r)), (''repoPath'', JStr (rr_repoPath r)),
           (''name'', JStr (rr_name r)), (''createdAt'', JStr (rr_createdAt r))]"

definition defaultRepoName :: "string \<Rightarrow> string" where
  "defaultRepoName repoPath = posix_basename repoPath"

definition repo_document :: "repo_record document_spec" where
  "repo_document =
     \<lparr>ds_version = 1, ds_key = ''repos'', ds_read = isRepoRecord, ds_render = repo_json, ds_migrate = None\<rparr>"

record repo_store =
  rs_repos :: "repo_record list"
  rs_loaded :: bool

definition createRepoStore :: repo_store where
  "createRepoStore = \<lparr>rs_repos = [], rs_loaded = False\<rparr>"

definition repo_load :: "file_state \<Rightarrow> repo_store \<Rightarrow> (store_error + repo_record list) \<times> repo_store" where
  "repo_load disk s =
     (case readDocument repo_document disk of
        Inl e \<Rightarrow> (Inl (Load_Failed e), s)
      | Inr rs \<Rightarrow> (Inr rs, \<lparr>rs_repos = rs, rs_loaded = True\<rparr>))"

definition repo_requireLoaded :: "repo_store \<Rightarrow> (store_error + 'a) \<Rightarrow> store_error + 'a" where
  "repo_requireLoaded s k = (if rs_loaded s then k else Inl Not_Loaded)"

definition repo_list :: "repo_store \<Rightarrow> store_error + repo_record list" where
  "repo_list s = repo_requireLoaded s (Inr (rs_repos s))"

definition repo_get :: "string \<Rightarrow> repo_store \<Rightarrow> store_error + repo_record option" where
  "repo_get repoId s = repo_requireLoaded s (Inr (find_key rr_repoId repoId (rs_repos s)))"

definition repo_find :: "string \<Rightarrow> string \<Rightarrow> repo_store \<Rightarrow> store_error + repo_record option" where
  "repo_find nodeId repoPath s =
     repo_requireLoaded s (Inr (List.find (\<lambda>r. rr_nodeId r = nodeId \<and> rr_repoPath r = repoPath) (rs_repos s)))"

definition repo_existing :: "repo_draft \<Rightarrow> repo_record list \<Rightarrow> repo_record option" where
  "repo_existing d repos = (case rd_repoId d of None \<Rightarrow> None | Some i \<Rightarrow> find_key rr_repoId i repos)"

definition repo_name :: "repo_draft \<Rightarrow> repo_record option \<Rightarrow> string" where
  "repo_name d existing =
     (let given = (case rd_name d of None \<Rightarrow> [] | Some n \<Rightarrow> trim n);
          kept = (case existing of
                    Some e \<Rightarrow> if rr_repoPath e = rd_repoPath d then rr_name e else []
                  | None \<Rightarrow> [])
      in if given \<noteq> [] then given else if kept \<noteq> [] then kept else defaultRepoName (rd_repoPath d))"

definition repo_record_of :: "string \<Rightarrow> string \<Rightarrow> repo_draft \<Rightarrow> repo_record list \<Rightarrow> repo_record" where
  "repo_record_of stamp uuid d repos =
     \<lparr>rr_repoId = (case repo_existing d repos of
                     Some e \<Rightarrow> rr_repoId e
                   | None \<Rightarrow> (case rd_repoId d of Some i \<Rightarrow> i | None \<Rightarrow> uuid)),
      rr_nodeId = rd_nodeId d,
      rr_repoPath = rd_repoPath d,
      rr_name = repo_name d (repo_existing d repos),
      rr_createdAt = (case repo_existing d repos of Some e \<Rightarrow> rr_createdAt e | None \<Rightarrow> stamp)\<rparr>"

definition repo_upsert_begin ::
  "string \<Rightarrow> string \<Rightarrow> repo_draft \<Rightarrow> repo_store \<Rightarrow> store_error + repo_record \<times> repo_record list" where
  "repo_upsert_begin stamp uuid d s =
     repo_requireLoaded s
       (let r = repo_record_of stamp uuid d (rs_repos s) in
        Inr (r, case repo_existing d (rs_repos s) of
                  None \<Rightarrow> rs_repos s @ [r]
                | Some _ \<Rightarrow> replace_key rr_repoId r (rs_repos s)))"

definition repo_commit ::
  "string option \<Rightarrow> repo_record list \<Rightarrow> 'a \<Rightarrow> repo_store \<times> file_state \<Rightarrow> (store_error + 'a) \<times> repo_store \<times> file_state" where
  "repo_commit failure repos result sd =
     (case writeDocument repo_document failure repos (snd sd) of
        Inl err \<Rightarrow> (Inl (Write_Failed err), sd)
      | Inr disk \<Rightarrow> (Inr result, (fst sd)\<lparr>rs_repos := repos\<rparr>, disk))"

definition repo_upsert ::
  "string \<Rightarrow> string \<Rightarrow> string option \<Rightarrow> repo_draft \<Rightarrow> repo_store \<times> file_state
     \<Rightarrow> (store_error + repo_record) \<times> repo_store \<times> file_state" where
  "repo_upsert stamp uuid failure d sd =
     (case repo_upsert_begin stamp uuid d (fst sd) of
        Inl e \<Rightarrow> (Inl e, sd)
      | Inr (r, repos) \<Rightarrow> repo_commit failure repos r sd)"

definition repo_remove ::
  "string option \<Rightarrow> string \<Rightarrow> repo_store \<times> file_state \<Rightarrow> (store_error + bool) \<times> repo_store \<times> file_state" where
  "repo_remove failure repoId sd =
     (if \<not> rs_loaded (fst sd) then (Inl Not_Loaded, sd)
      else let repos = drop_key rr_repoId repoId (rs_repos (fst sd)) in
        if length repos = length (rs_repos (fst sd)) then (Inr False, sd)
        else repo_commit failure repos True sd)"

definition repo_removeByNode ::
  "string option \<Rightarrow> string \<Rightarrow> repo_store \<times> file_state \<Rightarrow> (store_error + nat) \<times> repo_store \<times> file_state" where
  "repo_removeByNode failure nodeId sd =
     (if \<not> rs_loaded (fst sd) then (Inl Not_Loaded, sd)
      else let repos = drop_key rr_nodeId nodeId (rs_repos (fst sd));
               removed = length (rs_repos (fst sd)) - length repos in
        if removed = 0 then (Inr 0, sd) else repo_commit failure repos removed sd)"

subsection \<open>Lemmas\<close>

interpretation repos_map: record_store rr_repoId "upsert_list rr_repoId" "drop_key rr_repoId"
  by (rule record_store_lists)

abbreviation repo_table :: "repo_store \<Rightarrow> string \<rightharpoonup> repo_record" where
  "repo_table s \<equiv> repos_map.view (rs_repos s)"

lemma repo_document_roundtrip:
  "readDocument repo_document (File_Json (document_json repo_document rs)) = Inr rs"
  by (rule document_roundtrip_spec) (simp_all add: repo_document_def isRepoRecord_def repo_json_def)

lemma repo_commit_cases:
  "repo_commit failure repos result sd =
     (case failure of
        Some err \<Rightarrow> (Inl (Write_Failed err), sd)
      | None \<Rightarrow> (Inr result, (fst sd)\<lparr>rs_repos := repos\<rparr>, File_Json (document_json repo_document repos)))"
  by (simp add: repo_commit_def writeDocument_def split: option.splits)

lemma repo_record_of_id:
  "rr_repoId (repo_record_of stamp uuid d rs) = (case rd_repoId d of None \<Rightarrow> uuid | Some i \<Rightarrow> i)"
  by (auto simp: repo_record_of_def repo_existing_def dest: find_key_Some split: option.splits)

lemma repo_upsert_begin_list:
  assumes "rs_loaded s" "uuid \<notin> rr_repoId ` set (rs_repos s)"
  shows "repo_upsert_begin stamp uuid d s =
    Inr (repo_record_of stamp uuid d (rs_repos s),
         upsert_list rr_repoId (repo_record_of stamp uuid d (rs_repos s)) (rs_repos s))"
proof (cases "repo_existing d (rs_repos s)")
  case None
  then have "find_key rr_repoId (rr_repoId (repo_record_of stamp uuid d (rs_repos s))) (rs_repos s) = None"
    using assms(2) by (auto simp: repo_record_of_def repo_existing_def find_key_None split: option.splits)
  with None assms(1) show ?thesis
    by (simp add: repo_upsert_begin_def repo_requireLoaded_def upsert_list_def Let_def)
next
  case (Some e)
  then have found: "find_key rr_repoId (rr_repoId e) (rs_repos s) = Some e"
    by (auto simp: repo_existing_def dest: find_key_Some split: option.splits)
  have "rr_repoId (repo_record_of stamp uuid d (rs_repos s)) = rr_repoId e"
    by (simp add: repo_record_of_def Some)
  with Some assms(1) found show ?thesis
    by (simp add: repo_upsert_begin_def repo_requireLoaded_def upsert_list_def Let_def)
qed

lemma repo_upsert_eq:
  fixes stamp d
  assumes "rs_loaded s" "uuid \<notin> rr_repoId ` set (rs_repos s)"
  defines "r \<equiv> repo_record_of stamp uuid d (rs_repos s)"
  shows "repo_upsert stamp uuid failure d (s, disk) =
    (case failure of
       Some err \<Rightarrow> (Inl (Write_Failed err), s, disk)
     | None \<Rightarrow> (Inr r, s\<lparr>rs_repos := upsert_list rr_repoId r (rs_repos s)\<rparr>,
         File_Json (document_json repo_document (upsert_list rr_repoId r (rs_repos s)))))"
  by (simp add: repo_upsert_def repo_upsert_begin_list [OF assms(1,2)] repo_commit_cases r_def split: option.splits)

subsection \<open>Properties\<close>

text \<open>What either store writes is what it reads back, record for record.\<close>

theorem documents_roundtrip:
  "readDocument node_document (File_Json (document_json node_document nodes)) = Inr nodes \<and>
   readDocument repo_document (File_Json (document_json repo_document repos)) = Inr repos"
  by (simp add: node_document_roundtrip repo_document_roundtrip)

text \<open>Registering a repository stores one record, under the id the caller gave or a new one, and
  leaves the others; the name the user typed wins, a known record keeps its name while the path is
  the same, and a moved one is renamed after its new path.\<close>

theorem repo_upsert_law:
  assumes "rs_loaded s" "uuid \<notin> rr_repoId ` set (rs_repos s)"
    and "repo_upsert stamp uuid None d (s, disk) = (res, s', disk')"
  shows "\<exists>r. res = Inr r \<and> repo_table s' = (repo_table s)(rr_repoId r \<mapsto> r) \<and>
      readDocument repo_document disk' = Inr (rs_repos s') \<and>
      rr_repoId r = (case rd_repoId d of None \<Rightarrow> uuid | Some i \<Rightarrow> i) \<and>
      rr_nodeId r = rd_nodeId d \<and> rr_repoPath r = rd_repoPath d \<and>
      (case repo_table s (rr_repoId r) of
         None \<Rightarrow> rr_createdAt r = stamp
       | Some e \<Rightarrow> rr_createdAt r = rr_createdAt e \<and>
           (rd_name d = None \<and> rr_repoPath e = rd_repoPath d \<and> rr_name e \<noteq> [] \<longrightarrow> rr_name r = rr_name e) \<and>
           (rd_name d = None \<and> rr_repoPath e \<noteq> rd_repoPath d \<longrightarrow> rr_name r = posix_basename (rd_repoPath d))) \<and>
      (\<forall>n. rd_name d = Some n \<and> trim n \<noteq> [] \<longrightarrow> rr_name r = trim n)"
proof -
  let ?r = "repo_record_of stamp uuid d (rs_repos s)"
  have eqs: "res = Inr ?r" "s' = s\<lparr>rs_repos := upsert_list rr_repoId ?r (rs_repos s)\<rparr>"
    "disk' = File_Json (document_json repo_document (upsert_list rr_repoId ?r (rs_repos s)))"
    using assms(3) repo_upsert_eq [OF assms(1,2)] by simp_all
  have existing: "repo_table s (rr_repoId ?r) = repo_existing d (rs_repos s)"
    using assms(2) by (auto simp: repos_map.view_def repo_record_of_id repo_existing_def find_key_None split: option.splits)
  have "rr_name ?r = repo_name d (repo_table s (rr_repoId ?r))"
    "rr_createdAt ?r = (case repo_table s (rr_repoId ?r) of Some e \<Rightarrow> rr_createdAt e | None \<Rightarrow> stamp)"
    unfolding existing by (simp_all add: repo_record_of_def)
  moreover have "rr_nodeId ?r = rd_nodeId d" "rr_repoPath ?r = rd_repoPath d" by (simp_all add: repo_record_of_def)
  moreover note repo_record_of_id [of stamp uuid d "rs_repos s"]
  moreover have "repo_table s' = (repo_table s)(rr_repoId ?r \<mapsto> ?r)" by (simp add: eqs repos_map.view_ins)
  moreover have "readDocument repo_document disk' = Inr (rs_repos s')" by (simp add: eqs repo_document_roundtrip)
  ultimately show ?thesis using eqs(1)
    by (intro exI [of _ ?r]) (auto simp: repo_name_def defaultRepoName_def Let_def split: option.splits)
qed

definition moved_repo :: "repo_record \<times> repo_draft" where
  "moved_repo =
     (\<lparr>rr_repoId = ''r'', rr_nodeId = ''n'', rr_repoPath = ''/a'', rr_name = ''mine'', rr_createdAt = ''c''\<rparr>,
      \<lparr>rd_repoId = Some ''r'', rd_nodeId = ''n'', rd_repoPath = ''/w/b'', rd_name = None\<rparr>)"

theorem repo_upsert_law_witness:
  "\<exists>r. fst (repo_upsert ''t'' ''u'' None (snd moved_repo) (\<lparr>rs_repos = [fst moved_repo], rs_loaded = True\<rparr>, File_Absent)) = Inr r \<and>
     rr_name r = posix_basename ''/w/b''"
proof -
  let ?s = "\<lparr>rs_repos = [fst moved_repo], rs_loaded = True\<rparr>"
  obtain res s' disk' where run: "repo_upsert ''t'' ''u'' None (snd moved_repo) (?s, File_Absent) = (res, s', disk')"
    by (metis surj_pair)
  have "rs_loaded ?s" "''u'' \<notin> rr_repoId ` set (rs_repos ?s)" by (simp_all add: moved_repo_def)
  from repo_upsert_law [OF this run] show ?thesis
    by (auto simp: run) (simp add: moved_repo_def repos_map.view_def store_simps)
qed

text \<open>Forgetting a machine drops its repositories and no other, in their order and with their
  number as the answer; when it had none nothing is written.\<close>

theorem forget_machine:
  assumes "rs_loaded s"
  shows "repo_removeByNode failure nodeId (s, disk) =
      (let kept = filter (\<lambda>r. rr_nodeId r \<noteq> nodeId) (rs_repos s); gone = filter (\<lambda>r. rr_nodeId r = nodeId) (rs_repos s) in
       if gone = [] then (Inr 0, s, disk)
       else (case failure of
               Some err \<Rightarrow> (Inl (Write_Failed err), s, disk)
             | None \<Rightarrow> (Inr (length gone), s\<lparr>rs_repos := kept\<rparr>, File_Json (document_json repo_document kept))))"
proof -
  have "length (rs_repos s) = length (filter (\<lambda>r. rr_nodeId r = nodeId) (rs_repos s)) +
      length (filter (\<lambda>r. rr_nodeId r \<noteq> nodeId) (rs_repos s))"
    by (rule sum_length_filter_compl [symmetric])
  then have removed: "length (rs_repos s) - length (drop_key rr_nodeId nodeId (rs_repos s)) =
      length (filter (\<lambda>r. rr_nodeId r = nodeId) (rs_repos s))"
    by (simp add: drop_key_def)
  show ?thesis
    unfolding repo_removeByNode_def Let_def fst_conv removed using assms
    by (auto simp: repo_commit_cases drop_key_def split: option.splits)
qed

theorem forget_machine_witness:
  "repo_removeByNode None ''n'' (\<lparr>rs_repos = [fst moved_repo], rs_loaded = True\<rparr>, File_Absent) =
     (Inr 1, \<lparr>rs_repos = [], rs_loaded = True\<rparr>, File_Json (document_json repo_document []))"
  by (subst forget_machine) (simp_all add: moved_repo_def)

end
