(* ===== verification/Local_Tree.thy ===== *)
theory Local_Tree
  imports Documents Posix_Paths "HOL-Library.AList"
begin

section \<open>The local directory tree\<close>

text \<open>
  The part of this host's file system the anchor store works on, as a tree of named entries below
  the root directory: files with their contents, directories, and everything else (a symbolic
  link, a socket). The operations are the ones \<open>node:fs\<close> offers: reading a directory or a file,
  creating a file or directory with its parents, removing recursively.
\<close>

datatype entry = E_File file_state | E_Dir "(string \<times> entry) list" | E_Other

type_synonym tree = "(string \<times> entry) list"

fun tree_at :: "tree \<Rightarrow> string list \<Rightarrow> entry option" where
  "tree_at es [] = Some (E_Dir es)"
| "tree_at es (n # ns) =
     (case map_of es n of
        None \<Rightarrow> None
      | Some (E_Dir es') \<Rightarrow> tree_at es' ns
      | Some e \<Rightarrow> if ns = [] then Some e else None)"

fun tree_put :: "tree \<Rightarrow> string list \<Rightarrow> entry \<Rightarrow> tree option" where
  "tree_put es [] e = None"
| "tree_put es [n] e = Some (AList.update n e es)"
| "tree_put es (n # m # ns) e =
     (case map_of es n of
        None \<Rightarrow> map_option (\<lambda>t. AList.update n (E_Dir t) es) (tree_put [] (m # ns) e)
      | Some (E_Dir es') \<Rightarrow> map_option (\<lambda>t. AList.update n (E_Dir t) es) (tree_put es' (m # ns) e)
      | Some _ \<Rightarrow> None)"

fun tree_rm :: "tree \<Rightarrow> string list \<Rightarrow> tree" where
  "tree_rm es [] = es"
| "tree_rm es [n] = AList.delete n es"
| "tree_rm es (n # m # ns) =
     (case map_of es n of
        Some (E_Dir es') \<Rightarrow> AList.update n (E_Dir (tree_rm es' (m # ns))) es
      | _ \<Rightarrow> es)"

text \<open>\<open>mkdir(path, { recursive: true })\<close> and the replacement of a file.\<close>

definition mkdir_p :: "string list \<Rightarrow> tree \<Rightarrow> tree option" where
  "mkdir_p p es =
     (case tree_at es p of
        Some (E_Dir _) \<Rightarrow> Some es
      | Some _ \<Rightarrow> None
      | None \<Rightarrow> tree_put es p (E_Dir []))"

definition file_at :: "tree \<Rightarrow> string list \<Rightarrow> file_state option" where
  "file_at es p = (case tree_at es p of Some (E_File c) \<Rightarrow> Some c | _ \<Rightarrow> None)"

text \<open>A well-formed tree has each name once in a directory, and only names a directory can have.\<close>

definition wf_dir :: "tree \<Rightarrow> bool" where
  "wf_dir es \<longleftrightarrow> distinct (map fst es) \<and> list_all (\<lambda>(n, e). clean_seg n) es"

definition wf_tree :: "tree \<Rightarrow> bool" where
  "wf_tree es \<longleftrightarrow> (\<forall>p es'. tree_at es p = Some (E_Dir es') \<longrightarrow> wf_dir es')"

lemma wf_tree_dir: "wf_tree es \<Longrightarrow> wf_dir es"
  by (metis tree_at.simps(1) wf_tree_def)

lemma tree_at_dir [simp]: "map_of es n = Some (E_Dir es') \<Longrightarrow> tree_at es (n # ns) = tree_at es' ns"
  by simp

lemma tree_at_none [simp]: "map_of es n = None \<Longrightarrow> tree_at es (n # ns) = None"
  by simp

lemma tree_at_single [simp]: "tree_at es [n] = map_of es n"
  by (auto split: option.splits entry.splits)

lemma wf_tree_sub:
  assumes "wf_tree es" "map_of es n = Some (E_Dir es')"
  shows "wf_tree es'"
  unfolding wf_tree_def
proof (intro allI impI)
  fix p t assume "tree_at es' p = Some (E_Dir t)"
  then have "tree_at es (n # p) = Some (E_Dir t)" by (simp add: assms(2))
  with assms(1) show "wf_dir t" unfolding wf_tree_def by blast
qed

lemma wf_tree_Cons_iff:
  "wf_tree es \<longleftrightarrow> wf_dir es \<and> (\<forall>n es'. map_of es n = Some (E_Dir es') \<longrightarrow> wf_tree es')"
proof
  assume "wf_tree es"
  then show "wf_dir es \<and> (\<forall>n es'. map_of es n = Some (E_Dir es') \<longrightarrow> wf_tree es')"
    using wf_tree_dir wf_tree_sub by blast
next
  assume wf: "wf_dir es \<and> (\<forall>n es'. map_of es n = Some (E_Dir es') \<longrightarrow> wf_tree es')"
  show "wf_tree es"
    unfolding wf_tree_def
  proof (intro allI impI)
    fix p es' assume at: "tree_at es p = Some (E_Dir es')"
    show "wf_dir es'"
    proof (cases p)
      case Nil
      with at wf show ?thesis by simp
    next
      case (Cons n ns)
      with at obtain es1 where "map_of es n = Some (E_Dir es1)" "tree_at es1 ns = Some (E_Dir es')"
        by (auto split: option.splits entry.splits if_splits)
      with wf show ?thesis by (auto simp: wf_tree_def)
    qed
  qed
qed

lemma wf_tree_Nil [simp]: "wf_tree []"
  by (subst wf_tree_Cons_iff) (simp add: wf_dir_def)

lemma wf_dir_update: "wf_dir es \<Longrightarrow> clean_seg n \<Longrightarrow> wf_dir (AList.update n e es)"
proof (induction es)
  case (Cons x es)
  then have "wf_dir (AList.update n e es)" by (auto simp: wf_dir_def)
  with Cons.prems show ?case
    by (auto simp: wf_dir_def distinct_update update_keys split: prod.splits)
qed (simp add: wf_dir_def)

lemma wf_dir_delete: "wf_dir es \<Longrightarrow> wf_dir (AList.delete n es)"
  by (induction es) (auto simp: wf_dir_def AList.delete_eq)

lemma tree_put_wf:
  "tree_put es p e = Some es' \<Longrightarrow> wf_tree es \<Longrightarrow> list_all clean_seg p \<Longrightarrow>
     (\<And>t. e = E_Dir t \<Longrightarrow> wf_tree t) \<Longrightarrow> wf_tree es'"
proof (induction es p e arbitrary: es' rule: tree_put.induct)
  case (2 es n e)
  then show ?case
    by (subst wf_tree_Cons_iff) (auto simp: wf_dir_update wf_tree_dir update_conv' wf_tree_sub split: if_splits)
next
  case (3 es n m ns e)
  obtain sub t where sub: "tree_put sub (m # ns) e = Some t" "es' = AList.update n (E_Dir t) es"
    "map_of es n = None \<and> sub = [] \<or> map_of es n = Some (E_Dir sub)"
    using 3(3) by (auto split: option.splits entry.splits)
  then have "wf_tree t" using 3 wf_tree_sub by auto
  with sub 3(4,5) show ?case
    by (subst wf_tree_Cons_iff) (auto simp: wf_dir_update wf_tree_dir update_conv' wf_tree_sub split: if_splits)
qed auto

lemma tree_rm_wf: "wf_tree es \<Longrightarrow> wf_tree (tree_rm es p)"
proof (induction es p rule: tree_rm.induct)
  case (2 es n)
  then show ?case
    by (subst wf_tree_Cons_iff) (auto simp: wf_dir_delete wf_tree_dir delete_conv' wf_tree_sub split: if_splits)
next
  case (3 es n m ns)
  show ?case
  proof (cases "\<exists>es'. map_of es n = Some (E_Dir es')")
    case True
    then obtain es' where es': "map_of es n = Some (E_Dir es')" by blast
    then have "(n, E_Dir es') \<in> set es" by (rule map_of_SomeD)
    then have "clean_seg n" using wf_tree_dir [OF 3(2)] by (auto simp: wf_dir_def list_all_iff)
    moreover have "wf_tree (tree_rm es' (m # ns))" using 3 es' wf_tree_sub by auto
    ultimately show ?thesis using es' 3(2)
      by (subst wf_tree_Cons_iff) (auto simp: wf_dir_update wf_tree_dir update_conv' wf_tree_sub split: if_splits)
  next
    case False
    with 3(2) show ?thesis by (auto split: option.splits entry.splits)
  qed
qed simp

declare tree_at.simps(2) [simp del]

text \<open>Which files there are after an operation.\<close>

lemma file_at_Nil [simp]: "file_at es [] = None"
  by (simp add: file_at_def)

lemma file_at_empty [simp]: "file_at [] p = None"
  by (cases p) (simp_all add: file_at_def)

lemma file_at_Cons:
  "file_at es (n # ns) =
     (case map_of es n of
        None \<Rightarrow> None
      | Some (E_Dir es') \<Rightarrow> file_at es' ns
      | Some (E_File c) \<Rightarrow> if ns = [] then Some c else None
      | Some E_Other \<Rightarrow> None)"
  by (auto simp: file_at_def tree_at.simps(2) split: option.splits entry.splits)

lemma file_at_step:
  "map_of es n = Some (E_Dir t) \<Longrightarrow> file_at es (n # ns) = file_at t ns"
  "map_of es n = None \<Longrightarrow> file_at es (n # ns) = None"
  by (simp_all add: file_at_Cons)

lemma file_at_other: "map_of es n = map_of es' n \<Longrightarrow> file_at es (n # ns) = file_at es' (n # ns)"
  by (simp add: file_at_Cons)

lemma file_at_update_dir:
  assumes "\<And>r. file_at t r = (if P r then x else file_at sub r)"
    and "map_of es n = None \<and> sub = [] \<or> map_of es n = Some (E_Dir sub)"
  shows "file_at (AList.update n (E_Dir t) es) (k # ks) =
    (if k = n \<and> P ks then x else file_at es (k # ks))"
proof (cases "k = n")
  case True
  have "map_of (AList.update n (E_Dir t) es) n = Some (E_Dir t)" by (simp add: update_conv')
  from file_at_step(1) [OF this, of ks] show ?thesis
    using assms True by (auto simp: file_at_step)
next
  case False
  then show ?thesis by (auto simp: update_conv' intro: file_at_other)
qed

lemma file_at_put:
  "tree_put es p (E_File c) = Some es' \<Longrightarrow> (\<forall>t. tree_at es p \<noteq> Some (E_Dir t)) \<Longrightarrow>
     file_at es' q = (if q = p then Some c else file_at es q)"
proof (induction es p "E_File c" arbitrary: es' q rule: tree_put.induct)
  case (2 es n)
  show ?case
  proof (cases q)
    case (Cons k ks)
    with 2 show ?thesis
      by (cases "k = n") (auto simp: file_at_Cons update_conv' split: option.splits entry.splits)
  qed (use 2 in simp)
next
  case (3 es n m ns)
  obtain sub t where sub: "tree_put sub (m # ns) (E_File c) = Some t" "es' = AList.update n (E_Dir t) es"
    "map_of es n = None \<and> sub = [] \<or> map_of es n = Some (E_Dir sub)"
    using 3(3) by (auto split: option.splits entry.splits)
  then have "\<forall>u. tree_at sub (m # ns) \<noteq> Some (E_Dir u)" using 3(4) by (auto simp: tree_at.simps(2) [of "[]"])
  with sub 3(1,2) have IH: "file_at t r = (if r = m # ns then Some c else file_at sub r)" for r by auto
  show ?case
  proof (cases q)
    case (Cons k ks)
    from file_at_update_dir [OF IH sub(3), of k ks] show ?thesis by (simp add: Cons sub(2))
  qed (use 3 in simp)
qed simp

lemma file_at_put_dir:
  "tree_put es p (E_Dir []) = Some es' \<Longrightarrow> tree_at es p = None \<Longrightarrow> file_at es' q = file_at es q"
proof (induction es p "E_Dir []" arbitrary: es' q rule: tree_put.induct)
  case (2 es n)
  show ?case
  proof (cases q)
    case (Cons k ks)
    with 2 show ?thesis by (cases "k = n") (auto simp: file_at_Cons update_conv')
  qed (use 2 in simp)
next
  case (3 es n m ns)
  obtain sub t where sub: "tree_put sub (m # ns) (E_Dir []) = Some t" "es' = AList.update n (E_Dir t) es"
    "map_of es n = None \<and> sub = [] \<or> map_of es n = Some (E_Dir sub)"
    using 3(3) by (auto split: option.splits entry.splits)
  then have "tree_at sub (m # ns) = None" using 3(4) by (auto simp: tree_at.simps(2) [of "[]"])
  with sub 3(1,2) have IH: "file_at t r = file_at sub r" for r by auto
  show ?case
  proof (cases q)
    case (Cons k ks)
    from file_at_update_dir [of t "\<lambda>_. False" None, OF _ sub(3), of k ks] IH show ?thesis
      by (simp add: Cons sub(2))
  qed (use 3 in simp)
qed simp

lemma file_at_rm:
  "p \<noteq> [] \<Longrightarrow> file_at (tree_rm es p) q = (if prefix p q then None else file_at es q)"
proof (induction es p arbitrary: q rule: tree_rm.induct)
  case (2 es n)
  then show ?case by (cases q) (auto simp: file_at_Cons delete_conv' split: option.splits entry.splits)
next
  case (3 es n m ns)
  show ?case
  proof (cases q)
    case (Cons k ks)
    show ?thesis
    proof (cases "\<exists>es'. map_of es n = Some (E_Dir es')")
      case True
      then obtain es' where es': "map_of es n = Some (E_Dir es')" by blast
      with 3 have "file_at (tree_rm es' (m # ns)) r = (if prefix (m # ns) r then None else file_at es' r)" for r
        by auto
      from file_at_update_dir [OF this, of es n k ks] es' Cons show ?thesis by auto
    next
      case False
      then show ?thesis using Cons by (auto simp: file_at_Cons prefix_def split: option.splits entry.splits)
    qed
  qed simp
qed simp

lemma mkdir_p_files: "mkdir_p p es = Some es' \<Longrightarrow> file_at es' q = file_at es q"
  by (auto simp: mkdir_p_def file_at_put_dir split: option.splits entry.splits)

lemma mkdir_p_wf: "mkdir_p p es = Some es' \<Longrightarrow> wf_tree es \<Longrightarrow> list_all clean_seg p \<Longrightarrow> wf_tree es'"
  by (auto simp: mkdir_p_def intro: tree_put_wf split: option.splits entry.splits)

end
