(* ===== verification/Anchor_Store.thy ===== *)
theory Anchor_Store
  imports Routing Local_Tree
begin

section \<open>The anchor store: storage/anchors.ts\<close>

text \<open>
  One local directory per remote directory, three levels below the anchor root, with the record in
  a metadata file inside it. The store keeps the records in memory and finds them again by walking
  the tree. \<open>stamp\<close> and \<open>uuid\<close> are the clock's and \<open>randomUUID\<close>'s values, \<open>realpath\<close> is the
  operating system's, and a failure argument is an error the file system answers with.
\<close>

subsection \<open>Records\<close>

datatype origin = Created | Adopted

datatype anchor_kind = Worktree string "origin option" | Directory

record anchor_record =
  an_anchorId :: string
  an_nodeId :: string
  an_name :: string
  an_anchorPath :: string
  an_remoteRoot :: string
  an_repoPath :: string
  an_createdAt :: string
  an_kind :: anchor_kind

record anchor_draft =
  ad_kind :: anchor_kind
  ad_nodeId :: string
  ad_name :: string
  ad_repoPath :: string
  ad_remoteRoot :: string

definition ANCHOR_FILE :: string where "ANCHOR_FILE = ''.dsh-remote-worktree.json''"

definition DIRECTORY_SEGMENT :: string where "DIRECTORY_SEGMENT = ''.self''"

definition SCAN_DEPTH :: nat where "SCAN_DEPTH = 3"

datatype anchor_error =
    Anchors_Not_Loaded
  | Already_Owned string
  | Anchor_Not_Json string
  | Bad_Anchor_Version string "json option"
  | Bad_Anchor string
  | Anchor_Io string

definition anchor_json :: "anchor_record \<Rightarrow> json" where
  "anchor_json a =
     JObj ([(''anchorId'', JStr (an_anchorId a)), (''nodeId'', JStr (an_nodeId a)), (''name'', JStr (an_name a)),
            (''anchorPath'', JStr (an_anchorPath a)), (''remoteRoot'', JStr (an_remoteRoot a)),
            (''repoPath'', JStr (an_repoPath a)), (''createdAt'', JStr (an_createdAt a))] @
           (case an_kind a of
              Directory \<Rightarrow> [(''kind'', JStr ''directory'')]
            | Worktree branch orig \<Rightarrow>
                [(''kind'', JStr ''worktree''), (''branch'', JStr branch)] @
                (case orig of
                   None \<Rightarrow> []
                 | Some Created \<Rightarrow> [(''origin'', JStr ''created'')]
                 | Some Adopted \<Rightarrow> [(''origin'', JStr ''adopted'')])))"

definition anchor_document :: "anchor_record \<Rightarrow> file_state" where
  "anchor_document a = File_Json (JObj [(''version'', JNum (Whole 1)), (''anchor'', anchor_json a)])"

text \<open>The kind a stored record has: \<open>isAnchorRecord\<close>'s conditions on \<open>kind\<close> and \<open>branch\<close>, and what
  \<open>parseAnchor\<close> makes of the fields an old record lacks.\<close>

definition stored_kind :: "json \<Rightarrow> anchor_kind option" where
  "stored_kind v =
     (let kind = jfield v ''kind''; branch = jfield v ''branch'' in
      if \<not> (kind = None \<or> kind = Some (JStr ''worktree'') \<or> kind = Some (JStr ''directory'')) then None
      else if \<not> (jstring branch \<noteq> None \<or> (branch = None \<and> kind = Some (JStr ''directory''))) then None
      else if kind = Some (JStr ''directory'') then Some Directory
      else Some (Worktree (the (jstring branch))
             (Some (if jfield v ''origin'' = Some (JStr ''adopted'') then Adopted else Created))))"

definition isAnchorRecord :: "json \<Rightarrow> anchor_record option" where
  "isAnchorRecord v =
     (case (jstring (jfield v ''anchorId''), jstring (jfield v ''nodeId''), jstring (jfield v ''name''),
            jstring (jfield v ''anchorPath''), jstring (jfield v ''remoteRoot''), jstring (jfield v ''repoPath''),
            jstring (jfield v ''createdAt''), stored_kind v) of
        (Some anchorId, Some nodeId, Some name, Some anchorPath, Some remoteRoot, Some repoPath, Some created, Some kind) \<Rightarrow>
          Some \<lparr>an_anchorId = anchorId, an_nodeId = nodeId, an_name = name, an_anchorPath = anchorPath,
                an_remoteRoot = remoteRoot, an_repoPath = repoPath, an_createdAt = created, an_kind = kind\<rparr>
      | _ \<Rightarrow> None)"

definition parseAnchor :: "file_state \<Rightarrow> string \<Rightarrow> anchor_error + anchor_record" where
  "parseAnchor content path =
     (case content of
        File_Json doc \<Rightarrow>
          (if doc = JNull then Inl (Anchor_Io ''TypeError'')
           else if jfield doc ''version'' \<noteq> Some (JNum (Whole 1)) then Inl (Bad_Anchor_Version path (jfield doc ''version''))
           else (case map_option isAnchorRecord (jfield doc ''anchor'') of
                   Some (Some a) \<Rightarrow> Inr a
                 | _ \<Rightarrow> Inl (Bad_Anchor path)))
      | File_Malformed \<Rightarrow> Inl (Anchor_Not_Json path)
      | File_Unreadable err \<Rightarrow> Inl (Anchor_Io err)
      | File_Absent \<Rightarrow> Inl (Anchor_Io ''ENOENT''))"

subsection \<open>Finding the anchors\<close>

definition readdir :: "tree \<Rightarrow> string \<Rightarrow> tree" where
  "readdir disk dir = (case tree_at disk (path_segs dir) of Some (E_Dir es) \<Rightarrow> es | _ \<Rightarrow> [])"

definition readFile :: "tree \<Rightarrow> string \<Rightarrow> file_state" where
  "readFile disk p = (case file_at disk (path_segs p) of Some c \<Rightarrow> c | None \<Rightarrow> File_Absent)"

text \<open>\<open>levels\<close> is the source's \<open>depth + 1\<close>: the levels still permitted, this one included.\<close>

fun findMetadataFiles :: "tree \<Rightarrow> string \<Rightarrow> nat \<Rightarrow> string list" where
  "findMetadataFiles disk dir 0 = []"
| "findMetadataFiles disk dir (Suc levels) =
     concat (map (\<lambda>(name, e).
         let child = posix_join [dir, name] in
         case e of
           E_File _ \<Rightarrow> if name = ANCHOR_FILE then [child] else []
         | E_Dir _ \<Rightarrow> findMetadataFiles disk child levels
         | E_Other \<Rightarrow> [])
       (readdir disk dir))"

text \<open>\<open>sort()\<close>: by the characters' codes.\<close>

fun str_le :: "string \<Rightarrow> string \<Rightarrow> bool" where
  "str_le [] t \<longleftrightarrow> True"
| "str_le (c # s) [] \<longleftrightarrow> False"
| "str_le (c # s) (d # t) \<longleftrightarrow>
     (of_char c :: nat) < of_char d \<or> ((of_char c :: nat) = of_char d \<and> str_le s t)"

fun insert_path :: "string \<Rightarrow> string list \<Rightarrow> string list" where
  "insert_path p [] = [p]"
| "insert_path p (q # qs) = (if str_le p q then p # q # qs else q # insert_path p qs)"

definition sort_paths :: "string list \<Rightarrow> string list" where
  "sort_paths ps = foldr insert_path ps []"

definition posix_dirname :: "string \<Rightarrow> string" where
  "posix_dirname p = (let segs = path_segs p in if length segs \<le> 1 then ''/'' else render (butlast segs))"

subsection \<open>The store\<close>

record anchor_store =
  as_root :: string
  as_anchors :: "anchor_record list"
  as_loaded :: bool

definition createAnchorStore :: "string \<Rightarrow> anchor_store" where
  "createAnchorStore resolved_root = \<lparr>as_root = resolved_root, as_anchors = [], as_loaded = False\<rparr>"

fun load_anchors :: "(string \<Rightarrow> string) \<Rightarrow> tree \<Rightarrow> string list \<Rightarrow> anchor_record list \<Rightarrow> anchor_error option \<times> anchor_record list" where
  "load_anchors realpath disk [] acc = (None, acc)"
| "load_anchors realpath disk (p # ps) acc =
     (case parseAnchor (readFile disk p) p of
        Inl e \<Rightarrow> (Some e, acc)
      | Inr a \<Rightarrow> load_anchors realpath disk ps (acc @ [a\<lparr>an_anchorPath := realpath (posix_dirname p)\<rparr>]))"

definition anchor_load ::
  "(string \<Rightarrow> string) \<Rightarrow> anchor_store \<times> tree \<Rightarrow> (anchor_error + anchor_record list) \<times> anchor_store \<times> tree" where
  "anchor_load realpath sd =
     (case mkdir_p (path_segs (as_root (fst sd))) (snd sd) of
        None \<Rightarrow> (Inl (Anchor_Io ''EEXIST''), sd)
      | Some disk \<Rightarrow>
          (let root = realpath (as_root (fst sd));
               files = sort_paths (findMetadataFiles disk root (Suc SCAN_DEPTH)) in
           case load_anchors realpath disk files [] of
             (Some e, anchors) \<Rightarrow> (Inl e, (fst sd)\<lparr>as_root := root, as_anchors := anchors\<rparr>, disk)
           | (None, anchors) \<Rightarrow>
               (Inr anchors, \<lparr>as_root = root, as_anchors = anchors, as_loaded = True\<rparr>, disk)))"

definition anchor_requireLoaded :: "anchor_store \<Rightarrow> (anchor_error + 'a) \<Rightarrow> anchor_error + 'a" where
  "anchor_requireLoaded s k = (if as_loaded s then k else Inl Anchors_Not_Loaded)"

definition anchor_list :: "anchor_store \<Rightarrow> anchor_error + anchor_record list" where
  "anchor_list s = anchor_requireLoaded s (Inr (as_anchors s))"

definition anchor_get :: "string \<Rightarrow> anchor_store \<Rightarrow> anchor_error + anchor_record option" where
  "anchor_get anchorId s = anchor_requireLoaded s (Inr (find_key an_anchorId anchorId (as_anchors s)))"

definition anchor_path :: "string \<Rightarrow> anchor_draft \<Rightarrow> string" where
  "anchor_path root d =
     posix_join [root, ad_nodeId d, posix_basename (ad_repoPath d),
       if ad_kind d = Directory then DIRECTORY_SEGMENT else ad_name d]"

definition anchor_of :: "string \<Rightarrow> string \<Rightarrow> string \<Rightarrow> anchor_draft \<Rightarrow> anchor_record" where
  "anchor_of stamp uuid anchorPath d =
     \<lparr>an_anchorId = uuid, an_nodeId = ad_nodeId d, an_name = ad_name d, an_anchorPath = anchorPath,
      an_remoteRoot = ad_remoteRoot d, an_repoPath = ad_repoPath d, an_createdAt = stamp,
      an_kind = (case ad_kind d of
                   Directory \<Rightarrow> Directory
                 | Worktree branch orig \<Rightarrow>
                     Worktree branch (Some (case orig of None \<Rightarrow> Created | Some org \<Rightarrow> org)))\<rparr>"

datatype create_failure = No_Failure | Mkdir_Fails string | Write_Fails string

definition anchor_create ::
  "string \<Rightarrow> string \<Rightarrow> create_failure \<Rightarrow> anchor_draft \<Rightarrow> anchor_store \<times> tree
     \<Rightarrow> (anchor_error + anchor_record) \<times> anchor_store \<times> tree" where
  "anchor_create stamp uuid failure d sd =
     (if \<not> as_loaded (fst sd) then (Inl Anchors_Not_Loaded, sd)
      else let anchorPath = anchor_path (as_root (fst sd)) d; a = anchor_of stamp uuid anchorPath d in
        if \<exists>b \<in> set (as_anchors (fst sd)). an_anchorPath b = anchorPath then (Inl (Already_Owned anchorPath), sd)
        else
          (case failure of
             Mkdir_Fails err \<Rightarrow> (Inl (Anchor_Io err), sd)
           | _ \<Rightarrow>
               (case mkdir_p (path_segs anchorPath) (snd sd) of
                  None \<Rightarrow> (Inl (Anchor_Io ''ENOTDIR''), sd)
                | Some disk1 \<Rightarrow>
                    (case failure of
                       Write_Fails err \<Rightarrow> (Inl (Anchor_Io err), fst sd, disk1)
                     | _ \<Rightarrow>
                         (let target = path_segs (posix_join [anchorPath, ANCHOR_FILE]) in
                          case tree_at disk1 target of
                            Some (E_Dir _) \<Rightarrow> (Inl (Anchor_Io ''EISDIR''), fst sd, disk1)
                          | _ \<Rightarrow>
                              (case tree_put disk1 target (E_File (anchor_document a)) of
                                 None \<Rightarrow> (Inl (Anchor_Io ''ENOTDIR''), fst sd, disk1)
                               | Some disk2 \<Rightarrow>
                                   (Inr a, (fst sd)\<lparr>as_anchors := as_anchors (fst sd) @ [a]\<rparr>, disk2)))))))"

text \<open>A removal that fails leaves the part of the tree it did not reach.\<close>

definition anchor_remove ::
  "(string \<times> tree) option \<Rightarrow> string \<Rightarrow> anchor_store \<times> tree \<Rightarrow> (anchor_error + anchor_record option) \<times> anchor_store \<times> tree" where
  "anchor_remove failure anchorId sd =
     (if \<not> as_loaded (fst sd) then (Inl Anchors_Not_Loaded, sd)
      else (case find_key an_anchorId anchorId (as_anchors (fst sd)) of
              None \<Rightarrow> (Inr None, sd)
            | Some a \<Rightarrow>
                (case failure of
                   Some (err, left) \<Rightarrow> (Inl (Anchor_Io err), fst sd, left)
                 | None \<Rightarrow>
                     (Inr (Some a), (fst sd)\<lparr>as_anchors := drop_key an_anchorId anchorId (as_anchors (fst sd))\<rparr>,
                      tree_rm (snd sd) (path_segs (an_anchorPath a))))))"

definition anchor_routes :: "anchor_store \<Rightarrow> anchor_error + anchor_route list" where
  "anchor_routes s =
     anchor_requireLoaded s
       (Inr (map (\<lambda>a. \<lparr>ar_nodeId = an_nodeId a, ar_anchorPath = an_anchorPath a, ar_remoteRoot = an_remoteRoot a\<rparr>)
         (as_anchors s)))"

end
