(* ===== verification/Anchor_Durability.thy ===== *)
theory Anchor_Durability
  imports Anchor_Store
begin

section \<open>The anchors on disk are the anchors in memory\<close>

text \<open>
  The invariant between the anchor store's memory and the metadata files below its root, kept by
  every operation on names that are one path segment; and what happens to one whose name is not.
\<close>

subsection \<open>Paths\<close>

lemma join_clean_tail:
  assumes "list_all clean_seg R" "R \<noteq> []" "q \<noteq> []" "\<not> is_absolute q"
  shows "path_segs (render R @ CHR ''/'' # q) = norm_segs False (rev R) (split_on (CHR ''/'') q)"
proof -
  have "is_absolute (render R)" using assms(2) by (cases R) auto
  with assms show ?thesis by (simp add: path_segs_append path_segs_render)
qed

lemma clean_not_absolute: "clean_seg s \<Longrightarrow> s \<noteq> [] \<and> \<not> is_absolute s"
  by (cases s) (auto simp: clean_seg_def)

lemma split_clean: "clean_seg s \<Longrightarrow> split_on (CHR ''/'') s = [s]"
  by (simp add: clean_seg_def split_on_id)

lemma join_render_segs:
  assumes "list_all clean_seg R" "R \<noteq> []" "list_all clean_seg ss" "ss \<noteq> []"
  shows "posix_normalize (render R @ CHR ''/'' # join_with ''/'' ss) = render (R @ ss)"
proof -
  have "render R @ CHR ''/'' # join_with ''/'' ss = render (R @ ss)"
    using assms(4) render_join [of ss] by simp
  moreover have "canonical (render (R @ ss))"
    using assms by (intro canonical_render) auto
  ultimately show ?thesis by (simp add: canonical_def)
qed

lemma clean_nonempty: "clean_seg s \<Longrightarrow> s \<noteq> []"
  by (simp add: clean_seg_def)

lemma render_nonempty: "R \<noteq> [] \<Longrightarrow> render R \<noteq> []"
  by (cases R) auto

lemma join_one:
  assumes "list_all clean_seg R" "R \<noteq> []" "clean_seg n"
  shows "posix_join [render R, n] = render (R @ [n])"
  using join_render_segs [of R "[n]"] assms render_nonempty clean_nonempty
  by (simp add: posix_join_def)

lemma join_three:
  assumes "list_all clean_seg R" "R \<noteq> []" "clean_seg a" "clean_seg b" "clean_seg c"
  shows "posix_join [render R, a, b, c] = render (R @ [a, b, c])"
  using join_render_segs [of R "[a, b, c]"] assms render_nonempty clean_nonempty
  by (simp add: posix_join_def)

lemma path_segs_of_render: "list_all clean_seg R \<Longrightarrow> R \<noteq> [] \<Longrightarrow> path_segs (render R) = R"
  by (rule path_segs_render)

lemma render_inject:
  assumes "list_all clean_seg p" "list_all clean_seg q" "p \<noteq> []" "q \<noteq> []"
  shows "render p = render q \<longleftrightarrow> p = q"
  using assms path_segs_render by metis

lemma clean_ANCHOR_FILE [simp]: "clean_seg ANCHOR_FILE"
  by (simp add: clean_seg_def ANCHOR_FILE_def)

lemma clean_DIRECTORY [simp]: "clean_seg DIRECTORY_SEGMENT"
  by (simp add: clean_seg_def DIRECTORY_SEGMENT_def)

lemma basename_canonical:
  assumes "canonical p" "p \<noteq> ''/''"
  shows "clean_seg (posix_basename p)"
proof -
  have p: "p = render (path_segs p)" "path_segs p \<noteq> []" "list_all clean_seg (path_segs p)"
    using canonical_cases [OF assms(1)] assms(2) by auto
  have "last p \<noteq> CHR ''/'' \<and> p \<noteq> []" using clean_not_slash_last [OF p(3,2)] p(1) by simp
  then have "dropWhile (\<lambda>c. c = CHR ''/'') (rev p) = rev p"
    by (intro dropWhile_hd) (auto simp: hd_rev)
  then have "posix_basename p = last (split_on (CHR ''/'') p)" by (simp add: posix_basename_def)
  also have "\<dots> = last (path_segs p)" using split_render [OF p(3)] p by (metis last_ConsR)
  finally show ?thesis using p(2,3) by (simp add: list_all_iff)
qed

lemma dirname_render:
  assumes "list_all clean_seg R" "R \<noteq> []" "clean_seg n"
  shows "posix_dirname (render (R @ [n])) = render R"
proof -
  have "path_segs (render (R @ [n])) = R @ [n]" using assms by (intro path_segs_render) auto
  with assms(2) show ?thesis by (cases R) (simp_all add: posix_dirname_def Let_def)
qed

subsection \<open>The walk finds the metadata files\<close>

lemma tree_at_append:
  "tree_at es p = Some (E_Dir t) \<Longrightarrow> tree_at es (p @ q) = tree_at t q"
proof (induction es p rule: tree_at.induct)
  case (2 es n ns)
  then show ?case by (auto simp: tree_at.simps(2) split: option.splits entry.splits if_splits)
qed simp

lemma file_at_append: "tree_at es p = Some (E_Dir t) \<Longrightarrow> file_at es (p @ q) = file_at t q"
  by (simp add: file_at_def tree_at_append)

lemma wf_tree_at: "wf_tree es \<Longrightarrow> tree_at es p = Some (E_Dir t) \<Longrightarrow> wf_tree t"
  unfolding wf_tree_def by (metis tree_at_append)

lemma wf_entry:
  assumes "wf_tree es" "(n, e) \<in> set es"
  shows "clean_seg n" "map_of es n = Some e"
  using wf_tree_dir [OF assms(1)] assms(2) by (auto simp: wf_dir_def list_all_iff)

lemma set_concat_pairs:
  "f \<in> set (concat (map (\<lambda>(n, e). g n e) es)) \<longleftrightarrow> (\<exists>n e. (n, e) \<in> set es \<and> f \<in> set (g n e))"
  by auto

lemma ex_entry: "(\<exists>e. P e) \<longleftrightarrow> (\<exists>c. P (E_File c)) \<or> (\<exists>t. P (E_Dir t)) \<or> P E_Other"
  by (metis entry.exhaust)

lemma find_metadata_iff:
  "wf_tree disk \<Longrightarrow> list_all clean_seg R \<Longrightarrow> R \<noteq> [] \<Longrightarrow> tree_at disk R = Some (E_Dir es) \<Longrightarrow>
     f \<in> set (findMetadataFiles disk (render R) levels) \<longleftrightarrow>
       (\<exists>q. length q < levels \<and> f = render (R @ q @ [ANCHOR_FILE]) \<and> list_all clean_seg q \<and>
          file_at es (q @ [ANCHOR_FILE]) \<noteq> None)"
proof (induction levels arbitrary: R es)
  case (Suc levels)
  have wf: "wf_tree es" using wf_tree_at [OF Suc.prems(1,4)] .
  have dir: "readdir disk (render R) = es" using Suc.prems by (simp add: readdir_def path_segs_render)
  have sub: "f \<in> set (findMetadataFiles disk (posix_join [render R, n]) levels) \<longleftrightarrow>
      (\<exists>q. length q < levels \<and> f = render (R @ (n # q) @ [ANCHOR_FILE]) \<and> list_all clean_seg q \<and>
         file_at t (q @ [ANCHOR_FILE]) \<noteq> None)" if "(n, E_Dir t) \<in> set es" for n t
  proof -
    have "clean_seg n" "map_of es n = Some (E_Dir t)" using wf_entry [OF wf that] by auto
    moreover from this have "tree_at disk (R @ [n]) = Some (E_Dir t)"
      using Suc.prems(4) by (simp add: tree_at_append)
    ultimately show ?thesis using Suc.IH [of "R @ [n]" t] Suc.prems(1,2,3) by (simp add: join_one)
  qed
  have "f \<in> set (findMetadataFiles disk (render R) (Suc levels)) \<longleftrightarrow>
      (\<exists>c. (ANCHOR_FILE, E_File c) \<in> set es \<and> f = posix_join [render R, ANCHOR_FILE]) \<or>
      (\<exists>n t. (n, E_Dir t) \<in> set es \<and> f \<in> set (findMetadataFiles disk (posix_join [render R, n]) levels))"
    unfolding findMetadataFiles.simps dir set_concat_pairs Let_def ex_entry by auto
  also have "\<dots> \<longleftrightarrow> (\<exists>q. length q < Suc levels \<and> f = render (R @ q @ [ANCHOR_FILE]) \<and> list_all clean_seg q \<and>
         file_at es (q @ [ANCHOR_FILE]) \<noteq> None)" (is "?L \<longleftrightarrow> ?Q")
  proof
    assume ?L
    then show ?Q
    proof (elim disjE exE conjE)
      fix c assume "(ANCHOR_FILE, E_File c) \<in> set es" "f = posix_join [render R, ANCHOR_FILE]"
      with wf_entry(2) [OF wf] Suc.prems show ?Q
        by (intro exI [of _ "[]"]) (auto simp: join_one file_at_Cons)
    next
      fix n t assume nt: "(n, E_Dir t) \<in> set es" "f \<in> set (findMetadataFiles disk (posix_join [render R, n]) levels)"
      with sub obtain q where "length q < levels" "f = render (R @ (n # q) @ [ANCHOR_FILE])" "list_all clean_seg q"
        "file_at t (q @ [ANCHOR_FILE]) \<noteq> None" by blast
      with wf_entry [OF wf nt(1)] show ?Q
        by (intro exI [of _ "n # q"]) (auto simp: file_at_step)
    qed
  next
    assume ?Q
    then obtain q where q: "length q < Suc levels" "f = render (R @ q @ [ANCHOR_FILE])" "list_all clean_seg q"
      "file_at es (q @ [ANCHOR_FILE]) \<noteq> None" by blast
    show ?L
    proof (cases q)
      case Nil
      with q(4) obtain c where "map_of es ANCHOR_FILE = Some (E_File c)"
        by (auto simp: file_at_Cons split: option.splits entry.splits)
      then have "(ANCHOR_FILE, E_File c) \<in> set es" by (rule map_of_SomeD)
      with Nil q(2) Suc.prems show ?thesis by (auto simp: join_one)
    next
      case (Cons n ns)
      with q(4) obtain t where t: "map_of es n = Some (E_Dir t)" "file_at t (ns @ [ANCHOR_FILE]) \<noteq> None"
        by (auto simp: file_at_Cons split: option.splits entry.splits if_splits)
      then have mem: "(n, E_Dir t) \<in> set es" by (blast intro: map_of_SomeD)
      have "f \<in> set (findMetadataFiles disk (posix_join [render R, n]) levels)"
        unfolding sub [OF mem] using q Cons t(2) by (intro exI [of _ ns]) auto
      with mem show ?thesis by blast
    qed
  qed
  finally show ?case .
qed simp

subsection \<open>Directories stay\<close>

lemma tree_at_same: "map_of es k = map_of es' k \<Longrightarrow> tree_at es (k # ks) = tree_at es' (k # ks)"
  by (simp add: tree_at.simps(2))

lemma tree_put_dir:
  "tree_put es p e = Some es' \<Longrightarrow> tree_at es R = Some (E_Dir t) \<Longrightarrow> \<not> prefix p R \<Longrightarrow>
     \<exists>t'. tree_at es' R = Some (E_Dir t')"
proof (induction es p e arbitrary: es' R t rule: tree_put.induct)
  case (2 es n e)
  then show ?case
    by (cases R) (auto simp: update_conv' tree_at.simps(2) split: option.splits entry.splits if_splits)
next
  case (3 es n m ns e)
  show ?case
  proof (cases R)
    case (Cons k ks)
    obtain sub u where sub: "tree_put sub (m # ns) e = Some u" "es' = AList.update n (E_Dir u) es"
      "map_of es n = None \<and> sub = [] \<or> map_of es n = Some (E_Dir sub)"
      using 3(3) by (auto split: option.splits entry.splits)
    have new: "map_of es' k = (if k = n then Some (E_Dir u) else map_of es k)" by (simp add: sub(2) update_conv')
    show ?thesis
    proof (cases "k = n")
      case False
      with new have "map_of es' k = map_of es k" by simp
      with 3(4) Cons show ?thesis using tree_at_same by metis
    next
      case True
      then have some: "map_of es n = Some (E_Dir sub)" using sub(3) 3(4) Cons by auto
      with 3(4) True Cons have "tree_at sub ks = Some (E_Dir t)" by simp
      then have "\<exists>t'. tree_at u ks = Some (E_Dir t')" using 3(2,5) some sub(1) True Cons by auto
      with new True Cons show ?thesis by simp
    qed
  qed simp
qed simp

lemma tree_rm_dir:
  "tree_at es R = Some (E_Dir t) \<Longrightarrow> p \<noteq> [] \<Longrightarrow> \<not> prefix p R \<Longrightarrow> \<exists>t'. tree_at (tree_rm es p) R = Some (E_Dir t')"
proof (induction es p arbitrary: R t rule: tree_rm.induct)
  case (2 es n)
  then show ?case
    by (cases R) (auto simp: delete_conv' tree_at.simps(2) split: option.splits entry.splits if_splits)
next
  case (3 es n m ns)
  show ?case
  proof (cases R)
    case (Cons k ks)
    show ?thesis
    proof (cases "k = n \<and> (\<exists>sub. map_of es n = Some (E_Dir sub))")
      case True
      then obtain sub where sub: "map_of es n = Some (E_Dir sub)" "k = n" by blast
      then have "\<exists>t'. tree_at (tree_rm sub (m # ns)) ks = Some (E_Dir t')"
        using 3 Cons by auto
      with sub Cons show ?thesis by (simp add: update_conv')
    next
      case False
      then have "map_of (tree_rm es (n # m # ns)) k = map_of es k"
        by (auto simp: update_conv' split: option.splits entry.splits)
      with 3(2) Cons show ?thesis using tree_at_same by metis
    qed
  qed simp
qed simp

lemma mkdir_p_dir:
  assumes "mkdir_p p es = Some es'" "tree_at es R = Some (E_Dir t)"
  shows "\<exists>t'. tree_at es' R = Some (E_Dir t')"
proof (cases "tree_at es p")
  case None
  have "\<not> prefix p R"
  proof
    assume "prefix p R"
    then obtain q where "R = p @ q" by (auto simp: prefix_def)
    moreover have "tree_at es (p @ q) = None" if "tree_at es p = None" for p q es
      using that by (induction es p rule: tree_at.induct)
        (auto simp: tree_at.simps(2) split: option.splits entry.splits)
    ultimately show False using None assms(2) by simp
  qed
  with None assms tree_put_dir show ?thesis by (auto simp: mkdir_p_def)
qed (use assms in \<open>auto simp: mkdir_p_def split: entry.splits\<close>)

subsection \<open>The invariant\<close>

text \<open>An anchor is placed when its path is three segments below the root; its kind is one the parser
  gives back.\<close>

definition anchor_placed :: "string list \<Rightarrow> anchor_record \<Rightarrow> bool" where
  "anchor_placed R a \<longleftrightarrow>
     (\<exists>n b m. list_all clean_seg [n, b, m] \<and> an_anchorPath a = render (R @ [n, b, m])) \<and>
     (case an_kind a of Directory \<Rightarrow> True | Worktree _ orig \<Rightarrow> orig \<noteq> None)"

definition anchors_sync :: "string list \<Rightarrow> anchor_store \<times> tree \<Rightarrow> bool" where
  "anchors_sync R sd \<longleftrightarrow>
     as_loaded (fst sd) \<and> as_root (fst sd) = render R \<and> R \<noteq> [] \<and> list_all clean_seg R \<and>
     wf_tree (snd sd) \<and> (\<exists>es. tree_at (snd sd) R = Some (E_Dir es)) \<and>
     (\<forall>a \<in> set (as_anchors (fst sd)). anchor_placed R a) \<and>
     distinct (map an_anchorPath (as_anchors (fst sd))) \<and> distinct (map an_anchorId (as_anchors (fst sd))) \<and>
     (\<forall>q c. length q \<le> SCAN_DEPTH \<and> list_all clean_seg q \<longrightarrow>
        (file_at (snd sd) (R @ q @ [ANCHOR_FILE]) = Some c \<longleftrightarrow>
           (\<exists>a \<in> set (as_anchors (fst sd)). an_anchorPath a = render (R @ q) \<and> c = anchor_document a)))"

lemma stored_kind_json:
  assumes "case an_kind a of Directory \<Rightarrow> True | Worktree _ orig \<Rightarrow> orig \<noteq> None"
  shows "stored_kind (anchor_json a) = Some (an_kind a)"
proof (cases "an_kind a")
  case (Worktree branch orig)
  with assms obtain org where "orig = Some org" by auto
  with Worktree show ?thesis by (cases org) (simp_all add: stored_kind_def anchor_json_def)
qed (simp add: stored_kind_def anchor_json_def)

lemma parse_anchor_document:
  assumes "anchor_placed R a"
  shows "parseAnchor (anchor_document a) p = Inr a"
proof -
  have "stored_kind (anchor_json a) = Some (an_kind a)"
    using assms by (intro stored_kind_json) (simp add: anchor_placed_def)
  then have "isAnchorRecord (anchor_json a) = Some a"
    by (simp add: isAnchorRecord_def) (simp add: anchor_json_def)
  moreover have "anchor_json a \<noteq> JNull" by (simp add: anchor_json_def)
  ultimately show ?thesis
    by (simp add: parseAnchor_def anchor_document_def)
qed

text \<open>A load gives back the same anchors, whatever order the walk finds them in.\<close>

lemma set_insert_path: "set (insert_path p ps) = insert p (set ps)"
  by (induction ps) auto

lemma set_sort_paths: "set (sort_paths ps) = set ps"
  by (induction ps) (auto simp: sort_paths_def set_insert_path)

lemma load_anchors_ok:
  "(\<And>p. p \<in> set ps \<Longrightarrow> \<exists>a. parseAnchor (readFile disk p) p = Inr a \<and> g p = a\<lparr>an_anchorPath := realpath (posix_dirname p)\<rparr>) \<Longrightarrow>
     load_anchors realpath disk ps acc = (None, acc @ map g ps)"
proof (induction ps arbitrary: acc)
  case (Cons p ps)
  from Cons.prems [of p] obtain a where "parseAnchor (readFile disk p) p = Inr a"
    "g p = a\<lparr>an_anchorPath := realpath (posix_dirname p)\<rparr>" by auto
  with Cons show ?case by simp
qed simp

definition reload_set :: "(string \<Rightarrow> string) \<Rightarrow> anchor_store \<times> tree \<Rightarrow> anchor_record set option" where
  "reload_set realpath sd =
     (case fst (anchor_load realpath (createAnchorStore (as_root (fst sd)), snd sd)) of
        Inl _ \<Rightarrow> None
      | Inr rs \<Rightarrow> Some (set rs))"

lemma scanned_files:
  assumes "anchors_sync R (s, disk)"
  shows "set (sort_paths (findMetadataFiles disk (render R) (Suc SCAN_DEPTH))) =
    (\<lambda>a. an_anchorPath a @ CHR ''/'' # ANCHOR_FILE) ` set (as_anchors s)"
proof (intro set_eqI)
  fix p
  have R: "R \<noteq> []" "list_all clean_seg R" "wf_tree disk"
    and placed: "\<And>a. a \<in> set (as_anchors s) \<Longrightarrow> anchor_placed R a"
    and sync: "\<And>q c. length q \<le> SCAN_DEPTH \<Longrightarrow> list_all clean_seg q \<Longrightarrow>
        file_at disk (R @ q @ [ANCHOR_FILE]) = Some c \<longleftrightarrow>
          (\<exists>a \<in> set (as_anchors s). an_anchorPath a = render (R @ q) \<and> c = anchor_document a)"
    using assms by (auto simp: anchors_sync_def)
  obtain es where es: "tree_at disk R = Some (E_Dir es)" using assms by (auto simp: anchors_sync_def)
  have "p \<in> set (sort_paths (findMetadataFiles disk (render R) (Suc SCAN_DEPTH))) \<longleftrightarrow>
      (\<exists>q. length q \<le> SCAN_DEPTH \<and> p = render (R @ q @ [ANCHOR_FILE]) \<and> list_all clean_seg q \<and>
        (\<exists>c. file_at disk (R @ q @ [ANCHOR_FILE]) = Some c))"
    using find_metadata_iff [OF R(3,2,1) es, of p "Suc SCAN_DEPTH"] file_at_append [OF es]
    by (auto simp: set_sort_paths less_Suc_eq_le)
  also have "\<dots> \<longleftrightarrow> (\<exists>q. length q \<le> SCAN_DEPTH \<and> p = render (R @ q @ [ANCHOR_FILE]) \<and> list_all clean_seg q \<and>
      (\<exists>a \<in> set (as_anchors s). an_anchorPath a = render (R @ q)))"
    by (metis sync)
  also have "\<dots> \<longleftrightarrow> p \<in> (\<lambda>a. an_anchorPath a @ CHR ''/'' # ANCHOR_FILE) ` set (as_anchors s)" (is "?held \<longleftrightarrow> _")
  proof
    assume "p \<in> (\<lambda>a. an_anchorPath a @ CHR ''/'' # ANCHOR_FILE) ` set (as_anchors s)"
    then obtain a where a: "a \<in> set (as_anchors s)" "p = an_anchorPath a @ CHR ''/'' # ANCHOR_FILE" by blast
    from placed [OF a(1)] obtain n b m where "list_all clean_seg [n, b, m]" "an_anchorPath a = render (R @ [n, b, m])"
      by (auto simp: anchor_placed_def)
    with a show ?held
      by (intro exI [of _ "[n, b, m]"]) (auto simp: SCAN_DEPTH_def)
  next
    assume ?held
    then obtain q a where "p = render (R @ q @ [ANCHOR_FILE])" "a \<in> set (as_anchors s)" "an_anchorPath a = render (R @ q)"
      by blast
    then show "p \<in> (\<lambda>a. an_anchorPath a @ CHR ''/'' # ANCHOR_FILE) ` set (as_anchors s)"
      by (intro image_eqI [of _ _ a]) simp_all
  qed
  finally show "p \<in> set (sort_paths (findMetadataFiles disk (render R) (Suc SCAN_DEPTH))) \<longleftrightarrow>
      p \<in> (\<lambda>a. an_anchorPath a @ CHR ''/'' # ANCHOR_FILE) ` set (as_anchors s)" .
qed

lemma reads_back:
  assumes "anchors_sync R (s, disk)" "\<And>p. canonical p \<Longrightarrow> realpath p = p"
    and "a \<in> set (as_anchors s)" "p = an_anchorPath a @ CHR ''/'' # ANCHOR_FILE"
  shows "parseAnchor (readFile disk p) p = Inr a" "realpath (posix_dirname p) = an_anchorPath a"
proof -
  have placed: "anchor_placed R a" and R: "list_all clean_seg R"
    and sync: "\<And>q c. length q \<le> SCAN_DEPTH \<Longrightarrow> list_all clean_seg q \<Longrightarrow>
        file_at disk (R @ q @ [ANCHOR_FILE]) = Some c \<longleftrightarrow>
          (\<exists>a \<in> set (as_anchors s). an_anchorPath a = render (R @ q) \<and> c = anchor_document a)"
    using assms(1,3) by (auto simp: anchors_sync_def)
  from placed obtain n b m where nbm: "list_all clean_seg [n, b, m]" "an_anchorPath a = render (R @ [n, b, m])"
    by (auto simp: anchor_placed_def)
  then have p: "p = render ((R @ [n, b, m]) @ [ANCHOR_FILE])" using assms(4) by simp
  have clean: "list_all clean_seg (R @ [n, b, m])" using R nbm(1) by simp
  have segs: "path_segs p = R @ [n, b, m] @ [ANCHOR_FILE]"
    using path_segs_render [of "(R @ [n, b, m]) @ [ANCHOR_FILE]"] clean unfolding p by simp
  have "file_at disk (R @ [n, b, m] @ [ANCHOR_FILE]) = Some (anchor_document a)"
    using sync [of "[n, b, m]"] nbm assms(3) by (auto simp: SCAN_DEPTH_def)
  then show "parseAnchor (readFile disk p) p = Inr a"
    using parse_anchor_document [OF placed] segs by (simp add: readFile_def)
  have "posix_dirname p = render (R @ [n, b, m])" unfolding p by (rule dirname_render [OF clean]) simp_all
  moreover have "canonical (render (R @ [n, b, m]))" using clean by (intro canonical_render) simp_all
  ultimately show "realpath (posix_dirname p) = an_anchorPath a" using assms(2) nbm(2) by simp
qed

lemma reload_sync:
  assumes "anchors_sync R sd" "\<And>p. canonical p \<Longrightarrow> realpath p = p"
  shows "reload_set realpath sd = Some (set (as_anchors (fst sd)))"
proof -
  obtain s disk where sd: "sd = (s, disk)" by fastforce
  note sync = assms(1) [unfolded sd]
  have R: "R \<noteq> []" "list_all clean_seg R" "as_root s = render R" and unique: "distinct (map an_anchorPath (as_anchors s))"
    using sync by (auto simp: anchors_sync_def)
  obtain es where es: "tree_at disk R = Some (E_Dir es)" using sync by (auto simp: anchors_sync_def)
  have mk: "mkdir_p (path_segs (as_root s)) disk = Some disk"
    using R es by (simp add: path_segs_render mkdir_p_def)
  have real: "realpath (as_root s) = render R" using R assms(2) canonical_render by metis
  let ?files = "sort_paths (findMetadataFiles disk (render R) (Suc SCAN_DEPTH))"
  define g where "g p = (THE a. a \<in> set (as_anchors s) \<and> p = an_anchorPath a @ CHR ''/'' # ANCHOR_FILE)" for p
  have g: "g (an_anchorPath a @ CHR ''/'' # ANCHOR_FILE) = a" if "a \<in> set (as_anchors s)" for a
    unfolding g_def using that unique by (intro the_equality) (auto simp: distinct_map inj_on_def)
  have load: "load_anchors realpath disk ?files [] = (None, [] @ map g ?files)"
  proof (rule load_anchors_ok)
    fix p assume "p \<in> set ?files"
    then obtain a where a: "a \<in> set (as_anchors s)" "p = an_anchorPath a @ CHR ''/'' # ANCHOR_FILE"
      unfolding scanned_files [OF sync] by blast
    with reads_back [OF sync assms(2) a] g [OF a(1)]
    show "\<exists>a. parseAnchor (readFile disk p) p = Inr a \<and> g p = a\<lparr>an_anchorPath := realpath (posix_dirname p)\<rparr>"
      by (intro exI [of _ a]) simp
  qed
  have "set (map g ?files) = set (as_anchors s)"
    using g scanned_files [OF sync] by (auto simp: image_image)
  with mk real load show ?thesis
    by (simp add: reload_set_def anchor_load_def createAnchorStore_def sd Let_def)
qed

subsection \<open>Steps of the store\<close>

lemma create_ok:
  assumes "anchor_create stamp uuid failure d (s, disk) = (Inr a, s', disk')"
  shows "\<exists>disk1. failure = No_Failure \<and> a = anchor_of stamp uuid (anchor_path (as_root s) d) d \<and>
    anchor_path (as_root s) d \<notin> an_anchorPath ` set (as_anchors s) \<and>
    mkdir_p (path_segs (anchor_path (as_root s) d)) disk = Some disk1 \<and>
    (\<forall>t. tree_at disk1 (path_segs (posix_join [anchor_path (as_root s) d, ANCHOR_FILE])) \<noteq> Some (E_Dir t)) \<and>
    tree_put disk1 (path_segs (posix_join [anchor_path (as_root s) d, ANCHOR_FILE])) (E_File (anchor_document a)) = Some disk' \<and>
    s' = s\<lparr>as_anchors := as_anchors s @ [a]\<rparr> \<and> as_loaded s"
  using assms
  by (auto simp: anchor_create_def Let_def image_iff split: if_splits create_failure.splits option.splits entry.splits)

text \<open>The files after a creation, wherever the anchor's path leads.\<close>

lemma create_files:
  assumes "anchor_create stamp uuid failure d (s, disk) = (Inr a, s', disk')"
    and "path_segs (anchor_path (as_root s) d) = P" "P \<noteq> []" "list_all clean_seg P" "anchor_path (as_root s) d = render P"
  shows "file_at disk' q = (if q = P @ [ANCHOR_FILE] then Some (anchor_document a) else file_at disk q)"
    and "wf_tree disk \<Longrightarrow> wf_tree disk'"
    and "tree_at disk R = Some (E_Dir t) \<Longrightarrow> \<not> prefix (P @ [ANCHOR_FILE]) R \<Longrightarrow> \<exists>t'. tree_at disk' R = Some (E_Dir t')"
proof -
  obtain disk1 where mk: "mkdir_p P disk = Some disk1"
    and nodir: "\<forall>t. tree_at disk1 (path_segs (posix_join [render P, ANCHOR_FILE])) \<noteq> Some (E_Dir t)"
    and put: "tree_put disk1 (path_segs (posix_join [render P, ANCHOR_FILE])) (E_File (anchor_document a)) = Some disk'"
    using create_ok [OF assms(1)] assms(2,5) by metis
  have join: "posix_join [render P, ANCHOR_FILE] = render (P @ [ANCHOR_FILE])"
    using assms(3,4) by (intro join_one) simp_all
  have target: "path_segs (posix_join [render P, ANCHOR_FILE]) = P @ [ANCHOR_FILE]"
    unfolding join using assms(4) by (intro path_segs_render) simp_all
  show "file_at disk' q = (if q = P @ [ANCHOR_FILE] then Some (anchor_document a) else file_at disk q)"
    using file_at_put [OF put nodir] mkdir_p_files [OF mk] by (simp add: target)
  show "wf_tree disk'" if "wf_tree disk"
    using tree_put_wf [OF put mkdir_p_wf [OF mk that assms(4)]] assms(4) by (simp add: target)
  show "\<exists>t'. tree_at disk' R = Some (E_Dir t')"
    if "tree_at disk R = Some (E_Dir t)" "\<not> prefix (P @ [ANCHOR_FILE]) R"
    using mkdir_p_dir [OF mk that(1)] tree_put_dir [OF put] that(2) by (auto simp: target)
qed

text \<open>A draft whose place is three segments below the root.\<close>

definition plain_draft :: "anchor_draft \<Rightarrow> bool" where
  "plain_draft d \<longleftrightarrow> clean_seg (ad_nodeId d) \<and> clean_seg (ad_name d) \<and> canonical (ad_repoPath d) \<and> ad_repoPath d \<noteq> ''/''"

lemma anchor_path_plain:
  assumes "plain_draft d" "R \<noteq> []" "list_all clean_seg R"
  shows "\<exists>m. clean_seg m \<and> anchor_path (render R) d = render (R @ [ad_nodeId d, posix_basename (ad_repoPath d), m])
    \<and> path_segs (anchor_path (render R) d) = R @ [ad_nodeId d, posix_basename (ad_repoPath d), m]"
proof -
  let ?m = "if ad_kind d = Directory then DIRECTORY_SEGMENT else ad_name d"
  have clean: "clean_seg (ad_nodeId d)" "clean_seg (posix_basename (ad_repoPath d))" "clean_seg ?m"
    using assms(1) basename_canonical by (auto simp: plain_draft_def)
  then have "anchor_path (render R) d = render (R @ [ad_nodeId d, posix_basename (ad_repoPath d), ?m])"
    unfolding anchor_path_def using assms(2,3) by (intro join_three)
  moreover from this clean assms have "path_segs (anchor_path (render R) d) = R @ [ad_nodeId d, posix_basename (ad_repoPath d), ?m]"
    using path_segs_render [of "R @ [ad_nodeId d, posix_basename (ad_repoPath d), ?m]"] by simp
  ultimately show ?thesis using clean(3) by blast
qed

lemma sync_create:
  assumes "anchors_sync R (s, disk)" "plain_draft d" "uuid \<notin> an_anchorId ` set (as_anchors s)"
    and "anchor_create stamp uuid failure d (s, disk) = (Inr a, s', disk')"
  shows "anchors_sync R (s', disk')"
proof -
  have R: "R \<noteq> []" "list_all clean_seg R" "as_root s = render R"
    using assms(1) by (auto simp: anchors_sync_def)
  obtain m where m: "clean_seg m" "anchor_path (as_root s) d = render (R @ [ad_nodeId d, posix_basename (ad_repoPath d), m])"
      "path_segs (anchor_path (as_root s) d) = R @ [ad_nodeId d, posix_basename (ad_repoPath d), m]"
    using anchor_path_plain [OF assms(2) R(1,2)] R(3) by auto
  let ?t = "[ad_nodeId d, posix_basename (ad_repoPath d), m]"
  have t: "list_all clean_seg ?t" using assms(2) m(1) basename_canonical by (auto simp: plain_draft_def)
  have a: "a = anchor_of stamp uuid (render (R @ ?t)) d" "render (R @ ?t) \<notin> an_anchorPath ` set (as_anchors s)"
    and s': "s' = s\<lparr>as_anchors := as_anchors s @ [a]\<rparr>"
    using create_ok [OF assms(4)] m(2) by metis+
  have files: "file_at disk' q = (if q = (R @ ?t) @ [ANCHOR_FILE] then Some (anchor_document a) else file_at disk q)" for q
    using create_files(1) [OF assms(4) m(3)] R(2) t m(2) by simp
  have wf: "wf_tree disk'" using create_files(2) [OF assms(4) m(3)] assms(1) R(2) t m(2) by (simp add: anchors_sync_def)
  have dir: "\<exists>es. tree_at disk' R = Some (E_Dir es)"
    using create_files(3) [OF assms(4) m(3)] assms(1) R(2) t m(2) by (auto simp: anchors_sync_def)
  have placed: "anchor_placed R a"
    using t unfolding a(1) anchor_placed_def
    by (intro conjI exI [of _ "ad_nodeId d"] exI [of _ "posix_basename (ad_repoPath d)"] exI [of _ m])
      (auto simp: anchor_of_def split: anchor_kind.splits)
  have ids: "an_anchorId a = uuid" "an_anchorPath a = render (R @ ?t)" by (simp_all add: a(1) anchor_of_def)
  have entries: "file_at disk' (R @ q @ [ANCHOR_FILE]) = Some c \<longleftrightarrow>
      (\<exists>b \<in> set (as_anchors s'). an_anchorPath b = render (R @ q) \<and> c = anchor_document b)"
    if q: "length q \<le> SCAN_DEPTH" "list_all clean_seg q" for q c
  proof (cases "q = ?t")
    case True
    have "an_anchorPath b \<noteq> render (R @ ?t)" if "b \<in> set (as_anchors s)" for b
      using a(2) that by (metis imageI)
    with True show ?thesis using ids(2) by (auto simp: files s' simp del: render_append)
  next
    case False
    then have "render (R @ q) \<noteq> render (R @ ?t)"
      using render_inject [of "R @ q" "R @ ?t"] R(1,2) q(2) t by simp
    moreover have "file_at disk (R @ q @ [ANCHOR_FILE]) = Some c \<longleftrightarrow>
        (\<exists>b \<in> set (as_anchors s). an_anchorPath b = render (R @ q) \<and> c = anchor_document b)"
      using assms(1) q by (simp add: anchors_sync_def)
    ultimately show ?thesis using False ids(2) by (auto simp: files s')
  qed
  show ?thesis
    using assms(1,3) wf dir placed ids a(2) entries by (auto simp: anchors_sync_def s')
qed

lemma sync_remove:
  assumes "anchors_sync R (s, disk)" "anchor_remove None anchorId (s, disk) = (res, s', disk')"
  shows "anchors_sync R (s', disk')"
proof (cases "find_key an_anchorId anchorId (as_anchors s)")
  case None
  with assms show ?thesis by (auto simp: anchor_remove_def anchors_sync_def)
next
  case (Some a)
  have R: "R \<noteq> []" "list_all clean_seg R" using assms(1) by (auto simp: anchors_sync_def)
  have a: "a \<in> set (as_anchors s)" "an_anchorId a = anchorId" using find_key_Some [OF Some] by auto
  obtain n b m where nbm: "list_all clean_seg [n, b, m]" "an_anchorPath a = render (R @ [n, b, m])"
    using assms(1) a(1) by (auto simp: anchors_sync_def anchor_placed_def)
  have segs: "path_segs (an_anchorPath a) = R @ [n, b, m]"
    unfolding nbm(2) using R nbm(1) by (intro path_segs_render) simp_all
  have eqs: "s' = s\<lparr>as_anchors := drop_key an_anchorId anchorId (as_anchors s)\<rparr>" "disk' = tree_rm disk (R @ [n, b, m])"
    using assms Some by (auto simp: anchor_remove_def anchors_sync_def segs)
  have kept: "x \<in> set (as_anchors s') \<longleftrightarrow> x \<in> set (as_anchors s) \<and> x \<noteq> a" for x
    using assms(1) a by (auto simp: eqs drop_key_def anchors_sync_def distinct_map inj_on_def)
  have paths: "x \<in> set (as_anchors s) \<Longrightarrow> an_anchorPath x = an_anchorPath a \<Longrightarrow> x = a" for x
    using assms(1) a(1) by (auto simp: anchors_sync_def distinct_map inj_on_def)
  have files: "file_at disk' q = (if prefix (R @ [n, b, m]) q then None else file_at disk q)" for q
    unfolding eqs by (rule file_at_rm) simp
  have old: "file_at disk (R @ q @ [ANCHOR_FILE]) = Some c \<longleftrightarrow>
      (\<exists>x \<in> set (as_anchors s). an_anchorPath x = render (R @ q) \<and> c = anchor_document x)"
    if "length q \<le> SCAN_DEPTH" "list_all clean_seg q" for q c
    using assms(1) that by (simp add: anchors_sync_def)
  have new: "file_at disk' (R @ q @ [ANCHOR_FILE]) = Some c \<longleftrightarrow>
      (\<exists>x \<in> set (as_anchors s'). an_anchorPath x = render (R @ q) \<and> c = anchor_document x)"
    if q: "length q \<le> SCAN_DEPTH" "list_all clean_seg q" for q c
  proof (cases "q = [n, b, m]")
    case True
    then have "prefix (R @ [n, b, m]) (R @ q @ [ANCHOR_FILE])" by simp
    moreover have "\<not> (\<exists>x \<in> set (as_anchors s'). an_anchorPath x = render (R @ q))"
      using True nbm(2) paths kept by metis
    ultimately show ?thesis by (auto simp: files)
  next
    case False
    have "\<not> prefix (R @ [n, b, m]) (R @ q @ [ANCHOR_FILE]) \<or> file_at disk (R @ q @ [ANCHOR_FILE]) = None"
    proof (cases "length q = 3")
      case True
      with False show ?thesis by (auto simp: prefix_def length_Suc_conv numeral_3_eq_3)
    next
      case short: False
      have "\<not> (\<exists>x \<in> set (as_anchors s). an_anchorPath x = render (R @ q))"
      proof
        assume "\<exists>x \<in> set (as_anchors s). an_anchorPath x = render (R @ q)"
        then obtain x n' b' m' where "x \<in> set (as_anchors s)" "an_anchorPath x = render (R @ q)"
          "list_all clean_seg [n', b', m']" "an_anchorPath x = render (R @ [n', b', m'])"
          using assms(1) by (fastforce simp: anchors_sync_def anchor_placed_def)
        then have "q = [n', b', m']" using render_inject [of "R @ q" "R @ [n', b', m']"] R q(2) by simp
        with short show False by simp
      qed
      with old [OF q] show ?thesis by (metis not_None_eq)
    qed
    moreover have "an_anchorPath a \<noteq> render (R @ q)"
      using False nbm R q(2) render_inject [of "R @ [n, b, m]" "R @ q"] by simp
    ultimately show ?thesis using old [OF q] by (auto simp: files kept simp del: render_append)
  qed
  have dir: "\<exists>es. tree_at disk' R = Some (E_Dir es)"
    using assms(1) tree_rm_dir [of disk R _ "R @ [n, b, m]"] unfolding eqs(2) by (auto simp: anchors_sync_def)
  have "wf_tree disk'" using assms(1) unfolding eqs(2) by (simp add: anchors_sync_def tree_rm_wf)
  moreover have "distinct (map an_anchorPath (as_anchors s'))" "distinct (map an_anchorId (as_anchors s'))"
    using assms(1) by (auto simp: eqs drop_key_def anchors_sync_def distinct_map_filter)
  moreover have "as_loaded s'" "as_root s' = render R" using assms(1) by (simp_all add: eqs anchors_sync_def)
  moreover have "\<forall>x \<in> set (as_anchors s'). anchor_placed R x" using assms(1) kept by (auto simp: anchors_sync_def)
  ultimately show ?thesis using R new dir unfolding anchors_sync_def fst_conv snd_conv by blast
qed

text \<open>An operation that fails changes no metadata file.\<close>

lemma sync_mkdir:
  assumes "anchors_sync R (s, disk)" "mkdir_p P disk = Some disk1" "list_all clean_seg P"
  shows "anchors_sync R (s, disk1)"
  using assms mkdir_p_files [OF assms(2)] mkdir_p_wf [OF assms(2)] mkdir_p_dir [OF assms(2)]
  by (auto simp: anchors_sync_def)

lemma sync_create_failed:
  assumes "anchors_sync R (s, disk)" "plain_draft d" "anchor_create stamp uuid failure d (s, disk) = (Inl e, s', disk')"
  shows "anchors_sync R (s', disk')"
proof -
  have R: "R \<noteq> []" "list_all clean_seg R" "as_root s = render R" using assms(1) by (auto simp: anchors_sync_def)
  obtain m where "clean_seg m" "path_segs (anchor_path (as_root s) d) = R @ [ad_nodeId d, posix_basename (ad_repoPath d), m]"
    using anchor_path_plain [OF assms(2) R(1,2)] R(3) by auto
  with assms(2) R(2) have "list_all clean_seg (path_segs (anchor_path (as_root s) d))"
    using basename_canonical by (auto simp: plain_draft_def)
  moreover have "s' = s \<and> (disk' = disk \<or> mkdir_p (path_segs (anchor_path (as_root s) d)) disk = Some disk')"
    using assms(3)
    by (auto simp: anchor_create_def Let_def split: if_splits create_failure.splits option.splits entry.splits)
  ultimately show ?thesis using assms(1) sync_mkdir by blast
qed

text \<open>The store's life after it is loaded.\<close>

inductive anchor_step :: "anchor_store \<times> tree \<Rightarrow> anchor_store \<times> tree \<Rightarrow> bool" where
  step_create: "plain_draft d \<Longrightarrow> uuid \<notin> an_anchorId ` set (as_anchors (fst x)) \<Longrightarrow>
     anchor_create stamp uuid failure d x = (res, y) \<Longrightarrow> anchor_step x y"
| step_remove: "anchor_remove None anchorId x = (res, y) \<Longrightarrow> anchor_step x y"

lemma anchor_step_sync: "anchor_step x y \<Longrightarrow> anchors_sync R x \<Longrightarrow> anchors_sync R y"
proof (induction rule: anchor_step.induct)
  case (step_create d uuid x stamp failure res y)
  obtain s disk s' disk' where "x = (s, disk)" "y = (s', disk')" by (metis surj_pair)
  with step_create show ?case by (cases res) (auto intro: sync_create sync_create_failed)
next
  case (step_remove anchorId x res y)
  obtain s disk s' disk' where "x = (s, disk)" "y = (s', disk')" by (metis surj_pair)
  with step_remove show ?case by (auto intro: sync_remove)
qed

lemma anchor_steps_sync: "anchor_step\<^sup>*\<^sup>* x y \<Longrightarrow> anchors_sync R x \<Longrightarrow> anchors_sync R y"
  by (induction rule: rtranclp_induct) (auto intro: anchor_step_sync)

subsection \<open>Properties\<close>


definition plain_sample :: anchor_draft where
  "plain_sample =
     \<lparr>ad_kind = Worktree ''worktree/w'' None, ad_nodeId = ''n'', ad_name = ''w'', ad_repoPath = ''/r'', ad_remoteRoot = ''/wt/r/w''\<rparr>"

definition empty_root :: "anchor_store \<times> tree" where
  "empty_root = (\<lparr>as_root = ''/a'', as_anchors = [], as_loaded = True\<rparr>, [(''a'', E_Dir [])])"

lemma file_at_empty_root: "file_at [(''a'', E_Dir [])] q = None"
  by (cases q) (simp_all add: file_at_Cons)

lemma empty_root_sync: "anchors_sync [''a''] empty_root"
proof -
  have "wf_tree [(''a'', E_Dir [])]"
    by (subst wf_tree_Cons_iff) (simp add: wf_dir_def clean_seg_def)
  then show ?thesis by (simp add: anchors_sync_def empty_root_def clean_seg_def file_at_empty_root)
qed


text \<open>A worktree name with a slash puts its anchor deeper than the walk looks. The creation
  succeeds and the anchor is in the list, but the next process to load the root does not find
  it: the worktree's record is gone with the restart.\<close>

theorem slashed_name_lost_on_restart:
  assumes "anchors_sync R (s, disk)" "clean_seg (ad_nodeId d)" "canonical (ad_repoPath d)" "ad_repoPath d \<noteq> ''/''"
    and "ad_kind d \<noteq> Directory" "ad_name d = join_with ''/'' names" "list_all clean_seg names" "length names > 1"
    and "anchor_create stamp uuid failure d (s, disk) = (Inr a, s', disk')" "\<And>p. canonical p \<Longrightarrow> realpath p = p"
  shows "a \<in> set (as_anchors s') \<and> reload_set realpath (s', disk') = Some (set (as_anchors s)) \<and>
    an_anchorPath a \<notin> an_anchorPath ` set (as_anchors s)"
proof -
  have R: "R \<noteq> []" "list_all clean_seg R" "as_root s = render R" using assms(1) by (auto simp: anchors_sync_def)
  let ?b = "posix_basename (ad_repoPath d)"
  let ?t = "[ad_nodeId d, ?b] @ names"
  have clean: "clean_seg ?b" using assms(3,4) by (rule basename_canonical)
  have t: "list_all clean_seg ?t" using assms(2,7) clean by simp
  have names: "names \<noteq> []" "ad_name d \<noteq> []"
    using assms(6,7,8) by (cases names; cases "tl names"; auto simp: clean_seg_def)+
  have "anchor_path (as_root s) d = posix_normalize (render R @ CHR ''/'' # join_with ''/'' ?t)"
    using assms(2,5) clean names R(1) render_nonempty [OF R(1)] assms(6)
    by (cases names) (simp_all add: anchor_path_def posix_join_def R(3) clean_nonempty)
  also have "\<dots> = render (R @ ?t)" using R(1,2) t by (intro join_render_segs) simp_all
  finally have path: "anchor_path (as_root s) d = render (R @ ?t)" .
  have segs: "path_segs (anchor_path (as_root s) d) = R @ ?t"
    unfolding path using R t by (intro path_segs_render) simp_all
  have Rt: "R @ ?t \<noteq> []" "list_all clean_seg (R @ ?t)" using R(2) t by simp_all
  note files = create_files [OF assms(9) segs Rt path]
  have deep: "(R @ q @ [ANCHOR_FILE]) \<noteq> (R @ ?t) @ [ANCHOR_FILE]" if "length q \<le> SCAN_DEPTH" for q
    using that assms(8) by (auto simp: SCAN_DEPTH_def)
  have "anchors_sync R (s, disk')"
    using assms(1) files deep by (auto simp: anchors_sync_def)
  then have "reload_set realpath (s, disk') = Some (set (as_anchors s))" using reload_sync assms(10) by fastforce
  moreover have made: "s' = s\<lparr>as_anchors := as_anchors s @ [a]\<rparr>" "an_anchorPath a \<notin> an_anchorPath ` set (as_anchors s)"
    using create_ok [OF assms(9)] by (auto simp: anchor_of_def)
  moreover from made(1) have "reload_set realpath (s', disk') = reload_set realpath (s, disk')" by (simp add: reload_set_def)
  ultimately show ?thesis by simp
qed

definition slashed_sample :: anchor_draft where
  "slashed_sample = plain_sample\<lparr>ad_name := ''feature/x''\<rparr>"

theorem slashed_name_lost_on_restart_witness:
  "\<exists>a y. anchor_create ''t'' ''u'' No_Failure slashed_sample empty_root = (Inr a, y) \<and>
     a \<in> set (as_anchors (fst y)) \<and> reload_set (\<lambda>p. p) y = Some {}"
proof -
  have "is_ok (fst (anchor_create ''t'' ''u'' No_Failure slashed_sample empty_root))" by code_simp
  then obtain a s' disk' where run: "anchor_create ''t'' ''u'' No_Failure slashed_sample (fst empty_root, snd empty_root) = (Inr a, s', disk')"
    by (cases "anchor_create ''t'' ''u'' No_Failure slashed_sample empty_root"; cases "fst (anchor_create ''t'' ''u'' No_Failure slashed_sample empty_root)") auto
  have facts: "clean_seg (ad_nodeId slashed_sample)" "canonical (ad_repoPath slashed_sample)" "ad_repoPath slashed_sample \<noteq> ''/''"
    "ad_kind slashed_sample \<noteq> Directory" "ad_name slashed_sample = join_with ''/'' [''feature'', ''x'']"
    "list_all clean_seg [''feature'', ''x'']" "length [''feature'', ''x''] > 1"
    by code_simp+
  from slashed_name_lost_on_restart [OF _ facts run, of "[''a'']" "\<lambda>p. p"] empty_root_sync
  have "a \<in> set (as_anchors s')" "reload_set (\<lambda>p. p) (s', disk') = Some (set (as_anchors (fst empty_root)))" by auto
  then show ?thesis using run by (auto simp: empty_root_def)
qed

end
