(* ===== verification/Computations.thy ===== *)
theory Computations
  imports Prelude
begin

section \<open>Computations with a state and errors\<close>

text \<open>
  The handlers that thread a state through many fallible calls are computations: a function from
  the state to a value or an error, with the next state in either case, as an exception of
  JavaScript leaves what was changed before it. A property of every step a computation makes is a
  relation between the state before and after; the locale shows such a relation closed under the
  combinators, so that a lemma on an operation is a structural descent.
\<close>

type_synonym ('s, 'e, 'a) comp = "'s \<Rightarrow> ('e + 'a) \<times> 's"

definition wret :: "'a \<Rightarrow> ('s, 'e, 'a) comp" where
  "wret x = (\<lambda>s. (Inr x, s))"

definition wfail :: "'e \<Rightarrow> ('s, 'e, 'a) comp" where
  "wfail e = (\<lambda>s. (Inl e, s))"

definition wbind :: "('s, 'e, 'a) comp \<Rightarrow> ('a \<Rightarrow> ('s, 'e, 'b) comp) \<Rightarrow> ('s, 'e, 'b) comp" where
  "wbind m f = (\<lambda>s. case m s of (Inl e, s') \<Rightarrow> (Inl e, s') | (Inr x, s') \<Rightarrow> f x s')"

definition wcatch :: "('s, 'e, 'a) comp \<Rightarrow> ('e \<Rightarrow> ('s, 'f, 'a) comp) \<Rightarrow> ('s, 'f, 'a) comp" where
  "wcatch m h = (\<lambda>s. case m s of (Inl e, s') \<Rightarrow> h e s' | (Inr x, s') \<Rightarrow> (Inr x, s'))"

fun wmap :: "('a \<Rightarrow> ('s, 'e, 'b) comp) \<Rightarrow> 'a list \<Rightarrow> ('s, 'e, 'b list) comp" where
  "wmap f [] = wret []"
| "wmap f (x # xs) = wbind (f x) (\<lambda>y. wbind (wmap f xs) (\<lambda>ys. wret (y # ys)))"

lemma wbind_run: "m s = (Inr x, s') \<Longrightarrow> wbind m f s = f x s'"
  by (simp add: wbind_def)

lemma wbind_stop: "m s = (Inl e, s') \<Longrightarrow> wbind m f s = (Inl e, s')"
  by (simp add: wbind_def)

text \<open>A computation that looks at the state it starts in.\<close>

definition inspect :: "('s \<Rightarrow> ('s, 'e, 'a) comp) \<Rightarrow> ('s, 'e, 'a) comp" where
  "inspect f = (\<lambda>s. f s s)"

text \<open>A computation on a part of the state, its errors renamed.\<close>

definition zoom ::
  "('s \<Rightarrow> 't) \<Rightarrow> ('t \<Rightarrow> 's \<Rightarrow> 's) \<Rightarrow> ('e \<Rightarrow> 'f) \<Rightarrow> ('t, 'e, 'a) comp \<Rightarrow> ('s, 'f, 'a) comp" where
  "zoom part put raised m =
     (\<lambda>s. case m (part s) of
        (Inl e, t) \<Rightarrow> (Inl (raised e), put t s)
      | (Inr x, t) \<Rightarrow> (Inr x, put t s))"

definition preserves :: "('s \<Rightarrow> 's \<Rightarrow> bool) \<Rightarrow> ('s, 'e, 'a) comp \<Rightarrow> bool" where
  "preserves R m \<longleftrightarrow> (\<forall>s. R s (snd (m s)))"

lemma preservesD: "preserves R m \<Longrightarrow> m s = (r, s') \<Longrightarrow> R s s'"
  unfolding preserves_def by (metis snd_conv)

named_theorems comp_intros \<open>closure rules of the relations every step of a computation keeps\<close>

lemma preserves_if [comp_intros]:
  "(b \<Longrightarrow> preserves R m) \<Longrightarrow> (\<not> b \<Longrightarrow> preserves R m') \<Longrightarrow> preserves R (if b then m else m')"
  by simp

lemma preserves_option [comp_intros]:
  "preserves R m \<Longrightarrow> (\<And>x. preserves R (f x)) \<Longrightarrow> preserves R (case v of None \<Rightarrow> m | Some x \<Rightarrow> f x)"
  by (cases v) auto

lemma preserves_sum [comp_intros]:
  "(\<And>e. preserves R (g e)) \<Longrightarrow> (\<And>x. preserves R (f x)) \<Longrightarrow> preserves R (case v of Inl e \<Rightarrow> g e | Inr x \<Rightarrow> f x)"
  by (cases v) auto

lemma preserves_inspect [comp_intros]: "(\<And>s. preserves R (f s)) \<Longrightarrow> preserves R (inspect f)"
  by (simp add: preserves_def inspect_def)

lemma preserves_zoom [comp_intros]:
  "(\<And>s t. Q (part s) t \<Longrightarrow> R s (put t s)) \<Longrightarrow> preserves Q m \<Longrightarrow> preserves R (zoom part put raised m)"
  unfolding preserves_def zoom_def by (auto split: sum.splits prod.splits) (metis snd_conv)+

text \<open>What a relation of states promises to be carried through every computation.\<close>

locale step_relation =
  fixes R :: "'s \<Rightarrow> 's \<Rightarrow> bool"
  assumes R_refl: "R s s"
    and R_trans: "R s t \<Longrightarrow> R t u \<Longrightarrow> R s u"
begin

lemma keeps_wret: "preserves R (wret x)"
  by (simp add: preserves_def wret_def R_refl)

lemma keeps_wfail: "preserves R (wfail e)"
  by (simp add: preserves_def wfail_def R_refl)

lemma keeps_wbind:
  assumes "preserves R m" "\<And>x. preserves R (f x)"
  shows "preserves R (wbind m f)"
  unfolding preserves_def
proof
  fix s
  obtain r s1 where m: "m s = (r, s1)" by fastforce
  then have "R s s1" using preservesD [OF assms(1)] by blast
  then show "R s (snd (wbind m f s))"
    using m assms(2) R_trans by (cases r) (auto simp: wbind_def preserves_def)
qed

lemma keeps_wcatch:
  assumes "preserves R m" "\<And>e. preserves R (h e)"
  shows "preserves R (wcatch m h)"
  unfolding preserves_def
proof
  fix s
  obtain r s1 where m: "m s = (r, s1)" by fastforce
  then have "R s s1" using preservesD [OF assms(1)] by blast
  then show "R s (snd (wcatch m h s))"
    using m assms(2) R_trans by (cases r) (auto simp: wcatch_def preserves_def)
qed

lemma keeps_wmap: "(\<And>x. preserves R (f x)) \<Longrightarrow> preserves R (wmap f xs)"
  by (induction xs) (auto intro!: keeps_wbind keeps_wret)

lemmas keeps_intros = keeps_wret keeps_wfail keeps_wbind keeps_wcatch keeps_wmap

end

end
