(* ===== verification/Worktree_World.thy ===== *)
theory Worktree_World
  imports Computations Anchor_Store Repo_Store Base64
begin

section \<open>What the worktree lifecycle works on\<close>

text \<open>
  The lifecycle of worktrees changes two stores and talks to git (on a machine or on this host),
  to this host's file system and to the workspace registry. The stores are the models of
  \<open>storage/\<close>; everything else answers as an arbitrary function of the calls made before, which
  the environment gives. A computation passes the state on and ends in a value or an error, and
  every effect is a call in the trace, in order.
\<close>

subsection \<open>Calls, environment, state\<close>

record wire_worktree =
  ww_path :: string
  ww_branch :: "string option"
  ww_main :: bool

datatype call =
    Ask_Resolve string string
  | Ask_WorktreeAdd string string string string "string option"
  | Ask_WorktreeList string string
  | Ask_WorktreeRemove string string string bool
  | Ask_BranchDelete string string string bool
  | Run_Git string "string list"
  | Local_Realpath string
  | Local_Stat string
  | Do_Register anchor_record
  | Do_Unregister anchor_record
  | Is_Registered anchor_record
  | Anchor_Made anchor_record
  | Anchor_Dropped string
  | Repo_Stored repo_draft
  | Ask_Stat string string
  | Ask_ListDir string string
  | Ask_RepoState string string
  | Local_ListDir string
  | Do_Connect string
  | Do_Disconnect string
  | Node_Stored node_draft
  | Node_Dropped string
  | Repo_Dropped string
  | Repos_Of_Node_Dropped string
  | Shell_Ended string

text \<open>A failing git command gives what it wrote to standard error and the runtime's message.\<close>

record wt_env =
  we_isLocal :: "string \<Rightarrow> bool"
  we_connected :: "call list \<Rightarrow> string \<Rightarrow> bool"
  we_root :: "string \<Rightarrow> string + string"
  we_workspace :: bool
  we_cwd :: string
  we_path :: "call list \<Rightarrow> string + string"
  we_worktree :: "call list \<Rightarrow> string + wire_worktree"
  we_worktrees :: "call list \<Rightarrow> string + wire_worktree list"
  we_done :: "call list \<Rightarrow> string + unit"
  we_registered :: "call list \<Rightarrow> string + bool"
  we_git :: "call list \<Rightarrow> (string \<times> string) + string"
  we_type :: "call list \<Rightarrow> string option"
  we_stamp :: "call list \<Rightarrow> string"
  we_uuid :: "call list \<Rightarrow> string"
  we_create_failure :: "call list \<Rightarrow> create_failure"
  we_remove_failure :: "call list \<Rightarrow> (string \<times> tree) option"
  we_write_failure :: "call list \<Rightarrow> string option"

record wt_state =
  wt_anchors :: "anchor_store \<times> tree"
  wt_repos :: "repo_store \<times> file_state"
  wt_trace :: "call list"

datatype wt_error =
    Not_Connected string
  | Refused string
  | Git_Not_A_Repository string
  | Git_Command_Failed string
  | Not_A_Worktree string string
  | No_Anchor string
  | No_Worktree string
  | No_Local_Checkout string
  | No_Repo_Record string
  | Not_A_Repository string
  | Repository_Directory string
  | No_Workspace_Registry
  | Anchors_Failed anchor_error
  | Repos_Failed store_error

type_synonym 'a wt = "(wt_state, wt_error, 'a) comp"

text \<open>The message of an error, as far as the code shows one to a person.\<close>

definition error_text :: "wt_error \<Rightarrow> string" where
  "error_text e =
     (case e of Refused m \<Rightarrow> m | Git_Not_A_Repository m \<Rightarrow> m | Git_Command_Failed m \<Rightarrow> m | _ \<Rightarrow> [])"

definition ask :: "(call list \<Rightarrow> string + 'a) \<Rightarrow> call \<Rightarrow> 'a wt" where
  "ask answer c = (\<lambda>s.
     (case answer (wt_trace s @ [c]) of Inl m \<Rightarrow> Inl (Refused m) | Inr x \<Rightarrow> Inr x,
      s\<lparr>wt_trace := wt_trace s @ [c]\<rparr>))"

definition anchors_now :: "anchor_record list wt" where
  "anchors_now = (\<lambda>s. (case anchor_list (fst (wt_anchors s)) of Inl e \<Rightarrow> Inl (Anchors_Failed e) | Inr r \<Rightarrow> Inr r, s))"

definition repos_now :: "repo_record list wt" where
  "repos_now = (\<lambda>s. (case repo_list (fst (wt_repos s)) of Inl e \<Rightarrow> Inl (Repos_Failed e) | Inr r \<Rightarrow> Inr r, s))"

definition repo_named :: "string \<Rightarrow> string \<Rightarrow> repo_record option wt" where
  "repo_named nodeId repoPath = (\<lambda>s.
     (case repo_find nodeId repoPath (fst (wt_repos s)) of Inl e \<Rightarrow> Inl (Repos_Failed e) | Inr r \<Rightarrow> Inr r, s))"

definition make_anchor :: "wt_env \<Rightarrow> anchor_draft \<Rightarrow> anchor_record wt" where
  "make_anchor env d = (\<lambda>s.
     (case anchor_create (we_stamp env (wt_trace s)) (we_uuid env (wt_trace s)) (we_create_failure env (wt_trace s)) d (wt_anchors s) of
        (Inl e, sd) \<Rightarrow> (Inl (Anchors_Failed e), s\<lparr>wt_anchors := sd\<rparr>)
      | (Inr a, sd) \<Rightarrow> (Inr a, s\<lparr>wt_anchors := sd, wt_trace := wt_trace s @ [Anchor_Made a]\<rparr>)))"

definition drop_anchor :: "wt_env \<Rightarrow> string \<Rightarrow> anchor_record option wt" where
  "drop_anchor env anchorId = (\<lambda>s.
     (case anchor_remove (we_remove_failure env (wt_trace s)) anchorId (wt_anchors s) of
        (Inl e, sd) \<Rightarrow> (Inl (Anchors_Failed e), s\<lparr>wt_anchors := sd\<rparr>)
      | (Inr r, sd) \<Rightarrow> (Inr r, s\<lparr>wt_anchors := sd, wt_trace := wt_trace s @ [Anchor_Dropped anchorId]\<rparr>)))"

definition store_repo :: "wt_env \<Rightarrow> repo_draft \<Rightarrow> repo_record wt" where
  "store_repo env d = (\<lambda>s.
     (case repo_upsert (we_stamp env (wt_trace s)) (we_uuid env (wt_trace s)) (we_write_failure env (wt_trace s)) d (wt_repos s) of
        (Inl e, sd) \<Rightarrow> (Inl (Repos_Failed e), s\<lparr>wt_repos := sd\<rparr>)
      | (Inr r, sd) \<Rightarrow> (Inr r, s\<lparr>wt_repos := sd, wt_trace := wt_trace s @ [Repo_Stored d]\<rparr>)))"

subsection \<open>This host: local/fs.ts and local/git.ts\<close>

text \<open>\<open>path.resolve\<close> against the working directory.\<close>

definition posix_resolve :: "string \<Rightarrow> string \<Rightarrow> string" where
  "posix_resolve cwd p =
     (let q = if is_absolute p then p else cwd @ ''/'' @ p in
      if path_segs q = [] then ''/'' else render (path_segs q))"

definition resolveLocalPath :: "wt_env \<Rightarrow> string \<Rightarrow> string wt" where
  "resolveLocalPath env p = wcatch (ask (we_path env) (Local_Realpath p)) (\<lambda>e. wret (posix_resolve (we_cwd env) p))"

definition localPathType :: "wt_env \<Rightarrow> string \<Rightarrow> string option wt" where
  "localPathType env p = ask (\<lambda>tr. Inr (we_type env tr)) (Local_Stat p)"

definition lower :: "char \<Rightarrow> char" where
  "lower c = (let n = of_char c :: nat in if 65 \<le> n \<and> n \<le> 90 then char_of (n + 32) else c)"

definition not_a_repository :: "string \<Rightarrow> bool" where
  "not_a_repository m = sublist ''not a git repository'' (map lower m)"

definition git :: "wt_env \<Rightarrow> string \<Rightarrow> string list \<Rightarrow> string wt" where
  "git env repoPath args = (\<lambda>s.
     (let c = Run_Git repoPath args; s' = s\<lparr>wt_trace := wt_trace s @ [c]\<rparr> in
      case we_git env (wt_trace s') of
        Inr out \<Rightarrow> (Inr out, s')
      | Inl (stderr, msg) \<Rightarrow>
          (let m = if trim stderr = [] then msg else trim stderr in
           (Inl (if not_a_repository m then Git_Not_A_Repository m else Git_Command_Failed m), s'))))"

definition isRepository :: "wt_env \<Rightarrow> string \<Rightarrow> bool wt" where
  "isRepository env repoPath =
     wcatch (wbind (git env repoPath [''rev-parse'', ''--is-inside-work-tree'']) (\<lambda>out. wret (trim out = ''true'')))
       (\<lambda>e. case e of Git_Not_A_Repository _ \<Rightarrow> wret False | _ \<Rightarrow> wfail e)"

fun split_blocks :: "string \<Rightarrow> string list" where
  "split_blocks [] = [[]]"
| "split_blocks (c # s) =
     (if c = CHR 0x0A \<and> s \<noteq> [] \<and> hd s = CHR 0x0A then [] # split_blocks (tl s)
      else (case split_blocks s of [] \<Rightarrow> [[c]] | b # bs \<Rightarrow> (c # b) # bs))"

definition line_value :: "string \<Rightarrow> string list \<Rightarrow> string option" where
  "line_value label ls = map_option (drop (length label)) (List.find (\<lambda>l. startsWith l label) ls)"

definition short_branch :: "string \<Rightarrow> string" where
  "short_branch ref = (if startsWith ref ''refs/heads/'' then drop 11 ref else ref)"

fun parse_blocks :: "string list \<Rightarrow> wire_worktree list \<Rightarrow> wire_worktree list" where
  "parse_blocks [] acc = acc"
| "parse_blocks (b # bs) acc =
     (let ls = filter (\<lambda>l. l \<noteq> []) (split_on (CHR 0x0A) b) in
      case line_value ''worktree '' ls of
        None \<Rightarrow> parse_blocks bs acc
      | Some p \<Rightarrow>
          parse_blocks bs
            (acc @ [\<lparr>ww_path = p, ww_branch = map_option short_branch (line_value ''branch '' ls), ww_main = (acc = [])\<rparr>]))"

definition listWorktrees :: "wt_env \<Rightarrow> string \<Rightarrow> wire_worktree list wt" where
  "listWorktrees env repoPath =
     wbind (git env repoPath [''worktree'', ''list'', ''--porcelain''])
       (\<lambda>porcelain. wret (parse_blocks (split_blocks porcelain) []))"

definition addWorktree :: "wt_env \<Rightarrow> string \<Rightarrow> string \<Rightarrow> string \<Rightarrow> string option \<Rightarrow> unit wt" where
  "addWorktree env repoPath worktreePath branch baseRef =
     wbind (git env repoPath ([''worktree'', ''add'', ''-b'', branch, worktreePath] @
              (case baseRef of None \<Rightarrow> [] | Some r \<Rightarrow> [r]))) (\<lambda>_. wret ())"

definition removeWorktree :: "wt_env \<Rightarrow> string \<Rightarrow> string \<Rightarrow> bool \<Rightarrow> unit wt" where
  "removeWorktree env repoPath worktreePath force =
     wbind (git env repoPath ([''worktree'', ''remove''] @ (if force then [''--force''] else []) @ [worktreePath]))
       (\<lambda>_. wret ())"

definition deleteBranch :: "wt_env \<Rightarrow> string \<Rightarrow> string \<Rightarrow> bool \<Rightarrow> unit wt" where
  "deleteBranch env repoPath branch force =
     wbind (git env repoPath [''branch'', if force then ''-D'' else ''-d'', branch]) (\<lambda>_. wret ())"

end
