(* ===== verification/Worktrees.thy ===== *)
theory Worktrees
  imports Worktree_World Utf8
begin

section \<open>The worktree lifecycle: models/worktrees.ts\<close>

text \<open>
  Create, list, open, adopt, close, release and remove, for a machine and for this host, and the
  repository directory opened as a workspace. Each is a computation over the state of
  \<open>Worktree_World\<close>; the order of the calls in the trace is the order of the source's awaits.
\<close>

subsection \<open>Records\<close>

record worktree_draft =
  wd_nodeId :: string
  wd_repoPath :: string
  wd_name :: string
  wd_path :: "string option"
  wd_baseRef :: "string option"

record worktree_removal =
  wr_anchor :: anchor_record
  wr_branchDeleted :: bool
  wr_branchError :: "string option"

record worktree_status =
  ws_anchor :: anchor_record
  ws_open :: bool
  ws_managed :: bool
  ws_held :: bool
  ws_error :: "string option"

record existing_worktree =
  ew_path :: string
  ew_name :: string
  ew_branch :: string
  ew_registered :: bool

record removal_options =
  ro_force :: bool
  ro_deleteBranch :: bool

definition BRANCH_PREFIX :: string where "BRANCH_PREFIX = ''worktree/''"

definition managedWorktreePath :: "string \<Rightarrow> string \<Rightarrow> string \<Rightarrow> string" where
  "managedWorktreePath root repoPath name = posix_join [root, posix_basename repoPath, name]"

definition branchFor :: "string \<Rightarrow> string" where
  "branchFor name = BRANCH_PREFIX @ name"

text \<open>\<open>posix.basename(path) || path\<close>.\<close>

definition shown_name :: "string \<Rightarrow> string" where
  "shown_name p = (if posix_basename p = [] then p else posix_basename p)"

definition anchor_branch :: "anchor_record \<Rightarrow> string" where
  "anchor_branch a = (case an_kind a of Worktree b _ \<Rightarrow> b | Directory \<Rightarrow> [])"

definition is_worktree :: "anchor_record \<Rightarrow> bool" where
  "is_worktree a = (an_kind a \<noteq> Directory)"

subsection \<open>Ids\<close>

definition LOCAL_ID_PREFIX :: string where "LOCAL_ID_PREFIX = ''local:''"
definition REMOTE_ID_PREFIX :: string where "REMOTE_ID_PREFIX = ''remote:''"

definition encodePart :: "string \<Rightarrow> string" where
  "encodePart value = base64url_encode value"

definition decodePart :: "string \<Rightarrow> string" where
  "decodePart value = utf8_text (base64_decode value)"

definition localAnchorId :: "bool \<Rightarrow> string \<Rightarrow> string \<Rightarrow> string" where
  "localAnchorId directory p repoPath =
     (if directory then LOCAL_ID_PREFIX @ ''directory:'' @ encodePart p
      else LOCAL_ID_PREFIX @ ''worktree:'' @ encodePart p @ '':'' @ encodePart repoPath)"

definition remoteAnchorId :: "string \<Rightarrow> string \<Rightarrow> string \<Rightarrow> string" where
  "remoteAnchorId nodeId repoPath p =
     REMOTE_ID_PREFIX @ encodePart nodeId @ '':'' @ encodePart repoPath @ '':'' @ encodePart p"

text \<open>The coordinates: machine, repository, checkout.\<close>

definition parseRemoteAnchorId :: "string \<Rightarrow> (string \<times> string \<times> string) option" where
  "parseRemoteAnchorId value =
     (if \<not> startsWith value REMOTE_ID_PREFIX then None
      else (case split_on (CHR '':'') (drop (length REMOTE_ID_PREFIX) value) of
              node # repo # p # _ \<Rightarrow> Some (decodePart node, decodePart repo, decodePart p)
            | _ \<Rightarrow> None))"

definition remotePlaceholder :: "string \<Rightarrow> string \<Rightarrow> string \<Rightarrow> string \<Rightarrow> string \<Rightarrow> anchor_record" where
  "remotePlaceholder nodeId repoPath p branch created =
     \<lparr>an_anchorId = remoteAnchorId nodeId repoPath p, an_nodeId = nodeId, an_name = shown_name p, an_anchorPath = p,
      an_remoteRoot = p, an_repoPath = repoPath, an_createdAt = created, an_kind = Worktree branch (Some Adopted)\<rparr>"

definition localDirectoryAnchor :: "repo_record \<Rightarrow> anchor_record" where
  "localDirectoryAnchor r =
     \<lparr>an_anchorId = localAnchorId True (rr_repoPath r) (rr_repoPath r), an_nodeId = rr_nodeId r,
      an_name = shown_name (rr_repoPath r), an_anchorPath = rr_repoPath r, an_remoteRoot = rr_repoPath r,
      an_repoPath = rr_repoPath r, an_createdAt = rr_createdAt r, an_kind = Directory\<rparr>"

subsection \<open>Workspace registration and rows\<close>

definition strip_slashes :: "string \<Rightarrow> string" where
  "strip_slashes p = rev (dropWhile (\<lambda>c. c = CHR ''/'') (rev p))"

definition isManaged :: "wt_env \<Rightarrow> anchor_record \<Rightarrow> bool wt" where
  "isManaged env a =
     (case an_kind a of
        Directory \<Rightarrow> wret False
      | Worktree _ (Some orig) \<Rightarrow> wret (orig = Created)
      | Worktree _ None \<Rightarrow>
          (case we_root env (an_nodeId a) of
             Inl m \<Rightarrow> wfail (Refused m)
           | Inr root \<Rightarrow>
               wbind (if we_isLocal env (an_nodeId a) then resolveLocalPath env (strip_slashes root)
                      else wret (strip_slashes root))
                 (\<lambda>pre. wret (startsWith (an_remoteRoot a) (pre @ ''/'')))))"

definition hook :: "wt_env \<Rightarrow> (call list \<Rightarrow> string + 'a) \<Rightarrow> call \<Rightarrow> 'a \<Rightarrow> 'a wt" where
  "hook env answer c absent = (if we_workspace env then ask answer c else wret absent)"

definition registerWorkspace :: "wt_env \<Rightarrow> anchor_record \<Rightarrow> unit wt" where
  "registerWorkspace env a = wcatch (hook env (we_done env) (Do_Register a) ()) (\<lambda>e. wret ())"

definition unregisterWorkspace :: "wt_env \<Rightarrow> anchor_record \<Rightarrow> unit wt" where
  "unregisterWorkspace env a = wcatch (hook env (we_done env) (Do_Unregister a) ()) (\<lambda>e. wret ())"

definition rowStatus :: "wt_env \<Rightarrow> anchor_record \<Rightarrow> string option \<Rightarrow> worktree_status wt" where
  "rowStatus env a offline =
     wcatch
       (wbind (hook env (we_registered env) (Is_Registered a) False) (\<lambda>opening.
        wbind (isManaged env a) (\<lambda>managed.
        wret \<lparr>ws_anchor = a, ws_open = opening, ws_managed = managed, ws_held = True, ws_error = offline\<rparr>)))
       (\<lambda>e. wret \<lparr>ws_anchor = a, ws_open = False, ws_managed = False, ws_held = True, ws_error = Some (error_text e)\<rparr>)"

definition localWorktreeAnchor :: "repo_record \<Rightarrow> wire_worktree \<Rightarrow> anchor_record" where
  "localWorktreeAnchor r c =
     \<lparr>an_anchorId = localAnchorId False (ww_path c) (rr_repoPath r), an_nodeId = rr_nodeId r, an_name = shown_name (ww_path c),
      an_anchorPath = ww_path c, an_remoteRoot = ww_path c, an_repoPath = rr_repoPath r, an_createdAt = rr_createdAt r,
      an_kind = Worktree (case ww_branch c of None \<Rightarrow> [] | Some b \<Rightarrow> b) None\<rparr>"

definition localCheckout :: "wt_env \<Rightarrow> repo_record \<Rightarrow> wire_worktree \<Rightarrow> worktree_status list wt" where
  "localCheckout env r c =
     wbind (localPathType env (ww_path c)) (\<lambda>t.
       if t \<noteq> Some ''directory'' then wret []
       else wbind (rowStatus env (localWorktreeAnchor r c) None) (\<lambda>row. wret [row]))"

definition localRepoRows :: "wt_env \<Rightarrow> repo_record \<Rightarrow> worktree_status list wt" where
  "localRepoRows env r =
     (if \<not> we_isLocal env (rr_nodeId r) then wret []
      else wbind (rowStatus env (localDirectoryAnchor r) None) (\<lambda>row.
        wbind (wcatch (isRepository env (rr_repoPath r)) (\<lambda>e. wret False)) (\<lambda>isrepo.
          if \<not> isrepo then wret [row]
          else wbind (wcatch (listWorktrees env (rr_repoPath r)) (\<lambda>e. wret [])) (\<lambda>checkouts.
            wbind (wmap (localCheckout env r) (drop 1 checkouts)) (\<lambda>rows. wret (row # concat rows))))))"

definition localStatuses :: "wt_env \<Rightarrow> worktree_status list wt" where
  "localStatuses env = wbind repos_now (\<lambda>repos. wbind (wmap (localRepoRows env) repos) (\<lambda>rows. wret (concat rows)))"

definition registerRepoIfUnknown :: "wt_env \<Rightarrow> string \<Rightarrow> string \<Rightarrow> unit wt" where
  "registerRepoIfUnknown env nodeId repoPath =
     wbind (repo_named nodeId repoPath) (\<lambda>known.
       case known of
         Some _ \<Rightarrow> wret ()
       | None \<Rightarrow> wbind (store_repo env \<lparr>rd_repoId = None, rd_nodeId = nodeId, rd_repoPath = repoPath, rd_name = None\<rparr>) (\<lambda>_. wret ()))"

definition requireWorktree :: "anchor_record \<Rightarrow> anchor_record wt" where
  "requireWorktree a = (if is_worktree a then wret a else wfail (Repository_Directory (an_name a)))"

definition directoryAnchorOf :: "string \<Rightarrow> string \<Rightarrow> anchor_record option wt" where
  "directoryAnchorOf nodeId repoPath =
     wbind anchors_now (\<lambda>anchors.
       wret (List.find (\<lambda>a. an_kind a = Directory \<and> an_nodeId a = nodeId \<and> an_repoPath a = repoPath) anchors))"

definition localEntry :: "wt_env \<Rightarrow> string \<Rightarrow> anchor_record option wt" where
  "localEntry env anchorId =
     wbind (localStatuses env) (\<lambda>rows.
       wret (map_option ws_anchor (List.find (\<lambda>row. an_anchorId (ws_anchor row) = anchorId) rows)))"

subsection \<open>This host's checkouts\<close>

definition dropBranchOrReport :: "anchor_record \<Rightarrow> removal_options \<Rightarrow> unit wt \<Rightarrow> worktree_removal wt" where
  "dropBranchOrReport a opts remove =
     (if \<not> ro_deleteBranch opts then wret \<lparr>wr_anchor = a, wr_branchDeleted = False, wr_branchError = None\<rparr>
      else wcatch (wbind remove (\<lambda>_. wret \<lparr>wr_anchor = a, wr_branchDeleted = True, wr_branchError = None\<rparr>))
             (\<lambda>e. wret \<lparr>wr_anchor = a, wr_branchDeleted = False, wr_branchError = Some (error_text e)\<rparr>))"

definition openAsWorkspace :: "wt_env \<Rightarrow> anchor_record \<Rightarrow> anchor_record wt" where
  "openAsWorkspace env a =
     (if we_workspace env then wbind (ask (we_done env) (Do_Register a)) (\<lambda>_. wret a) else wfail No_Workspace_Registry)"

definition openOrDrop :: "wt_env \<Rightarrow> anchor_record \<Rightarrow> unit wt \<Rightarrow> unit wt" where
  "openOrDrop env a opening = wcatch opening (\<lambda>e. wbind (drop_anchor env (an_anchorId a)) (\<lambda>_. wfail e))"

definition planned_path :: "wt_env \<Rightarrow> worktree_draft \<Rightarrow> string \<Rightarrow> string wt" where
  "planned_path env d repoPath =
     (case wd_path d of
        Some p \<Rightarrow> wret p
      | None \<Rightarrow>
          (case we_root env (wd_nodeId d) of
             Inl m \<Rightarrow> wfail (Refused m)
           | Inr root \<Rightarrow> wret (managedWorktreePath root repoPath (wd_name d))))"

definition createLocalWorktree :: "wt_env \<Rightarrow> worktree_draft \<Rightarrow> anchor_record wt" where
  "createLocalWorktree env d =
     wbind (resolveLocalPath env (wd_repoPath d)) (\<lambda>repoPath.
     wbind (isRepository env repoPath) (\<lambda>isrepo.
     if \<not> isrepo then wfail (Not_A_Repository repoPath)
     else wbind (planned_path env d repoPath) (\<lambda>planned.
     wbind (addWorktree env repoPath planned (branchFor (wd_name d)) (wd_baseRef d)) (\<lambda>_.
     wbind (resolveLocalPath env planned) (\<lambda>worktreePath s.
       (let a = \<lparr>an_anchorId = localAnchorId False worktreePath repoPath, an_nodeId = wd_nodeId d, an_name = wd_name d,
                 an_anchorPath = worktreePath, an_remoteRoot = worktreePath, an_repoPath = repoPath,
                 an_createdAt = we_stamp env (wt_trace s), an_kind = Worktree (branchFor (wd_name d)) None\<rparr> in
        wbind (registerRepoIfUnknown env (wd_nodeId d) repoPath) (\<lambda>_.
        wbind (registerWorkspace env a) (\<lambda>_. wret a)) s))))))"

definition removeLocalWorktree :: "wt_env \<Rightarrow> anchor_record \<Rightarrow> removal_options \<Rightarrow> worktree_removal wt" where
  "removeLocalWorktree env a opts =
     wbind (removeWorktree env (an_repoPath a) (an_anchorPath a) (ro_force opts)) (\<lambda>_.
     wbind (unregisterWorkspace env a) (\<lambda>_.
     dropBranchOrReport a opts (deleteBranch env (an_repoPath a) (anchor_branch a) (ro_force opts))))"

subsection \<open>A machine's checkouts\<close>

definition channelFor :: "wt_env \<Rightarrow> string \<Rightarrow> unit wt" where
  "channelFor env nodeId = (\<lambda>s. if we_connected env (wt_trace s) nodeId then (Inr (), s) else (Inl (Not_Connected nodeId), s))"

definition listExisting :: "wt_env \<Rightarrow> string \<Rightarrow> string \<Rightarrow> existing_worktree list wt" where
  "listExisting env nodeId repoPath =
     (if we_isLocal env nodeId then
        wbind (wcatch (listWorktrees env repoPath) (\<lambda>e. wret [])) (\<lambda>checkouts.
          wret (map (\<lambda>c. \<lparr>ew_path = ww_path c, ew_name = shown_name (ww_path c),
                          ew_branch = (case ww_branch c of None \<Rightarrow> [] | Some b \<Rightarrow> b), ew_registered = True\<rparr>)
                  (drop 1 checkouts)))
      else
        wbind (channelFor env nodeId) (\<lambda>_.
        wbind (ask (we_path env) (Ask_Resolve nodeId repoPath)) (\<lambda>canonicalPath.
        wbind (ask (we_worktrees env) (Ask_WorktreeList nodeId canonicalPath)) (\<lambda>listed.
        wbind anchors_now (\<lambda>held.
          wret (map (\<lambda>c. \<lparr>ew_path = ww_path c, ew_name = shown_name (ww_path c),
                          ew_branch = (case ww_branch c of None \<Rightarrow> [] | Some b \<Rightarrow> b),
                          ew_registered = (\<exists>a \<in> set held. an_nodeId a = nodeId \<and> an_remoteRoot a = ww_path c)\<rparr>)
                  (filter (\<lambda>c. \<not> ww_main c) listed)))))))"

definition heldRemote :: "string \<times> string \<times> string \<Rightarrow> anchor_record option wt" where
  "heldRemote co = (case co of (nodeId, repoPath, p) \<Rightarrow>
     wbind anchors_now (\<lambda>anchors.
       wret (List.find (\<lambda>a. is_worktree a \<and> an_nodeId a = nodeId \<and> an_repoPath a = repoPath \<and> an_remoteRoot a = p) anchors)))"

definition find_existing :: "string \<Rightarrow> existing_worktree list \<Rightarrow> existing_worktree option" where
  "find_existing p listed = List.find (\<lambda>c. ew_path c = p) listed"

definition adoptRemote :: "wt_env \<Rightarrow> string \<Rightarrow> string \<Rightarrow> string \<Rightarrow> anchor_record wt" where
  "adoptRemote env nodeId repoPath p =
     wbind (listExisting env nodeId repoPath) (\<lambda>listed.
       case find_existing p listed of
         None \<Rightarrow> wfail (Not_A_Worktree p repoPath)
       | Some e \<Rightarrow>
           wbind (heldRemote (nodeId, repoPath, p)) (\<lambda>held.
             case held of
               Some a \<Rightarrow> openAsWorkspace env a
             | None \<Rightarrow>
                 wbind (make_anchor env \<lparr>ad_kind = Worktree (ew_branch e) (Some Adopted), ad_nodeId = nodeId,
                          ad_name = shown_name p, ad_repoPath = repoPath, ad_remoteRoot = p\<rparr>) (\<lambda>a.
                 wbind (openOrDrop env a (wbind (openAsWorkspace env a) (\<lambda>_. wret ()))) (\<lambda>_. wret a))))"

definition removeRemote :: "wt_env \<Rightarrow> anchor_record \<Rightarrow> removal_options \<Rightarrow> worktree_removal wt" where
  "removeRemote env a opts =
     wbind (channelFor env (an_nodeId a)) (\<lambda>_.
     wbind (ask (we_done env) (Ask_WorktreeRemove (an_nodeId a) (an_repoPath a) (an_remoteRoot a) (ro_force opts))) (\<lambda>_.
     wbind (unregisterWorkspace env a) (\<lambda>_.
     wbind (drop_anchor env (an_anchorId a)) (\<lambda>_.
     dropBranchOrReport a opts
       (ask (we_done env) (Ask_BranchDelete (an_nodeId a) (an_repoPath a) (anchor_branch a) (ro_force opts)))))))"

definition removeDiscovered :: "wt_env \<Rightarrow> string \<times> string \<times> string \<Rightarrow> removal_options \<Rightarrow> worktree_removal wt" where
  "removeDiscovered env co opts = (case co of (nodeId, repoPath, p) \<Rightarrow>
     wbind (listExisting env nodeId repoPath) (\<lambda>listed.
       case find_existing p listed of
         None \<Rightarrow> wfail (Not_A_Worktree p repoPath)
       | Some e \<Rightarrow>
           wbind (channelFor env nodeId) (\<lambda>_.
           wbind (ask (we_done env) (Ask_WorktreeRemove nodeId repoPath p (ro_force opts))) (\<lambda>_ s.
             (let a = remotePlaceholder nodeId repoPath p (ew_branch e) (we_stamp env (wt_trace s)) in
              if \<not> ro_deleteBranch opts \<or> ew_branch e = []
              then wret \<lparr>wr_anchor = a, wr_branchDeleted = False, wr_branchError = None\<rparr>
              else dropBranchOrReport a opts
                     (ask (we_done env) (Ask_BranchDelete nodeId repoPath (ew_branch e) (ro_force opts)))) s))))"

definition held_key :: "string \<Rightarrow> string \<Rightarrow> string" where
  "held_key nodeId p = nodeId @ [CHR 0x00] @ p"

definition discoveredRows :: "wt_env \<Rightarrow> string list \<Rightarrow> repo_record \<Rightarrow> worktree_status list wt" where
  "discoveredRows env held r = (\<lambda>s.
     (if we_isLocal env (rr_nodeId r) \<or> \<not> we_connected env (wt_trace s) (rr_nodeId r) then wret []
      else wcatch
        (wbind (listExisting env (rr_nodeId r) (rr_repoPath r)) (\<lambda>listed.
           wret (map (\<lambda>c. \<lparr>ws_anchor = remotePlaceholder (rr_nodeId r) (rr_repoPath r) (ew_path c) (ew_branch c) (rr_createdAt r),
                           ws_open = False, ws_managed = False, ws_held = False, ws_error = None\<rparr>)
                   (filter (\<lambda>c. held_key (rr_nodeId r) (ew_path c) \<notin> set held) listed))))
        (\<lambda>e. wret [])) s)"

definition discoveredRemote :: "wt_env \<Rightarrow> string list \<Rightarrow> worktree_status list wt" where
  "discoveredRemote env held =
     wbind repos_now (\<lambda>repos. wbind (wmap (discoveredRows env held) repos) (\<lambda>rows. wret (concat rows)))"

definition entryById :: "wt_env \<Rightarrow> string \<Rightarrow> anchor_record option wt" where
  "entryById env anchorId =
     (if startsWith anchorId LOCAL_ID_PREFIX then localEntry env anchorId
      else wbind anchors_now (\<lambda>anchors. wret (find_key an_anchorId anchorId anchors)))"

subsection \<open>The manager's operations\<close>

definition wt_create :: "wt_env \<Rightarrow> worktree_draft \<Rightarrow> anchor_record wt" where
  "wt_create env d =
     (if we_isLocal env (wd_nodeId d) then createLocalWorktree env d
      else
        wbind (channelFor env (wd_nodeId d)) (\<lambda>_.
        wbind (ask (we_path env) (Ask_Resolve (wd_nodeId d) (wd_repoPath d))) (\<lambda>repoPath.
        wbind (planned_path env d repoPath) (\<lambda>worktreePath.
        wbind (ask (we_worktree env) (Ask_WorktreeAdd (wd_nodeId d) repoPath worktreePath (branchFor (wd_name d)) (wd_baseRef d))) (\<lambda>w.
        wbind (make_anchor env
                 \<lparr>ad_kind = Worktree (case ww_branch w of None \<Rightarrow> branchFor (wd_name d) | Some b \<Rightarrow> b) (Some Created),
                  ad_nodeId = wd_nodeId d, ad_name = wd_name d, ad_repoPath = repoPath, ad_remoteRoot = ww_path w\<rparr>) (\<lambda>a.
        wbind (registerRepoIfUnknown env (wd_nodeId d) repoPath) (\<lambda>_.
        wbind (registerWorkspace env a) (\<lambda>_. wret a))))))))"

definition offline_note :: "string \<Rightarrow> string" where
  "offline_note nodeId = ''node '' @ [CHR 0x22] @ nodeId @ [CHR 0x22] @ '' is not connected''"

definition anchorRow :: "wt_env \<Rightarrow> anchor_record \<Rightarrow> worktree_status wt" where
  "anchorRow env a = (\<lambda>s.
     rowStatus env a (if we_connected env (wt_trace s) (an_nodeId a) then None else Some (offline_note (an_nodeId a))) s)"

definition wt_list :: "wt_env \<Rightarrow> worktree_status list wt" where
  "wt_list env =
     wbind (localStatuses env) (\<lambda>local.
     wbind anchors_now (\<lambda>anchors.
     wbind (wmap (anchorRow env) anchors) (\<lambda>rows.
     wbind (discoveredRemote env (map (\<lambda>a. held_key (an_nodeId a) (an_remoteRoot a)) (filter is_worktree anchors))) (\<lambda>found.
     wret (local @ rows @ found)))))"

definition wt_adopt :: "wt_env \<Rightarrow> string \<Rightarrow> string \<Rightarrow> string \<Rightarrow> anchor_record wt" where
  "wt_adopt env nodeId repoPath p =
     (if we_isLocal env nodeId then
        wbind (listExisting env nodeId repoPath) (\<lambda>listed.
          if find_existing p listed = None then wfail (Not_A_Worktree p repoPath)
          else wbind (localStatuses env) (\<lambda>rows.
            case map_option ws_anchor
                   (List.find (\<lambda>row. an_nodeId (ws_anchor row) = nodeId \<and> an_anchorPath (ws_anchor row) = p) rows) of
              Some a \<Rightarrow> if is_worktree a then openAsWorkspace env a else wfail (No_Local_Checkout p)
            | None \<Rightarrow> wfail (No_Local_Checkout p)))
      else adoptRemote env nodeId repoPath p)"

definition wt_anchorsIn :: "wt_env \<Rightarrow> string \<Rightarrow> string \<Rightarrow> anchor_record list wt" where
  "wt_anchorsIn env nodeId repoPath =
     (if we_isLocal env nodeId then
        wbind (localStatuses env) (\<lambda>rows.
          wret (map ws_anchor (filter (\<lambda>row. an_repoPath (ws_anchor row) = repoPath) rows)))
      else
        wbind anchors_now (\<lambda>anchors.
          wret (filter (\<lambda>a. an_nodeId a = nodeId \<and> an_repoPath a = repoPath) anchors)))"

definition wt_remove :: "wt_env \<Rightarrow> string \<Rightarrow> removal_options \<Rightarrow> worktree_removal wt" where
  "wt_remove env anchorId opts =
     (if startsWith anchorId LOCAL_ID_PREFIX then
        wbind (localEntry env anchorId) (\<lambda>entry.
          case entry of
            None \<Rightarrow> wfail (No_Worktree anchorId)
          | Some a \<Rightarrow> wbind (requireWorktree a) (\<lambda>a. removeLocalWorktree env a opts))
      else (case parseRemoteAnchorId anchorId of
              Some co \<Rightarrow>
                wbind (heldRemote co) (\<lambda>held.
                  case held of None \<Rightarrow> removeDiscovered env co opts | Some a \<Rightarrow> removeRemote env a opts)
            | None \<Rightarrow>
                wbind anchors_now (\<lambda>anchors.
                  case find_key an_anchorId anchorId anchors of
                    None \<Rightarrow> wfail (No_Anchor anchorId)
                  | Some a \<Rightarrow> wbind (requireWorktree a) (\<lambda>a. removeRemote env a opts))))"

definition wt_open :: "wt_env \<Rightarrow> string \<Rightarrow> anchor_record wt" where
  "wt_open env anchorId =
     (case parseRemoteAnchorId anchorId of
        Some (nodeId, repoPath, p) \<Rightarrow> adoptRemote env nodeId repoPath p
      | None \<Rightarrow>
          wbind (entryById env anchorId) (\<lambda>entry.
            case entry of None \<Rightarrow> wfail (No_Worktree anchorId) | Some a \<Rightarrow> openAsWorkspace env a))"

text \<open>The entry an id names for \<open>close\<close> and \<open>release\<close>.\<close>

definition entry_or_fail :: "wt_env \<Rightarrow> string \<Rightarrow> anchor_record wt" where
  "entry_or_fail env anchorId =
     wbind (case parseRemoteAnchorId anchorId of Some co \<Rightarrow> heldRemote co | None \<Rightarrow> entryById env anchorId)
       (\<lambda>entry. case entry of None \<Rightarrow> wfail (No_Worktree anchorId) | Some a \<Rightarrow> wret a)"

definition wt_close :: "wt_env \<Rightarrow> string \<Rightarrow> anchor_record wt" where
  "wt_close env anchorId =
     wbind (entry_or_fail env anchorId) (\<lambda>a.
     wbind (hook env (we_done env) (Do_Unregister a) ()) (\<lambda>_. wret a))"

definition wt_release :: "wt_env \<Rightarrow> string \<Rightarrow> anchor_record wt" where
  "wt_release env anchorId =
     wbind (entry_or_fail env anchorId) (\<lambda>a.
     wbind (hook env (we_done env) (Do_Unregister a) ()) (\<lambda>_.
     if parseRemoteAnchorId anchorId \<noteq> None then wbind (drop_anchor env (an_anchorId a)) (\<lambda>_. wret a)
     else if startsWith anchorId LOCAL_ID_PREFIX then wret a
     else wbind (drop_anchor env anchorId) (\<lambda>_. wret a)))"

definition wt_openDirectory :: "wt_env \<Rightarrow> string \<Rightarrow> string \<Rightarrow> anchor_record wt" where
  "wt_openDirectory env nodeId repoPath =
     (if \<not> we_workspace env then wfail No_Workspace_Registry
      else if we_isLocal env nodeId then
        wbind (repo_named nodeId repoPath) (\<lambda>known.
          case known of
            None \<Rightarrow> wfail (No_Repo_Record repoPath)
          | Some r \<Rightarrow> openAsWorkspace env (localDirectoryAnchor r))
      else
        wbind (directoryAnchorOf nodeId repoPath) (\<lambda>existing.
          case existing of
            Some a \<Rightarrow> wbind (ask (we_done env) (Do_Register a)) (\<lambda>_. wret a)
          | None \<Rightarrow>
              wbind (channelFor env nodeId) (\<lambda>_.
              wbind (ask (we_path env) (Ask_Resolve nodeId repoPath)) (\<lambda>canonicalPath.
              wbind (make_anchor env \<lparr>ad_kind = Directory, ad_nodeId = nodeId, ad_name = shown_name canonicalPath,
                       ad_repoPath = canonicalPath, ad_remoteRoot = canonicalPath\<rparr>) (\<lambda>a.
              wbind (openOrDrop env a (ask (we_done env) (Do_Register a))) (\<lambda>_. wret a))))))"

definition wt_closeDirectory :: "wt_env \<Rightarrow> string \<Rightarrow> string \<Rightarrow> anchor_record option wt" where
  "wt_closeDirectory env nodeId repoPath =
     (if we_isLocal env nodeId then
        wbind (repo_named nodeId repoPath) (\<lambda>known.
          case known of
            None \<Rightarrow> wret None
          | Some r \<Rightarrow>
              wbind (hook env (we_registered env) (Is_Registered (localDirectoryAnchor r)) False) (\<lambda>opening.
                if \<not> opening then wret None
                else wbind (unregisterWorkspace env (localDirectoryAnchor r)) (\<lambda>_. wret (Some (localDirectoryAnchor r)))))
      else
        wbind (directoryAnchorOf nodeId repoPath) (\<lambda>existing.
          case existing of
            None \<Rightarrow> wret None
          | Some a \<Rightarrow>
              wbind (unregisterWorkspace env a) (\<lambda>_.
              wbind (drop_anchor env (an_anchorId a)) (\<lambda>_. wret (Some a)))))"

subsection \<open>The label of a workspace\<close>

definition workspaceLabel :: "string \<Rightarrow> string \<Rightarrow> string option \<Rightarrow> string option \<Rightarrow> string" where
  "workspaceLabel machine repoPath repoName name =
     (let base = posix_basename repoPath;
          given = (case repoName of None \<Rightarrow> [] | Some n \<Rightarrow> trim n);
          repo = (if given \<noteq> [] then given else if base = [] \<or> base = ''/'' then repoPath else base);
          lead = ''['' @ machine @ '']'' in
      case name of
        None \<Rightarrow> lead @ '' '' @ repo
      | Some n \<Rightarrow> lead @ '' '' @ repo @ '' : '' @ n)"

end
