(* ===== verification/Machines.thy ===== *)
theory Machines
  imports Node_Store Posix_Paths
begin

section \<open>Connections to the machines: models/machines.ts\<close>

text \<open>
  The manager of one connection per machine, as the state it keeps and the pieces of code that run
  between two awaits. Entries are mutable objects the pieces refer to after the table has dropped
  them, so they live in a heap; a transport, a connection and an install are handles whose owner
  the environment is. The effects are the calls the manager makes on them, in order.
\<close>

subsection \<open>State\<close>

datatype node_state = Idle | Connecting | Ready | Failed | Disconnected

record node_capability =
  cap_pty :: bool
  cap_spill :: bool
  cap_ripgrep :: "string option"

record node_info =
  ni_protocol :: js_number
  ni_agentVersion :: string
  ni_platform :: string
  ni_arch :: string
  ni_node :: string
  ni_homedir :: string
  ni_capability :: node_capability

datatype worker = Worker_Installing | Worker_Failed string

record node_entry =
  en_state :: node_state
  en_info :: "node_info option"
  en_error :: "string option"
  en_live :: "nat option"
  en_pending :: "nat option"
  en_transport :: "nat option"
  en_localPort :: "nat option"
  en_progress :: "string option"
  en_recovery :: "nat option"
  en_published :: "nat option"
  en_record :: "node_record option"
  en_ptcHost :: "nat option"
  en_worker :: "worker option"

record resolved_transport =
  tn_id :: nat
  tn_host :: string
  tn_port :: nat
  tn_watched :: bool

datatype phase = Opening | Dialing resolved_transport

record attempt =
  at_id :: nat
  at_entry :: nat
  at_record :: node_record
  at_phase :: phase

record recovery =
  rc_id :: nat
  rc_entry :: nat
  rc_record :: node_record
  rc_count :: nat
  rc_waiting :: "nat option"

datatype machine_effect =
    Open_Transport nat node_record
  | Dial nat string nat string
  | Close_Live nat
  | Close_Transport nat
  | Install_Worker nat

record manager =
  mg_heap :: "nat \<Rightarrow> node_entry"
  mg_table :: "(string \<times> nat) list"
  mg_lost :: "nat list"
  mg_attempts :: "attempt list"
  mg_recoveries :: "recovery list"
  mg_watches :: "(nat \<times> nat \<times> node_record) list"
  mg_installs :: "(nat \<times> nat) list"
  mg_next :: nat
  mg_effects :: "machine_effect list"

record manager_config =
  cf_recoveryAttempts :: nat
  cf_cacheDir :: "string option"

definition RECOVERY_ATTEMPTS :: nat where "RECOVERY_ATTEMPTS = 3"

definition blank_entry :: node_entry where
  "blank_entry =
     \<lparr>en_state = Idle, en_info = None, en_error = None, en_live = None, en_pending = None, en_transport = None,
      en_localPort = None, en_progress = None, en_recovery = None, en_published = None, en_record = None,
      en_ptcHost = None, en_worker = None\<rparr>"

definition createNodeConnections :: manager where
  "createNodeConnections =
     \<lparr>mg_heap = (\<lambda>e. blank_entry), mg_table = [], mg_lost = [], mg_attempts = [], mg_recoveries = [],
      mg_watches = [], mg_installs = [], mg_next = 0, mg_effects = []\<rparr>"

definition upd_entry :: "nat \<Rightarrow> (node_entry \<Rightarrow> node_entry) \<Rightarrow> manager \<Rightarrow> manager" where
  "upd_entry e f m = m\<lparr>mg_heap := (mg_heap m)(e := f (mg_heap m e))\<rparr>"

definition emit :: "machine_effect list \<Rightarrow> manager \<Rightarrow> manager" where
  "emit fx m = m\<lparr>mg_effects := mg_effects m @ fx\<rparr>"

definition entryFor :: "string \<Rightarrow> manager \<Rightarrow> nat \<times> manager" where
  "entryFor nodeId m =
     (case map_of (mg_table m) nodeId of
        Some e \<Rightarrow> (e, m)
      | None \<Rightarrow>
          (mg_next m, m\<lparr>mg_heap := (mg_heap m)(mg_next m := blank_entry), mg_table := mg_table m @ [(nodeId, mg_next m)],
                        mg_next := Suc (mg_next m)\<rparr>))"

definition clear_effects :: "node_entry \<Rightarrow> machine_effect list" where
  "clear_effects en =
     (case en_live en of None \<Rightarrow> [] | Some l \<Rightarrow> [Close_Live l]) @
     (case en_transport en of None \<Rightarrow> [] | Some t \<Rightarrow> [Close_Transport t])"

definition clear_entry :: "node_entry \<Rightarrow> node_entry" where
  "clear_entry en =
     en\<lparr>en_published := None, en_record := None, en_ptcHost := None, en_worker := None, en_live := None,
        en_pending := None, en_info := None, en_transport := None, en_localPort := None, en_progress := None\<rparr>"

definition clear :: "nat \<Rightarrow> manager \<Rightarrow> manager" where
  "clear e m = upd_entry e clear_entry (emit (clear_effects (mg_heap m e)) m)"

definition fail_entry :: "nat \<Rightarrow> string \<Rightarrow> manager \<Rightarrow> manager" where
  "fail_entry e message m = upd_entry e (\<lambda>en. en\<lparr>en_state := Failed, en_error := Some message\<rparr>) (clear e m)"

record node_status =
  st_nodeId :: string
  st_state :: node_state
  st_info :: "node_info option"
  st_localPort :: "nat option"
  st_progress :: "string option"
  st_error :: "string option"
  st_worker :: "worker option"

definition statusOf :: "string \<Rightarrow> node_entry \<Rightarrow> node_status" where
  "statusOf nodeId en =
     \<lparr>st_nodeId = nodeId, st_state = en_state en, st_info = en_info en, st_localPort = en_localPort en,
      st_progress = en_progress en, st_error = en_error en, st_worker = en_worker en\<rparr>"

subsection \<open>Failures and transports\<close>

text \<open>The regular expression: \<open>timed out connecting to\<close>, or \<open>handshake with\<close> and \<open>timed out\<close> on
  one line.\<close>

fun up_to_newline :: "string \<Rightarrow> string" where
  "up_to_newline [] = []"
| "up_to_newline (c # s) =
     (if c = CHR 0x0A \<or> c = CHR 0x0D \<or> take 3 (c # s) = [CHR 0xE2, CHR 0x80, CHR 0xA8]
         \<or> take 3 (c # s) = [CHR 0xE2, CHR 0x80, CHR 0xA9] then [] else c # up_to_newline s)"

fun handshake_timed_out :: "string \<Rightarrow> bool" where
  "handshake_timed_out [] \<longleftrightarrow> False"
| "handshake_timed_out (c # s) \<longleftrightarrow>
     (startsWith (c # s) ''handshake with '' \<and> sublist '' timed out'' (up_to_newline (drop 15 (c # s)))) \<or>
     handshake_timed_out s"

definition quote :: "string \<Rightarrow> string" where
  "quote s = [CHR 0x22] @ s @ [CHR 0x22]"

definition describeFailure :: "node_record \<Rightarrow> string \<Rightarrow> string" where
  "describeFailure r message =
     (case nd_transport r of
        Ssh target _ _ \<Rightarrow>
          (if sublist ''timed out connecting to'' message \<or> handshake_timed_out message
           then ''the SSH forward to '' @ quote target @
             '' is up, but nothing answered; check ~/.dsh/remote-agent/agent.log on the machine''
           else message)
      | _ \<Rightarrow> message)"

text \<open>The default opener, on what ensuring the agent and opening the tunnel answer: the port the
  agent serves on, and the local port of the forward with the transport's handle.\<close>

definition defaultOpenTransport ::
  "manager_config \<Rightarrow> node_record \<Rightarrow> string + nat \<Rightarrow> (nat \<Rightarrow> string + nat \<times> nat) \<Rightarrow> nat \<Rightarrow> (js_number \<Rightarrow> nat)
     \<Rightarrow> string + resolved_transport" where
  "defaultOpenTransport cf r ensured tunnel direct_id port_of =
     (case nd_transport r of
        Local_Transport \<Rightarrow> Inl ''the local machine needs no connection''
      | Direct host port \<Rightarrow> Inr \<lparr>tn_id = direct_id, tn_host = host, tn_port = port_of port, tn_watched = False\<rparr>
      | Ssh _ _ _ \<Rightarrow>
          (if cf_cacheDir cf = None
           then Inl ''reaching a machine over SSH needs the plugin data directory to cache the agent''
           else bind_res ensured (\<lambda>remotePort.
             bind_res (tunnel remotePort) (\<lambda>(localPort, handle).
               Inr \<lparr>tn_id = handle, tn_host = ''127.0.0.1'', tn_port = localPort, tn_watched = True\<rparr>))))"

subsection \<open>The program host\<close>

definition PTC_HOST_SEGMENT :: "string list" where
  "PTC_HOST_SEGMENT = [''.dsh'', ''remote-agent'', ''dsh-ptc-host'']"

datatype ptc_answer = Ptc_Refused string | Ptc_Path string | Ptc_Installing nat

definition is_ssh :: "node_record \<Rightarrow> bool" where
  "is_ssh r = (case nd_transport r of Ssh _ _ _ \<Rightarrow> True | _ \<Rightarrow> False)"

definition ptcHostFor :: "manager_config \<Rightarrow> nat \<Rightarrow> node_record \<Rightarrow> manager \<Rightarrow> ptc_answer \<times> manager" where
  "ptcHostFor cf e r m =
     (case en_ptcHost (mg_heap m e) of
        Some i \<Rightarrow> (Ptc_Installing i, m)
      | None \<Rightarrow>
          (case en_info (mg_heap m e) of
             None \<Rightarrow> (Ptc_Refused (quote (nd_title r) @ '' has not reported its home directory''), m)
           | Some info \<Rightarrow>
               if \<not> is_ssh r then (Ptc_Path (posix_join (ni_homedir info # PTC_HOST_SEGMENT)), m)
               else if cf_cacheDir cf = None
               then (Ptc_Refused ''installing a PTC program host needs the plugin data directory'', m)
               else
                 (Ptc_Installing (mg_next m),
                  emit [Install_Worker (mg_next m)]
                    (upd_entry e (\<lambda>en. en\<lparr>en_worker := Some Worker_Installing, en_ptcHost := Some (mg_next m)\<rparr>)
                      (m\<lparr>mg_installs := mg_installs m @ [(mg_next m, e)], mg_next := Suc (mg_next m)\<rparr>)))))"

text \<open>An install that ends.\<close>

definition installed :: "nat \<Rightarrow> string option \<Rightarrow> manager \<Rightarrow> manager" where
  "installed i failure m =
     (case map_of (mg_installs m) i of
        None \<Rightarrow> m
      | Some e \<Rightarrow>
          (let m1 = m\<lparr>mg_installs := filter (\<lambda>(j, _). j \<noteq> i) (mg_installs m)\<rparr> in
           if en_ptcHost (mg_heap m e) \<noteq> Some i then m1
           else (case failure of
                   None \<Rightarrow> upd_entry e (\<lambda>en. en\<lparr>en_worker := None\<rparr>) m1
                 | Some err \<Rightarrow> upd_entry e (\<lambda>en. en\<lparr>en_ptcHost := None, en_worker := Some (Worker_Failed err)\<rparr>) m1)))"

subsection \<open>Connecting\<close>

datatype connect_answer = Already node_info | Joined nat | Started nat

definition connectRecord :: "node_record \<Rightarrow> manager \<Rightarrow> connect_answer \<times> manager" where
  "connectRecord r m0 =
     (case entryFor (nd_nodeId r) m0 of (e, m) \<Rightarrow>
        let en = mg_heap m e in
        if en_state en = Ready \<and> en_info en \<noteq> None then (Already (the (en_info en)), m)
        else (case en_pending en of
                Some a \<Rightarrow> (Joined a, m)
              | None \<Rightarrow>
                  (Started (mg_next m),
                   emit [Open_Transport (mg_next m) r]
                     (upd_entry e (\<lambda>en. en\<lparr>en_state := Connecting, en_error := None, en_progress := None,
                                         en_pending := Some (mg_next m)\<rparr>)
                       (m\<lparr>mg_attempts := mg_attempts m @
                            [\<lparr>at_id = mg_next m, at_entry = e, at_record = r, at_phase = Opening\<rparr>],
                          mg_next := Suc (mg_next m)\<rparr>)))))"

definition find_attempt :: "nat \<Rightarrow> manager \<Rightarrow> attempt option" where
  "find_attempt a m = find_key at_id a (mg_attempts m)"

text \<open>The recoveries that wait for an attempt go on when it is settled: with the next try after a
  failure, while there is one left.\<close>

definition settle :: "manager_config \<Rightarrow> nat \<Rightarrow> bool \<Rightarrow> manager \<Rightarrow> manager" where
  "settle cf a ok m =
     m\<lparr>mg_attempts := drop_key at_id a (mg_attempts m),
       mg_recoveries :=
         concat (map (\<lambda>rc.
           if rc_waiting rc \<noteq> Some a then [rc]
           else if ok \<or> cf_recoveryAttempts cf \<le> rc_count rc then []
           else [rc\<lparr>rc_count := Suc (rc_count rc), rc_waiting := None\<rparr>]) (mg_recoveries m))\<rparr>"

definition attempt_failed :: "manager_config \<Rightarrow> attempt \<Rightarrow> string \<Rightarrow> manager \<Rightarrow> manager" where
  "attempt_failed cf a err m =
     settle cf (at_id a) False (fail_entry (at_entry a) (describeFailure (at_record a) err) m)"

text \<open>\<open>openTransport\<close> answers.\<close>

definition opened :: "manager_config \<Rightarrow> nat \<Rightarrow> string + resolved_transport \<Rightarrow> manager \<Rightarrow> manager" where
  "opened cf aid answer m =
     (case find_attempt aid m of
        None \<Rightarrow> m
      | Some a \<Rightarrow>
          if at_phase a \<noteq> Opening then m
          else (case answer of
                  Inl err \<Rightarrow> attempt_failed cf a err m
                | Inr t \<Rightarrow>
                    emit [Dial aid (tn_host t) (tn_port t) (nd_token (at_record a))]
                      (upd_entry (at_entry a) (\<lambda>en. en\<lparr>en_transport := Some (tn_id t)\<rparr>)
                        (m\<lparr>mg_attempts := replace_key at_id (a\<lparr>at_phase := Dialing t\<rparr>) (mg_attempts m)\<rparr>))))"

text \<open>\<open>connect\<close> answers, with the connection and what the daemon reported.\<close>

definition ready_entry :: "node_record \<Rightarrow> resolved_transport \<Rightarrow> nat \<Rightarrow> node_info \<Rightarrow> node_entry \<Rightarrow> node_entry" where
  "ready_entry r t live info en =
     en\<lparr>en_live := Some live, en_published := Some live, en_info := Some info,
        en_localPort := (if is_ssh r then Some (tn_port t) else None), en_pending := None, en_progress := None,
        en_record := Some r, en_state := Ready\<rparr>"

definition dialed :: "manager_config \<Rightarrow> nat \<Rightarrow> string + nat \<times> node_info \<Rightarrow> manager \<Rightarrow> manager" where
  "dialed cf aid answer m =
     (case find_attempt aid m of
        None \<Rightarrow> m
      | Some a \<Rightarrow>
          (case at_phase a of
             Opening \<Rightarrow> m
           | Dialing t \<Rightarrow>
               (case answer of
                  Inl err \<Rightarrow> attempt_failed cf a err m
                | Inr (live, info) \<Rightarrow>
                    (let m1 = upd_entry (at_entry a) (ready_entry (at_record a) t live info) m;
                         m2 = (if is_ssh (at_record a) then snd (ptcHostFor cf (at_entry a) (at_record a) m1) else m1);
                         m3 = (if tn_watched t then m2\<lparr>mg_watches := mg_watches m2 @ [(tn_id t, at_entry a, at_record a)]\<rparr> else m2)
                     in settle cf aid True m3))))"

definition progressed :: "nat \<Rightarrow> string \<Rightarrow> manager \<Rightarrow> manager" where
  "progressed aid p m =
     (case find_attempt aid m of None \<Rightarrow> m | Some a \<Rightarrow> upd_entry (at_entry a) (\<lambda>en. en\<lparr>en_progress := Some p\<rparr>) m)"

subsection \<open>Losing a connection\<close>

definition recover :: "manager_config \<Rightarrow> nat \<Rightarrow> node_record \<Rightarrow> manager \<Rightarrow> manager" where
  "recover cf e r m =
     upd_entry e (\<lambda>en. en\<lparr>en_recovery := Some (mg_next m)\<rparr>)
       (m\<lparr>mg_recoveries := mg_recoveries m @
            (if cf_recoveryAttempts cf = 0 then []
             else [\<lparr>rc_id = mg_next m, rc_entry = e, rc_record = r, rc_count = 1, rc_waiting = None\<rparr>]),
          mg_next := Suc (mg_next m)\<rparr>)"

text \<open>The gap before a recovery's next try is over.\<close>

definition drop_recovery :: "nat \<Rightarrow> manager \<Rightarrow> manager" where
  "drop_recovery rid m = m\<lparr>mg_recoveries := drop_key rc_id rid (mg_recoveries m)\<rparr>"

definition timer :: "nat \<Rightarrow> manager \<Rightarrow> manager" where
  "timer rid m =
     (case find_key rc_id rid (mg_recoveries m) of
        None \<Rightarrow> m
      | Some rc \<Rightarrow>
          if rc_waiting rc \<noteq> None then m
          else if en_recovery (mg_heap m (rc_entry rc)) \<noteq> Some rid then drop_recovery rid m
          else (case connectRecord (rc_record rc) m of
                  (Already _, m1) \<Rightarrow> drop_recovery rid m1
                | (Joined a, m1) \<Rightarrow> m1\<lparr>mg_recoveries := replace_key rc_id (rc\<lparr>rc_waiting := Some a\<rparr>) (mg_recoveries m1)\<rparr>
                | (Started a, m1) \<Rightarrow> m1\<lparr>mg_recoveries := replace_key rc_id (rc\<lparr>rc_waiting := Some a\<rparr>) (mg_recoveries m1)\<rparr>))"

text \<open>A watched transport stops: the first watch of its handle fires, once.\<close>

definition exited :: "manager_config \<Rightarrow> nat \<Rightarrow> manager \<Rightarrow> manager" where
  "exited cf t m =
     (case List.find (\<lambda>(i, _). i = t) (mg_watches m) of
        None \<Rightarrow> m
      | Some (_, e, r) \<Rightarrow>
          (let m1 = m\<lparr>mg_watches := remove1 (t, e, r) (mg_watches m)\<rparr> in
           if t \<in> set (mg_lost m) \<or> en_transport (mg_heap m e) \<noteq> Some t then m1
           else recover cf e r
             (fail_entry e (''the SSH forward to '' @ quote (nd_title r) @ '' closed'') (m1\<lparr>mg_lost := t # mg_lost m1\<rparr>))))"

text \<open>A request on the published channel of a connection fails; a typed failure is the daemon's own
  answer.\<close>

definition request_failed :: "manager_config \<Rightarrow> nat \<Rightarrow> node_record \<Rightarrow> nat \<Rightarrow> bool \<Rightarrow> string \<Rightarrow> manager \<Rightarrow> manager" where
  "request_failed cf e r live typed message m =
     (if en_live (mg_heap m e) = Some live \<and> \<not> typed then recover cf e r (fail_entry e message m) else m)"

subsection \<open>The operations\<close>

definition mg_channel :: "string \<Rightarrow> manager \<Rightarrow> nat option" where
  "mg_channel nodeId m = (case map_of (mg_table m) nodeId of None \<Rightarrow> None | Some e \<Rightarrow> en_published (mg_heap m e))"

definition mg_status :: "string \<Rightarrow> manager \<Rightarrow> node_status" where
  "mg_status nodeId m =
     (case map_of (mg_table m) nodeId of
        None \<Rightarrow> statusOf nodeId blank_entry
      | Some e \<Rightarrow> statusOf nodeId (mg_heap m e))"

definition mg_list :: "manager \<Rightarrow> node_status list" where
  "mg_list m = map (\<lambda>(nodeId, e). statusOf nodeId (mg_heap m e)) (mg_table m)"

definition mg_ptcHost :: "manager_config \<Rightarrow> string \<Rightarrow> manager \<Rightarrow> ptc_answer \<times> manager" where
  "mg_ptcHost cf nodeId m =
     (let refused = (Ptc_Refused (''remote node '' @ quote nodeId @ '' is not connected''), m) in
      case map_of (mg_table m) nodeId of
        None \<Rightarrow> refused
      | Some e \<Rightarrow>
          (case en_record (mg_heap m e) of
             None \<Rightarrow> refused
           | Some r \<Rightarrow> if en_state (mg_heap m e) \<noteq> Ready then refused else ptcHostFor cf e r m))"

definition mg_disconnect :: "string \<Rightarrow> manager \<Rightarrow> manager" where
  "mg_disconnect nodeId m =
     (case map_of (mg_table m) nodeId of
        None \<Rightarrow> m
      | Some e \<Rightarrow>
          upd_entry e (\<lambda>en. en\<lparr>en_error := None, en_state := Disconnected\<rparr>)
            (clear e (upd_entry e (\<lambda>en. en\<lparr>en_recovery := None\<rparr>) m)))"

fun dispose_all :: "nat list \<Rightarrow> manager \<Rightarrow> manager" where
  "dispose_all [] m = m"
| "dispose_all (e # es) m = dispose_all es (clear e (upd_entry e (\<lambda>en. en\<lparr>en_recovery := None\<rparr>) m))"

definition mg_dispose :: "manager \<Rightarrow> manager" where
  "mg_dispose m = (dispose_all (map snd (mg_table m)) m)\<lparr>mg_table := []\<rparr>"

end
