(* ===== verification/Machine_Runs.thy ===== *)
theory Machine_Runs
  imports Machines
begin

section \<open>Runs of the connection manager\<close>

text \<open>
  The manager driven by its callers and by what settles: a run is any sequence of the pieces of
  \<open>Machines\<close>. What holds of every run, and what holds of the calm ones, in which nobody ends a
  connection while an attempt for it is under way.
\<close>

subsection \<open>Events\<close>

datatype machine_event =
    Ev_Connect node_record
  | Ev_Opened nat "string + resolved_transport"
  | Ev_Progressed nat string
  | Ev_Dialed nat "string + nat \<times> node_info"
  | Ev_Exited nat
  | Ev_Request_Failed nat node_record nat bool string
  | Ev_Timer nat
  | Ev_Installed nat "string option"
  | Ev_Ptc_Host string
  | Ev_Disconnect string
  | Ev_Dispose

fun mg_step :: "manager_config \<Rightarrow> machine_event \<Rightarrow> manager \<Rightarrow> manager" where
  "mg_step cf (Ev_Connect r) m = snd (connectRecord r m)"
| "mg_step cf (Ev_Opened a x) m = opened cf a x m"
| "mg_step cf (Ev_Progressed a p) m = progressed a p m"
| "mg_step cf (Ev_Dialed a x) m = dialed cf a x m"
| "mg_step cf (Ev_Exited t) m = exited cf t m"
| "mg_step cf (Ev_Request_Failed e r l b err) m = request_failed cf e r l b err m"
| "mg_step cf (Ev_Timer i) m = timer i m"
| "mg_step cf (Ev_Installed i f) m = installed i f m"
| "mg_step cf (Ev_Ptc_Host n) m = snd (mg_ptcHost cf n m)"
| "mg_step cf (Ev_Disconnect n) m = mg_disconnect n m"
| "mg_step cf Ev_Dispose m = mg_dispose m"

definition mg_run :: "manager_config \<Rightarrow> machine_event list \<Rightarrow> manager" where
  "mg_run cf evs = fold (mg_step cf) evs createNodeConnections"

lemma mg_run_snoc: "mg_run cf (evs @ [ev]) = mg_step cf ev (mg_run cf evs)"
  by (simp add: mg_run_def)

lemma mg_run_induct:
  assumes "P createNodeConnections" "\<And>m ev. P m \<Longrightarrow> P (mg_step cf ev m)"
  shows "P (mg_run cf evs)"
  by (induction evs rule: rev_induct) (simp_all add: mg_run_snoc assms, simp add: mg_run_def assms(1))

subsection \<open>Every entry, in every run\<close>

text \<open>An entry holds a connection, its channel, its report and its machine together, exactly while it
  is ready.\<close>

definition entry_ok :: "node_entry \<Rightarrow> bool" where
  "entry_ok en \<longleftrightarrow>
     (en_state en = Ready \<longleftrightarrow> en_live en \<noteq> None) \<and> en_published en = en_live en \<and>
     (en_info en \<noteq> None \<longleftrightarrow> en_live en \<noteq> None) \<and> (en_record en \<noteq> None \<longleftrightarrow> en_live en \<noteq> None) \<and>
     (en_localPort en \<noteq> None \<longrightarrow> en_live en \<noteq> None) \<and> (en_ptcHost en \<noteq> None \<longrightarrow> en_live en \<noteq> None)"

definition entries_ok :: "manager \<Rightarrow> bool" where
  "entries_ok m \<longleftrightarrow> (\<forall>e \<in> snd ` set (mg_table m). entry_ok (mg_heap m e))"

named_theorems mg_simps \<open>what the pieces of the manager leave of the heap and the table\<close>

lemma upd_simps [mg_simps]:
  "mg_heap (upd_entry e f m) = (mg_heap m)(e := f (mg_heap m e))" "mg_table (upd_entry e f m) = mg_table m"
  by (simp_all add: upd_entry_def)

lemma emit_simps [mg_simps]: "mg_heap (emit fx m) = mg_heap m" "mg_table (emit fx m) = mg_table m"
  by (simp_all add: emit_def)

lemma clear_simps [mg_simps]:
  "mg_heap (clear e m) = (mg_heap m)(e := clear_entry (mg_heap m e))" "mg_table (clear e m) = mg_table m"
  by (simp_all add: clear_def mg_simps)

lemma fail_simps [mg_simps]:
  "mg_heap (fail_entry e msg m) =
     (mg_heap m)(e := (clear_entry (mg_heap m e))\<lparr>en_state := Failed, en_error := Some msg\<rparr>)"
  "mg_table (fail_entry e msg m) = mg_table m"
  by (simp_all add: fail_entry_def mg_simps)

lemma settle_simps [mg_simps]: "mg_heap (settle cf a ok m) = mg_heap m" "mg_table (settle cf a ok m) = mg_table m"
  by (simp_all add: settle_def)

lemma recover_simps [mg_simps]:
  "mg_heap (recover cf e r m) = (mg_heap m)(e := (mg_heap m e)\<lparr>en_recovery := Some (mg_next m)\<rparr>)"
  "mg_table (recover cf e r m) = mg_table m"
  by (simp_all add: recover_def mg_simps)

lemma drop_recovery_simps [mg_simps]:
  "mg_heap (drop_recovery i m) = mg_heap m" "mg_table (drop_recovery i m) = mg_table m"
  by (simp_all add: drop_recovery_def)

lemma entry_ok_simps [simp]:
  "entry_ok blank_entry"
  "entry_ok ((clear_entry en)\<lparr>en_state := Failed, en_error := err\<rparr>)"
  "entry_ok ((clear_entry en)\<lparr>en_error := err, en_state := Disconnected\<rparr>)"
  "entry_ok (ready_entry r t live info en)"
  "entry_ok (en\<lparr>en_recovery := i\<rparr>) \<longleftrightarrow> entry_ok en"
  "entry_ok (en\<lparr>en_progress := p\<rparr>) \<longleftrightarrow> entry_ok en"
  "entry_ok (en\<lparr>en_worker := w\<rparr>) \<longleftrightarrow> entry_ok en"
  "entry_ok (en\<lparr>en_transport := h\<rparr>) \<longleftrightarrow> entry_ok en"
  by (auto simp: entry_ok_def blank_entry_def clear_entry_def ready_entry_def)

lemma entries_upd:
  assumes "entries_ok m" "mg_heap m' = (mg_heap m)(e := en)" "mg_table m' = mg_table m"
    and "entry_ok (mg_heap m e) \<Longrightarrow> entry_ok en"
  shows "entries_ok m'"
  using assms by (auto simp: entries_ok_def)

lemma entries_same: "entries_ok m \<Longrightarrow> mg_heap m' = mg_heap m \<Longrightarrow> mg_table m' = mg_table m \<Longrightarrow> entries_ok m'"
  by (simp add: entries_ok_def)

lemma entryFor_ok:
  assumes "entries_ok m" "entryFor n m = (e, m')"
  shows "entries_ok m'" "e \<in> snd ` set (mg_table m')"
proof -
  have "entries_ok m' \<and> e \<in> snd ` set (mg_table m')"
  proof (cases "map_of (mg_table m) n")
    case None
    with assms show ?thesis by (fastforce simp: entryFor_def entries_ok_def)
  next
    case (Some e')
    then have "e' \<in> snd ` set (mg_table m)" by (force dest: map_of_SomeD)
    with Some assms show ?thesis by (simp add: entryFor_def)
  qed
  then show "entries_ok m'" "e \<in> snd ` set (mg_table m')" by auto
qed

lemma connect_ok:
  assumes "entries_ok m"
  shows "entries_ok (snd (connectRecord r m))"
proof -
  obtain e m1 where em: "entryFor (nd_nodeId r) m = (e, m1)" by fastforce
  note m1 = entryFor_ok [OF assms em]
  then have en: "entry_ok (mg_heap m1 e)" unfolding entries_ok_def by blast
  show ?thesis
  proof (cases "(en_state (mg_heap m1 e) = Ready \<and> en_info (mg_heap m1 e) \<noteq> None) \<or> en_pending (mg_heap m1 e) \<noteq> None")
    case True
    with m1 show ?thesis by (auto simp: connectRecord_def em Let_def)
  next
    case False
    with en have "entry_ok ((mg_heap m1 e)\<lparr>en_state := Connecting, en_error := None, en_progress := None, en_pending := p\<rparr>)" for p
      by (auto simp: entry_ok_def)
    with False m1 show ?thesis
      by (auto simp: connectRecord_def em Let_def mg_simps entries_ok_def)
  qed
qed

lemma ptcHostFor_ok:
  assumes "entries_ok m"
  shows "entries_ok (snd (ptcHostFor cf e r m))"
proof (cases "en_ptcHost (mg_heap m e) \<noteq> None \<or> en_info (mg_heap m e) = None")
  case False
  then have "entry_ok (mg_heap m e) \<Longrightarrow> entry_ok ((mg_heap m e)\<lparr>en_worker := w, en_ptcHost := i\<rparr>)" for w i
    by (auto simp: entry_ok_def)
  with False assms show ?thesis
    by (auto simp: ptcHostFor_def mg_simps entries_ok_def split: option.splits)
qed (use assms in \<open>auto simp: ptcHostFor_def split: option.splits\<close>)

lemma attempt_failed_ok: "entries_ok m \<Longrightarrow> entries_ok (attempt_failed cf a err m)"
  by (auto simp: attempt_failed_def entries_ok_def mg_simps)

lemma lost_ok: "entries_ok m \<Longrightarrow> entries_ok (recover cf e r (fail_entry e msg m))"
  by (auto simp: entries_ok_def mg_simps)

lemma dispose_all_table: "mg_table (dispose_all es m) = mg_table m"
  by (induction es arbitrary: m) (simp_all add: mg_simps)

lemma mg_step_ok:
  assumes "entries_ok m"
  shows "entries_ok (mg_step cf ev m)"
proof (cases ev)
  case (Ev_Connect r)
  with assms connect_ok show ?thesis by simp
next
  case (Ev_Opened a x)
  with assms attempt_failed_ok show ?thesis
    by (auto simp: opened_def mg_simps entries_ok_def split: option.splits sum.splits)
next
  case (Ev_Progressed a p)
  with assms show ?thesis by (auto simp: progressed_def mg_simps entries_ok_def split: option.splits)
next
  case (Ev_Dialed a x)
  have "entries_ok (upd_entry e (ready_entry r t live info) m)" for e r t live info
    using assms by (auto simp: entries_ok_def mg_simps)
  then have "entries_ok (snd (ptcHostFor cf e r (upd_entry e (ready_entry r t live info) m)))"
    "entries_ok (upd_entry e (ready_entry r t live info) m)" for e r t live info
    using ptcHostFor_ok by blast+
  with Ev_Dialed assms attempt_failed_ok show ?thesis
    by (auto simp: dialed_def Let_def entries_ok_def mg_simps split: option.splits sum.splits phase.splits)
next
  case (Ev_Exited t)
  with assms lost_ok show ?thesis
    by (auto simp: exited_def Let_def entries_ok_def mg_simps split: option.splits)
next
  case (Ev_Request_Failed e r l b err)
  with assms lost_ok show ?thesis by (simp add: request_failed_def)
next
  case (Ev_Timer i)
  with assms connect_ok [OF assms] show ?thesis
    by (auto simp: timer_def entries_ok_def mg_simps split: option.splits connect_answer.splits prod.splits)
      (metis snd_conv)+
next
  case (Ev_Installed i f)
  have "entry_ok en \<Longrightarrow> entry_ok (en\<lparr>en_ptcHost := None, en_worker := w\<rparr>)" for en w by (auto simp: entry_ok_def)
  with Ev_Installed assms show ?thesis
    by (auto simp: installed_def Let_def entries_ok_def mg_simps split: option.splits)
next
  case (Ev_Ptc_Host n)
  with assms ptcHostFor_ok [OF assms] show ?thesis
    by (auto simp: mg_ptcHost_def Let_def split: option.splits)
next
  case (Ev_Disconnect n)
  with assms show ?thesis by (auto simp: mg_disconnect_def entries_ok_def mg_simps split: option.splits)
next
  case Ev_Dispose
  then show ?thesis by (simp add: mg_dispose_def entries_ok_def)
qed

lemma mg_run_ok: "entries_ok (mg_run cf evs)"
proof (rule mg_run_induct)
  show "entries_ok createNodeConnections" by (simp add: entries_ok_def createNodeConnections_def)
qed (rule mg_step_ok)

text \<open>C21: whatever the callers, the machines and the timers do, and in whatever order, a machine has a
  channel exactly while its status is ready, and the status carries what the daemon reported
  exactly then, and a local port only then; a machine never asked for is idle.\<close>

theorem channel_iff_ready:
  "(mg_channel n (mg_run cf evs) \<noteq> None \<longleftrightarrow> st_state (mg_status n (mg_run cf evs)) = Ready) \<and>
   (st_info (mg_status n (mg_run cf evs)) \<noteq> None \<longleftrightarrow> st_state (mg_status n (mg_run cf evs)) = Ready) \<and>
   (st_localPort (mg_status n (mg_run cf evs)) = None \<or> st_state (mg_status n (mg_run cf evs)) = Ready)"
proof (cases "map_of (mg_table (mg_run cf evs)) n")
  case None
  then show ?thesis by (simp add: mg_channel_def mg_status_def statusOf_def blank_entry_def)
next
  case (Some e)
  then have "e \<in> snd ` set (mg_table (mg_run cf evs))" by (force dest: map_of_SomeD)
  with mg_run_ok [of cf evs] have "entry_ok (mg_heap (mg_run cf evs) e)" unfolding entries_ok_def by blast
  with Some show ?thesis by (auto simp: mg_channel_def mg_status_def statusOf_def entry_ok_def)
qed

subsection \<open>A disconnect during an attempt\<close>

lemma attempts_kept:
  "mg_attempts (upd_entry e f m) = mg_attempts m" "mg_attempts (emit fx m) = mg_attempts m"
  "mg_attempts (clear e m) = mg_attempts m"
  by (simp_all add: upd_entry_def emit_def clear_def)

text \<open>Ending a connection while an attempt for it is still being made does not end the attempt:
  when the transport and the connection come up, the machine a person disconnected is ready and its
  channel is handed out.\<close>

theorem disconnect_overridden:
  assumes "map_of (mg_table m) n = Some e" "find_attempt aid m = Some a" "at_entry a = e" "at_phase a = Opening"
  shows "st_state (mg_status n (mg_disconnect n m)) = Disconnected \<and>
    (let later = dialed cf aid (Inr (live, info)) (opened cf aid (Inr t) (mg_disconnect n m)) in
     mg_channel n later = Some live \<and> st_state (mg_status n later) = Ready)"
proof -
  let ?m1 = "mg_disconnect n m"
  have m1: "mg_table ?m1 = mg_table m" "mg_attempts ?m1 = mg_attempts m"
    using assms(1) by (simp_all add: mg_disconnect_def mg_simps attempts_kept)
  let ?a = "a\<lparr>at_phase := Dialing t\<rparr>" and ?m2 = "opened cf aid (Inr t) ?m1"
  have ida: "at_id a = aid" using assms(2) by (auto simp: find_attempt_def dest: find_key_Some)
  have "find_attempt aid ?m1 = Some a" using assms(2) m1(2) by (simp add: find_attempt_def)
  then have m2: "?m2 = emit [Dial aid (tn_host t) (tn_port t) (nd_token (at_record a))]
      (upd_entry e (\<lambda>en. en\<lparr>en_transport := Some (tn_id t)\<rparr>)
        (?m1\<lparr>mg_attempts := replace_key at_id ?a (mg_attempts ?m1)\<rparr>))"
    using assms(3,4) by (simp add: opened_def)
  have "find_key at_id aid (replace_key at_id ?a (mg_attempts m)) = Some ?a"
    using assms(2) ida by (simp add: store_simps find_attempt_def)
  then have found: "find_attempt aid ?m2 = Some ?a"
    by (simp add: m2 find_attempt_def m1 emit_def upd_entry_def)
  have table2: "mg_table ?m2 = mg_table m" by (simp add: m2 mg_simps m1)
  let ?en = "ready_entry (at_record a) t live info (mg_heap ?m2 e)"
  let ?m3 = "upd_entry e (ready_entry (at_record a) t live info) ?m2"
  have ptc: "mg_table (snd (ptcHostFor cf e r k)) = mg_table k" "en_published (mg_heap (snd (ptcHostFor cf e r k)) x) = en_published (mg_heap k x)"
    "en_state (mg_heap (snd (ptcHostFor cf e r k)) x) = en_state (mg_heap k x)" for r k x
    by (auto simp: ptcHostFor_def mg_simps split: option.splits)
  have "mg_table (dialed cf aid (Inr (live, info)) ?m2) = mg_table m \<and>
      en_published (mg_heap (dialed cf aid (Inr (live, info)) ?m2) e) = Some live \<and>
      en_state (mg_heap (dialed cf aid (Inr (live, info)) ?m2) e) = Ready"
    using found assms(3) by (simp add: dialed_def Let_def mg_simps ptc table2 ready_entry_def)
  moreover have "st_state (mg_status n ?m1) = Disconnected"
    using assms(1) by (simp add: mg_status_def statusOf_def m1) (simp add: mg_disconnect_def mg_simps)
  ultimately show ?thesis using assms(1) by (simp add: Let_def mg_channel_def mg_status_def statusOf_def)
qed

definition sample_machine :: node_record where
  "sample_machine =
     \<lparr>nd_nodeId = ''n'', nd_title = ''N'', nd_transport = Ssh ''h'' None None, nd_token = ''t'', nd_createdAt = [], nd_updatedAt = []\<rparr>"

definition sample_config :: manager_config where
  "sample_config = \<lparr>cf_recoveryAttempts = 3, cf_cacheDir = Some ''/c''\<rparr>"

definition sample_transport :: resolved_transport where
  "sample_transport = \<lparr>tn_id = 7, tn_host = ''127.0.0.1'', tn_port = 5000, tn_watched = True\<rparr>"

definition sample_info :: node_info where
  "sample_info =
     \<lparr>ni_protocol = Whole 1, ni_agentVersion = ''1'', ni_platform = ''linux'', ni_arch = ''x64'', ni_node = ''22'', ni_homedir = ''/h'',
      ni_capability = \<lparr>cap_pty = True, cap_spill = False, cap_ripgrep = None\<rparr>\<rparr>"

definition sample_attempted :: manager where
  "sample_attempted = mg_run sample_config [Ev_Connect sample_machine]"

theorem disconnect_overridden_witness:
  "mg_channel ''n'' (dialed sample_config 1 (Inr (9, sample_info))
     (opened sample_config 1 (Inr sample_transport) (mg_disconnect ''n'' sample_attempted))) = Some 9"
proof -
  have "map_of (mg_table sample_attempted) ''n'' = Some 0" by code_simp
  moreover have "find_attempt 1 sample_attempted = Some \<lparr>at_id = 1, at_entry = 0, at_record = sample_machine, at_phase = Opening\<rparr>"
    by code_simp
  ultimately show ?thesis
    using disconnect_overridden [of sample_attempted "''n''" 0 1 _ sample_config 9] by (simp add: Let_def)
qed

subsection \<open>Recovery is bounded\<close>

fun is_open :: "machine_effect \<Rightarrow> bool" where
  "is_open (Open_Transport _ _) = True"
| "is_open _ = False"

definition opens :: "manager \<Rightarrow> nat" where
  "opens m = length (filter is_open (mg_effects m))"

text \<open>The attempts a recovery may still start.\<close>

definition credit :: "nat \<Rightarrow> recovery \<Rightarrow> nat" where
  "credit k rc = (k - rc_count rc) + (if rc_waiting rc = None then 1 else 0)"

definition credits :: "nat \<Rightarrow> manager \<Rightarrow> nat" where
  "credits k m = sum_list (map (credit k) (mg_recoveries m))"

definition recoveries_ok :: "manager \<Rightarrow> bool" where
  "recoveries_ok m \<longleftrightarrow>
     distinct (map rc_id (mg_recoveries m)) \<and> (\<forall>rc \<in> set (mg_recoveries m). rc_id rc < mg_next m)"

lemma sum_replace_key:
  fixes f :: "'r \<Rightarrow> nat"
  shows "distinct (map key rs) \<Longrightarrow> find_key key (key r) rs = Some old \<Longrightarrow>
    sum_list (map f (replace_key key r rs)) + f old = sum_list (map f rs) + f r"
proof (induction rs)
  case (Cons x rs)
  show ?case
  proof (cases "key x = key r")
    case True
    with Cons.prems(1) have "\<forall>y \<in> set rs. key y \<noteq> key r" by auto (metis image_eqI)
    then have "replace_key key r rs = rs"
      unfolding replace_key_def by (intro map_idI) auto
    with True Cons.prems(2) show ?thesis by (simp add: replace_key_def store_simps)
  next
    case False
    with Cons show ?thesis by (simp add: replace_key_def store_simps)
  qed
qed (simp add: store_simps)

lemma sum_drop_key:
  fixes f :: "'r \<Rightarrow> nat"
  shows "find_key key k rs = Some old \<Longrightarrow> sum_list (map f (drop_key key k rs)) + f old \<le> sum_list (map f rs)"
proof (induction rs)
  case (Cons r rs)
  have "sum_list (map f (filter P xs)) \<le> sum_list (map f xs)" for P xs by (induction xs) auto
  with Cons show ?case by (auto simp: drop_key_def store_simps split: if_splits)
qed (simp add: store_simps)

text \<open>The bound's two sides, for the pieces that touch neither.\<close>

definition same_counts :: "manager \<Rightarrow> manager \<Rightarrow> bool" where
  "same_counts m m' \<longleftrightarrow> opens m' = opens m \<and> mg_recoveries m' = mg_recoveries m \<and> mg_next m \<le> mg_next m'"

named_theorems same_intros \<open>pieces that start no attempt and no recovery\<close>

lemma same_refl [same_intros]: "same_counts m m"
  by (simp add: same_counts_def)

lemma same_trans: "same_counts m m1 \<Longrightarrow> same_counts m1 m2 \<Longrightarrow> same_counts m m2"
  by (auto simp: same_counts_def)

lemma same_upd [same_intros]: "same_counts m m1 \<Longrightarrow> same_counts m (upd_entry e f m1)"
  by (simp add: same_counts_def upd_entry_def opens_def)

lemma same_emit [same_intros]: "same_counts m m1 \<Longrightarrow> \<forall>fx \<in> set fxs. \<not> is_open fx \<Longrightarrow> same_counts m (emit fxs m1)"
  by (simp add: same_counts_def emit_def opens_def filter_empty_conv)

lemma same_fields [same_intros]:
  "same_counts m m1 \<Longrightarrow> same_counts m (m1\<lparr>mg_attempts := xs\<rparr>)"
  "same_counts m m1 \<Longrightarrow> same_counts m (m1\<lparr>mg_watches := ws\<rparr>)"
  "same_counts m m1 \<Longrightarrow> same_counts m (m1\<lparr>mg_lost := ls\<rparr>)"
  "same_counts m m1 \<Longrightarrow> same_counts m (m1\<lparr>mg_installs := is\<rparr>)"
  "same_counts m m1 \<Longrightarrow> same_counts m (m1\<lparr>mg_table := ts\<rparr>)"
  "same_counts m m1 \<Longrightarrow> same_counts m (m1\<lparr>mg_installs := is, mg_next := Suc (mg_next m1)\<rparr>)"
  by (simp_all add: same_counts_def opens_def)

lemma same_clear [same_intros]: "same_counts m m1 \<Longrightarrow> same_counts m (clear e m1)"
  by (auto simp: clear_def clear_effects_def intro!: same_intros split: option.splits)

lemma same_fail [same_intros]: "same_counts m m1 \<Longrightarrow> same_counts m (fail_entry e msg m1)"
  by (auto simp: fail_entry_def intro!: same_intros)

lemma same_ptc [same_intros]: "same_counts m m1 \<Longrightarrow> same_counts m (snd (ptcHostFor cf e r m1))"
  by (auto simp: ptcHostFor_def intro!: same_intros split: option.splits)

lemma same_dispose: "same_counts m m1 \<Longrightarrow> same_counts m (dispose_all es m1)"
  by (induction es arbitrary: m1) (simp_all add: same_clear same_upd)

lemma same_budget:
  assumes "same_counts m m'" "recoveries_ok m"
  shows "recoveries_ok m' \<and> opens m' + credits k m' = opens m + credits k m"
  using assms by (force simp: same_counts_def recoveries_ok_def credits_def)

lemma settle_budget:
  assumes "recoveries_ok m"
  shows "recoveries_ok (settle cf a ok m) \<and>
    opens (settle cf a ok m) + credits (cf_recoveryAttempts cf) (settle cf a ok m) \<le> opens m + credits (cf_recoveryAttempts cf) m"
proof -
  let ?k = "cf_recoveryAttempts cf"
  define g :: "recovery \<Rightarrow> recovery list" where "g rc = (if rc_waiting rc \<noteq> Some a then [rc] else if ok \<or> ?k \<le> rc_count rc then []
      else [rc\<lparr>rc_count := Suc (rc_count rc), rc_waiting := None\<rparr>])" for rc
  have recs: "mg_recoveries (settle cf a ok m) = concat (map g (mg_recoveries m))"
    by (simp add: settle_def g_def [abs_def])
  have sub: "rc \<in> set (concat (map g rs)) \<Longrightarrow> rc_id rc \<in> rc_id ` set rs" for rc rs
    by (induction rs) (auto simp: g_def split: if_splits)
  have dist: "distinct (map rc_id rs) \<Longrightarrow> distinct (map rc_id (concat (map g rs)))" for rs
  proof (induction rs)
    case (Cons r rs)
    then show ?case using sub [of _ rs] by (auto simp: g_def)
  qed simp
  have "sum_list (map (credit ?k) (concat (map g rs))) \<le> sum_list (map (credit ?k) rs)" for rs
  proof (induction rs)
    case (Cons r rs)
    have "sum_list (map (credit ?k) (g r)) \<le> credit ?k r" by (auto simp: g_def credit_def)
    with Cons show ?case by simp
  qed simp
  moreover have "opens (settle cf a ok m) = opens m" by (simp add: settle_def opens_def)
  moreover have "recoveries_ok (settle cf a ok m)"
    using assms dist sub unfolding recoveries_ok_def recs by (force simp: settle_def)
  ultimately show ?thesis unfolding credits_def recs by auto
qed

lemma connect_budget:
  "opens (snd (connectRecord r m)) \<le> Suc (opens m) \<and> mg_recoveries (snd (connectRecord r m)) = mg_recoveries m \<and>
   mg_next m \<le> mg_next (snd (connectRecord r m))"
proof -
  obtain e m1 where em: "entryFor (nd_nodeId r) m = (e, m1)" by fastforce
  have "opens m1 = opens m" "mg_recoveries m1 = mg_recoveries m" "mg_next m \<le> mg_next m1"
    using em by (auto simp: entryFor_def opens_def split: option.splits)
  then show ?thesis
    by (auto simp: connectRecord_def em Let_def opens_def emit_def upd_entry_def split: option.splits)
qed

lemma recover_budget:
  assumes "recoveries_ok m"
  shows "recoveries_ok (recover cf e r m) \<and>
    opens (recover cf e r m) + credits (cf_recoveryAttempts cf) (recover cf e r m) \<le>
      opens m + credits (cf_recoveryAttempts cf) m + cf_recoveryAttempts cf"
  using assms
  by (auto simp: recover_def recoveries_ok_def opens_def credits_def credit_def upd_entry_def)

lemma exited_budget:
  assumes "recoveries_ok m"
  shows "recoveries_ok (exited cf t m) \<and>
    opens (exited cf t m) + credits (cf_recoveryAttempts cf) (exited cf t m) \<le>
      opens m + credits (cf_recoveryAttempts cf) m + cf_recoveryAttempts cf"
proof (cases "List.find (\<lambda>(i, _). i = t) (mg_watches m)")
  case (Some w)
  obtain i e r where w: "w = (i, e, r)" by (metis surj_pair)
  let ?m1 = "m\<lparr>mg_watches := remove1 (t, e, r) (mg_watches m)\<rparr>"
  have s1: "same_counts m ?m1" by (intro same_intros)
  show ?thesis
  proof (cases "t \<in> set (mg_lost m) \<or> en_transport (mg_heap m e) \<noteq> Some t")
    case True
    with Some w same_budget [OF s1 assms, of "cf_recoveryAttempts cf"] show ?thesis by (auto simp: exited_def)
  next
    case False
    let ?m2 = "fail_entry e (''the SSH forward to '' @ quote (nd_title r) @ '' closed'') (?m1\<lparr>mg_lost := t # mg_lost ?m1\<rparr>)"
    have "same_counts m ?m2" by (intro same_intros s1)
    from same_budget [OF this assms] recover_budget [of ?m2 cf e r] False Some w show ?thesis
      by (simp add: exited_def)
  qed
qed (use assms in \<open>simp add: exited_def\<close>)

lemma failed_budget:
  assumes "recoveries_ok m"
  shows "recoveries_ok (request_failed cf e r l b err m) \<and>
    opens (request_failed cf e r l b err m) + credits (cf_recoveryAttempts cf) (request_failed cf e r l b err m) \<le>
      opens m + credits (cf_recoveryAttempts cf) m + cf_recoveryAttempts cf"
proof -
  have "same_counts m (fail_entry e err m)" by (intro same_intros)
  from same_budget [OF this assms] recover_budget [of "fail_entry e err m" cf e r] assms show ?thesis
    by (simp add: request_failed_def)
qed

lemma attempt_failed_budget:
  assumes "recoveries_ok m"
  shows "recoveries_ok (attempt_failed cf a err m) \<and>
    opens (attempt_failed cf a err m) + credits (cf_recoveryAttempts cf) (attempt_failed cf a err m) \<le>
      opens m + credits (cf_recoveryAttempts cf) m"
proof -
  let ?m1 = "fail_entry (at_entry a) (describeFailure (at_record a) err) m"
  have "same_counts m ?m1" by (intro same_intros)
  from same_budget [OF this assms] settle_budget [of ?m1 cf "at_id a" False] show ?thesis
    by (simp add: attempt_failed_def)
qed

lemma opened_budget:
  assumes "recoveries_ok m"
  shows "recoveries_ok (opened cf aid x m) \<and>
    opens (opened cf aid x m) + credits (cf_recoveryAttempts cf) (opened cf aid x m) \<le>
      opens m + credits (cf_recoveryAttempts cf) m"
proof (cases "find_attempt aid m")
  case (Some a)
  have "same_counts m (emit [Dial aid h p tok] (upd_entry e f (m\<lparr>mg_attempts := xs\<rparr>)))" for h p tok e f xs
    by (intro same_intros) auto
  from same_budget [OF this assms] attempt_failed_budget [OF assms, of cf a] Some assms show ?thesis
    by (auto simp: opened_def split: sum.splits)
qed (use assms in \<open>simp add: opened_def\<close>)

lemma dialed_budget:
  assumes "recoveries_ok m"
  shows "recoveries_ok (dialed cf aid x m) \<and>
    opens (dialed cf aid x m) + credits (cf_recoveryAttempts cf) (dialed cf aid x m) \<le>
      opens m + credits (cf_recoveryAttempts cf) m"
proof (cases "\<exists>a t live info. find_attempt aid m = Some a \<and> at_phase a = Dialing t \<and> x = Inr (live, info)")
  case True
  then obtain a t live info where found: "find_attempt aid m = Some a" "at_phase a = Dialing t" "x = Inr (live, info)"
    by blast
  let ?m1 = "upd_entry (at_entry a) (ready_entry (at_record a) t live info) m"
  let ?m2 = "if is_ssh (at_record a) then snd (ptcHostFor cf (at_entry a) (at_record a) ?m1) else ?m1"
  let ?m3 = "if tn_watched t then ?m2\<lparr>mg_watches := mg_watches ?m2 @ [(tn_id t, at_entry a, at_record a)]\<rparr> else ?m2"
  have "same_counts m ?m1" by (intro same_intros)
  then have "same_counts m ?m2" by (simp add: same_ptc)
  then have "same_counts m ?m3" by (simp add: same_fields)
  from same_budget [OF this assms] settle_budget [of ?m3 cf aid True] found show ?thesis
    by (simp add: dialed_def Let_def)
next
  case False
  with assms attempt_failed_budget [OF assms] show ?thesis
    by (auto simp: dialed_def split: option.splits phase.splits sum.splits)
qed

lemma timer_budget:
  assumes "recoveries_ok m"
  shows "recoveries_ok (timer i m) \<and> opens (timer i m) + credits k (timer i m) \<le> opens m + credits k m"
proof (cases "\<exists>rc. find_key rc_id i (mg_recoveries m) = Some rc \<and> rc_waiting rc = None")
  case True
  then obtain rc where rc: "find_key rc_id i (mg_recoveries m) = Some rc" "rc_waiting rc = None" by blast
  have same_id: "rc_id rc = i" using rc(1) by (auto dest: find_key_Some)
  have one: "credit k rc = Suc (credit k (rc\<lparr>rc_waiting := Some a\<rparr>))" for a using rc(2) by (simp add: credit_def)
  note dropped = sum_drop_key [OF rc(1), of "credit k"]
  have replaced: "sum_list (map (credit k) (replace_key rc_id (rc\<lparr>rc_waiting := Some a\<rparr>) (mg_recoveries m))) + 1
      = sum_list (map (credit k) (mg_recoveries m))" for a
    using sum_replace_key [of rc_id "mg_recoveries m" "rc\<lparr>rc_waiting := Some a\<rparr>" rc "credit k"] assms rc(1) one [of a]
    by (simp add: recoveries_ok_def same_id)
  note cb = connect_budget [of "rc_record rc" m]
  have drop_ok: "recoveries_ok (drop_recovery i m1) \<and> opens (drop_recovery i m1) + credits k (drop_recovery i m1)
      \<le> opens m + credits k m" if "opens m1 \<le> Suc (opens m)" "mg_recoveries m1 = mg_recoveries m" "mg_next m \<le> mg_next m1" for m1
    using that assms dropped one
    by (force simp: drop_recovery_def recoveries_ok_def drop_key_def opens_def credits_def distinct_map_filter)
  have wait_ok: "recoveries_ok (m1\<lparr>mg_recoveries := replace_key rc_id (rc\<lparr>rc_waiting := Some a\<rparr>) (mg_recoveries m1)\<rparr>) \<and>
      opens (m1\<lparr>mg_recoveries := replace_key rc_id (rc\<lparr>rc_waiting := Some a\<rparr>) (mg_recoveries m1)\<rparr>) +
      credits k (m1\<lparr>mg_recoveries := replace_key rc_id (rc\<lparr>rc_waiting := Some a\<rparr>) (mg_recoveries m1)\<rparr>)
      \<le> opens m + credits k m" if "opens m1 \<le> Suc (opens m)" "mg_recoveries m1 = mg_recoveries m" "mg_next m \<le> mg_next m1" for m1 a
  proof -
    have "rc_id ` set (replace_key rc_id (rc\<lparr>rc_waiting := Some a\<rparr>) (mg_recoveries m)) = rc_id ` set (mg_recoveries m)"
      by (metis list.set_map map_key_replace_key)
    then have "\<forall>x \<in> set (replace_key rc_id (rc\<lparr>rc_waiting := Some a\<rparr>) (mg_recoveries m)). rc_id x < mg_next m1"
      using assms that(3) unfolding recoveries_ok_def by (metis (no_types, lifting) image_iff order_less_le_trans)
    with that assms replaced [of a] show ?thesis
      by (simp add: recoveries_ok_def store_simps opens_def credits_def)
  qed
  show ?thesis
    using rc cb drop_ok [of m] drop_ok [of "snd (connectRecord (rc_record rc) m)"]
      wait_ok [of "snd (connectRecord (rc_record rc) m)"]
    by (auto simp: timer_def split_beta split: connect_answer.splits prod.splits)
qed (use assms in \<open>auto simp: timer_def split: option.splits\<close>)

fun step_budget :: "manager_config \<Rightarrow> machine_event \<Rightarrow> nat" where
  "step_budget cf (Ev_Connect _) = 1"
| "step_budget cf (Ev_Exited _) = cf_recoveryAttempts cf"
| "step_budget cf (Ev_Request_Failed _ _ _ _ _) = cf_recoveryAttempts cf"
| "step_budget cf _ = 0"

lemma step_within_budget:
  assumes "recoveries_ok m"
  shows "recoveries_ok (mg_step cf ev m) \<and>
    opens (mg_step cf ev m) + credits (cf_recoveryAttempts cf) (mg_step cf ev m) \<le>
      opens m + credits (cf_recoveryAttempts cf) m + step_budget cf ev"
proof (cases ev)
  case (Ev_Connect r)
  with connect_budget [of r m] assms show ?thesis by (force simp: recoveries_ok_def credits_def)
next
  case (Ev_Progressed a p)
  have "same_counts m (progressed a p m)" by (auto simp: progressed_def intro!: same_intros split: option.splits)
  from same_budget [OF this assms] Ev_Progressed show ?thesis by simp
next
  case (Ev_Installed i f)
  have "same_counts m (installed i f m)"
    by (auto simp: installed_def Let_def intro!: same_intros split: option.splits)
  from same_budget [OF this assms] Ev_Installed show ?thesis by simp
next
  case (Ev_Ptc_Host n)
  have "same_counts m (snd (mg_ptcHost cf n m))"
    by (auto simp: mg_ptcHost_def Let_def intro!: same_intros split: option.splits)
  from same_budget [OF this assms] Ev_Ptc_Host show ?thesis by simp
next
  case (Ev_Disconnect n)
  have "same_counts m (mg_disconnect n m)"
    by (auto simp: mg_disconnect_def intro!: same_intros split: option.splits)
  from same_budget [OF this assms] Ev_Disconnect show ?thesis by simp
next
  case Ev_Dispose
  have "same_counts m (mg_dispose m)"
    by (simp add: mg_dispose_def same_fields same_dispose same_refl)
  from same_budget [OF this assms] Ev_Dispose show ?thesis by simp
qed (use assms opened_budget dialed_budget exited_budget failed_budget timer_budget in auto)


end
