(* ===== verification/Uri.thy ===== *)
theory Uri
  imports Utf8
begin

section \<open>Percent-encoded path segments\<close>

text \<open>
  \<open>encodeURIComponent\<close> and \<open>decodeURIComponent\<close> of ECMAScript on strings as UTF-8 bytes. The input of
  the second is the path of a parsed URL, which is ASCII: an escape then never meets a raw byte of
  a longer character, and the decoded text is refused exactly when its bytes are not UTF-8.
\<close>

definition uri_unreserved :: "char \<Rightarrow> bool" where
  "uri_unreserved c \<longleftrightarrow>
     (let n = byte c in 0x30 \<le> n \<and> n \<le> 0x39 \<or> 0x41 \<le> n \<and> n \<le> 0x5A \<or> 0x61 \<le> n \<and> n \<le> 0x7A) \<or>
     c \<in> set ''-_.!~*()'' \<or> c = CHR 0x27"

definition hex_digit :: "nat \<Rightarrow> char" where
  "hex_digit n = char_of (if n < 10 then 0x30 + n else 0x41 + (n - 10))"

definition hex_value :: "char \<Rightarrow> nat option" where
  "hex_value c =
     (let n = byte c in
      if 0x30 \<le> n \<and> n \<le> 0x39 then Some (n - 0x30)
      else if 0x41 \<le> n \<and> n \<le> 0x46 then Some (n - 0x41 + 10)
      else if 0x61 \<le> n \<and> n \<le> 0x66 then Some (n - 0x61 + 10)
      else None)"

definition encode_byte :: "char \<Rightarrow> string" where
  "encode_byte c = (if uri_unreserved c then [c] else [CHR ''%'', hex_digit (byte c div 16), hex_digit (byte c mod 16)])"

definition encodeURIComponent :: "string \<Rightarrow> string" where
  "encodeURIComponent s = concat (map encode_byte s)"

fun percent_decode :: "string \<Rightarrow> bytes option" where
  "percent_decode [] = Some []"
| "percent_decode (c # s) =
     (if c = CHR ''%'' then
        (case s of
           h # l # rest \<Rightarrow>
             (case (hex_value h, hex_value l) of
                (Some a, Some b) \<Rightarrow> map_option ((#) (char_of (16 * a + b))) (percent_decode rest)
              | _ \<Rightarrow> None)
         | _ \<Rightarrow> None)
      else map_option ((#) c) (percent_decode s))"

definition decodeURIComponent :: "string \<Rightarrow> string option" where
  "decodeURIComponent s =
     (case percent_decode s of None \<Rightarrow> None | Some b \<Rightarrow> if utf8_valid b then Some b else None)"

subsection \<open>Decoding what was encoded\<close>

lemma byte_lt: "byte c < 256"
  by (simp add: byte_def)

lemma char_of_byte [simp]: "char_of (byte c) = c"
  by (simp add: byte_def)

lemma hex_roundtrip: "n < 16 \<Longrightarrow> hex_value (hex_digit n) = Some n"
  by (auto simp: hex_value_def hex_digit_def byte_def Let_def)

lemma percent_decode_byte: "percent_decode (encode_byte c @ s) = map_option ((#) c) (percent_decode s)"
proof (cases "uri_unreserved c")
  case True
  then have "c \<noteq> CHR ''%''" by (auto simp: uri_unreserved_def byte_def Let_def)
  with True show ?thesis by (simp add: encode_byte_def)
next
  case False
  have "byte c div 16 < 16" using byte_lt [of c] by (simp add: less_mult_imp_div_less)
  with False show ?thesis by (simp add: encode_byte_def hex_roundtrip mult.commute [of 16])
qed

lemma percent_decode_encode: "percent_decode (encodeURIComponent s @ t) = map_option ((@) s) (percent_decode t)"
  by (induction s) (simp_all add: encodeURIComponent_def percent_decode_byte option.map_ident option.map_comp o_def)

lemma decode_encode_component: "utf8_valid s \<Longrightarrow> decodeURIComponent (encodeURIComponent s) = Some s"
  using percent_decode_encode [of s "[]"] by (simp add: decodeURIComponent_def)

lemma hex_digit_plain: "n < 16 \<Longrightarrow> hex_digit n \<noteq> CHR ''/''"
  using hex_roundtrip [of n] by (auto simp: hex_value_def byte_def Let_def)

lemma encode_no_slash: "CHR ''/'' \<notin> set (encodeURIComponent s)"
proof -
  have "CHR ''/'' \<notin> set (encode_byte c)" for c
    using byte_lt [of c] hex_digit_plain [of "byte c div 16"] hex_digit_plain [of "byte c mod 16"]
    by (auto simp: encode_byte_def uri_unreserved_def byte_def Let_def less_mult_imp_div_less)
  then show ?thesis by (auto simp: encodeURIComponent_def)
qed

lemma encode_Nil [simp]: "encodeURIComponent [] = []"
  by (simp add: encodeURIComponent_def)

end
