(* ===== verification/Management_Api.thy ===== *)
theory Management_Api
  imports Worktrees Machine_Runs Terminal_Registry Uri
begin

section \<open>The management API: plugin/api.ts\<close>

text \<open>
  The requests a browser makes, over the four things the plugin keeps: the machine registry, the
  repositories and anchors with the worktree lifecycle, the connection manager and the terminals.
  A handler is a computation; what a machine, the file system or git answers is a function of the
  calls made before, and while a call is awaited the connection manager goes on by events of its
  own, any number of them.
\<close>

subsection \<open>Requests and responses\<close>

record api_request =
  rq_method :: string
  rq_path :: string
  rq_query :: "(string \<times> string) list"
  rq_body :: "json option"

datatype api_failure =
    Api_Error nat string
  | Request_Failed "string option" string
  | Work_Failure wt_error
  | Node_Failure store_error
  | Repo_Failure store_error

record repo_report =
  rp_repo :: repo_record
  rp_git :: bool
  rp_worktreeRoot :: "string option"
  rp_error :: "string option"

record dir_row =
  dr_name :: string
  dr_type :: string
  dr_path :: string
  dr_size :: "js_number option"

datatype api_body =
    Body_Error api_failure
  | Body_Nodes "node_view list" "node_status list"
  | Body_Node node_view
  | Body_Node_Status node_view node_status
  | Body_Status node_status
  | Body_Deleted bool
  | Body_Listing string "dir_row list"
  | Body_Repos "repo_report list"
  | Body_Repo repo_report
  | Body_Anchor anchor_record
  | Body_Closed bool
  | Body_Existing "existing_worktree list"
  | Body_Worktree anchor_record
  | Body_Worktrees "worktree_status list"
  | Body_Removal worktree_removal
  | Body_Terminals "terminal_view list"

record api_response =
  re_status :: nat
  re_body :: api_body

text \<open>The message a failure carries, as far as it is text of the failing call itself.\<close>

definition failure_text :: "api_failure \<Rightarrow> string" where
  "failure_text f =
     (case f of Api_Error _ m \<Rightarrow> m | Request_Failed _ m \<Rightarrow> m | Work_Failure e \<Rightarrow> error_text e | _ \<Rightarrow> [])"

subsection \<open>State and environment\<close>

record api_state =
  ap_nodes :: "node_store \<times> file_state"
  ap_work :: wt_state
  ap_machines :: manager
  ap_shells :: registry

type_synonym 'a api = "(api_state, api_failure, 'a) comp"

datatype dirent_kind = D_Directory | D_File | D_Symlink | D_Other

record api_env =
  ae_work :: wt_env
  ae_config :: manager_config
  ae_home :: string
  ae_root :: string
  ae_regex :: regex_engine
  ae_events :: "call list \<Rightarrow> machine_event list"
  ae_resolved :: "call list \<Rightarrow> (string option \<times> string) + string"
  ae_type :: "call list \<Rightarrow> (string option \<times> string) + string option"
  ae_listing :: "call list \<Rightarrow> (string option \<times> string) + dir_row list"
  ae_repoState :: "call list \<Rightarrow> (string option \<times> string) + unit"
  ae_dirents :: "call list \<Rightarrow> string + (string \<times> dirent_kind) list"
  ae_attempt :: "call list \<Rightarrow> string + unit"

definition moved :: "api_env \<Rightarrow> api_state \<Rightarrow> api_state" where
  "moved env s =
     s\<lparr>ap_machines := fold (mg_step (ae_config env)) (ae_events env (wt_trace (ap_work s))) (ap_machines s)\<rparr>"

definition logged :: "call \<Rightarrow> api_state \<Rightarrow> api_state" where
  "logged c s = s\<lparr>ap_work := (ap_work s)\<lparr>wt_trace := wt_trace (ap_work s) @ [c]\<rparr>\<rparr>"

text \<open>A value or a failure that is already there; a call to the outside that is awaited.\<close>

definition hoist :: "api_failure + 'a \<Rightarrow> 'a api" where
  "hoist r = (\<lambda>s. (r, s))"

definition await :: "api_env \<Rightarrow> (call list \<Rightarrow> api_failure + 'a) \<Rightarrow> call \<Rightarrow> 'a api" where
  "await env answer c =
     (\<lambda>s. let s' = logged c s in (answer (wt_trace (ap_work s')), moved env s'))"

definition request :: "(string option \<times> string) + 'a \<Rightarrow> api_failure + 'a" where
  "request r = (case r of Inl (code, m) \<Rightarrow> Inl (Request_Failed code m) | Inr x \<Rightarrow> Inr x)"

definition isLocalNode :: "node_store \<Rightarrow> string \<Rightarrow> bool" where
  "isLocalNode ns nodeId =
     (case node_get nodeId ns of Inr (Some r) \<Rightarrow> nd_transport r = Local_Transport | _ \<Rightarrow> False)"

definition on_work :: "api_env \<Rightarrow> (wt_env \<Rightarrow> 'a wt) \<Rightarrow> 'a api" where
  "on_work env m =
     (\<lambda>s. case m ((ae_work env)\<lparr>we_isLocal := isLocalNode (fst (ap_nodes s))\<rparr>) (ap_work s) of
        (Inl e, w) \<Rightarrow> (Inl (Work_Failure e), moved env (s\<lparr>ap_work := w\<rparr>))
      | (Inr x, w) \<Rightarrow> (Inr x, moved env (s\<lparr>ap_work := w\<rparr>)))"

definition nodes_now :: "(node_store \<Rightarrow> store_error + 'a) \<Rightarrow> 'a api" where
  "nodes_now f = (\<lambda>s. (case f (fst (ap_nodes s)) of Inl e \<Rightarrow> Inl (Node_Failure e) | Inr x \<Rightarrow> Inr x, s))"

definition repos_read :: "(repo_store \<Rightarrow> store_error + 'a) \<Rightarrow> 'a api" where
  "repos_read f = (\<lambda>s. (case f (fst (wt_repos (ap_work s))) of Inl e \<Rightarrow> Inl (Repo_Failure e) | Inr x \<Rightarrow> Inr x, s))"

text \<open>An operation of a store that writes its document; the clock, the generated id and the outcome
  of the write come from the environment.\<close>

definition node_write ::
  "api_env \<Rightarrow> call \<Rightarrow> (string \<Rightarrow> string \<Rightarrow> string option \<Rightarrow> node_store \<times> file_state \<Rightarrow> (store_error + 'a) \<times> node_store \<times> file_state)
     \<Rightarrow> 'a api" where
  "node_write env c f =
     (\<lambda>s. let w = ae_work env; tr = wt_trace (ap_work s);
            (r, sd) = f (we_stamp w tr) (we_uuid w tr) (we_write_failure w tr) (ap_nodes s)
          in case r of
               Inl e \<Rightarrow> (Inl (Node_Failure e), moved env (s\<lparr>ap_nodes := sd\<rparr>))
             | Inr x \<Rightarrow> (Inr x, moved env (logged c (s\<lparr>ap_nodes := sd\<rparr>))))"

definition repo_write ::
  "api_env \<Rightarrow> call \<Rightarrow> (string \<Rightarrow> string \<Rightarrow> string option \<Rightarrow> repo_store \<times> file_state \<Rightarrow> (store_error + 'a) \<times> repo_store \<times> file_state)
     \<Rightarrow> 'a api" where
  "repo_write env c f =
     (\<lambda>s. let w = ae_work env; tr = wt_trace (ap_work s);
            (r, sd) = f (we_stamp w tr) (we_uuid w tr) (we_write_failure w tr) (wt_repos (ap_work s))
          in case r of
               Inl e \<Rightarrow> (Inl (Repo_Failure e), moved env (s\<lparr>ap_work := (ap_work s)\<lparr>wt_repos := sd\<rparr>\<rparr>))
             | Inr x \<Rightarrow> (Inr x, moved env (logged c (s\<lparr>ap_work := (ap_work s)\<lparr>wt_repos := sd\<rparr>\<rparr>))))"

subsection \<open>Reading a request\<close>

definition stringField :: "json option \<Rightarrow> string \<Rightarrow> string option" where
  "stringField v key = (case v of None \<Rightarrow> None | Some j \<Rightarrow> jstring (jfield j key))"

definition notAllowed :: "api_request \<Rightarrow> api_failure" where
  "notAllowed rq = Api_Error 405 (rq_method rq @ '' is not allowed on '' @ rq_path rq)"

definition unknown_endpoint :: "api_request \<Rightarrow> api_failure" where
  "unknown_endpoint rq = Api_Error 404 (''unknown endpoint '' @ rq_method rq @ '' '' @ rq_path rq)"

definition requireString :: "json option \<Rightarrow> string \<Rightarrow> api_failure + string" where
  "requireString body key =
     (case map_option trim (stringField body key) of
        None \<Rightarrow> Inl (Api_Error 400 (quote key @ '' is required and must be a non-empty string''))
      | Some v \<Rightarrow>
          (if v = [] then Inl (Api_Error 400 (quote key @ '' is required and must be a non-empty string'')) else Inr v))"

definition is_object :: "json option \<Rightarrow> bool" where
  "is_object v = (case v of Some (JObj _) \<Rightarrow> True | Some (JArr _) \<Rightarrow> True | _ \<Rightarrow> False)"

definition body_field :: "json option \<Rightarrow> string \<Rightarrow> json option" where
  "body_field v key = (case v of None \<Rightarrow> None | Some j \<Rightarrow> jfield j key)"

definition valid_port :: "json \<Rightarrow> js_number option" where
  "valid_port v =
     (case v of JNum (Whole n) \<Rightarrow> if 1 \<le> n \<and> n \<le> 65535 then Some (Whole n) else None | _ \<Rightarrow> None)"

definition requireTransport :: "json option \<Rightarrow> api_failure + transport" where
  "requireTransport body =
     (let ssh = body_field body ''ssh'' in
      if \<not> is_object ssh then Inl (Api_Error 400 (quote ''ssh'' @ '' is required and must name how to reach the machine''))
      else
        (let target = (case stringField ssh ''target'' of None \<Rightarrow> [] | Some t \<Rightarrow> trim t);
             identity = (case stringField ssh ''identityFile'' of None \<Rightarrow> [] | Some t \<Rightarrow> trim t)
         in if target = [] then Inl (Api_Error 400 (quote ''ssh.target'' @ '' is required and must be a non-empty string''))
            else (case optional (\<lambda>v. Option.bind v valid_port) (body_field ssh ''port'') of
                    None \<Rightarrow> Inl (Api_Error 400 (quote ''ssh.port'' @ '' must be between 1 and 65535''))
                  | Some port \<Rightarrow> Inr (Ssh target port (if identity = [] then None else Some identity)))))"

definition query_get :: "api_request \<Rightarrow> string \<Rightarrow> string option" where
  "query_get rq key = map_of (rq_query rq) key"

subsection \<open>The machines a request reaches\<close>

definition api_statusOf :: "manager \<Rightarrow> node_record \<Rightarrow> node_status" where
  "api_statusOf m r =
     (if nd_transport r = Local_Transport then statusOf (nd_nodeId r) (blank_entry\<lparr>en_state := Ready\<rparr>)
      else mg_status (nd_nodeId r) m)"

definition api_requireChannel :: "string \<Rightarrow> unit api" where
  "api_requireChannel nodeId =
     (\<lambda>s. (case mg_channel nodeId (ap_machines s) of
             None \<Rightarrow> Inl (Api_Error 409 (''node '' @ quote nodeId @ '' is not connected''))
           | Some _ \<Rightarrow> Inr (), s))"

definition requireNode :: "string \<Rightarrow> node_record api" where
  "requireNode nodeId =
     wbind (nodes_now (node_get nodeId)) (\<lambda>found. case found of
       None \<Rightarrow> wfail (Api_Error 404 (''no node '' @ quote nodeId)) | Some r \<Rightarrow> wret r)"

definition resolveOnNode :: "api_env \<Rightarrow> node_record \<Rightarrow> string \<Rightarrow> string api" where
  "resolveOnNode env r p =
     (if nd_transport r = Local_Transport then on_work env (\<lambda>we. resolveLocalPath we p)
      else wbind (api_requireChannel (nd_nodeId r)) (\<lambda>_.
        await env (\<lambda>tr. request (ae_resolved env tr)) (Ask_Resolve (nd_nodeId r) p)))"

definition statOnNode :: "api_env \<Rightarrow> node_record \<Rightarrow> string \<Rightarrow> string option api" where
  "statOnNode env r p =
     (if nd_transport r = Local_Transport then on_work env (\<lambda>we. localPathType we p)
      else wbind (api_requireChannel (nd_nodeId r)) (\<lambda>_.
        await env (\<lambda>tr. request (ae_type env tr)) (Ask_Stat (nd_nodeId r) p)))"

definition dirent_name :: "dirent_kind \<Rightarrow> string" where
  "dirent_name k =
     (case k of D_Directory \<Rightarrow> ''directory'' | D_File \<Rightarrow> ''file'' | D_Symlink \<Rightarrow> ''symlink'' | D_Other \<Rightarrow> ''other'')"

definition listLocalDir :: "api_env \<Rightarrow> string \<Rightarrow> dir_row list api" where
  "listLocalDir env p =
     wbind (await env (\<lambda>tr. case ae_dirents env tr of Inl m \<Rightarrow> Inl (Request_Failed None m) | Inr es \<Rightarrow> Inr es) (Local_ListDir p)) (\<lambda>es.
       wret (map (\<lambda>(name, k). \<lparr>dr_name = name, dr_type = dirent_name k,
                               dr_path = posix_resolve (we_cwd (ae_work env)) (p @ ''/'' @ name), dr_size = None\<rparr>) es))"

text \<open>\<open>worktreeRoot\<close> of the composition root: the configured directory, a leading \<open>~\<close> being the home
  of the machine.\<close>

definition worktreeRoot :: "api_env \<Rightarrow> api_state \<Rightarrow> string \<Rightarrow> string + string" where
  "worktreeRoot env s nodeId =
     (if \<not> startsWith (ae_root env) ''~'' then Inr (ae_root env)
      else (case if isLocalNode (fst (ap_nodes s)) nodeId then Some (ae_home env)
                 else map_option ni_homedir (st_info (mg_status nodeId (ap_machines s))) of
              None \<Rightarrow> Inl (''the home directory of '' @ quote nodeId @ '' is unknown; connect that machine first'')
            | Some home \<Rightarrow> Inr (posix_join [home, drop 1 (ae_root env)])))"

subsection \<open>Repositories\<close>

definition said_not_a_repository :: "api_failure \<Rightarrow> bool" where
  "said_not_a_repository f =
     (case f of Request_Failed code _ \<Rightarrow> code = Some ''GIT_NOT_A_REPOSITORY'' | _ \<Rightarrow> False)"

definition reportRepo :: "api_env \<Rightarrow> repo_record \<Rightarrow> repo_report api" where
  "reportRepo env r =
     inspect (\<lambda>s0. let root = (case worktreeRoot env s0 (rr_nodeId r) of Inl _ \<Rightarrow> None | Inr p \<Rightarrow> Some p) in
       wbind (nodes_now (node_get (rr_nodeId r))) (\<lambda>node.
       wbind
         (wcatch
           (if map_option nd_transport node = Some Local_Transport
            then wbind (on_work env (\<lambda>we. isRepository we (rr_repoPath r))) (\<lambda>git. wret (git, None))
            else inspect (\<lambda>s. if mg_channel (rr_nodeId r) (ap_machines s) = None
                      then wret (False, Some (''node '' @ quote (rr_nodeId r) @ '' is not connected''))
                      else wbind (await env (\<lambda>tr. request (ae_repoState env tr)) (Ask_RepoState (rr_nodeId r) (rr_repoPath r)))
                             (\<lambda>_. wret (True, None))))
           (\<lambda>f. wret (False, if said_not_a_repository f then None else Some (failure_text f))))
         (\<lambda>(git, error). wret \<lparr>rp_repo = r, rp_git = git, rp_worktreeRoot = root, rp_error = error\<rparr>)))"

definition ok :: "nat \<Rightarrow> api_body \<Rightarrow> api_response api" where
  "ok status body = wret \<lparr>re_status = status, re_body = body\<rparr>"

text \<open>\<open>...name === undefined || name === '' ? {} : { name }\<close>.\<close>

definition nonempty :: "string option \<Rightarrow> string option" where
  "nonempty v = (case v of None \<Rightarrow> None | Some t \<Rightarrow> if t = [] then None else Some t)"

definition registerRepo :: "api_env \<Rightarrow> json option \<Rightarrow> api_response api" where
  "registerRepo env body =
     wbind (hoist (requireString body ''nodeId'')) (\<lambda>nodeId.
     wbind (hoist (requireString body ''repoPath'')) (\<lambda>requested.
     wbind (requireNode nodeId) (\<lambda>node.
     wbind (resolveOnNode env node requested) (\<lambda>repoPath.
     wbind (statOnNode env node repoPath) (\<lambda>target. case target of
       None \<Rightarrow> wfail (Api_Error 400 (quote repoPath @ '' does not exist on that machine''))
     | Some t \<Rightarrow>
         if t \<noteq> ''directory''
         then wfail (Api_Error 400 (quote repoPath @ '' is a '' @ t @ '' on that machine, not a directory''))
         else
           wbind (repos_read (repo_find nodeId repoPath)) (\<lambda>existing.
           let d = \<lparr>rd_repoId = map_option rr_repoId existing, rd_nodeId = nodeId, rd_repoPath = repoPath,
                    rd_name = nonempty (map_option trim (stringField body ''name''))\<rparr>
           in wbind (repo_write env (Repo_Stored d) (\<lambda>stamp uuid failure. repo_upsert stamp uuid failure d)) (\<lambda>r.
              wbind (reportRepo env r) (\<lambda>report.
              ok (if existing = None then 201 else 200) (Body_Repo report)))))))))"

definition removeRepo :: "api_env \<Rightarrow> repo_record \<Rightarrow> api_response api" where
  "removeRepo env r =
     wbind (on_work env (\<lambda>we. wt_anchorsIn we (rr_nodeId r) (rr_repoPath r))) (\<lambda>anchors.
     let held = filter is_worktree anchors in
     if length held > 0
     then wfail (Api_Error 409 (str_nat (length held) @ '' worktree(s) still belong to this repository; remove them first''))
     else
       wbind (on_work env (\<lambda>we. wt_closeDirectory we (rr_nodeId r) (rr_repoPath r))) (\<lambda>_.
       wbind (repo_write env (Repo_Dropped (rr_repoId r)) (\<lambda>_ _ failure. repo_remove failure (rr_repoId r))) (\<lambda>gone.
       ok 200 (Body_Deleted gone))))"

definition handleRepos :: "api_env \<Rightarrow> api_request \<Rightarrow> string list \<Rightarrow> api_response api" where
  "handleRepos env rq parts =
     (case parts of
        [] \<Rightarrow>
          (if rq_method rq = ''GET'' then
             wbind (repos_read repo_list) (\<lambda>repos.
             wbind (wmap (reportRepo env) repos) (\<lambda>reports. ok 200 (Body_Repos reports)))
           else if rq_method rq = ''POST'' then registerRepo env (rq_body rq)
           else wfail (notAllowed rq))
      | repoId # rest \<Rightarrow>
          wbind (repos_read (repo_get repoId)) (\<lambda>found. case found of
            None \<Rightarrow> wfail (Api_Error 404 (''no repository '' @ quote repoId))
          | Some r \<Rightarrow>
              (case rest of
                 action # _ \<Rightarrow>
                   (if action = ''open'' \<or> action = ''close'' then
                      (if rq_method rq \<noteq> ''POST'' then wfail (notAllowed rq)
                       else if action = ''open'' then
                         wbind (on_work env (\<lambda>we. wt_openDirectory we (rr_nodeId r) (rr_repoPath r))) (\<lambda>a. ok 200 (Body_Anchor a))
                       else
                         wbind (on_work env (\<lambda>we. wt_closeDirectory we (rr_nodeId r) (rr_repoPath r))) (\<lambda>a.
                           ok 200 (Body_Closed (a \<noteq> None))))
                    else if action = ''worktrees'' then
                      (if rq_method rq = ''GET'' then
                         wbind (on_work env (\<lambda>we. listExisting we (rr_nodeId r) (rr_repoPath r))) (\<lambda>ws. ok 200 (Body_Existing ws))
                       else if rq_method rq = ''POST'' then
                         wbind (hoist (requireString (rq_body rq) ''path'')) (\<lambda>p.
                         wbind (on_work env (\<lambda>we. wt_adopt we (rr_nodeId r) (rr_repoPath r) p)) (\<lambda>a. ok 201 (Body_Worktree a)))
                       else wfail (notAllowed rq))
                    else wfail (unknown_endpoint rq))
               | [] \<Rightarrow>
                   (if rq_method rq = ''GET'' then wbind (reportRepo env r) (\<lambda>report. ok 200 (Body_Repo report))
                    else if rq_method rq = ''DELETE'' then removeRepo env r
                    else wfail (notAllowed rq)))))"

subsection \<open>Worktrees\<close>

definition worktree_target :: "json option \<Rightarrow> (string \<times> string) api" where
  "worktree_target body =
     (case nonempty (map_option trim (stringField body ''repoId'')) of
        None \<Rightarrow>
          wbind (hoist (requireString body ''nodeId'')) (\<lambda>nodeId.
          wbind (hoist (requireString body ''repoPath'')) (\<lambda>repoPath. wret (nodeId, repoPath)))
      | Some repoId \<Rightarrow>
          wbind (repos_read (repo_get repoId)) (\<lambda>found. case found of
            None \<Rightarrow> wfail (Api_Error 404 (''no repository '' @ quote repoId))
          | Some r \<Rightarrow> wret (rr_nodeId r, rr_repoPath r)))"

definition createWorktree :: "api_env \<Rightarrow> json option \<Rightarrow> api_response api" where
  "createWorktree env body =
     wbind (worktree_target body) (\<lambda>(nodeId, repoPath).
     let path = nonempty (map_option trim (stringField body ''path'')) in
     if path \<noteq> None \<and> \<not> startsWith (the path) ''/''
     then wfail (Api_Error 400 (quote ''path'' @ '' must be absolute: '' @ quote (the path)))
     else
       wbind (hoist (requireString body ''name'')) (\<lambda>name.
       wbind (on_work env (\<lambda>we. wt_create we
           \<lparr>wd_nodeId = nodeId, wd_repoPath = repoPath, wd_name = name, wd_path = path, wd_baseRef = stringField body ''baseRef''\<rparr>))
         (\<lambda>a. ok 201 (Body_Worktree a))))"

definition handleWorktrees :: "api_env \<Rightarrow> api_request \<Rightarrow> string list \<Rightarrow> api_response api" where
  "handleWorktrees env rq parts =
     (case parts of
        [] \<Rightarrow>
          (if rq_method rq = ''GET'' then wbind (on_work env wt_list) (\<lambda>ws. ok 200 (Body_Worktrees ws))
           else if rq_method rq = ''POST'' then createWorktree env (rq_body rq)
           else wfail (notAllowed rq))
      | anchorId # rest \<Rightarrow>
          (case rest of
             action # _ \<Rightarrow>
               (if action = ''open'' \<or> action = ''close'' \<or> action = ''release'' then
                  (if rq_method rq \<noteq> ''POST'' then wfail (notAllowed rq)
                   else wbind (on_work env (\<lambda>we.
                          if action = ''release'' then wt_release we anchorId
                          else if action = ''open'' then wt_open we anchorId
                          else wt_close we anchorId)) (\<lambda>a. ok 200 (Body_Worktree a)))
                else wfail (unknown_endpoint rq))
           | [] \<Rightarrow>
               (if rq_method rq = ''DELETE'' then
                  wbind (on_work env (\<lambda>we. wt_remove we anchorId
                      \<lparr>ro_force = (query_get rq ''force'' = Some ''true''),
                       ro_deleteBranch = (query_get rq ''deleteBranch'' = Some ''true'')\<rparr>))
                    (\<lambda>removal. ok 200 (Body_Removal removal))
                else wfail (unknown_endpoint rq))))"

subsection \<open>Terminals\<close>

definition endShell :: "api_env \<Rightarrow> string \<Rightarrow> bool api" where
  "endShell env tid =
     (\<lambda>s. case reg_kill (ae_regex env) tid (ap_shells s) of
        (shells, gone, _) \<Rightarrow>
          (Inr gone, if gone then moved env (logged (Shell_Ended tid) (s\<lparr>ap_shells := shells\<rparr>)) else moved env s))"

definition handleTerminals :: "api_env \<Rightarrow> api_request \<Rightarrow> string list \<Rightarrow> api_response api" where
  "handleTerminals env rq parts =
     (case parts of
        [] \<Rightarrow>
          (if rq_method rq \<noteq> ''GET'' then wfail (notAllowed rq)
           else
             (let sessionId = trim (case query_get rq ''sessionId'' of None \<Rightarrow> [] | Some v \<Rightarrow> v) in
              if sessionId = [] then wfail (Api_Error 400 (quote ''sessionId'' @ '' is required''))
              else inspect (\<lambda>s. ok 200 (Body_Terminals (listFor sessionId (ap_shells s))))))
      | tid # rest \<Rightarrow>
          (if rest = [] \<or> hd rest \<noteq> ''close'' then wfail (unknown_endpoint rq)
           else if rq_method rq \<noteq> ''POST'' then wfail (notAllowed rq)
           else wbind (endShell env tid) (\<lambda>gone.
             if gone then ok 200 (Body_Closed True) else wfail (Api_Error 404 (''no terminal '' @ quote tid)))))"

subsection \<open>Machines\<close>

definition listNodes :: "api_response api" where
  "listNodes =
     wbind (nodes_now node_list) (\<lambda>rs.
       inspect (\<lambda>s. ok 200 (Body_Nodes (map toNodeView rs) (map (api_statusOf (ap_machines s)) rs))))"

definition addNode :: "api_env \<Rightarrow> json option \<Rightarrow> api_response api" where
  "addNode env body =
     wbind (hoist (requireTransport body)) (\<lambda>transport.
     wbind (hoist (requireString body ''token'')) (\<lambda>token.
     let d = \<lparr>ndr_nodeId = None, ndr_title = stringField body ''title'', ndr_transport = transport, ndr_token = token\<rparr> in
     wbind (node_write env (Node_Stored d) (\<lambda>stamp uuid failure. node_upsert stamp uuid failure d)) (\<lambda>r.
     ok 201 (Body_Node (toNodeView r)))))"

definition disconnectNode :: "string \<Rightarrow> unit api" where
  "disconnectNode nodeId =
     (\<lambda>s. (Inr (), logged (Do_Disconnect nodeId) (s\<lparr>ap_machines := mg_disconnect nodeId (ap_machines s)\<rparr>)))"

text \<open>The attempt a caller joins or starts ends while it is awaited; a machine that is ready answers
  at once.\<close>

definition connectNode :: "api_env \<Rightarrow> node_record \<Rightarrow> unit api" where
  "connectNode env r =
     (\<lambda>s. case connectRecord r (ap_machines s) of
        (Already _, m) \<Rightarrow> (Inr (), moved env (logged (Do_Connect (nd_nodeId r)) (s\<lparr>ap_machines := m\<rparr>)))
      | (_, m) \<Rightarrow>
          await env (\<lambda>tr. case ae_attempt env tr of Inl msg \<Rightarrow> Inl (Request_Failed None msg) | Inr x \<Rightarrow> Inr x)
            (Do_Connect (nd_nodeId r)) (s\<lparr>ap_machines := m\<rparr>))"

definition removeNode :: "api_env \<Rightarrow> node_record \<Rightarrow> string \<Rightarrow> api_response api" where
  "removeNode env r nodeId =
     (if nd_transport r = Local_Transport
      then wfail (Api_Error 400 ''the local machine is built in and cannot be removed'')
      else
        wbind (disconnectNode nodeId) (\<lambda>_.
        wbind (node_write env (Node_Dropped nodeId) (\<lambda>_ _ failure. node_remove failure nodeId)) (\<lambda>gone.
        wbind (if gone
               then wbind (repo_write env (Repos_Of_Node_Dropped nodeId) (\<lambda>_ _ failure. repo_removeByNode failure nodeId)) (\<lambda>_. wret ())
               else wret ()) (\<lambda>_.
        ok 200 (Body_Deleted gone)))))"

definition changeNode :: "api_env \<Rightarrow> node_record \<Rightarrow> string \<Rightarrow> json option \<Rightarrow> api_response api" where
  "changeNode env r nodeId body =
     (if nd_transport r = Local_Transport
      then wfail (Api_Error 400 ''the local machine is built in and cannot be changed'')
      else
        wbind (if body_field body ''ssh'' = None then wret (nd_transport r) else hoist (requireTransport body)) (\<lambda>transport.
        let d = \<lparr>ndr_nodeId = Some nodeId,
                 ndr_title = Some (case stringField body ''title'' of None \<Rightarrow> nd_title r | Some t \<Rightarrow> t),
                 ndr_transport = transport,
                 ndr_token = (case stringField body ''token'' of None \<Rightarrow> nd_token r | Some t \<Rightarrow> t)\<rparr>
        in wbind (node_write env (Node_Stored d) (\<lambda>stamp uuid failure. node_upsert stamp uuid failure d)) (\<lambda>updated.
           ok 200 (Body_Node (toNodeView updated)))))"

definition listDirs :: "api_env \<Rightarrow> api_request \<Rightarrow> node_record \<Rightarrow> string \<Rightarrow> api_response api" where
  "listDirs env rq r nodeId =
     (let requested = trim (case query_get rq ''path'' of None \<Rightarrow> [] | Some v \<Rightarrow> v) in
      if nd_transport r = Local_Transport then
        wbind (on_work env (\<lambda>we. resolveLocalPath we (if requested = [] then ae_home env else requested))) (\<lambda>p.
        wbind (listLocalDir env p) (\<lambda>es. ok 200 (Body_Listing p es)))
      else
        inspect (\<lambda>s0. let start = (if requested \<noteq> [] then requested
                          else (case st_info (mg_status nodeId (ap_machines s0)) of None \<Rightarrow> ''/'' | Some i \<Rightarrow> ni_homedir i)) in
          wbind (resolveOnNode env r start) (\<lambda>p.
          wbind (api_requireChannel nodeId) (\<lambda>_.
          wbind (await env (\<lambda>tr. request (ae_listing env tr)) (Ask_ListDir nodeId p)) (\<lambda>es.
          ok 200 (Body_Listing p es))))))"

definition handleNodes :: "api_env \<Rightarrow> api_request \<Rightarrow> string list \<Rightarrow> api_response api" where
  "handleNodes env rq parts =
     (case parts of
        [] \<Rightarrow>
          (if rq_method rq = ''GET'' then listNodes
           else if rq_method rq = ''POST'' then addNode env (rq_body rq)
           else wfail (notAllowed rq))
      | nodeId # rest \<Rightarrow>
          wbind (requireNode nodeId) (\<lambda>r.
          case rest of
            [] \<Rightarrow>
              (if rq_method rq = ''GET'' then
                 inspect (\<lambda>s. ok 200 (Body_Node_Status (toNodeView r) (api_statusOf (ap_machines s) r)))
               else if rq_method rq = ''DELETE'' then removeNode env r nodeId
               else if rq_method rq = ''PATCH'' then changeNode env r nodeId (rq_body rq)
               else wfail (notAllowed rq))
          | action # _ \<Rightarrow>
              (if action = ''connect'' \<or> action = ''disconnect'' then
                 (if rq_method rq \<noteq> ''POST'' then wfail (notAllowed rq)
                  else
                    wbind (if nd_transport r = Local_Transport then wret ()
                           else if action = ''disconnect'' then disconnectNode nodeId
                           else connectNode env r) (\<lambda>_.
                      inspect (\<lambda>s. ok 200 (Body_Status (api_statusOf (ap_machines s) r)))))
               else if action = ''dirs'' then
                 (if rq_method rq \<noteq> ''GET'' then wfail (notAllowed rq) else listDirs env rq r nodeId)
               else wfail (unknown_endpoint rq))))"

subsection \<open>One request\<close>

definition api_parts :: "string \<Rightarrow> string list" where
  "api_parts p = filter (\<lambda>seg. seg \<noteq> []) (split_on (CHR ''/'') p)"

definition failure_status :: "api_failure \<Rightarrow> nat" where
  "failure_status f = (case f of Api_Error status _ \<Rightarrow> status | _ \<Rightarrow> 502)"

definition dispatch :: "api_env \<Rightarrow> api_request \<Rightarrow> api_response api" where
  "dispatch env rq =
     (case api_parts (rq_path rq) of
        [] \<Rightarrow> wfail (unknown_endpoint rq)
      | head # parts \<Rightarrow>
          (if head = ''terminals'' then handleTerminals env rq parts
           else if head = ''worktrees'' then handleWorktrees env rq parts
           else if head = ''repos'' then handleRepos env rq parts
           else if head = ''nodes'' then handleNodes env rq parts
           else wfail (unknown_endpoint rq)))"

definition handleNodeApi :: "api_env \<Rightarrow> api_request \<Rightarrow> api_state \<Rightarrow> api_response \<times> api_state" where
  "handleNodeApi env rq s =
     (case dispatch env rq s of
        (Inl f, s') \<Rightarrow> (\<lparr>re_status = failure_status f, re_body = Body_Error f\<rparr>, s')
      | (Inr r, s') \<Rightarrow> (r, s'))"

subsection \<open>The route\<close>

definition API_PREFIX :: string where "API_PREFIX = ''/dsh-remote-workspace''"

definition MAX_BODY_BYTES :: nat where "MAX_BODY_BYTES = 2 ^ 20"

fun read_chunks :: "bytes list \<Rightarrow> bytes \<Rightarrow> string + bytes" where
  "read_chunks [] acc = Inr acc"
| "read_chunks (c # cs) acc =
     (if length acc + length c > MAX_BODY_BYTES then Inl ''request body is too large'' else read_chunks cs (acc @ c))"

definition readJsonBody :: "(string \<Rightarrow> string + json) \<Rightarrow> bytes list \<Rightarrow> string + json option" where
  "readJsonBody parse chunks =
     (case read_chunks chunks [] of
        Inl e \<Rightarrow> Inl e
      | Inr b \<Rightarrow>
          if b = [] then Inr None
          else (case parse (utf8_text b) of Inl e \<Rightarrow> Inl e | Inr v \<Rightarrow> Inr (Some v)))"

definition decode_path :: "string \<Rightarrow> string option" where
  "decode_path p =
     (if p = [] then Some ''/''
      else map_option (join_with ''/'') (those (map decodeURIComponent (split_on (CHR ''/'') p))))"

definition bad_request :: "string \<Rightarrow> api_response" where
  "bad_request m = \<lparr>re_status = 400, re_body = Body_Error (Api_Error 400 m)\<rparr>"

definition serve ::
  "(string \<Rightarrow> string + json) \<Rightarrow> api_env \<Rightarrow> string option \<Rightarrow> string \<Rightarrow> (string \<times> string) list \<Rightarrow> bytes list \<Rightarrow> api_state
     \<Rightarrow> api_response \<times> api_state" where
  "serve parse env method pathname query chunks s =
     (let p = drop (length API_PREFIX) pathname in
      case decode_path p of
        None \<Rightarrow> (bad_request (p @ '' is not valid percent-encoding''), s)
      | Some decoded \<Rightarrow>
          (case readJsonBody parse chunks of
             Inl m \<Rightarrow> (bad_request m, s)
           | Inr body \<Rightarrow>
               handleNodeApi env
                 \<lparr>rq_method = (case method of None \<Rightarrow> ''GET'' | Some v \<Rightarrow> v), rq_path = decoded, rq_query = query, rq_body = body\<rparr> s))"

end
