(* ===== verification/Worktree_Logic.thy ===== *)
theory Worktree_Logic
  imports Worktrees
begin

section \<open>Reasoning on the worktree computations\<close>

text \<open>
  \<open>within ok m\<close>: the computation only makes calls that \<open>ok\<close> admits. \<open>reads m\<close>: it also leaves both
  stores. Both are closed under the combinators, so a lemma on an operation is a structural descent;
  the collection \<open>wt_intros\<close> holds the rules.
\<close>

named_theorems wt_intros \<open>closure rules of the trace predicates\<close>

definition trace_within :: "(call \<Rightarrow> bool) \<Rightarrow> wt_state \<Rightarrow> wt_state \<Rightarrow> bool" where
  "trace_within ok s s' \<longleftrightarrow> (\<exists>added. wt_trace s' = wt_trace s @ added \<and> list_all ok added)"

definition same_stores :: "wt_state \<Rightarrow> wt_state \<Rightarrow> bool" where
  "same_stores s s' \<longleftrightarrow> wt_anchors s' = wt_anchors s \<and> wt_repos s' = wt_repos s"

definition within :: "(call \<Rightarrow> bool) \<Rightarrow> 'a wt \<Rightarrow> bool" where
  "within ok m \<longleftrightarrow> (\<forall>s. \<exists>added. wt_trace (snd (m s)) = wt_trace s @ added \<and> list_all ok added)"

definition keeps_stores :: "'a wt \<Rightarrow> bool" where
  "keeps_stores m \<longleftrightarrow> (\<forall>s. wt_anchors (snd (m s)) = wt_anchors s \<and> wt_repos (snd (m s)) = wt_repos s)"

lemma within_preserves: "within ok m \<longleftrightarrow> preserves (trace_within ok) m"
  by (simp add: within_def preserves_def trace_within_def)

lemma keeps_preserves: "keeps_stores m \<longleftrightarrow> preserves same_stores m"
  by (simp add: keeps_stores_def preserves_def same_stores_def)

interpretation tw: step_relation "trace_within ok" for ok
proof (unfold_locales, goal_cases)
  case (2 s t u)
  then obtain new1 new2 where "wt_trace t = wt_trace s @ new1" "list_all ok new1"
    "wt_trace u = wt_trace t @ new2" "list_all ok new2" by (auto simp: trace_within_def)
  then show ?case by (auto simp: trace_within_def)
qed (simp add: trace_within_def)

interpretation ss: step_relation same_stores
  by unfold_locales (auto simp: same_stores_def)

lemma within_combinators [wt_intros]:
  "within ok (wret x)"
  "within ok (wfail e)"
  "within ok m \<Longrightarrow> (\<And>x. within ok (f x)) \<Longrightarrow> within ok (wbind m f)"
  "within ok m \<Longrightarrow> (\<And>e. within ok (h e)) \<Longrightarrow> within ok (wcatch m h)"
  "(\<And>x. within ok (g x)) \<Longrightarrow> within ok (wmap g xs)"
  by (simp_all add: within_preserves tw.keeps_intros)

lemma keeps_combinators [wt_intros]:
  "keeps_stores (wret x)"
  "keeps_stores (wfail e)"
  "keeps_stores m \<Longrightarrow> (\<And>x. keeps_stores (f x)) \<Longrightarrow> keeps_stores (wbind m f)"
  "keeps_stores m \<Longrightarrow> (\<And>e. keeps_stores (h e)) \<Longrightarrow> keeps_stores (wcatch m h)"
  "(\<And>x. keeps_stores (g x)) \<Longrightarrow> keeps_stores (wmap g xs)"
  by (simp_all add: keeps_preserves ss.keeps_intros)

lemma within_ask [wt_intros]: "ok c \<Longrightarrow> within ok (ask f c)"
  by (simp add: within_def ask_def)

lemma within_hook [wt_intros]: "ok c \<Longrightarrow> within ok (hook env f c x)"
  by (simp add: hook_def within_ask within_combinators(1))

lemma within_git [wt_intros]: "ok (Run_Git r args) \<Longrightarrow> within ok (git env r args)"
  by (auto simp: within_def git_def Let_def split: sum.splits prod.splits)

lemma within_stores [wt_intros]:
  "within ok anchors_now" "within ok repos_now" "within ok (repo_named n r)" "within ok (channelFor env n)"
  by (simp_all add: within_def anchors_now_def repos_now_def repo_named_def channelFor_def)

lemma within_make_anchor [wt_intros]: "(\<And>a. ok (Anchor_Made a)) \<Longrightarrow> within ok (make_anchor env d)"
  by (auto simp: within_def make_anchor_def split: sum.splits prod.splits)

lemma within_drop_anchor [wt_intros]: "ok (Anchor_Dropped i) \<Longrightarrow> within ok (drop_anchor env i)"
  by (auto simp: within_def drop_anchor_def split: sum.splits prod.splits)

lemma within_store_repo [wt_intros]: "ok (Repo_Stored d) \<Longrightarrow> within ok (store_repo env d)"
  by (auto simp: within_def store_repo_def split: sum.splits prod.splits)

lemma within_if [wt_intros]: "(b \<Longrightarrow> within ok m) \<Longrightarrow> (\<not> b \<Longrightarrow> within ok m') \<Longrightarrow> within ok (if b then m else m')"
  by simp

lemma within_option [wt_intros]:
  "within ok m \<Longrightarrow> (\<And>x. within ok (f x)) \<Longrightarrow> within ok (case v of None \<Rightarrow> m | Some x \<Rightarrow> f x)"
  by (cases v) auto

lemma within_sum [wt_intros]:
  "(\<And>e. within ok (g e)) \<Longrightarrow> (\<And>x. within ok (f x)) \<Longrightarrow> within ok (case v of Inl e \<Rightarrow> g e | Inr x \<Rightarrow> f x)"
  by (cases v) auto

lemma within_state: "(\<And>s. within ok (f s)) \<Longrightarrow> within ok (\<lambda>s. f s s)"
  unfolding within_def by blast

lemma within_kind [wt_intros]:
  "within ok m \<Longrightarrow> (\<And>b v. within ok (f b v)) \<Longrightarrow> within ok (case k of Directory \<Rightarrow> m | Worktree b v \<Rightarrow> f b v)"
  by (cases k) auto

lemma keeps_ask [wt_intros]: "keeps_stores (ask f c)"
  by (simp add: keeps_stores_def ask_def)

lemma keeps_hook [wt_intros]: "keeps_stores (hook env f c x)"
  by (simp add: hook_def keeps_ask keeps_combinators(1))

lemma keeps_git [wt_intros]: "keeps_stores (git env r args)"
  by (auto simp: keeps_stores_def git_def Let_def split: sum.splits prod.splits)

lemma keeps_reads [wt_intros]:
  "keeps_stores anchors_now" "keeps_stores repos_now" "keeps_stores (repo_named n r)" "keeps_stores (channelFor env n)"
  by (simp_all add: keeps_stores_def anchors_now_def repos_now_def repo_named_def channelFor_def)

lemma keeps_if [wt_intros]: "keeps_stores m \<Longrightarrow> keeps_stores m' \<Longrightarrow> keeps_stores (if b then m else m')"
  by simp

lemma keeps_option [wt_intros]:
  "keeps_stores m \<Longrightarrow> (\<And>x. keeps_stores (f x)) \<Longrightarrow> keeps_stores (case v of None \<Rightarrow> m | Some x \<Rightarrow> f x)"
  by (cases v) auto

lemma keeps_sum [wt_intros]:
  "(\<And>e. keeps_stores (g e)) \<Longrightarrow> (\<And>x. keeps_stores (f x)) \<Longrightarrow> keeps_stores (case v of Inl e \<Rightarrow> g e | Inr x \<Rightarrow> f x)"
  by (cases v) auto

lemma keeps_kind [wt_intros]:
  "keeps_stores m \<Longrightarrow> (\<And>b v. keeps_stores (f b v)) \<Longrightarrow> keeps_stores (case k of Directory \<Rightarrow> m | Worktree b v \<Rightarrow> f b v)"
  by (cases k) auto

lemma keeps_state: "(\<And>s. keeps_stores (f s)) \<Longrightarrow> keeps_stores (\<lambda>s. f s s)"
  unfolding keeps_stores_def by blast

subsection \<open>The reading operations\<close>

text \<open>A call that makes git write: a checkout added or removed, a branch deleted.\<close>

fun writes_git :: "call \<Rightarrow> bool" where
  "writes_git (Ask_WorktreeAdd _ _ _ _ _) = True"
| "writes_git (Ask_WorktreeRemove _ _ _ _) = True"
| "writes_git (Ask_BranchDelete _ _ _ _) = True"
| "writes_git (Run_Git _ args) \<longleftrightarrow> args \<noteq> [''rev-parse'', ''--is-inside-work-tree''] \<and> args \<noteq> [''worktree'', ''list'', ''--porcelain'']"
| "writes_git _ = False"

text \<open>A call that only asks a question.\<close>

fun question :: "call \<Rightarrow> bool" where
  "question (Ask_Resolve _ _) = True"
| "question (Ask_WorktreeList _ _) = True"
| "question (Run_Git _ args) \<longleftrightarrow> args = [''rev-parse'', ''--is-inside-work-tree''] \<or> args = [''worktree'', ''list'', ''--porcelain'']"
| "question (Local_Realpath _) = True"
| "question (Local_Stat _) = True"
| "question (Is_Registered _) = True"
| "question _ = False"

lemma question_quiet: "question c \<Longrightarrow> \<not> writes_git c"
  by (cases c) auto

lemma within_mono: "within ok m \<Longrightarrow> (\<And>c. ok c \<Longrightarrow> ok' c) \<Longrightarrow> within ok' m"
  unfolding within_def by (metis (mono_tags, lifting) list.pred_mono_strong)

lemma list_asks: "within question (listWorktrees env r)" "keeps_stores (listWorktrees env r)"
  by (auto simp: listWorktrees_def intro!: wt_intros)

lemma isRepository_eq:
  "isRepository env r = wcatch (wbind (git env r [''rev-parse'', ''--is-inside-work-tree'']) (\<lambda>out. wret (trim out = ''true'')))
     (\<lambda>e. if (\<exists>m. e = Git_Not_A_Repository m) then wret False else wfail e)"
  unfolding isRepository_def by (rule arg_cong [of _ _ "wcatch _"]) (auto simp: fun_eq_iff split: wt_error.splits)

lemma isRepository_asks: "within question (isRepository env r)" "keeps_stores (isRepository env r)"
  by (auto simp: isRepository_eq intro!: wt_intros)

lemma resolve_asks: "within question (resolveLocalPath env p)" "keeps_stores (resolveLocalPath env p)"
  by (auto simp: resolveLocalPath_def intro!: wt_intros)

lemma type_asks: "within question (localPathType env p)" "keeps_stores (localPathType env p)"
  by (auto simp: localPathType_def intro!: wt_intros)

lemma isManaged_asks: "within question (isManaged env a)" "keeps_stores (isManaged env a)"
  by (auto simp: isManaged_def intro!: wt_intros resolve_asks split: anchor_kind.splits option.splits)

lemma rowStatus_asks: "within question (rowStatus env a off)" "keeps_stores (rowStatus env a off)"
  by (auto simp: rowStatus_def intro!: wt_intros isManaged_asks)

lemma localRows_asks: "within question (localRepoRows env r)" "keeps_stores (localRepoRows env r)"
  by (auto simp: localRepoRows_def localCheckout_def Let_def
      intro!: wt_intros rowStatus_asks isRepository_asks list_asks type_asks)

lemma localStatuses_asks: "within question (localStatuses env)" "keeps_stores (localStatuses env)"
  by (auto simp: localStatuses_def intro!: wt_intros localRows_asks)

lemma localEntry_asks: "within question (localEntry env i)" "keeps_stores (localEntry env i)"
  by (auto simp: localEntry_def intro!: wt_intros localStatuses_asks)

lemma listExisting_asks: "within question (listExisting env n r)" "keeps_stores (listExisting env n r)"
  by (auto simp: listExisting_def intro!: wt_intros list_asks)

lemma heldRemote_asks: "within question (heldRemote co)" "keeps_stores (heldRemote co)"
  by (cases co; auto simp: heldRemote_def intro!: wt_intros)+

lemma entryById_asks: "within question (entryById env i)" "keeps_stores (entryById env i)"
  by (auto simp: entryById_def intro!: wt_intros localEntry_asks)

lemma entry_or_fail_asks: "within question (entry_or_fail env i)" "keeps_stores (entry_or_fail env i)"
  by (auto simp: entry_or_fail_def intro!: wt_intros entryById_asks heldRemote_asks split: option.splits)

lemma directoryAnchorOf_asks: "within question (directoryAnchorOf n r)" "keeps_stores (directoryAnchorOf n r)"
  by (auto simp: directoryAnchorOf_def intro!: wt_intros)

end
