(* ===== verification/Worktree_Properties.thy ===== *)
theory Worktree_Properties
  imports Worktree_Logic
begin

section \<open>What the worktree lifecycle guarantees\<close>

text \<open>
  The theorems on the lifecycle of worktrees: which operations make git write, in which order a
  removal goes, what a creation and an adoption leave, and that the id of a listed checkout names it.
\<close>

subsection \<open>Only creation and removal write\<close>

lemmas asking = localStatuses_asks(1) listExisting_asks(1) heldRemote_asks(1) entryById_asks(1) entry_or_fail_asks(1)
  directoryAnchorOf_asks(1) rowStatus_asks(1)

lemma quiet: "within question m \<Longrightarrow> within (\<lambda>c. \<not> writes_git c) m"
  by (erule within_mono) (rule question_quiet)

lemmas quiet_asking = asking [THEN quiet]

lemma quiet_open: "within (\<lambda>c. \<not> writes_git c) (openAsWorkspace env a)"
  by (auto simp: openAsWorkspace_def intro!: wt_intros)

lemma quiet_openOrDrop: "within (\<lambda>c. \<not> writes_git c) m \<Longrightarrow> within (\<lambda>c. \<not> writes_git c) (openOrDrop env a m)"
  by (auto simp: openOrDrop_def intro!: wt_intros)

lemma quiet_unregister: "within (\<lambda>c. \<not> writes_git c) (unregisterWorkspace env a)"
  by (auto simp: unregisterWorkspace_def intro!: wt_intros)

lemma quiet_adoptRemote: "within (\<lambda>c. \<not> writes_git c) (adoptRemote env n r p)"
  by (auto simp: adoptRemote_def intro!: wt_intros quiet_asking quiet_open quiet_openOrDrop)

lemma quiet_discovered: "within (\<lambda>c. \<not> writes_git c) (discoveredRows env held r)"
  unfolding discoveredRows_def
  by (rule within_state) (auto intro!: wt_intros quiet_asking)

lemma quiet_anchorRow: "within (\<lambda>c. \<not> writes_git c) (anchorRow env a)"
  unfolding anchorRow_def by (rule within_state) (auto intro!: quiet_asking)

text \<open>Listing, adopting, opening, closing and releasing worktrees and repository directories
  never asks git, on any machine or on this host, to add or remove a checkout or to delete a
  branch: only creation and removal do.\<close>

theorem only_create_and_remove_write:
  "within (\<lambda>c. \<not> writes_git c) (wt_list env) \<and> within (\<lambda>c. \<not> writes_git c) (listExisting env n r) \<and>
   within (\<lambda>c. \<not> writes_git c) (wt_adopt env n r p) \<and> within (\<lambda>c. \<not> writes_git c) (wt_anchorsIn env n r) \<and>
   within (\<lambda>c. \<not> writes_git c) (wt_open env i) \<and> within (\<lambda>c. \<not> writes_git c) (wt_close env i) \<and>
   within (\<lambda>c. \<not> writes_git c) (wt_release env i) \<and> within (\<lambda>c. \<not> writes_git c) (wt_openDirectory env n r) \<and>
   within (\<lambda>c. \<not> writes_git c) (wt_closeDirectory env n r)"
proof (intro conjI)
  show "within (\<lambda>c. \<not> writes_git c) (wt_list env)"
    by (auto simp: wt_list_def discoveredRemote_def intro!: wt_intros quiet_asking quiet_discovered quiet_anchorRow)
  show "within (\<lambda>c. \<not> writes_git c) (listExisting env n r)" by (rule quiet_asking)
  show "within (\<lambda>c. \<not> writes_git c) (wt_adopt env n r p)"
    by (auto simp: wt_adopt_def intro!: wt_intros quiet_asking quiet_open quiet_adoptRemote)
  show "within (\<lambda>c. \<not> writes_git c) (wt_anchorsIn env n r)"
    by (auto simp: wt_anchorsIn_def intro!: wt_intros quiet_asking)
  show "within (\<lambda>c. \<not> writes_git c) (wt_open env i)"
    by (auto simp: wt_open_def intro!: wt_intros quiet_asking quiet_open quiet_adoptRemote split: option.splits)
  show "within (\<lambda>c. \<not> writes_git c) (wt_close env i)"
    by (auto simp: wt_close_def intro!: wt_intros quiet_asking)
  show "within (\<lambda>c. \<not> writes_git c) (wt_release env i)"
    by (auto simp: wt_release_def intro!: wt_intros quiet_asking)
  show "within (\<lambda>c. \<not> writes_git c) (wt_openDirectory env n r)"
    by (auto simp: wt_openDirectory_def intro!: wt_intros quiet_asking quiet_open quiet_openOrDrop)
  show "within (\<lambda>c. \<not> writes_git c) (wt_closeDirectory env n r)"
    by (auto simp: wt_closeDirectory_def intro!: wt_intros quiet_asking quiet_unregister)
qed

subsection \<open>The order of a removal\<close>

text \<open>A removal of a checkout that git, there or here, carried out.\<close>

fun removed_at :: "wt_env \<Rightarrow> call list \<Rightarrow> call \<Rightarrow> bool" where
  "removed_at env tr (Ask_WorktreeRemove n r p f) = is_ok (we_done env (tr @ [Ask_WorktreeRemove n r p f]))"
| "removed_at env tr (Run_Git r args) \<longleftrightarrow>
     take 2 args = [''worktree'', ''remove''] \<and> is_ok (we_git env (tr @ [Run_Git r args]))"
| "removed_at env tr _ = False"

fun deletes_branch :: "call \<Rightarrow> bool" where
  "deletes_branch (Ask_BranchDelete _ _ _ _) = True"
| "deletes_branch (Run_Git _ args) \<longleftrightarrow> take 1 args = [''branch'']"
| "deletes_branch _ = False"

definition removal_safe :: "wt_env \<Rightarrow> removal_options \<Rightarrow> 'a wt \<Rightarrow> bool" where
  "removal_safe env opts m \<longleftrightarrow>
     (\<forall>s. \<exists>added. wt_trace (snd (m s)) = wt_trace s @ added \<and>
        (\<forall>i < length added. deletes_branch (added ! i) \<longrightarrow>
           ro_deleteBranch opts \<and> (\<exists>j < i. removed_at env (wt_trace s @ take j added) (added ! j))) \<and>
        (wt_anchors (snd (m s)) \<noteq> wt_anchors s \<longrightarrow>
           (\<exists>j < length added. removed_at env (wt_trace s @ take j added) (added ! j))) \<and>
        (\<forall>x. fst (m s) = Inr x \<longrightarrow> (\<exists>j < length added. removed_at env (wt_trace s @ take j added) (added ! j))))"

lemma question_no_branch: "question c \<Longrightarrow> \<not> deletes_branch c"
  by (cases c) auto

lemma removal_safe_fail: "removal_safe env opts (wfail e)"
  by (simp add: removal_safe_def wfail_def)

lemma removal_safe_bind:
  assumes "within question m" "keeps_stores m" "\<And>x. removal_safe env opts (f x)"
  shows "removal_safe env opts (wbind m f)"
  unfolding removal_safe_def
proof
  fix s
  obtain r s1 where m: "m s = (r, s1)" by fastforce
  obtain pre where pre: "wt_trace s1 = wt_trace s @ pre" "list_all question pre"
    using assms(1) unfolding within_def by (metis m snd_conv)
  have anchors: "wt_anchors s1 = wt_anchors s" using assms(2) unfolding keeps_stores_def by (metis m snd_conv)
  have quiet: "\<not> deletes_branch (pre ! i)" if "i < length pre" for i
    using pre(2) that question_no_branch by (simp add: list_all_length)
  show "\<exists>added. wt_trace (snd (wbind m f s)) = wt_trace s @ added \<and>
        (\<forall>i < length added. deletes_branch (added ! i) \<longrightarrow>
           ro_deleteBranch opts \<and> (\<exists>j < i. removed_at env (wt_trace s @ take j added) (added ! j))) \<and>
        (wt_anchors (snd (wbind m f s)) \<noteq> wt_anchors s \<longrightarrow>
           (\<exists>j < length added. removed_at env (wt_trace s @ take j added) (added ! j))) \<and>
        (\<forall>x. fst (wbind m f s) = Inr x \<longrightarrow> (\<exists>j < length added. removed_at env (wt_trace s @ take j added) (added ! j)))"
  proof (cases r)
    case (Inl e)
    with m pre anchors quiet show ?thesis by (intro exI [of _ pre]) (simp add: wbind_def)
  next
    case (Inr x)
    then have run: "wbind m f s = f x s1" by (simp add: wbind_def m)
    obtain new where new: "wt_trace (snd (f x s1)) = wt_trace s1 @ new"
      "\<And>i. i < length new \<Longrightarrow> deletes_branch (new ! i) \<Longrightarrow>
         ro_deleteBranch opts \<and> (\<exists>j < i. removed_at env (wt_trace s1 @ take j new) (new ! j))"
      "wt_anchors (snd (f x s1)) \<noteq> wt_anchors s1 \<Longrightarrow> \<exists>j < length new. removed_at env (wt_trace s1 @ take j new) (new ! j)"
      "\<And>y. fst (f x s1) = Inr y \<Longrightarrow> \<exists>j < length new. removed_at env (wt_trace s1 @ take j new) (new ! j)"
      using assms(3) [of x] unfolding removal_safe_def by metis
    have shift: "removed_at env (wt_trace s @ take (length pre + j) (pre @ new)) ((pre @ new) ! (length pre + j))"
      if "removed_at env (wt_trace s1 @ take j new) (new ! j)" for j
      using that by (simp add: pre(1))
    have late: "ro_deleteBranch opts \<and> (\<exists>j < i. removed_at env (wt_trace s @ take j (pre @ new)) ((pre @ new) ! j))"
      if "i < length (pre @ new)" "deletes_branch ((pre @ new) ! i)" for i
    proof (cases "i < length pre")
      case True
      with that(2) quiet show ?thesis by (simp add: nth_append)
    next
      case False
      then obtain k where k: "i = length pre + k" by (metis add_diff_inverse_nat)
      with that new(2) [of k] obtain j where "ro_deleteBranch opts" "j < k" "removed_at env (wt_trace s1 @ take j new) (new ! j)"
        by (auto simp: nth_append)
      with shift k show ?thesis by (intro conjI exI [of _ "length pre + j"]) auto
    qed
    have lift: "\<exists>j < length (pre @ new). removed_at env (wt_trace s @ take j (pre @ new)) ((pre @ new) ! j)"
      if "\<exists>j < length new. removed_at env (wt_trace s1 @ take j new) (new ! j)"
      using that shift by (metis length_append nat_add_left_cancel_less)
    show ?thesis
      unfolding run using new(1,3,4) late lift anchors pre(1)
      by (intro exI [of _ "pre @ new"]) auto
  qed
qed

text \<open>Once the checkout is gone, anything that keeps to the branch option is safe.\<close>

lemma removal_safe_after:
  assumes "\<And>s. \<exists>r. first s = (r, s\<lparr>wt_trace := wt_trace s @ [c]\<rparr>) \<and> (is_ok r \<longrightarrow> removed_at env (wt_trace s) c)"
    and "\<not> deletes_branch c"
    and "\<And>x. within (\<lambda>c. deletes_branch c \<longrightarrow> ro_deleteBranch opts) (f x)"
  shows "removal_safe env opts (wbind first f)"
  unfolding removal_safe_def
proof
  fix s
  obtain r where r: "first s = (r, s\<lparr>wt_trace := wt_trace s @ [c]\<rparr>)" "is_ok r \<longrightarrow> removed_at env (wt_trace s) c"
    using assms(1) by blast
  show "\<exists>added. wt_trace (snd (wbind first f s)) = wt_trace s @ added \<and>
        (\<forall>i < length added. deletes_branch (added ! i) \<longrightarrow>
           ro_deleteBranch opts \<and> (\<exists>j < i. removed_at env (wt_trace s @ take j added) (added ! j))) \<and>
        (wt_anchors (snd (wbind first f s)) \<noteq> wt_anchors s \<longrightarrow>
           (\<exists>j < length added. removed_at env (wt_trace s @ take j added) (added ! j))) \<and>
        (\<forall>x. fst (wbind first f s) = Inr x \<longrightarrow> (\<exists>j < length added. removed_at env (wt_trace s @ take j added) (added ! j)))"
  proof (cases r)
    case (Inl e)
    with r assms(2) show ?thesis by (intro exI [of _ "[c]"]) (simp add: wbind_def)
  next
    case (Inr x)
    let ?s1 = "s\<lparr>wt_trace := wt_trace s @ [c]\<rparr>"
    obtain new where new: "wt_trace (snd (f x ?s1)) = wt_trace ?s1 @ new"
      "list_all (\<lambda>c. deletes_branch c \<longrightarrow> ro_deleteBranch opts) new"
      using assms(3) [of x] unfolding within_def by blast
    have "removed_at env (wt_trace s) c" using r(2) Inr by simp
    then have first: "removed_at env (wt_trace s @ take 0 (c # new)) ((c # new) ! 0)" by simp
    have "ro_deleteBranch opts \<and> 0 < i" if "i < length (c # new)" "deletes_branch ((c # new) ! i)" for i
      using that new(2) assms(2) by (cases i) (auto simp: list_all_length)
    with first have "\<forall>i < length (c # new). deletes_branch ((c # new) ! i) \<longrightarrow>
        ro_deleteBranch opts \<and> (\<exists>j < i. removed_at env (wt_trace s @ take j (c # new)) ((c # new) ! j))" by blast
    moreover have "\<exists>j < length (c # new). removed_at env (wt_trace s @ take j (c # new)) ((c # new) ! j)"
      using first by blast
    moreover have "wbind first f s = f x ?s1" using r(1) Inr by (simp add: wbind_def)
    ultimately show ?thesis using new(1) by (intro exI [of _ "c # new"]) simp
  qed
qed

lemma branch_or_report_within:
  assumes "ro_deleteBranch opts \<Longrightarrow> within (\<lambda>c. deletes_branch c \<longrightarrow> ro_deleteBranch opts) m"
  shows "within (\<lambda>c. deletes_branch c \<longrightarrow> ro_deleteBranch opts) (dropBranchOrReport a opts m)"
  using assms by (auto simp: dropBranchOrReport_def intro!: wt_intros)

lemma unregister_within: "within (\<lambda>c. deletes_branch c \<longrightarrow> b) (unregisterWorkspace env a)"
  by (auto simp: unregisterWorkspace_def intro!: wt_intros)

lemma ask_removes:
  "\<exists>r. ask (we_done env) (Ask_WorktreeRemove n rp p f) s =
      (r, s\<lparr>wt_trace := wt_trace s @ [Ask_WorktreeRemove n rp p f]\<rparr>) \<and>
    (is_ok r \<longrightarrow> removed_at env (wt_trace s) (Ask_WorktreeRemove n rp p f))"
  by (auto simp: ask_def is_ok_def split: sum.splits)

lemma git_removes:
  "take 2 args = [''worktree'', ''remove''] \<Longrightarrow>
    \<exists>r. git env rp args s = (r, s\<lparr>wt_trace := wt_trace s @ [Run_Git rp args]\<rparr>) \<and>
      (is_ok r \<longrightarrow> removed_at env (wt_trace s) (Run_Git rp args))"
  by (auto simp: git_def Let_def is_ok_def split: sum.splits)

lemma channelFor_asks: "within question (channelFor env n)" "keeps_stores (channelFor env n)"
  by (auto intro: wt_intros)

lemma removeRemote_safe: "removal_safe env opts (removeRemote env a opts)"
  unfolding removeRemote_def
proof (rule removal_safe_bind [OF channelFor_asks], rule removal_safe_after [OF ask_removes], goal_cases)
  case (2 x y)
  show ?case by (auto intro!: wt_intros branch_or_report_within unregister_within)
qed simp

lemma removeDiscovered_safe: "removal_safe env opts (removeDiscovered env co opts)"
proof -
  obtain n r p where co: "co = (n, r, p)" by (cases co)
  have tail: "removal_safe env opts (wbind (channelFor env n) (\<lambda>_.
      wbind (ask (we_done env) (Ask_WorktreeRemove n r p (ro_force opts))) (\<lambda>_ s. f s s)))"
    if "\<And>s. within (\<lambda>c. deletes_branch c \<longrightarrow> ro_deleteBranch opts) (f s)" for f :: "wt_state \<Rightarrow> worktree_removal wt"
  proof (rule removal_safe_bind [OF channelFor_asks], rule removal_safe_after [OF ask_removes], goal_cases)
    case (2 x y)
    show ?case by (rule within_state) (rule that)
  qed simp
  show ?thesis
    unfolding removeDiscovered_def co prod.case Let_def
  proof (rule removal_safe_bind [OF listExisting_asks], goal_cases)
    case (1 listed)
    show ?case
    proof (cases "find_existing p listed")
      case (Some e)
      let ?a = "\<lambda>s. remotePlaceholder n r p (ew_branch e) (we_stamp env (wt_trace s))"
      have "within (\<lambda>c. deletes_branch c \<longrightarrow> ro_deleteBranch opts)
          (if \<not> ro_deleteBranch opts \<or> ew_branch e = []
           then wret \<lparr>wr_anchor = ?a s, wr_branchDeleted = False, wr_branchError = None\<rparr>
           else dropBranchOrReport (?a s) opts
             (ask (we_done env) (Ask_BranchDelete n r (ew_branch e) (ro_force opts))))" for s
        by (intro wt_intros branch_or_report_within) simp_all
      note tail [OF this]
      with Some show ?thesis by simp
    qed (simp add: removal_safe_fail)
  qed
qed

lemma removeLocal_safe: "removal_safe env opts (removeLocalWorktree env a opts)"
proof -
  have assoc: "wbind (wbind m g) f = wbind m (\<lambda>x. wbind (g x) f)" for m :: "'a wt" and g :: "'a \<Rightarrow> 'b wt" and f :: "'b \<Rightarrow> 'c wt"
    by (auto simp: wbind_def fun_eq_iff split: sum.splits prod.splits)
  show ?thesis
    unfolding removeLocalWorktree_def removeWorktree_def assoc
  proof (rule removal_safe_after [OF git_removes], goal_cases)
    case (3 x)
    show ?case
      by (auto simp: deleteBranch_def intro!: wt_intros branch_or_report_within unregister_within)
  qed simp_all
qed

text \<open>C13: a removal deletes a branch only when it was asked to and only after git removed the
  checkout, drops an anchor only after git removed the checkout, and succeeds only if git removed
  it: a refusal by git leaves every record.\<close>

theorem removal_order: "removal_safe env opts (wt_remove env i opts)"
  unfolding wt_remove_def requireWorktree_def
  by (auto intro!: removal_safe_bind removal_safe_fail removeRemote_safe removeDiscovered_safe removeLocal_safe
      localEntry_asks heldRemote_asks wt_intros split: option.splits if_splits)

subsection \<open>What a creation leaves\<close>

lemma make_anchor_ok:
  assumes "make_anchor env d s = (Inr a, s')"
  shows "as_anchors (fst (wt_anchors s')) = as_anchors (fst (wt_anchors s)) @ [a]" "wt_repos s' = wt_repos s"
    "an_remoteRoot a = ad_remoteRoot d" "an_repoPath a = ad_repoPath d" "an_nodeId a = ad_nodeId d"
    "an_anchorId a = we_uuid env (wt_trace s)" "an_name a = ad_name d"
    "ad_kind d = Worktree b (Some og) \<Longrightarrow> an_kind a = Worktree b (Some og)" "as_loaded (fst (wt_anchors s'))"
    "wt_trace s' = wt_trace s @ [Anchor_Made a]"
proof -
  obtain sd where sd: "anchor_create (we_stamp env (wt_trace s)) (we_uuid env (wt_trace s)) (we_create_failure env (wt_trace s)) d (wt_anchors s) = (Inr a, sd)"
    "s' = s\<lparr>wt_anchors := sd, wt_trace := wt_trace s @ [Anchor_Made a]\<rparr>"
    using assms by (auto simp: make_anchor_def split: sum.splits prod.splits)
  have "a = anchor_of (we_stamp env (wt_trace s)) (we_uuid env (wt_trace s)) (anchor_path (as_root (fst (wt_anchors s))) d) d \<and>
      as_anchors (fst sd) = as_anchors (fst (wt_anchors s)) @ [a] \<and> as_loaded (fst sd)"
    using sd(1)
    by (auto simp: anchor_create_def Let_def split: if_splits create_failure.splits option.splits entry.splits)
  with sd(2) show "as_anchors (fst (wt_anchors s')) = as_anchors (fst (wt_anchors s)) @ [a]" "wt_repos s' = wt_repos s"
    "an_remoteRoot a = ad_remoteRoot d" "an_repoPath a = ad_repoPath d" "an_nodeId a = ad_nodeId d"
    "an_anchorId a = we_uuid env (wt_trace s)" "an_name a = ad_name d"
    "ad_kind d = Worktree b (Some og) \<Longrightarrow> an_kind a = Worktree b (Some og)" "as_loaded (fst (wt_anchors s'))"
    "wt_trace s' = wt_trace s @ [Anchor_Made a]"
    by (simp_all add: anchor_of_def)
qed

lemma make_anchor_failed:
  assumes "make_anchor env d s = (Inl e, s')"
  shows "as_anchors (fst (wt_anchors s')) = as_anchors (fst (wt_anchors s))" "wt_repos s' = wt_repos s"
  using assms
  by (auto simp: make_anchor_def anchor_create_def Let_def
      split: sum.splits prod.splits if_splits create_failure.splits option.splits entry.splits)

lemma find_snoc: "P y \<Longrightarrow> \<exists>z. List.find P (xs @ [y]) = Some z"
  by (induction xs) auto

lemma repo_upsert_found:
  assumes "repo_upsert stamp uuid failure d sd = (Inr r, sd')" "rd_repoId d = None"
  shows "repo_find (rd_nodeId d) (rd_repoPath d) (fst sd') \<noteq> Inr None" "rs_loaded (fst sd')"
  using assms
  by (auto simp: repo_upsert_def repo_upsert_begin_def repo_requireLoaded_def Let_def repo_commit_cases
      repo_existing_def repo_find_def repo_record_of_def intro!: find_snoc split: option.splits if_splits)

text \<open>\<open>registerRepoIfUnknown\<close> leaves the repository known when it returns.\<close>

lemma registerRepo_known:
  assumes "registerRepoIfUnknown env n r s = (Inr (), s')"
  shows "\<exists>known. repo_find n r (fst (wt_repos s')) = Inr (Some known)" "wt_anchors s' = wt_anchors s"
proof -
  have "(\<exists>known. repo_find n r (fst (wt_repos s')) = Inr (Some known)) \<and> wt_anchors s' = wt_anchors s"
  proof (cases "repo_find n r (fst (wt_repos s))")
    case (Inl e)
    with assms show ?thesis by (simp add: registerRepoIfUnknown_def wbind_def repo_named_def)
  next
    case (Inr known)
    show ?thesis
    proof (cases known)
      case (Some x)
      with assms Inr show ?thesis by (auto simp: registerRepoIfUnknown_def wbind_def repo_named_def wret_def)
    next
      case None
      let ?d = "\<lparr>rd_repoId = None, rd_nodeId = n, rd_repoPath = r, rd_name = None\<rparr>"
      obtain x sd where up: "repo_upsert (we_stamp env (wt_trace s)) (we_uuid env (wt_trace s)) (we_write_failure env (wt_trace s)) ?d (wt_repos s) = (Inr x, sd)"
        and s': "s' = s\<lparr>wt_repos := sd, wt_trace := wt_trace s @ [Repo_Stored ?d]\<rparr>"
        using assms None Inr
        by (auto simp: registerRepoIfUnknown_def wbind_def repo_named_def wret_def store_repo_def split: sum.splits prod.splits)
      from repo_upsert_found [OF up] have "repo_find n r (fst sd) \<noteq> Inr None" "rs_loaded (fst sd)" by simp_all
      then show ?thesis by (auto simp: s' repo_find_def repo_requireLoaded_def)
    qed
  qed
  then show "\<exists>known. repo_find n r (fst (wt_repos s')) = Inr (Some known)" "wt_anchors s' = wt_anchors s" by auto
qed

lemma registerRepo_anchors: "wt_anchors (snd (registerRepoIfUnknown env n r s)) = wt_anchors s"
  by (auto simp: registerRepoIfUnknown_def wbind_def repo_named_def wret_def store_repo_def split: sum.splits prod.splits option.splits)

lemma registerWorkspace_ok: "\<exists>s'. registerWorkspace env a s = (Inr (), s') \<and> wt_anchors s' = wt_anchors s \<and> wt_repos s' = wt_repos s"
  by (auto simp: registerWorkspace_def wcatch_def hook_def ask_def wret_def split: sum.splits)

lemma wbind_cases:
  assumes "wbind m f s = (r, s')"
  obtains (fails) e where "m s = (Inl e, s')" "r = Inl e" | (goes) x s1 where "m s = (Inr x, s1)" "f x s1 = (r, s')"
  using assms by (auto simp: wbind_def split: sum.splits prod.splits)

lemma ask_cases:
  assumes "ask answer c s = (r, s')"
  shows "s' = s\<lparr>wt_trace := wt_trace s @ [c]\<rparr>"
    "r = (case answer (wt_trace s @ [c]) of Inl m \<Rightarrow> Inl (Refused m) | Inr x \<Rightarrow> Inr x)"
  using assms by (auto simp: ask_def)

lemma channelFor_cases: "channelFor env n s = (r, s') \<Longrightarrow> s' = s"
  by (auto simp: channelFor_def split: if_splits)

lemma planned_path_cases: "planned_path env d p s = (r, s') \<Longrightarrow> s' = s"
  by (auto simp: planned_path_def wret_def wfail_def split: option.splits sum.splits)

text \<open>What git answered to a creation: the repository's canonical path and the checkout made.\<close>

definition git_made :: "wt_env \<Rightarrow> worktree_draft \<Rightarrow> wt_state \<Rightarrow> string \<Rightarrow> wire_worktree \<Rightarrow> bool" where
  "git_made env d s repoPath w \<longleftrightarrow>
     (let n = wd_nodeId d; asked = wt_trace s @ [Ask_Resolve n (wd_repoPath d)] in
      we_path env asked = Inr repoPath \<and>
      (\<exists>p. we_worktree env (asked @ [Ask_WorktreeAdd n repoPath p (branchFor (wd_name d)) (wd_baseRef d)]) = Inr w))"

text \<open>The part of a creation that only asks: either it fails and the stores are as they were, or git
  made the checkout and the rest runs from stores as they were.\<close>

lemma asks_checkout:
  assumes "wbind (channelFor env (wd_nodeId d)) (\<lambda>_.
        wbind (ask (we_path env) (Ask_Resolve (wd_nodeId d) (wd_repoPath d))) (\<lambda>repoPath.
        wbind (planned_path env d repoPath) (\<lambda>worktreePath.
        wbind (ask (we_worktree env) (Ask_WorktreeAdd (wd_nodeId d) repoPath worktreePath (branchFor (wd_name d)) (wd_baseRef d)))
          (rest repoPath)))) s = (res, s')"
  obtains (fails) e where "res = Inl e" "wt_anchors s' = wt_anchors s" "wt_repos s' = wt_repos s"
  | (made) repoPath w s1 where "git_made env d s repoPath w" "wt_anchors s1 = wt_anchors s" "wt_repos s1 = wt_repos s"
      "rest repoPath w s1 = (res, s')"
  using assms
proof (cases rule: wbind_cases)
  case fails
  then show ?thesis using that(1) channelFor_cases by fastforce
next
  case (goes u s0)
  then have s0: "s0 = s" using channelFor_cases by blast
  from goes(2) show ?thesis unfolding s0
  proof (cases rule: wbind_cases)
    case fails
    then show ?thesis using that(1) ask_cases(1) [OF fails(1)] by simp
  next
    case (goes repoPath s1)
    note asked = ask_cases [OF goes(1)]
    from goes(2) show ?thesis
    proof (cases rule: wbind_cases)
      case fails
      then show ?thesis using that(1) planned_path_cases [OF fails(1)] asked(1) by simp
    next
      case (goes p s2)
      have s2: "s2 = s1" using planned_path_cases [OF goes(1)] .
      from goes(2) show ?thesis unfolding s2
      proof (cases rule: wbind_cases)
        case fails
        then show ?thesis using that(1) ask_cases(1) [OF fails(1)] asked(1) by simp
      next
        case (goes w s3)
        note added = ask_cases [OF goes(1)]
        have "git_made env d s repoPath w"
          using asked added unfolding git_made_def Let_def by (auto split: sum.splits)
        moreover have "wt_anchors s3 = wt_anchors s" "wt_repos s3 = wt_repos s" using added(1) asked(1) by simp_all
        ultimately show ?thesis using goes(2) by (rule that(2))
      qed
    qed
  qed
qed

text \<open>The part that records: when it succeeds there is one new anchor and the repository is known.\<close>

lemma records_anchor:
  assumes "wbind (make_anchor env x) (\<lambda>a. wbind (registerRepoIfUnknown env n r) (\<lambda>_.
      wbind (registerWorkspace env a) (\<lambda>_. wret a))) s = (Inr b, s')"
  obtains s1 where "make_anchor env x s = (Inr b, s1)" "wt_anchors s' = wt_anchors s1"
    "\<exists>known. repo_find n r (fst (wt_repos s')) = Inr (Some known)"
  using assms
proof (cases rule: wbind_cases)
  case (goes a s1)
  from goes(2) show ?thesis
  proof (cases rule: wbind_cases)
    case (goes v s2)
    obtain s3 where "registerWorkspace env a s2 = (Inr (), s3)" "wt_anchors s3 = wt_anchors s2" "wt_repos s3 = wt_repos s2"
      using registerWorkspace_ok by blast
    with goes(2) have "b = a" "wt_anchors s' = wt_anchors s2" "wt_repos s' = wt_repos s2"
      by (auto simp: wbind_def wret_def)
    with registerRepo_known [of env n r s1 s2] goes(1) \<open>make_anchor env x s = (Inr a, s1)\<close> show ?thesis by (intro that) auto
  qed auto
qed auto


text \<open>A machine whose git does what it is asked, a checkout of a repository \<open>/r\<close>.\<close>

definition sample_checkout :: wire_worktree where
  "sample_checkout = \<lparr>ww_path = ''/wt/w'', ww_branch = Some ''worktree/w'', ww_main = False\<rparr>"

definition sample_env :: "bool \<Rightarrow> wt_env" where
  "sample_env registry_works =
     \<lparr>we_isLocal = (\<lambda>n. n = ''local''), we_connected = (\<lambda>tr n. True), we_root = (\<lambda>n. Inr ''/wt''), we_workspace = True,
      we_cwd = ''/'', we_path = (\<lambda>tr. Inr ''/r''), we_worktree = (\<lambda>tr. Inr sample_checkout),
      we_worktrees = (\<lambda>tr. Inr [\<lparr>ww_path = ''/r'', ww_branch = Some ''main'', ww_main = True\<rparr>, sample_checkout]),
      we_done = (\<lambda>tr. if registry_works then Inr () else Inl ''no''), we_registered = (\<lambda>tr. Inr False),
      we_git = (\<lambda>tr. Inl ([], [])), we_type = (\<lambda>tr. None), we_stamp = (\<lambda>tr. ''t''), we_uuid = (\<lambda>tr. ''u''),
      we_create_failure = (\<lambda>tr. No_Failure), we_remove_failure = (\<lambda>tr. None), we_write_failure = (\<lambda>tr. None)\<rparr>"

definition sample_world :: wt_state where
  "sample_world =
     \<lparr>wt_anchors = (\<lparr>as_root = ''/a'', as_anchors = [], as_loaded = True\<rparr>, [(''a'', E_Dir [])]),
      wt_repos = (\<lparr>rs_repos = [], rs_loaded = True\<rparr>, File_Absent), wt_trace = []\<rparr>"

definition sample_worktree :: worktree_draft where
  "sample_worktree =
     \<lparr>wd_nodeId = ''n'', wd_repoPath = ''/r/'', wd_name = ''w'', wd_path = None, wd_baseRef = None\<rparr>"


subsection \<open>Adoption\<close>

lemma keeps_storesD: "keeps_stores m \<Longrightarrow> m s = (r, s') \<Longrightarrow> wt_anchors s' = wt_anchors s"
  unfolding keeps_stores_def by (metis snd_conv)

lemma listExisting_listed:
  assumes "\<not> we_isLocal env n" "listExisting env n r s = (Inr listed, s1)" "e \<in> set listed"
  shows "\<exists>tr ws w. we_worktrees env tr = Inr ws \<and> w \<in> set ws \<and> ww_path w = ew_path e \<and> \<not> ww_main w"
proof -
  obtain tr ws where "we_worktrees env tr = Inr ws" "ew_path e \<in> ww_path ` set (filter (\<lambda>c. \<not> ww_main c) ws)"
    using assms(2,3) unfolding listExisting_def if_not_P [OF assms(1)]
    by (auto simp: wbind_def ask_def channelFor_def anchors_now_def wret_def split: sum.splits prod.splits if_splits)
  moreover from this(2) obtain w where "w \<in> set ws" "\<not> ww_main w" "ww_path w = ew_path e" by auto
  ultimately show ?thesis by blast
qed

lemma heldRemote_found:
  assumes "heldRemote (n, r, p) s = (Inr held, s1)"
  shows "s1 = s"
    "held = List.find (\<lambda>a. is_worktree a \<and> an_nodeId a = n \<and> an_repoPath a = r \<and> an_remoteRoot a = p) (as_anchors (fst (wt_anchors s)))"
  using assms by (auto simp: heldRemote_def wbind_def anchors_now_def wret_def anchor_list_def anchor_requireLoaded_def
      split: sum.splits if_splits)

lemma open_cases:
  assumes "openAsWorkspace env a s = (res, s')"
  shows "wt_anchors s' = wt_anchors s" "\<And>b. res = Inr b \<Longrightarrow> b = a \<and> we_done env (wt_trace s @ [Do_Register a]) = Inr ()"
  using assms by (auto simp: openAsWorkspace_def wbind_def ask_def wret_def wfail_def split: if_splits sum.splits)

lemma openOrDrop_cases:
  assumes "openOrDrop env a (wbind (openAsWorkspace env a) (\<lambda>_. wret ())) s = (res, s')"
    and "we_remove_failure env = (\<lambda>tr. None)" "as_anchors (fst (wt_anchors s)) = old @ [a]" "as_loaded (fst (wt_anchors s))"
    and "an_anchorId a \<notin> an_anchorId ` set old"
  shows "case res of
      Inl e \<Rightarrow> as_anchors (fst (wt_anchors s')) = old
    | Inr _ \<Rightarrow> as_anchors (fst (wt_anchors s')) = old @ [a] \<and> we_done env (wt_trace s @ [Do_Register a]) = Inr ()"
proof -
  obtain r s1 where opened: "openAsWorkspace env a s = (r, s1)" by (metis surj_pair)
  note o = open_cases [OF opened]
  show ?thesis
  proof (cases r)
    case (Inr b)
    with o opened assms(1,3) show ?thesis by (auto simp: openOrDrop_def wcatch_def wbind_def wret_def)
  next
    case (Inl e)
    obtain d s2 where drop: "drop_anchor env (an_anchorId a) s1 = (d, s2)" by (metis surj_pair)
    have find: "find_key an_anchorId (an_anchorId a) (old @ [a]) = Some a"
      using find_key_None [of an_anchorId "an_anchorId a" old] assms(5) by (simp add: store_simps)
    have "drop_key an_anchorId (an_anchorId a) (old @ [a]) = old"
      using assms(5) by (auto simp: drop_key_def image_iff filter_id_conv)
    then have "as_anchors (fst (wt_anchors s2)) = old" "\<exists>x. d = Inr x"
      using drop assms(2,3,4) o(1) find by (auto simp: drop_anchor_def anchor_remove_def split: prod.splits)
    then show ?thesis
      using Inl opened assms(1) drop by (auto simp: openOrDrop_def wcatch_def wbind_def wret_def wfail_def)
  qed
qed

text \<open>Adopting a checkout no anchor holds: the anchor made for it stays only when the workspace
  registry took it.\<close>

lemma adopts_new:
  assumes "wbind (make_anchor env \<lparr>ad_kind = Worktree b (Some Adopted), ad_nodeId = n, ad_name = m, ad_repoPath = r, ad_remoteRoot = p\<rparr>)
      (\<lambda>a. wbind (openOrDrop env a (wbind (openAsWorkspace env a) (\<lambda>_. wret ()))) (\<lambda>_. wret a)) s = (res, s')"
    and "we_remove_failure env = (\<lambda>tr. None)"
    and "\<forall>tr. we_uuid env tr \<notin> an_anchorId ` set (as_anchors (fst (wt_anchors s)))"
  shows "case res of
      Inl e \<Rightarrow> as_anchors (fst (wt_anchors s')) = as_anchors (fst (wt_anchors s))
    | Inr a \<Rightarrow> an_nodeId a = n \<and> an_repoPath a = r \<and> an_remoteRoot a = p \<and> is_worktree a \<and>
        as_anchors (fst (wt_anchors s')) = as_anchors (fst (wt_anchors s)) @ [a] \<and>
        (\<exists>tr. we_done env (tr @ [Do_Register a]) = Inr ())"
  using assms(1)
proof (cases rule: wbind_cases)
  case fails
  then show ?thesis using make_anchor_failed(1) by auto
next
  case (goes a s1)
  note made = make_anchor_ok [OF goes(1)]
  have fresh: "an_anchorId a \<notin> an_anchorId ` set (as_anchors (fst (wt_anchors s)))" using assms(3) made(6) by simp
  obtain v s2 where od: "openOrDrop env a (wbind (openAsWorkspace env a) (\<lambda>_. wret ())) s1 = (v, s2)" by (metis surj_pair)
  note result = openOrDrop_cases [OF od assms(2) made(1,9) fresh]
  show ?thesis
  proof (cases v)
    case (Inl e)
    with goes(2) od result show ?thesis by (auto simp: wbind_def)
  next
    case (Inr u)
    with goes(2) od have "res = Inr a" "s' = s2" by (auto simp: wbind_def wret_def)
    moreover have "is_worktree a" using made(8) [of b Adopted] by (simp add: is_worktree_def)
    ultimately show ?thesis using Inr result made(3,4,5) by auto
  qed
qed



subsection \<open>Ids\<close>

lemma colon_not_in_part: "CHR '':'' \<notin> set (encodePart v)"
proof
  assume "CHR '':'' \<in> set (encodePart v)"
  then have "CHR '':'' \<in> set (b64_alphabet True)" unfolding encodePart_def by (rule base64url_chars)
  then show False by (simp add: b64_alphabet_def)
qed

lemma decode_encode: "utf8_valid v \<Longrightarrow> decodePart (encodePart v) = v"
  by (simp add: decodePart_def encodePart_def utf8_valid_def)

text \<open>C20: the id a checkout is listed under before it is held carries its machine, repository and path
  exactly, so opening that id adopts the checkout that was listed and removing it removes that one.\<close>

theorem listed_id_names_checkout:
  assumes "utf8_valid n" "utf8_valid r" "utf8_valid p"
  shows "parseRemoteAnchorId (an_anchorId (remotePlaceholder n r p b c)) = Some (n, r, p) \<and>
    wt_open env (an_anchorId (remotePlaceholder n r p b c)) = adoptRemote env n r p \<and>
    wt_remove env (an_anchorId (remotePlaceholder n r p b c)) opts =
      wbind (heldRemote (n, r, p)) (\<lambda>held.
        case held of None \<Rightarrow> removeDiscovered env (n, r, p) opts | Some a \<Rightarrow> removeRemote env a opts)"
proof -
  have i: "an_anchorId (remotePlaceholder n r p b c) = remoteAnchorId n r p" by (simp add: remotePlaceholder_def)
  have parse: "parseRemoteAnchorId (remoteAnchorId n r p) = Some (n, r, p)"
    using assms colon_not_in_part
    by (simp add: parseRemoteAnchorId_def remoteAnchorId_def REMOTE_ID_PREFIX_def startsWith_def split_on_append_sep
        split_on_id decode_encode)
  have "\<not> startsWith (remoteAnchorId n r p) LOCAL_ID_PREFIX"
    by (simp add: remoteAnchorId_def REMOTE_ID_PREFIX_def LOCAL_ID_PREFIX_def startsWith_def)
  with parse show ?thesis unfolding i by (simp add: wt_open_def wt_remove_def)
qed

theorem listed_id_names_checkout_witness:
  "parseRemoteAnchorId (an_anchorId (remotePlaceholder ''n'' ''/r'' ''/wt/a:b'' [] [])) = Some (''n'', ''/r'', ''/wt/a:b'')"
proof -
  have "utf8_valid ''n''" "utf8_valid ''/r''" "utf8_valid ''/wt/a:b''" by code_simp+
  from listed_id_names_checkout [OF this] show ?thesis by blast
qed

end
