(* ===== verification/Api_Logic.thy ===== *)
theory Api_Logic
  imports Management_Api Worktree_Properties
begin

section \<open>Reasoning on the handlers of the API\<close>

text \<open>
  Three closure arguments over the handlers: a handler that only reads (\<open>reads_only\<close>, a step
  relation), the failures a handler can end in (\<open>fails_within\<close>), and a handler that does not depend
  on the tokens of the machines (\<open>blind\<close>). Each has its rules for the combinators and the calls,
  collected in \<open>api_intros\<close>.
\<close>

named_theorems api_intros \<open>closure rules on the handlers\<close>

lemma comp_simps:
  "wret x s = (Inr x, s)" "wfail e s = (Inl e, s)" "hoist r s = (r, s)"
  by (simp_all add: wret_def wfail_def hoist_def)

subsection \<open>Only reading\<close>

fun asks :: "call \<Rightarrow> bool" where
  "asks (Ask_Stat _ _) = True"
| "asks (Ask_ListDir _ _) = True"
| "asks (Ask_RepoState _ _) = True"
| "asks (Local_ListDir _) = True"
| "asks c = question c"

lemma question_asks: "question c \<Longrightarrow> asks c"
  by (cases c) auto

definition reads_only :: "api_state \<Rightarrow> api_state \<Rightarrow> bool" where
  "reads_only s s' \<longleftrightarrow>
     ap_nodes s' = ap_nodes s \<and> ap_shells s' = ap_shells s \<and>
     wt_anchors (ap_work s') = wt_anchors (ap_work s) \<and> wt_repos (ap_work s') = wt_repos (ap_work s) \<and>
     (\<exists>added. wt_trace (ap_work s') = wt_trace (ap_work s) @ added \<and> list_all asks added)"

interpretation ro: step_relation reads_only
proof (unfold_locales, goal_cases)
  case (2 s t u)
  then obtain new1 new2 where "wt_trace (ap_work t) = wt_trace (ap_work s) @ new1" "list_all asks new1"
    "wt_trace (ap_work u) = wt_trace (ap_work t) @ new2" "list_all asks new2" by (auto simp: reads_only_def)
  with 2 show ?case by (auto simp: reads_only_def)
qed (simp add: reads_only_def)

abbreviation reads :: "'a api \<Rightarrow> bool" where
  "reads m \<equiv> preserves reads_only m"

lemma reads_combinators [api_intros]:
  fixes m :: "'a api"
  shows
  "reads (wret x :: 'a api)"
  "reads (wfail e :: 'a api)"
  "reads m' \<Longrightarrow> (\<And>x. reads (f x)) \<Longrightarrow> reads (wbind m' f :: 'a api)"
  "reads m \<Longrightarrow> (\<And>e. reads (h e)) \<Longrightarrow> reads (wcatch m h :: 'a api)"
  "(\<And>x. reads (g x)) \<Longrightarrow> reads (wmap g xs :: 'b list api)"
  by (simp_all add: ro.keeps_intros)

lemma moved_simps [simp]: "ap_nodes (moved env s) = ap_nodes s" "ap_work (moved env s) = ap_work s" "ap_shells (moved env s) = ap_shells s"
  by (simp_all add: moved_def)

lemma reads_hoist [api_intros]: "reads (hoist r)"
  by (simp add: preserves_def hoist_def reads_only_def)

lemma reads_await [api_intros]: "asks c \<Longrightarrow> reads (await env f c)"
  by (simp add: preserves_def await_def Let_def reads_only_def logged_def)

lemma reads_stores [api_intros]: "reads (nodes_now f)" "reads (repos_read g)" "reads (api_requireChannel n)"
  by (simp_all add: preserves_def nodes_now_def repos_read_def api_requireChannel_def reads_only_def)

lemma reads_ok [api_intros]: "reads (ok n b)"
  by (simp add: ok_def api_intros)

lemma reads_inspect [api_intros]: "(\<And>s. reads (f s)) \<Longrightarrow> reads (inspect f)"
  by (rule preserves_inspect)

lemma reads_on_work [api_intros]:
  assumes "\<And>we. within question (m we)" "\<And>we. keeps_stores (m we)"
  shows "reads (on_work env m)"
  unfolding preserves_def
proof
  fix s :: api_state
  let ?we = "(ae_work env)\<lparr>we_isLocal := isLocalNode (fst (ap_nodes s))\<rparr>"
  obtain r w where m: "m ?we (ap_work s) = (r, w)" by fastforce
  obtain new where new: "wt_trace w = wt_trace (ap_work s) @ new" "list_all question new"
    using assms(1) [of ?we] unfolding within_def by (metis m snd_conv)
  have "wt_anchors w = wt_anchors (ap_work s)" "wt_repos w = wt_repos (ap_work s)"
    using assms(2) [of ?we] unfolding keeps_stores_def by (metis m snd_conv)+
  moreover have "list_all asks new" using new(2) by (rule list.pred_mono_strong) (rule question_asks)
  ultimately show "reads_only s (snd (on_work env m s))"
    using new(1) by (cases r) (auto simp: on_work_def m reads_only_def)
qed

lemma discovered_asks: "within question (discoveredRows we held r)" "keeps_stores (discoveredRows we held r)"
  unfolding discoveredRows_def
   apply (rule within_state, intro wt_intros listExisting_asks)
  apply (rule keeps_state, intro wt_intros listExisting_asks)
  done

lemma anchorRow_asks: "within question (anchorRow we a)" "keeps_stores (anchorRow we a)"
  unfolding anchorRow_def
   apply (rule within_state, rule rowStatus_asks)
  apply (rule keeps_state, rule rowStatus_asks)
  done

lemma wt_list_asks: "within question (wt_list we)" "keeps_stores (wt_list we)"
  by (auto simp: wt_list_def discoveredRemote_def intro!: wt_intros localStatuses_asks anchorRow_asks discovered_asks)

lemma reads_requireNode [api_intros]: "reads (requireNode n)"
  by (auto simp: requireNode_def intro!: api_intros comp_intros)

lemma reads_resolve [api_intros]: "reads (resolveOnNode env r p)" "reads (statOnNode env r p)"
  by (auto simp: resolveOnNode_def statOnNode_def intro!: api_intros resolve_asks type_asks)

lemma reads_reportRepo [api_intros]: "reads (reportRepo env r)"
  unfolding reportRepo_def Let_def
  by (auto intro!: api_intros isRepository_asks comp_intros split: prod.splits)

lemma reads_listDirs [api_intros]: "reads (listDirs env rq r n)"
  unfolding listDirs_def Let_def
  by (auto simp: listLocalDir_def intro!: api_intros resolve_asks)

lemma reads_listNodes [api_intros]: "reads listNodes"
  unfolding listNodes_def by (intro api_intros)

lemma reads_dispatch:
  assumes "rq_method rq = ''GET''"
  shows "reads (dispatch env rq)"
proof -
  have "reads (handleNodes env rq parts)" for parts
    unfolding handleNodes_def using assms
    by (auto intro!: api_intros split: list.splits)
  moreover have "reads (handleRepos env rq parts)" for parts
    unfolding handleRepos_def using assms
    by (auto intro!: api_intros comp_intros listExisting_asks split: list.splits)
  moreover have "reads (handleWorktrees env rq parts)" for parts
    unfolding handleWorktrees_def using assms
    by (auto intro!: api_intros wt_list_asks split: list.splits)
  moreover have "reads (handleTerminals env rq parts)" for parts
    unfolding handleTerminals_def Let_def using assms
    by (auto intro!: api_intros split: list.splits)
  ultimately show ?thesis
    unfolding dispatch_def by (auto intro!: api_intros split: list.splits)
qed

subsection \<open>The failures a handler ends in\<close>

definition failing_codes :: "nat set" where
  "failing_codes = {400, 404, 405, 409, 502}"

definition raises :: "'a api \<Rightarrow> bool" where
  "raises m \<longleftrightarrow> (\<forall>s f s'. m s = (Inl f, s') \<longrightarrow> failure_status f \<in> failing_codes)"

definition error_body :: "api_body \<Rightarrow> bool" where
  "error_body b = (case b of Body_Error _ \<Rightarrow> True | _ \<Rightarrow> False)"

definition replies :: "api_response api \<Rightarrow> bool" where
  "replies m \<longleftrightarrow> raises m \<and>
     (\<forall>s r s'. m s = (Inr r, s') \<longrightarrow> re_status r \<in> {200, 201} \<and> \<not> error_body (re_body r))"

named_theorems code_intros \<open>the failures of the handlers' pieces\<close>

lemma raises_wret [code_intros]: "raises (wret x)"
  by (simp add: raises_def wret_def)

lemma raises_wfail [code_intros]: "failure_status f \<in> failing_codes \<Longrightarrow> raises (wfail f)"
  by (simp add: raises_def wfail_def)

lemma raises_hoist: "(\<And>f. r = Inl f \<Longrightarrow> failure_status f \<in> failing_codes) \<Longrightarrow> raises (hoist r)"
  by (simp add: raises_def hoist_def)

lemma raises_wbind [code_intros]: "raises m \<Longrightarrow> (\<And>x. raises (f x)) \<Longrightarrow> raises (wbind m f)"
  unfolding raises_def wbind_def by (fastforce split: sum.splits prod.splits)

lemma raises_wcatch [code_intros]: "(\<And>e. raises (h e)) \<Longrightarrow> raises (wcatch m h)"
  unfolding raises_def wcatch_def by (fastforce split: sum.splits prod.splits)

lemma raises_wmap [code_intros]: "(\<And>x. raises (f x)) \<Longrightarrow> raises (wmap f xs)"
  by (induction xs) (auto intro!: code_intros)

lemma raises_inspect [code_intros]: "(\<And>s. raises (f s)) \<Longrightarrow> raises (inspect f)"
  by (simp add: raises_def inspect_def)

lemma raises_if [code_intros]: "(b \<Longrightarrow> raises m) \<Longrightarrow> (\<not> b \<Longrightarrow> raises m') \<Longrightarrow> raises (if b then m else m')"
  by simp

lemma raises_option [code_intros]:
  "raises m \<Longrightarrow> (\<And>x. raises (f x)) \<Longrightarrow> raises (case v of None \<Rightarrow> m | Some x \<Rightarrow> f x)"
  by (cases v) auto

lemma raises_await:
  "(\<And>tr f. g tr = Inl f \<Longrightarrow> failure_status f \<in> failing_codes) \<Longrightarrow> raises (await env g c)"
  by (simp add: raises_def await_def Let_def)

lemma failure_codes [simp]:
  "failure_status (Work_Failure e) \<in> failing_codes" "failure_status (Node_Failure x) \<in> failing_codes"
  "failure_status (Repo_Failure x) \<in> failing_codes" "failure_status (Request_Failed code m) \<in> failing_codes"
  "failure_status (notAllowed rq) \<in> failing_codes" "failure_status (unknown_endpoint rq) \<in> failing_codes"
  "failure_status (Api_Error n m) = n"
  by (simp_all add: failure_status_def failing_codes_def notAllowed_def unknown_endpoint_def)

lemma raises_request [code_intros]: "raises (await env (\<lambda>tr. request (f tr)) c)"
  by (auto simp: request_def intro!: raises_await split: sum.splits prod.splits)

lemma raises_listLocalDir [code_intros]: "raises (listLocalDir env p)"
  unfolding listLocalDir_def by (auto intro!: code_intros raises_await split: sum.splits)

lemma raises_stores [code_intros]:
  "raises (nodes_now f)" "raises (repos_read g)" "raises (api_requireChannel n)" "raises (on_work env m)"
  by (auto simp: raises_def nodes_now_def repos_read_def api_requireChannel_def on_work_def failing_codes_def
      split: sum.splits option.splits prod.splits)
    (auto simp: failure_status_def)

lemma raises_writes [code_intros]: "raises (node_write env c f)" "raises (repo_write env c g)"
  by (auto simp: raises_def node_write_def repo_write_def Let_def split: sum.splits prod.splits)

lemma raises_require [code_intros]:
  "raises (hoist (requireString body key))" "raises (hoist (requireTransport body))"
  by (auto simp: requireString_def requireTransport_def failing_codes_def Let_def failure_status_def
      intro!: raises_hoist split: option.splits if_splits)

lemma raises_requireNode [code_intros]: "raises (requireNode n)"
  by (auto simp: requireNode_def failing_codes_def intro!: code_intros)

lemma raises_resolve [code_intros]: "raises (resolveOnNode env r p)" "raises (statOnNode env r p)"
  by (auto simp: resolveOnNode_def statOnNode_def intro!: code_intros)

lemma raises_nodes [code_intros]: "raises (disconnectNode n)" "raises (endShell env t)"
  by (auto simp: raises_def disconnectNode_def endShell_def split: prod.splits)

lemma raises_connect [code_intros]: "raises (connectNode env r)"
  by (auto simp: raises_def connectNode_def await_def Let_def split: prod.splits connect_answer.splits sum.splits)

lemma raises_reportRepo [code_intros]: "raises (reportRepo env r)"
  unfolding reportRepo_def Let_def by (auto intro!: code_intros split: prod.splits)

lemma replies_ok [code_intros]: "n \<in> {200, 201} \<Longrightarrow> \<not> error_body b \<Longrightarrow> replies (ok n b)"
  by (simp add: replies_def ok_def wret_def raises_def)

lemma replies_wfail [code_intros]: "failure_status f \<in> failing_codes \<Longrightarrow> replies (wfail f)"
  by (simp add: replies_def raises_wfail) (simp add: wfail_def)

lemma replies_wbind [code_intros]:
  assumes "raises m" "\<And>x. replies (f x)"
  shows "replies (wbind m f)"
  unfolding replies_def
proof (intro conjI allI impI)
  show "raises (wbind m f)" using assms by (auto simp: replies_def intro!: code_intros)
next
  fix s r s'
  assume "wbind m f s = (Inr r, s')"
  then obtain x s1 where "f x s1 = (Inr r, s')" by (auto simp: wbind_def split: sum.splits prod.splits)
  with assms(2) show "re_status r \<in> {200, 201}" "\<not> error_body (re_body r)" unfolding replies_def by blast+
qed

lemma replies_inspect [code_intros]: "(\<And>s. replies (f s)) \<Longrightarrow> replies (inspect f)"
  by (auto simp: replies_def inspect_def raises_def)

lemma replies_if [code_intros]: "(b \<Longrightarrow> replies m) \<Longrightarrow> (\<not> b \<Longrightarrow> replies m') \<Longrightarrow> replies (if b then m else m')"
  by simp

lemma replies_option [code_intros]:
  "replies m \<Longrightarrow> (\<And>x. replies (f x)) \<Longrightarrow> replies (case v of None \<Rightarrow> m | Some x \<Rightarrow> f x)"
  by (cases v) auto

lemma codes [simp]: "400 \<in> failing_codes" "404 \<in> failing_codes" "409 \<in> failing_codes"
  by (simp_all add: failing_codes_def)

lemma replies_registerRepo: "replies (registerRepo env body)"
  unfolding registerRepo_def Let_def by (intro code_intros) (simp_all add: error_body_def)

lemma replies_removeRepo: "replies (removeRepo env r)"
  unfolding removeRepo_def Let_def by (intro code_intros) (simp_all add: error_body_def)

lemma replies_handleRepos: "replies (handleRepos env rq parts)"
  unfolding handleRepos_def
  by (auto intro!: code_intros replies_registerRepo replies_removeRepo simp: error_body_def split: list.splits)

lemma raises_target: "raises (worktree_target body)"
  unfolding worktree_target_def by (intro code_intros) simp_all

lemma replies_createWorktree: "replies (createWorktree env body)"
  unfolding createWorktree_def Let_def
  by (intro code_intros raises_target) (auto intro!: code_intros simp: error_body_def)

lemma replies_handleWorktrees: "replies (handleWorktrees env rq parts)"
  unfolding handleWorktrees_def
  by (auto intro!: code_intros replies_createWorktree simp: error_body_def split: list.splits)

lemma replies_handleTerminals: "replies (handleTerminals env rq parts)"
  unfolding handleTerminals_def Let_def by (auto intro!: code_intros simp: error_body_def split: list.splits)

lemma replies_nodes:
  "replies listNodes" "replies (addNode env body)" "replies (removeNode env r n)" "replies (changeNode env r n body)"
  "replies (listDirs env rq r n)"
  unfolding listNodes_def addNode_def removeNode_def changeNode_def listDirs_def Let_def
  by (auto intro!: code_intros simp: error_body_def)

lemma replies_handleNodes: "replies (handleNodes env rq parts)"
  unfolding handleNodes_def
  by (auto intro!: code_intros replies_nodes simp: error_body_def split: list.splits)

lemma replies_dispatch: "replies (dispatch env rq)"
  unfolding dispatch_def
  by (auto intro!: code_intros replies_handleNodes replies_handleRepos replies_handleWorktrees replies_handleTerminals
      split: list.splits)

subsection \<open>Without the tokens\<close>

definition hide_node :: "node_record \<Rightarrow> node_record" where
  "hide_node r = (if nd_token r = [] then r else r\<lparr>nd_token := ''*''\<rparr>)"

definition hide :: "api_state \<Rightarrow> api_state" where
  "hide s = s\<lparr>ap_nodes := ((fst (ap_nodes s))\<lparr>ns_nodes := map hide_node (ns_nodes (fst (ap_nodes s)))\<rparr>, snd (ap_nodes s))\<rparr>"

definition blind :: "'a api \<Rightarrow> bool" where
  "blind m \<longleftrightarrow> (\<forall>s. m (hide s) = (fst (m s), hide (snd (m s))))"

named_theorems blind_intros \<open>pieces that do not see the tokens\<close>

lemma hide_node_simps [simp]:
  "nd_nodeId (hide_node r) = nd_nodeId r" "nd_transport (hide_node r) = nd_transport r"
  "toNodeView (hide_node r) = toNodeView r" "api_statusOf m (hide_node r) = api_statusOf m r"
  by (simp_all add: hide_node_def toNodeView_def api_statusOf_def)

lemma hide_simps [simp]:
  "ap_work (hide s) = ap_work s" "ap_machines (hide s) = ap_machines s" "ap_shells (hide s) = ap_shells s"
  by (simp_all add: hide_def)

lemma hide_updates:
  "(hide s)\<lparr>ap_work := w\<rparr> = hide (s\<lparr>ap_work := w\<rparr>)" "moved env (hide s) = hide (moved env s)"
  "logged c (hide s) = hide (logged c s)"
  by (simp_all add: hide_def moved_def logged_def)

lemma find_hide_node: "find_key nd_nodeId i (map hide_node rs) = map_option hide_node (find_key nd_nodeId i rs)"
  by (induction rs) (simp_all add: store_simps)

lemma node_get_hide:
  "node_get i (fst (ap_nodes (hide s))) = map_sum (\<lambda>e. e) (map_option hide_node) (node_get i (fst (ap_nodes s)))"
  by (simp add: node_get_def requireLoaded_def hide_def find_hide_node) (simp add: hide_node_def localNode_def)

lemma node_list_hide:
  "node_list (fst (ap_nodes (hide s))) = map_sum (\<lambda>e. e) (map hide_node) (node_list (fst (ap_nodes s)))"
  by (simp add: node_list_def requireLoaded_def hide_def) (simp add: hide_node_def localNode_def)

lemma isLocalNode_hide [simp]: "isLocalNode (fst (ap_nodes (hide s))) i = isLocalNode (fst (ap_nodes s)) i"
  by (simp add: isLocalNode_def node_get_hide split: sum.splits option.splits)

lemma isLocalNode_hide_fun [simp]: "isLocalNode (fst (ap_nodes (hide s))) = isLocalNode (fst (ap_nodes s))"
  by (simp add: fun_eq_iff)

lemma blind_basic [blind_intros]: "blind (wret x)" "blind (wfail e)" "blind (hoist r)" "blind (ok n b)"
  by (simp_all add: blind_def comp_simps ok_def)

lemma blind_wbind [blind_intros]: "blind m \<Longrightarrow> (\<And>x. blind (f x)) \<Longrightarrow> blind (wbind m f)"
  unfolding blind_def wbind_def by (auto split: sum.splits prod.splits)

lemma blind_wcatch [blind_intros]: "blind m \<Longrightarrow> (\<And>e. blind (h e)) \<Longrightarrow> blind (wcatch m h)"
  unfolding blind_def wcatch_def by (auto split: sum.splits prod.splits)

lemma blind_wmap [blind_intros]: "(\<And>x. blind (f x)) \<Longrightarrow> blind (wmap f xs)"
  by (induction xs) (auto intro!: blind_intros)

lemma blind_if [blind_intros]: "(b \<Longrightarrow> blind m) \<Longrightarrow> (\<not> b \<Longrightarrow> blind m') \<Longrightarrow> blind (if b then m else m')"
  by simp

lemma blind_option [blind_intros]:
  "blind m \<Longrightarrow> (\<And>x. blind (f x)) \<Longrightarrow> blind (case v of None \<Rightarrow> m | Some x \<Rightarrow> f x)"
  by (cases v) auto

lemma blind_inspect [blind_intros]: "(\<And>s. f (hide s) = f s) \<Longrightarrow> (\<And>s. blind (f s)) \<Longrightarrow> blind (inspect f)"
  by (simp add: blind_def inspect_def)

lemma blind_await [blind_intros]: "blind (await env f c)"
  by (simp add: blind_def await_def Let_def hide_updates)

lemma blind_on_work [blind_intros]: "blind (on_work env m)"
  by (auto simp: blind_def on_work_def hide_updates split: sum.splits prod.splits)

lemma blind_stores [blind_intros]: "blind (repos_read f)" "blind (api_requireChannel n)"
  by (simp_all add: blind_def repos_read_def api_requireChannel_def)

lemma blind_node_get:
  assumes "\<And>r. blind (k r)" "\<And>r. k (map_option hide_node r) = k r"
  shows "blind (wbind (nodes_now (node_get i)) k)"
  using assms by (auto simp: blind_def wbind_def nodes_now_def node_get_hide split: sum.splits prod.splits)

lemma blind_node_list:
  assumes "\<And>rs. blind (k rs)" "\<And>rs. k (map hide_node rs) = k rs"
  shows "blind (wbind (nodes_now node_list) k)"
  using assms by (auto simp: blind_def wbind_def nodes_now_def node_list_hide split: sum.splits prod.splits)

lemma blind_requireNode:
  assumes "\<And>r. blind (k r)" "\<And>r. k (hide_node r) = k r"
  shows "blind (wbind (requireNode i) k)"
proof -
  have eq: "wbind (requireNode i) k =
      wbind (nodes_now (node_get i)) (\<lambda>found. case found of None \<Rightarrow> wfail (Api_Error 404 (''no node '' @ quote i)) | Some r \<Rightarrow> k r)"
    by (auto simp: fun_eq_iff requireNode_def wbind_def wfail_def wret_def split: sum.splits prod.splits option.splits)
  show ?thesis
    unfolding eq by (rule blind_node_get) (auto simp: assms intro!: blind_intros split: option.splits)
qed

lemma blind_reportRepo [blind_intros]: "blind (reportRepo env r)"
  unfolding reportRepo_def Let_def
  by (intro blind_inspect blind_node_get)
    (auto simp: worktreeRoot_def option.map_comp o_def intro!: blind_intros split: prod.splits)

lemma blind_resolve [blind_intros]:
  "blind (resolveOnNode env r p)" "blind (statOnNode env r p)" "blind (listLocalDir env p)"
  by (auto simp: resolveOnNode_def statOnNode_def listLocalDir_def intro!: blind_intros)

lemma resolve_hide [simp]: "resolveOnNode env (hide_node r) = resolveOnNode env r"
  by (simp add: fun_eq_iff resolveOnNode_def)

lemma blind_dispatch:
  assumes "rq_method rq = ''GET''"
  shows "blind (dispatch env rq)"
proof -
  have "blind (handleRepos env rq parts)" for parts
    unfolding handleRepos_def using assms by (auto intro!: blind_intros split: list.splits)
  moreover have "blind (handleWorktrees env rq parts)" for parts
    unfolding handleWorktrees_def using assms by (auto intro!: blind_intros split: list.splits)
  moreover have "blind (handleTerminals env rq parts)" for parts
    unfolding handleTerminals_def Let_def using assms by (auto intro!: blind_intros split: list.splits)
  moreover have "blind (handleNodes env rq parts)" for parts
  proof (cases parts)
    case Nil
    have "blind listNodes"
      unfolding listNodes_def by (intro blind_node_list blind_inspect) (auto simp: o_def intro!: blind_intros)
    with Nil assms show ?thesis by (simp add: handleNodes_def)
  next
    case (Cons i rest)
    have dirs: "blind (listDirs env rq r i)" "listDirs env rq (hide_node r) i = listDirs env rq r i" for r
      unfolding listDirs_def Let_def by (auto intro!: blind_intros)
    show ?thesis
      unfolding handleNodes_def Cons list.case
      by (rule blind_requireNode) (use assms dirs in \<open>auto intro!: blind_intros split: list.splits\<close>)
  qed
  ultimately show ?thesis
    unfolding dispatch_def by (auto intro!: blind_intros split: list.splits)
qed

end
