(* ===== verification/Management_Client.thy ===== *)
theory Management_Client
  imports Management_Api
begin

section \<open>The browser's calls of the management API: plugin/client\<close>

text \<open>
  What each button of the settings section and of the terminal chooser sends: the method, the path
  of the URL and the query. The URL parser gives the host the path and the parsed query.
\<close>

datatype ui_call =
    Ui_Load_Nodes | Ui_Load_Repos | Ui_Load_Worktrees
  | Ui_Add_Node | Ui_Remove_Node string | Ui_Connect_Node string | Ui_Disconnect_Node string
  | Ui_Add_Repo | Ui_Remove_Repo string | Ui_Open_Directory string | Ui_Close_Directory string
  | Ui_List_Dirs string string
  | Ui_Create_Worktree | Ui_Remove_Worktree string bool | Ui_Open_Worktree string | Ui_Close_Worktree string
  | Ui_List_Terminals string | Ui_Close_Terminal string

definition API :: string where "API = ''/dsh-remote-workspace''"

fun ui_method :: "ui_call \<Rightarrow> string" where
  "ui_method Ui_Add_Node = ''POST''"
| "ui_method (Ui_Remove_Node _) = ''DELETE''"
| "ui_method (Ui_Connect_Node _) = ''POST''"
| "ui_method (Ui_Disconnect_Node _) = ''POST''"
| "ui_method Ui_Add_Repo = ''POST''"
| "ui_method (Ui_Remove_Repo _) = ''DELETE''"
| "ui_method (Ui_Open_Directory _) = ''POST''"
| "ui_method (Ui_Close_Directory _) = ''POST''"
| "ui_method Ui_Create_Worktree = ''POST''"
| "ui_method (Ui_Remove_Worktree _ _) = ''DELETE''"
| "ui_method (Ui_Open_Worktree _) = ''POST''"
| "ui_method (Ui_Close_Worktree _) = ''POST''"
| "ui_method (Ui_Close_Terminal _) = ''POST''"
| "ui_method _ = ''GET''"

fun ui_path :: "ui_call \<Rightarrow> string" where
  "ui_path Ui_Load_Nodes = ''/nodes''"
| "ui_path Ui_Load_Repos = ''/repos''"
| "ui_path Ui_Load_Worktrees = ''/worktrees''"
| "ui_path Ui_Add_Node = ''/nodes''"
| "ui_path (Ui_Remove_Node n) = ''/nodes/'' @ encodeURIComponent n"
| "ui_path (Ui_Connect_Node n) = ''/nodes/'' @ encodeURIComponent n @ ''/connect''"
| "ui_path (Ui_Disconnect_Node n) = ''/nodes/'' @ encodeURIComponent n @ ''/disconnect''"
| "ui_path Ui_Add_Repo = ''/repos''"
| "ui_path (Ui_Remove_Repo r) = ''/repos/'' @ encodeURIComponent r"
| "ui_path (Ui_Open_Directory r) = ''/repos/'' @ encodeURIComponent r @ ''/open''"
| "ui_path (Ui_Close_Directory r) = ''/repos/'' @ encodeURIComponent r @ ''/close''"
| "ui_path (Ui_List_Dirs n p) = ''/nodes/'' @ encodeURIComponent n @ ''/dirs''"
| "ui_path Ui_Create_Worktree = ''/worktrees''"
| "ui_path (Ui_Remove_Worktree a b) = ''/worktrees/'' @ encodeURIComponent a"
| "ui_path (Ui_Open_Worktree a) = ''/worktrees/'' @ encodeURIComponent a @ ''/open''"
| "ui_path (Ui_Close_Worktree a) = ''/worktrees/'' @ encodeURIComponent a @ ''/close''"
| "ui_path (Ui_List_Terminals sessionId) = ''/terminals''"
| "ui_path (Ui_Close_Terminal t) = ''/terminals/'' @ encodeURIComponent t @ ''/close''"

fun ui_query :: "ui_call \<Rightarrow> (string \<times> string) list" where
  "ui_query (Ui_List_Dirs n p) = [(''path'', p)]"
| "ui_query (Ui_Remove_Worktree a withBranch) =
     [(''force'', ''true''), (''deleteBranch'', if withBranch then ''true'' else ''false'')]"
| "ui_query (Ui_List_Terminals sessionId) = [(''sessionId'', sessionId)]"
| "ui_query _ = []"

definition ui_url :: "ui_call \<Rightarrow> string" where
  "ui_url c = API @ ui_path c"

text \<open>What a person asked for: the segments the host should read, and the id a call carries.\<close>

fun ui_meaning :: "ui_call \<Rightarrow> string list" where
  "ui_meaning Ui_Load_Nodes = [''nodes'']"
| "ui_meaning Ui_Load_Repos = [''repos'']"
| "ui_meaning Ui_Load_Worktrees = [''worktrees'']"
| "ui_meaning Ui_Add_Node = [''nodes'']"
| "ui_meaning (Ui_Remove_Node n) = [''nodes'', n]"
| "ui_meaning (Ui_Connect_Node n) = [''nodes'', n, ''connect'']"
| "ui_meaning (Ui_Disconnect_Node n) = [''nodes'', n, ''disconnect'']"
| "ui_meaning Ui_Add_Repo = [''repos'']"
| "ui_meaning (Ui_Remove_Repo r) = [''repos'', r]"
| "ui_meaning (Ui_Open_Directory r) = [''repos'', r, ''open'']"
| "ui_meaning (Ui_Close_Directory r) = [''repos'', r, ''close'']"
| "ui_meaning (Ui_List_Dirs n p) = [''nodes'', n, ''dirs'']"
| "ui_meaning Ui_Create_Worktree = [''worktrees'']"
| "ui_meaning (Ui_Remove_Worktree a b) = [''worktrees'', a]"
| "ui_meaning (Ui_Open_Worktree a) = [''worktrees'', a, ''open'']"
| "ui_meaning (Ui_Close_Worktree a) = [''worktrees'', a, ''close'']"
| "ui_meaning (Ui_List_Terminals sessionId) = [''terminals'']"
| "ui_meaning (Ui_Close_Terminal t) = [''terminals'', t, ''close'']"

subsection \<open>Paths of segments\<close>

definition slash_path :: "string list \<Rightarrow> string" where
  "slash_path segs = concat (map (\<lambda>seg. CHR ''/'' # seg) segs)"

lemma slash_path_Cons: "slash_path (seg # segs) = CHR ''/'' # seg @ slash_path segs"
  by (simp add: slash_path_def)

lemma split_slash_path:
  "\<forall>seg \<in> set segs. CHR ''/'' \<notin> set seg \<Longrightarrow> CHR ''/'' \<notin> set a \<Longrightarrow>
    split_on (CHR ''/'') (a @ slash_path segs) = a # segs"
proof (induction segs arbitrary: a)
  case Nil
  then show ?case by (induction a) (auto simp: slash_path_def)
next
  case (Cons seg segs)
  then show ?case by (simp add: slash_path_Cons split_on_append_sep)
qed

lemma join_slash_path: "join_with ''/'' (a # segs) = a @ slash_path segs"
  by (induction segs arbitrary: a) (simp_all add: slash_path_Cons, simp add: slash_path_def)

lemma those_map_Some: "\<forall>x \<in> set xs. f x = Some (g x) \<Longrightarrow> those (map f xs) = Some (map g xs)"
  by (induction xs) auto

lemma decode_slash_path:
  assumes "segs \<noteq> []" "\<forall>seg \<in> set segs. utf8_valid seg"
  shows "decode_path (slash_path (map encodeURIComponent segs)) = Some (slash_path segs)"
proof -
  have split: "split_on (CHR ''/'') (slash_path (map encodeURIComponent segs)) = [] # map encodeURIComponent segs"
    using split_slash_path [of "map encodeURIComponent segs" "[]"] by (simp add: encode_no_slash)
  have "those (map decodeURIComponent (map encodeURIComponent segs)) = Some segs"
    using assms(2) those_map_Some [of segs "\<lambda>x. decodeURIComponent (encodeURIComponent x)" "\<lambda>x. x"]
    by (simp add: decode_encode_component o_def)
  moreover have "decodeURIComponent [] = Some []" by (simp add: decodeURIComponent_def)
  moreover have "slash_path (map encodeURIComponent segs) \<noteq> []" using assms(1) by (cases segs) (simp_all add: slash_path_Cons)
  ultimately show ?thesis by (simp add: decode_path_def split join_slash_path)
qed

lemma parts_slash_path:
  "\<forall>seg \<in> set segs. CHR ''/'' \<notin> set seg \<and> seg \<noteq> [] \<Longrightarrow> api_parts (slash_path segs) = segs"
  using split_slash_path [of segs "[]"] by (simp add: api_parts_def filter_id_conv)

lemma encode_plain: "\<forall>c \<in> set s. uri_unreserved c \<Longrightarrow> encodeURIComponent s = s"
  by (induction s) (simp_all add: encodeURIComponent_def encode_byte_def)

text \<open>The words of the routes are sent as they are.\<close>

lemma route_words [simp]:
  "encodeURIComponent ''nodes'' = ''nodes''" "encodeURIComponent ''repos'' = ''repos''"
  "encodeURIComponent ''worktrees'' = ''worktrees''" "encodeURIComponent ''terminals'' = ''terminals''"
  "encodeURIComponent ''connect'' = ''connect''" "encodeURIComponent ''disconnect'' = ''disconnect''"
  "encodeURIComponent ''open'' = ''open''" "encodeURIComponent ''close'' = ''close''" "encodeURIComponent ''dirs'' = ''dirs''"
  by (rule encode_plain, simp add: uri_unreserved_def byte_def)+

lemma ui_path_segments: "ui_path c = slash_path (map encodeURIComponent (ui_meaning c))"
  by (cases c) (simp_all add: slash_path_def)

lemma utf8_valid_word: "list_all (\<lambda>c. byte c < 0x80) s \<Longrightarrow> utf8_valid s"
  by (simp add: utf8_valid_ascii list_all_iff)

lemma words_valid [simp]:
  "utf8_valid ''nodes''" "utf8_valid ''repos''" "utf8_valid ''worktrees''" "utf8_valid ''terminals''"
  "utf8_valid ''connect''" "utf8_valid ''disconnect''" "utf8_valid ''open''" "utf8_valid ''close''" "utf8_valid ''dirs''"
  by (rule utf8_valid_word, simp add: byte_def)+

end
