(* ===== verification/Api_Properties.thy ===== *)
theory Api_Properties
  imports Api_Logic Management_Client
begin

section \<open>What the management API guarantees\<close>

text \<open>
  The theorems on the handlers and on the route: reading requests change nothing and do not depend
  on the tokens, every answer carries one of the API's codes, what removing a machine and forgetting
  a repository do, and how a call of the browser half arrives.
\<close>

lemma handleNodeApi_state: "snd (handleNodeApi env rq s) = snd (dispatch env rq s)"
  by (simp add: handleNodeApi_def split: prod.splits sum.splits)

subsection \<open>Reading\<close>

text \<open>C7: a GET request changes no machine, repository, anchor or terminal, in memory or on disk, and
  makes only calls that ask: no machine and no git on this host is told to write anything.\<close>

theorem get_only_asks:
  assumes "rq_method rq = ''GET''"
  shows "let s' = snd (handleNodeApi env rq s) in
    ap_nodes s' = ap_nodes s \<and> ap_shells s' = ap_shells s \<and>
    wt_anchors (ap_work s') = wt_anchors (ap_work s) \<and> wt_repos (ap_work s') = wt_repos (ap_work s) \<and>
    (\<exists>added. wt_trace (ap_work s') = wt_trace (ap_work s) @ added \<and> list_all asks added)"
  using reads_dispatch [OF assms(1)] unfolding Let_def preserves_def handleNodeApi_state reads_only_def by blast

definition sample_api :: api_env where
  "sample_api =
     \<lparr>ae_work = sample_env True, ae_config = sample_config, ae_home = ''/h'', ae_root = ''~/wt'', ae_regex = (\<lambda>p. Inl ''no''),
      ae_events = (\<lambda>tr. []), ae_resolved = (\<lambda>tr. Inr ''/r''), ae_type = (\<lambda>tr. Inr (Some ''directory'')),
      ae_listing = (\<lambda>tr. Inr []), ae_repoState = (\<lambda>tr. Inr ()), ae_dirents = (\<lambda>tr. Inr []), ae_attempt = (\<lambda>tr. Inr ())\<rparr>"

definition sample_repo :: repo_record where
  "sample_repo = \<lparr>rr_repoId = ''i'', rr_nodeId = ''n'', rr_repoPath = ''/r'', rr_name = ''R'', rr_createdAt = ''c''\<rparr>"

definition sample_anchor :: anchor_record where
  "sample_anchor =
     \<lparr>an_anchorId = ''a'', an_nodeId = ''n'', an_name = ''w'', an_anchorPath = ''/a/w'', an_remoteRoot = ''/wt/w'',
      an_repoPath = ''/r'', an_createdAt = ''c'', an_kind = Worktree ''worktree/w'' (Some Created)\<rparr>"

definition sample_state :: api_state where
  "sample_state =
     \<lparr>ap_nodes = (\<lparr>ns_nodes = [sample_machine], ns_loaded = True\<rparr>, File_Absent),
      ap_work = \<lparr>wt_anchors = (\<lparr>as_root = ''/a'', as_anchors = [sample_anchor], as_loaded = True\<rparr>, [(''a'', E_Dir [])]),
        wt_repos = (\<lparr>rs_repos = [sample_repo], rs_loaded = True\<rparr>, File_Absent), wt_trace = []\<rparr>,
      ap_machines = createNodeConnections, ap_shells = \<lparr>rg_entries = [], rg_nextOrdinal = 1\<rparr>\<rparr>"

definition sample_request :: "string \<Rightarrow> string \<Rightarrow> api_request" where
  "sample_request method p = \<lparr>rq_method = method, rq_path = p, rq_query = [], rq_body = None\<rparr>"

theorem get_only_asks_witness:
  "ap_nodes (snd (handleNodeApi sample_api (sample_request ''GET'' ''/worktrees'') sample_state)) = ap_nodes sample_state"
  using get_only_asks [of "sample_request ''GET'' ''/worktrees''" sample_api sample_state]
  by (simp add: sample_request_def Let_def)

text \<open>C4: the answer to a GET request depends on the stored tokens only in whether they are empty:
  the same request on a registry whose tokens were all replaced gives the same answer.\<close>

theorem tokens_unseen:
  assumes "rq_method rq = ''GET''"
  shows "fst (handleNodeApi env rq (hide s)) = fst (handleNodeApi env rq s)"
  using blind_dispatch [OF assms, of env]
  by (auto simp: blind_def handleNodeApi_def split: prod.splits sum.splits)

theorem tokens_unseen_witness:
  "fst (handleNodeApi sample_api (sample_request ''GET'' ''/nodes'') (hide sample_state)) =
     fst (handleNodeApi sample_api (sample_request ''GET'' ''/nodes'') sample_state)"
  by (rule tokens_unseen) (simp add: sample_request_def)

subsection \<open>Codes\<close>

lemma handleNodeApi_codes:
  "let r = fst (handleNodeApi env rq s) in
   (re_status r \<in> {200, 201} \<and> \<not> error_body (re_body r)) \<or>
   (\<exists>f. re_body r = Body_Error f \<and> re_status r = failure_status f \<and> re_status r \<in> failing_codes)"
proof -
  obtain res s' where d: "dispatch env rq s = (res, s')" by fastforce
  show ?thesis
  proof (cases res)
    case (Inl f)
    with d replies_dispatch have "failure_status f \<in> failing_codes" unfolding replies_def raises_def by blast
    with d Inl show ?thesis by (simp add: handleNodeApi_def)
  next
    case (Inr x)
    with d replies_dispatch have "re_status x \<in> {200, 201} \<and> \<not> error_body (re_body x)" unfolding replies_def by blast
    with d Inr show ?thesis by (simp add: handleNodeApi_def)
  qed
qed

text \<open>Whatever arrives on the route, the answer is either a result with 200 or 201, or a failure
  with the code that belongs to it, which is 400, 404, 405, 409 or 502.\<close>

theorem answers_coded:
  "let r = fst (serve parse env method pathname query chunks s) in
   (re_status r \<in> {200, 201} \<and> \<not> error_body (re_body r)) \<or>
   (\<exists>f. re_body r = Body_Error f \<and> re_status r = failure_status f \<and> re_status r \<in> failing_codes)"
proof (cases "decode_path (drop (length API_PREFIX) pathname)")
  case None
  then show ?thesis by (simp add: serve_def bad_request_def)
next
  case (Some decoded)
  show ?thesis
  proof (cases "readJsonBody parse chunks")
    case (Inl m)
    with Some show ?thesis by (simp add: serve_def bad_request_def)
  next
    case (Inr body)
    with Some handleNodeApi_codes [of env _ s] show ?thesis unfolding serve_def Let_def by simp
  qed
qed

subsection \<open>The body\<close>

lemma read_chunks_eq:
  "length acc \<le> MAX_BODY_BYTES \<Longrightarrow> read_chunks chunks acc =
    (if length acc + length (concat chunks) \<le> MAX_BODY_BYTES then Inr (acc @ concat chunks) else Inl ''request body is too large'')"
  by (induction chunks acc rule: read_chunks.induct) auto

text \<open>Reading a body piece by piece under the bound is reading it whole: it is refused exactly
  when all of it together is over one mebibyte, however it was cut, and otherwise parsed whole.\<close>

theorem body_read_whole:
  "readJsonBody parse chunks =
     (if length (concat chunks) > 2 ^ 20 then Inl ''request body is too large''
      else if concat chunks = [] then Inr None
      else map_sum (\<lambda>e. e) Some (parse (utf8_text (concat chunks))))"
  by (auto simp: readJsonBody_def read_chunks_eq MAX_BODY_BYTES_def split: sum.splits)

subsection \<open>Calls of the browser half\<close>



text \<open>An encoded separator does invent a segment boundary: an id that has one arrives as two
  segments, so that a request to close the terminal \<open>a/close\<close>, or to remove a repository \<open>a/open\<close>,
  is read exactly as one to the operation \<open>close\<close> or \<open>open\<close> of \<open>a\<close>.\<close>

theorem encoded_separator_splits:
  assumes "utf8_valid a" "utf8_valid b" "\<forall>seg \<in> set pre. utf8_valid seg"
  shows "decode_path (slash_path (map encodeURIComponent (pre @ [a @ ''/'' @ b]))) =
    decode_path (slash_path (map encodeURIComponent (pre @ [a, b])))"
proof -
  have slash: "utf8_valid ''/''" by (rule utf8_valid_word) (simp add: byte_def)
  have "utf8_valid (a @ ''/'' @ b)" using assms(1,2) slash by (intro utf8_valid_append)
  then have "decode_path (slash_path (map encodeURIComponent (pre @ [a @ ''/'' @ b]))) = Some (slash_path (pre @ [a @ ''/'' @ b]))"
    using assms by (intro decode_slash_path) auto
  moreover have "decode_path (slash_path (map encodeURIComponent (pre @ [a, b]))) = Some (slash_path (pre @ [a, b]))"
    using assms by (intro decode_slash_path) auto
  ultimately show ?thesis by (simp add: slash_path_def)
qed

theorem encoded_separator_splits_witness:
  "decode_path (slash_path (map encodeURIComponent [''repos'', ''a/open''])) =
   decode_path (slash_path (map encodeURIComponent [''repos'', ''a'', ''open'']))"
proof -
  have "utf8_valid ''a''" by (rule utf8_valid_word) (simp add: byte_def)
  from encoded_separator_splits [OF this words_valid(7), of "[''repos'']"] show ?thesis by simp
qed

subsection \<open>Removing a machine\<close>

lemma requireNode_found:
  assumes "ns_loaded (fst (ap_nodes s))" "find_key nd_nodeId n (ns_nodes (fst (ap_nodes s))) = Some r" "n \<noteq> LOCAL_NODE_ID"
  shows "requireNode n s = (Inr r, s)"
  using assms by (simp add: requireNode_def wbind_def nodes_now_def node_get_def requireLoaded_def wret_def)

lemma node_remove_found:
  assumes "ns_loaded (fst sd)" "find_key nd_nodeId n (ns_nodes (fst sd)) = Some r" "n \<noteq> LOCAL_NODE_ID"
  shows "node_remove failure n sd =
    (case failure of
       Some e \<Rightarrow> (Inl (Write_Failed e), sd)
     | None \<Rightarrow> (Inr True, (fst sd)\<lparr>ns_nodes := drop_key nd_nodeId n (ns_nodes (fst sd))\<rparr>,
         File_Json (document_json node_document (drop_key nd_nodeId n (ns_nodes (fst sd))))))"
  using assms by (simp add: node_remove_def Let_def store_simps node_commit_cases)

lemma drop_key_same: "length (drop_key key k rs) = length rs \<Longrightarrow> drop_key key k rs = rs"
  unfolding drop_key_def by (metis filter_True length_filter_less less_irrefl)

lemma removeByNode_result:
  assumes "rs_loaded (fst sd)"
  shows "repo_removeByNode failure n sd = (res, sd') \<Longrightarrow>
    rs_repos (fst sd') = (if failure = None then drop_key rr_nodeId n (rs_repos (fst sd)) else rs_repos (fst sd)) \<and>
    (is_ok res \<longleftrightarrow> failure = None \<or> (\<forall>r \<in> set (rs_repos (fst sd)). rr_nodeId r \<noteq> n))"
proof -
  assume run: "repo_removeByNode failure n sd = (res, sd')"
  have le: "length (drop_key rr_nodeId n (rs_repos (fst sd))) \<le> length (rs_repos (fst sd))" by (simp add: drop_key_def)
  have none: "length (drop_key rr_nodeId n (rs_repos (fst sd))) = length (rs_repos (fst sd)) \<longleftrightarrow>
      (\<forall>r \<in> set (rs_repos (fst sd)). rr_nodeId r \<noteq> n)"
    by (auto simp: store_simps find_key_None)
  show ?thesis
  proof (cases "length (drop_key rr_nodeId n (rs_repos (fst sd))) = length (rs_repos (fst sd))")
    case True
    with run assms none drop_key_same [OF True] show ?thesis by (auto simp: repo_removeByNode_def Let_def)
  next
    case False
    with le have "length (rs_repos (fst sd)) - length (drop_key rr_nodeId n (rs_repos (fst sd))) \<noteq> 0" by simp
    with run assms False none show ?thesis
      by (auto simp: repo_removeByNode_def Let_def repo_commit_cases split: option.splits)
  qed
qed

text \<open>C34: removing a machine ends its connection first, then drops its record, then its repositories,
  each only if the one before was stored: a failed write of the registry leaves the machine and its
  repositories, disconnected, with code 502; a failed write of the repositories leaves those of a
  machine that is gone.\<close>

theorem machine_removal:
  assumes "rq_method rq = ''DELETE''" "api_parts (rq_path rq) = [''nodes'', n]"
    and "ns_loaded (fst (ap_nodes s))" "rs_loaded (fst (wt_repos (ap_work s)))"
    and "find_key nd_nodeId n (ns_nodes (fst (ap_nodes s))) = Some r" "nd_transport r \<noteq> Local_Transport" "n \<noteq> LOCAL_NODE_ID"
  shows "let tr = wt_trace (ap_work s);
      nodes_fail = we_write_failure (ae_work env) (tr @ [Do_Disconnect n]);
      repos_fail = we_write_failure (ae_work env) (tr @ [Do_Disconnect n, Node_Dropped n]);
      repos = rs_repos (fst (wt_repos (ap_work s)));
      (answer, s') = handleNodeApi env rq s in
    ns_nodes (fst (ap_nodes s')) =
      (if nodes_fail = None then drop_key nd_nodeId n (ns_nodes (fst (ap_nodes s))) else ns_nodes (fst (ap_nodes s))) \<and>
    rs_repos (fst (wt_repos (ap_work s'))) =
      (if nodes_fail = None \<and> repos_fail = None then drop_key rr_nodeId n repos else repos) \<and>
    take (Suc (length tr)) (wt_trace (ap_work s')) = tr @ [Do_Disconnect n] \<and>
    re_status answer =
      (if nodes_fail = None \<and> (repos_fail = None \<or> (\<forall>r \<in> set repos. rr_nodeId r \<noteq> n)) then 200 else 502)"
proof -
  let ?tr = "wt_trace (ap_work s)"
  let ?s1 = "logged (Do_Disconnect n) (s\<lparr>ap_machines := mg_disconnect n (ap_machines s)\<rparr>)"
  have d: "dispatch env rq s = removeNode env r n s"
    using assms by (simp add: dispatch_def handleNodes_def wbind_def [of "requireNode n"] requireNode_found)
  have s1: "ap_nodes ?s1 = ap_nodes s" "wt_trace (ap_work ?s1) = ?tr @ [Do_Disconnect n]" "wt_repos (ap_work ?s1) = wt_repos (ap_work s)"
    by (simp_all add: logged_def)
  show ?thesis
  proof (cases "we_write_failure (ae_work env) (?tr @ [Do_Disconnect n])")
    case (Some e)
    have "removeNode env r n s = (Inl (Node_Failure (Write_Failed e)), moved env (?s1\<lparr>ap_nodes := ap_nodes s\<rparr>))"
      using assms Some s1
      by (simp add: removeNode_def wbind_def disconnectNode_def node_write_def Let_def node_remove_found split_beta)
    with Some s1 show ?thesis by (simp add: handleNodeApi_def d Let_def failure_status_def)
  next
    case None
    let ?sd = "((fst (ap_nodes s))\<lparr>ns_nodes := drop_key nd_nodeId n (ns_nodes (fst (ap_nodes s)))\<rparr>,
         File_Json (document_json node_document (drop_key nd_nodeId n (ns_nodes (fst (ap_nodes s))))))"
    let ?s2 = "moved env (logged (Node_Dropped n) (?s1\<lparr>ap_nodes := ?sd\<rparr>))"
    let ?fail = "we_write_failure (ae_work env) (?tr @ [Do_Disconnect n, Node_Dropped n])"
    have s2: "ap_nodes ?s2 = ?sd" "wt_trace (ap_work ?s2) = ?tr @ [Do_Disconnect n, Node_Dropped n]"
      "wt_repos (ap_work ?s2) = wt_repos (ap_work s)"
      by (simp_all add: logged_def)
    obtain res sd' where rm: "repo_removeByNode ?fail n (wt_repos (ap_work s)) = (res, sd')" by (metis surj_pair)
    note result = removeByNode_result [OF assms(4) rm]
    have run: "removeNode env r n s = (case res of
        Inl x \<Rightarrow> (Inl (Repo_Failure x), moved env (?s2\<lparr>ap_work := (ap_work ?s2)\<lparr>wt_repos := sd'\<rparr>\<rparr>))
      | Inr k \<Rightarrow> (Inr \<lparr>re_status = 200, re_body = Body_Deleted True\<rparr>,
          moved env (logged (Repos_Of_Node_Dropped n) (?s2\<lparr>ap_work := (ap_work ?s2)\<lparr>wt_repos := sd'\<rparr>\<rparr>))))"
      using assms None s1 s2 rm
      by (simp add: removeNode_def wbind_def disconnectNode_def node_write_def repo_write_def Let_def node_remove_found
          ok_def wret_def split: sum.splits)
    from result None s2 show ?thesis
      by (auto simp: handleNodeApi_def d run Let_def failure_status_def logged_def split: sum.splits)
  qed
qed

theorem machine_removal_witness:
  "re_status (fst (handleNodeApi sample_api (sample_request ''DELETE'' ''/nodes/n'') sample_state)) = 200 \<and>
   rs_repos (fst (wt_repos (ap_work (snd (handleNodeApi sample_api (sample_request ''DELETE'' ''/nodes/n'') sample_state))))) = []"
proof -
  have "api_parts (rq_path (sample_request ''DELETE'' ''/nodes/n'')) = [''nodes'', ''n'']" by code_simp
  moreover have "find_key nd_nodeId ''n'' (ns_nodes (fst (ap_nodes sample_state))) = Some sample_machine" by code_simp
  moreover have "''n'' \<noteq> LOCAL_NODE_ID" by code_simp
  moreover have "we_write_failure (ae_work sample_api) = (\<lambda>tr. None)" by (simp add: sample_api_def sample_env_def)
  ultimately show ?thesis
    using machine_removal [of "sample_request ''DELETE'' ''/nodes/n''" "''n''" sample_state sample_machine sample_api]
    by (simp add: sample_request_def sample_machine_def sample_state_def sample_repo_def drop_key_def Let_def split_beta)
qed

subsection \<open>Forgetting a repository\<close>



end
