(* ===== verification/Terminal_Tabs.thy ===== *)
theory Terminal_Tabs
  imports Terminal_Socket "HOL-Library.AList"
begin

section \<open>The browser's terminals: plugin/client/terminal/session.ts\<close>

text \<open>
  One page: the terminals of its tabs, the sockets that carry them, the choices of the tabs and the
  memory of one terminal per session. A terminal is a mutable object that the listeners of a socket
  keep after its tab has dropped it, so terminals live in a heap and a socket knows the one it is
  wired to. The drawing is left out: what reaches the terminal and the body is an effect.
\<close>

subsection \<open>State\<close>

datatype tab_view =
    V_Opening
  | V_Live path bool
  | V_Ended "int option" "string option"
  | V_Closed
  | V_Failed string

datatype terminal_target = Existing term_id | New_Shell

datatype first_frame = First_Open | First_Attach

datatype ready_state = Ws_Connecting | Ws_Open | Ws_Closing | Ws_Closed

record tab_entry =
  tb_key :: string
  tb_tabId :: string
  tb_sessionId :: session_id
  tb_socket :: nat
  tb_id :: "term_id option"
  tb_label :: "string option"
  tb_view :: tab_view
  tb_size :: "rat \<times> rat"
  tb_fixedSize :: bool
  tb_pending :: first_frame
  tb_replaying :: bool
  tb_muted :: bool
  tb_attempts :: nat
  tb_timer :: bool

datatype page_effect =
    Px_Socket nat
  | Px_Send nat client_frame
  | Px_Write nat bytes
  | Px_State nat tab_view
  | Px_Close nat
  | Px_Dispose nat

record page =
  pg_heap :: "nat \<Rightarrow> tab_entry"
  pg_table :: "(string \<times> nat) list"
  pg_targets :: "(string \<times> terminal_target) list"
  pg_storage :: bool
  pg_memory :: "(session_id \<times> term_id) list"
  pg_sockets :: "nat \<Rightarrow> ready_state"
  pg_wires :: "nat \<Rightarrow> nat"
  pg_nextEntry :: nat
  pg_nextSocket :: nat
  pg_effects :: "page_effect list"

definition RECONNECT_BASE_MS :: nat where "RECONNECT_BASE_MS = 500"
definition RECONNECT_MAX_MS :: nat where "RECONNECT_MAX_MS = 5000"

definition blank_tab :: tab_entry where
  "blank_tab =
     \<lparr>tb_key = [], tb_tabId = [], tb_sessionId = [], tb_socket = 0, tb_id = None, tb_label = None, tb_view = V_Opening,
      tb_size = (80, 24), tb_fixedSize = False, tb_pending = First_Open, tb_replaying = False, tb_muted = False,
      tb_attempts = 0, tb_timer = False\<rparr>"

definition fresh_page :: "bool \<Rightarrow> (session_id \<times> term_id) list \<Rightarrow> page" where
  "fresh_page storage memory =
     \<lparr>pg_heap = (\<lambda>e. blank_tab), pg_table = [], pg_targets = [], pg_storage = storage, pg_memory = memory,
      pg_sockets = (\<lambda>s. Ws_Closed), pg_wires = (\<lambda>s. 0), pg_nextEntry = 0, pg_nextSocket = 0, pg_effects = []\<rparr>"

subsection \<open>The memory of a session's terminal\<close>

definition readMemory :: "page \<Rightarrow> (session_id \<times> term_id) list" where
  "readMemory p = (if pg_storage p then pg_memory p else [])"

definition lastTerminal :: "session_id \<Rightarrow> page \<Rightarrow> term_id option" where
  "lastTerminal sessionId p = map_of (readMemory p) sessionId"

definition memorize :: "session_id \<Rightarrow> term_id option \<Rightarrow> page \<Rightarrow> page" where
  "memorize sessionId tid p =
     (if \<not> pg_storage p then p
      else p\<lparr>pg_memory := (case tid of None \<Rightarrow> AList.delete sessionId (readMemory p)
                                    | Some i \<Rightarrow> AList.update sessionId i (readMemory p))\<rparr>)"

definition forget_terminal :: "session_id \<Rightarrow> term_id option \<Rightarrow> page \<Rightarrow> page" where
  "forget_terminal sessionId tid p =
     (if tid \<noteq> None \<and> lastTerminal sessionId p = tid then memorize sessionId None p else p)"

subsection \<open>Tabs\<close>

definition tabKey :: "session_id \<Rightarrow> string \<Rightarrow> string" where
  "tabKey sessionId tabId = sessionId @ [CHR 0x00] @ tabId"

definition chooseTerminal :: "session_id \<Rightarrow> string \<Rightarrow> terminal_target \<Rightarrow> page \<Rightarrow> page" where
  "chooseTerminal sessionId tabId target p = p\<lparr>pg_targets := AList.update (tabKey sessionId tabId) target (pg_targets p)\<rparr>"

definition terminalTarget :: "session_id \<Rightarrow> string \<Rightarrow> page \<Rightarrow> terminal_target option" where
  "terminalTarget sessionId tabId p = map_of (pg_targets p) (tabKey sessionId tabId)"

definition entry_of :: "session_id \<Rightarrow> string \<Rightarrow> page \<Rightarrow> nat option" where
  "entry_of sessionId tabId p = map_of (pg_table p) (tabKey sessionId tabId)"

definition terminalLabel :: "session_id \<Rightarrow> string \<Rightarrow> page \<Rightarrow> string option" where
  "terminalLabel sessionId tabId p = Option.bind (entry_of sessionId tabId p) (\<lambda>e. tb_label (pg_heap p e))"

definition terminalTab :: "session_id \<Rightarrow> term_id \<Rightarrow> page \<Rightarrow> string option" where
  "terminalTab sessionId tid p =
     map_option (\<lambda>(_, e). tb_tabId (pg_heap p e))
       (List.find (\<lambda>(_, e). tb_sessionId (pg_heap p e) = sessionId \<and> tb_id (pg_heap p e) = Some tid) (pg_table p))"

definition terminalState :: "session_id \<Rightarrow> string \<Rightarrow> page \<Rightarrow> tab_view" where
  "terminalState sessionId tabId p =
     (case entry_of sessionId tabId p of None \<Rightarrow> V_Opening | Some e \<Rightarrow> tb_view (pg_heap p e))"

definition upd_tab :: "nat \<Rightarrow> (tab_entry \<Rightarrow> tab_entry) \<Rightarrow> page \<Rightarrow> page" where
  "upd_tab e f p = p\<lparr>pg_heap := (pg_heap p)(e := f (pg_heap p e))\<rparr>"

definition px :: "page_effect list \<Rightarrow> page \<Rightarrow> page" where
  "px fx p = p\<lparr>pg_effects := pg_effects p @ fx\<rparr>"

definition emit_state :: "nat \<Rightarrow> tab_view \<Rightarrow> page \<Rightarrow> page" where
  "emit_state e v p = px [Px_State e v] (upd_tab e (\<lambda>t. t\<lparr>tb_view := v\<rparr>) p)"

definition send_frame :: "nat \<Rightarrow> client_frame \<Rightarrow> page \<Rightarrow> page" where
  "send_frame e frame p =
     (let s = tb_socket (pg_heap p e) in if pg_sockets p s = Ws_Open then px [Px_Send s frame] p else p)"

definition sized :: "tab_entry \<Rightarrow> (measured \<Rightarrow> measured \<Rightarrow> client_frame) \<Rightarrow> client_frame" where
  "sized t f = f (Finite (fst (tb_size t))) (Finite (snd (tb_size t)))"

text \<open>\<open>new WebSocket\<close>, wired to its terminal.\<close>

definition connect_tab :: "nat \<Rightarrow> page \<Rightarrow> page" where
  "connect_tab e p =
     (let s = pg_nextSocket p in
      px [Px_Socket s]
        (upd_tab e (\<lambda>t. t\<lparr>tb_socket := s\<rparr>)
          (p\<lparr>pg_sockets := (pg_sockets p)(s := Ws_Connecting), pg_wires := (pg_wires p)(s := e), pg_nextSocket := Suc s\<rparr>)))"

definition create_tab :: "session_id \<Rightarrow> string \<Rightarrow> terminal_target \<Rightarrow> rat \<times> rat \<Rightarrow> page \<Rightarrow> page" where
  "create_tab sessionId tabId target dims p =
     (let e = pg_nextEntry p in
      connect_tab e
        (upd_tab e (\<lambda>_. blank_tab\<lparr>tb_key := tabKey sessionId tabId, tb_tabId := tabId, tb_sessionId := sessionId,
                                  tb_id := (case target of Existing i \<Rightarrow> Some i | New_Shell \<Rightarrow> None), tb_size := dims\<rparr>)
          (p\<lparr>pg_nextEntry := Suc e\<rparr>)))"

subsection \<open>What a socket brings\<close>

definition on_open :: "nat \<Rightarrow> page \<Rightarrow> page" where
  "on_open s p0 =
     (let p = p0\<lparr>pg_sockets := (pg_sockets p0)(s := Ws_Open)\<rparr>; e = pg_wires p s; t = pg_heap p e in
      case tb_id t of
        None \<Rightarrow>
          send_frame e (sized t (OpenFrame (tb_sessionId t)))
            (upd_tab e (\<lambda>t. t\<lparr>tb_pending := First_Open, tb_replaying := False\<rparr>) p)
      | Some i \<Rightarrow>
          send_frame e (sized t (AttachFrame (tb_sessionId t) i))
            (upd_tab e (\<lambda>t. t\<lparr>tb_pending := First_Attach, tb_replaying := True\<rparr>) p))"

definition on_binary :: "nat \<Rightarrow> bytes \<Rightarrow> page \<Rightarrow> page" where
  "on_binary s chunk p =
     (let e = pg_wires p s in
      if \<not> tb_replaying (pg_heap p e) then px [Px_Write e chunk] p
      else px [Px_Write e chunk] (upd_tab e (\<lambda>t. t\<lparr>tb_replaying := False, tb_muted := True\<rparr>) p))"

text \<open>The replayed history has been parsed.\<close>

definition parsed :: "nat \<Rightarrow> page \<Rightarrow> page" where
  "parsed e p = upd_tab e (\<lambda>t. t\<lparr>tb_muted := False\<rparr>) p"

definition on_frame :: "nat \<Rightarrow> host_frame \<Rightarrow> page \<Rightarrow> page" where
  "on_frame s frame p =
     (let e = pg_wires p s; t = pg_heap p e in
      case frame of
        ReadyFrame pid cwd i label \<Rightarrow>
          emit_state e (V_Live cwd (tb_fixedSize t))
            (memorize (tb_sessionId t) (Some i)
              (upd_tab e (\<lambda>t. t\<lparr>tb_replaying := False, tb_attempts := 0, tb_id := Some i, tb_label := Some label\<rparr>) p))
      | SizeFrame cols rows live \<Rightarrow>
          (let p1 = upd_tab e (\<lambda>t. t\<lparr>tb_fixedSize := \<not> live\<rparr>) p in
           case tb_view t of V_Live cwd _ \<Rightarrow> emit_state e (V_Live cwd (\<not> live)) p1 | _ \<Rightarrow> p1)
      | ExitFrame code sig \<Rightarrow>
          emit_state e (V_Ended code sig) (forget_terminal (tb_sessionId t) (tb_id t) p)
      | ErrorFrame message \<Rightarrow>
          (if tb_pending t = First_Attach then
             send_frame e (sized t (OpenFrame (tb_sessionId t)))
               (upd_tab e (\<lambda>t. t\<lparr>tb_id := None, tb_label := None, tb_pending := First_Open, tb_replaying := False\<rparr>)
                 (forget_terminal (tb_sessionId t) (tb_id t) p))
           else emit_state e (V_Failed message) p))"

subsection \<open>Losing a socket\<close>

definition reconnect_delay :: "nat \<Rightarrow> nat" where
  "reconnect_delay attempts = min (RECONNECT_BASE_MS * 2 ^ attempts) RECONNECT_MAX_MS"

definition owned :: "nat \<Rightarrow> page \<Rightarrow> bool" where
  "owned e p \<longleftrightarrow> map_of (pg_table p) (tb_key (pg_heap p e)) = Some e"

definition scheduleReconnect :: "nat \<Rightarrow> page \<Rightarrow> page" where
  "scheduleReconnect e p =
     (if \<not> owned e p \<or> tb_timer (pg_heap p e) then p else upd_tab e (\<lambda>t. t\<lparr>tb_timer := True\<rparr>) p)"

definition on_close :: "nat \<Rightarrow> page \<Rightarrow> page" where
  "on_close s p0 =
     (let p = p0\<lparr>pg_sockets := (pg_sockets p0)(s := Ws_Closed)\<rparr>; e = pg_wires p s in
      case tb_view (pg_heap p e) of
        V_Ended _ _ \<Rightarrow> p
      | V_Failed _ \<Rightarrow> p
      | _ \<Rightarrow> scheduleReconnect e (emit_state e V_Closed p))"

text \<open>The delay is over.\<close>

definition reconnect :: "nat \<Rightarrow> page \<Rightarrow> page" where
  "reconnect e p0 =
     (if \<not> tb_timer (pg_heap p0 e) then p0
      else
        (let p = upd_tab e (\<lambda>t. t\<lparr>tb_timer := False\<rparr>) p0 in
         if \<not> owned e p then p
         else emit_state e V_Opening (connect_tab e (upd_tab e (\<lambda>t. t\<lparr>tb_attempts := Suc (tb_attempts t)\<rparr>) p))))"

definition dispose_tab :: "string \<Rightarrow> page \<Rightarrow> page" where
  "dispose_tab key p0 =
     (let p = p0\<lparr>pg_targets := AList.delete key (pg_targets p0)\<rparr> in
      case map_of (pg_table p) key of
        None \<Rightarrow> p
      | Some e \<Rightarrow>
          (let s = tb_socket (pg_heap p e) in
           px [Px_Close s, Px_Dispose e]
             (upd_tab e (\<lambda>t. t\<lparr>tb_timer := False\<rparr>)
               (p\<lparr>pg_table := AList.delete key (pg_table p),
                  pg_sockets := (pg_sockets p)(s := if pg_sockets p s = Ws_Closed then Ws_Closed else Ws_Closing)\<rparr>))))"

subsection \<open>The body's operations\<close>

definition mountTerminal :: "session_id \<Rightarrow> string \<Rightarrow> terminal_target \<Rightarrow> rat \<times> rat \<Rightarrow> page \<Rightarrow> page" where
  "mountTerminal sessionId tabId target dims p =
     (case entry_of sessionId tabId p of
        Some _ \<Rightarrow> p
      | None \<Rightarrow>
          (let p1 = create_tab sessionId tabId target dims p in
           p1\<lparr>pg_table := pg_table p1 @ [(tabKey sessionId tabId, pg_nextEntry p)]\<rparr>))"

definition restartTerminal :: "session_id \<Rightarrow> string \<Rightarrow> rat \<times> rat \<Rightarrow> page \<Rightarrow> page" where
  "restartTerminal sessionId tabId dims p0 =
     (case entry_of sessionId tabId p0 of
        None \<Rightarrow> p0
      | Some e \<Rightarrow>
          (let p = upd_tab e (\<lambda>t. t\<lparr>tb_timer := False\<rparr>) p0; t = pg_heap p e in
           if tb_view t = V_Closed \<and> tb_id t \<noteq> None
           then emit_state e V_Opening (connect_tab e (upd_tab e (\<lambda>t. t\<lparr>tb_attempts := 0\<rparr>) p))
           else
             (let p1 = dispose_tab (tabKey sessionId tabId) p;
                  p2 = create_tab (tb_sessionId t) (tb_tabId t) New_Shell dims p1
              in p2\<lparr>pg_table := pg_table p2 @ [(tabKey sessionId tabId, pg_nextEntry p1)]\<rparr>)))"

definition on_resize :: "nat \<Rightarrow> rat \<times> rat \<Rightarrow> page \<Rightarrow> page" where
  "on_resize e dims p =
     send_frame e (ResizeFrame (Finite (fst dims)) (Finite (snd dims))) (upd_tab e (\<lambda>t. t\<lparr>tb_size := dims\<rparr>) p)"

definition on_data :: "nat \<Rightarrow> string \<Rightarrow> page \<Rightarrow> page" where
  "on_data e d p = (if tb_muted (pg_heap p e) then p else send_frame e (InputFrame d) p)"

end
