(* ===== verification/Tab_Runs.thy ===== *)
theory Tab_Runs
  imports Terminal_Tabs
begin

section \<open>Runs of a page's terminals\<close>

text \<open>
  The page driven by its body, by its sockets and by its timers, any of them in any order as the
  browser allows it: a socket opens once, brings something only while it is open, and is reported
  closed once. What holds of every run, and three laws on what a lost socket, a failure and a restart
  do.
\<close>

subsection \<open>Events\<close>

datatype page_event =
    Pe_Choose session_id string terminal_target
  | Pe_Mount session_id string terminal_target "rat \<times> rat"
  | Pe_Abort session_id string
  | Pe_Restart session_id string "rat \<times> rat"
  | Pe_Open nat
  | Pe_Binary nat bytes
  | Pe_Frame nat host_frame
  | Pe_Close nat
  | Pe_Parsed nat
  | Pe_Timer nat
  | Pe_Resize nat "rat \<times> rat"
  | Pe_Data nat string

fun page_step :: "page_event \<Rightarrow> page \<Rightarrow> page" where
  "page_step (Pe_Choose n t x) p = chooseTerminal n t x p"
| "page_step (Pe_Mount n t x d) p = mountTerminal n t x d p"
| "page_step (Pe_Abort n t) p = dispose_tab (tabKey n t) p"
| "page_step (Pe_Restart n t d) p = restartTerminal n t d p"
| "page_step (Pe_Open s) p = (if pg_sockets p s = Ws_Connecting then on_open s p else p)"
| "page_step (Pe_Binary s b) p = (if pg_sockets p s = Ws_Open then on_binary s b p else p)"
| "page_step (Pe_Frame s f) p = (if pg_sockets p s = Ws_Open then on_frame s f p else p)"
| "page_step (Pe_Close s) p = (if pg_sockets p s = Ws_Closed then p else on_close s p)"
| "page_step (Pe_Parsed e) p = (if e < pg_nextEntry p then parsed e p else p)"
| "page_step (Pe_Timer e) p = (if e < pg_nextEntry p then reconnect e p else p)"
| "page_step (Pe_Resize e d) p = (if e < pg_nextEntry p then on_resize e d p else p)"
| "page_step (Pe_Data e d) p = (if e < pg_nextEntry p then on_data e d p else p)"

definition page_run :: "page_event list \<Rightarrow> page \<Rightarrow> page" where
  "page_run evs p = fold page_step evs p"

lemma page_run_snoc: "page_run (evs @ [ev]) p = page_step ev (page_run evs p)"
  by (simp add: page_run_def)

subsection \<open>What the pieces change\<close>

named_theorems pg_simps \<open>the fields the pieces of the page change\<close>

lemma upd_tab_simps [pg_simps]:
  "pg_heap (upd_tab e f p) = (pg_heap p)(e := f (pg_heap p e))" "pg_table (upd_tab e f p) = pg_table p"
  "pg_sockets (upd_tab e f p) = pg_sockets p" "pg_wires (upd_tab e f p) = pg_wires p"
  "pg_nextEntry (upd_tab e f p) = pg_nextEntry p" "pg_nextSocket (upd_tab e f p) = pg_nextSocket p"
  "pg_targets (upd_tab e f p) = pg_targets p" "pg_memory (upd_tab e f p) = pg_memory p"
  "pg_storage (upd_tab e f p) = pg_storage p" "pg_effects (upd_tab e f p) = pg_effects p"
  by (simp_all add: upd_tab_def)

lemma px_simps [pg_simps]:
  "pg_heap (px fx p) = pg_heap p" "pg_table (px fx p) = pg_table p" "pg_sockets (px fx p) = pg_sockets p"
  "pg_wires (px fx p) = pg_wires p" "pg_nextEntry (px fx p) = pg_nextEntry p" "pg_nextSocket (px fx p) = pg_nextSocket p"
  "pg_targets (px fx p) = pg_targets p" "pg_memory (px fx p) = pg_memory p" "pg_storage (px fx p) = pg_storage p"
  "pg_effects (px fx p) = pg_effects p @ fx"
  by (simp_all add: px_def)

lemma send_frame_simps [pg_simps]:
  "pg_heap (send_frame e f p) = pg_heap p" "pg_table (send_frame e f p) = pg_table p"
  "pg_sockets (send_frame e f p) = pg_sockets p" "pg_wires (send_frame e f p) = pg_wires p"
  "pg_nextEntry (send_frame e f p) = pg_nextEntry p" "pg_nextSocket (send_frame e f p) = pg_nextSocket p"
  "pg_targets (send_frame e f p) = pg_targets p" "pg_memory (send_frame e f p) = pg_memory p"
  "pg_storage (send_frame e f p) = pg_storage p"
  by (simp_all add: send_frame_def Let_def px_def)

lemma emit_state_simps [pg_simps]:
  "pg_heap (emit_state e v p) = (pg_heap p)(e := (pg_heap p e)\<lparr>tb_view := v\<rparr>)" "pg_table (emit_state e v p) = pg_table p"
  "pg_sockets (emit_state e v p) = pg_sockets p" "pg_wires (emit_state e v p) = pg_wires p"
  "pg_nextEntry (emit_state e v p) = pg_nextEntry p" "pg_nextSocket (emit_state e v p) = pg_nextSocket p"
  "pg_targets (emit_state e v p) = pg_targets p" "pg_memory (emit_state e v p) = pg_memory p"
  "pg_storage (emit_state e v p) = pg_storage p"
  by (simp_all add: emit_state_def pg_simps)

lemma memory_simps [pg_simps]:
  "pg_heap (memorize n i p) = pg_heap p" "pg_table (memorize n i p) = pg_table p" "pg_sockets (memorize n i p) = pg_sockets p"
  "pg_wires (memorize n i p) = pg_wires p" "pg_nextEntry (memorize n i p) = pg_nextEntry p"
  "pg_nextSocket (memorize n i p) = pg_nextSocket p" "pg_targets (memorize n i p) = pg_targets p"
  "pg_heap (forget_terminal n i p) = pg_heap p" "pg_table (forget_terminal n i p) = pg_table p"
  "pg_sockets (forget_terminal n i p) = pg_sockets p" "pg_wires (forget_terminal n i p) = pg_wires p"
  "pg_nextEntry (forget_terminal n i p) = pg_nextEntry p" "pg_nextSocket (forget_terminal n i p) = pg_nextSocket p"
  "pg_targets (forget_terminal n i p) = pg_targets p"
  by (simp_all add: memorize_def forget_terminal_def)

lemma connect_tab_simps [pg_simps]:
  "pg_heap (connect_tab e p) = (pg_heap p)(e := (pg_heap p e)\<lparr>tb_socket := pg_nextSocket p\<rparr>)"
  "pg_table (connect_tab e p) = pg_table p" "pg_sockets (connect_tab e p) = (pg_sockets p)(pg_nextSocket p := Ws_Connecting)"
  "pg_wires (connect_tab e p) = (pg_wires p)(pg_nextSocket p := e)" "pg_nextEntry (connect_tab e p) = pg_nextEntry p"
  "pg_nextSocket (connect_tab e p) = Suc (pg_nextSocket p)" "pg_targets (connect_tab e p) = pg_targets p"
  by (simp_all add: connect_tab_def Let_def pg_simps)

subsection \<open>One socket for a tab\<close>

definition in_use :: "ready_state \<Rightarrow> bool" where
  "in_use r \<longleftrightarrow> r = Ws_Connecting \<or> r = Ws_Open"

text \<open>A terminal that waits, or shows that its connection is gone, has a closed one; a socket that is
  not closed is the one of its terminal, and while it is in use a tab has that terminal.\<close>

definition tab_ok :: "page \<Rightarrow> nat \<Rightarrow> bool" where
  "tab_ok p e \<longleftrightarrow>
     tb_socket (pg_heap p e) < pg_nextSocket p \<and> pg_wires p (tb_socket (pg_heap p e)) = e \<and>
     tb_key (pg_heap p e) = tabKey (tb_sessionId (pg_heap p e)) (tb_tabId (pg_heap p e)) \<and>
     (tb_timer (pg_heap p e) \<or> tb_view (pg_heap p e) = V_Closed \<longrightarrow> pg_sockets p (tb_socket (pg_heap p e)) = Ws_Closed)"

definition socket_ok :: "page \<Rightarrow> nat \<Rightarrow> bool" where
  "socket_ok p s \<longleftrightarrow>
     (s < pg_nextSocket p \<longrightarrow> pg_wires p s < pg_nextEntry p) \<and>
     (pg_sockets p s \<noteq> Ws_Closed \<longrightarrow> s < pg_nextSocket p \<and> tb_socket (pg_heap p (pg_wires p s)) = s) \<and>
     (in_use (pg_sockets p s) \<longrightarrow> owned (pg_wires p s) p)"

definition table_ok :: "page \<Rightarrow> bool" where
  "table_ok p \<longleftrightarrow>
     distinct (map fst (pg_table p)) \<and> (\<forall>(k, e) \<in> set (pg_table p). e < pg_nextEntry p \<and> tb_key (pg_heap p e) = k)"

definition page_ok :: "page \<Rightarrow> bool" where
  "page_ok p \<longleftrightarrow> table_ok p \<and> (\<forall>e < pg_nextEntry p. tab_ok p e) \<and> (\<forall>s. socket_ok p s)"

lemma page_okD:
  assumes "page_ok p"
  shows "table_ok p" "e < pg_nextEntry p \<Longrightarrow> tab_ok p e" "socket_ok p s"
  using assms by (simp_all add: page_ok_def)

lemma wired_entry:
  assumes "page_ok p" "pg_sockets p s \<noteq> Ws_Closed"
  shows "pg_wires p s < pg_nextEntry p" "tb_socket (pg_heap p (pg_wires p s)) = s"
  using page_okD(3) [OF assms(1), of s] assms(2) by (auto simp: socket_ok_def)

text \<open>A change of one terminal that keeps its socket and its place.\<close>

definition same_place :: "tab_entry \<Rightarrow> tab_entry \<Rightarrow> bool" where
  "same_place t t' \<longleftrightarrow>
     tb_key t' = tb_key t \<and> tb_sessionId t' = tb_sessionId t \<and> tb_tabId t' = tb_tabId t \<and> tb_socket t' = tb_socket t"

lemma page_ok_tab:
  assumes "page_ok p" "pg_heap p' = (pg_heap p)(e := t)" "same_place (pg_heap p e) t"
    and "pg_table p' = pg_table p" "pg_sockets p' = pg_sockets p" "pg_wires p' = pg_wires p"
    and "pg_nextEntry p' = pg_nextEntry p" "pg_nextSocket p' = pg_nextSocket p"
    and "tb_timer t \<or> tb_view t = V_Closed \<Longrightarrow> pg_sockets p (tb_socket (pg_heap p e)) = Ws_Closed"
  shows "page_ok p'"
proof -
  have owned: "owned x p' \<longleftrightarrow> owned x p" for x using assms(2-4) by (simp add: owned_def same_place_def)
  have "table_ok p'"
    using page_okD(1) [OF assms(1)] assms(2-4,7) by (auto simp: table_ok_def same_place_def)
  moreover have "tab_ok p' x" if "x < pg_nextEntry p'" for x
    using page_okD(2) [OF assms(1), of x] that assms(2-9) by (auto simp: tab_ok_def same_place_def)
  moreover have "socket_ok p' s" for s
    using page_okD(3) [OF assms(1), of s] assms(2-8) owned by (auto simp: socket_ok_def same_place_def)
  ultimately show ?thesis by (simp add: page_ok_def)
qed

lemma page_ok_same:
  assumes "page_ok p" "pg_heap p' = pg_heap p" "pg_table p' = pg_table p" "pg_sockets p' = pg_sockets p"
    and "pg_wires p' = pg_wires p" "pg_nextEntry p' = pg_nextEntry p" "pg_nextSocket p' = pg_nextSocket p"
  shows "page_ok p'"
  using assms by (simp add: page_ok_def table_ok_def tab_ok_def socket_ok_def owned_def)

text \<open>A socket that opens, or is no longer in use.\<close>

lemma page_ok_socket:
  assumes "page_ok p" "in_use r \<Longrightarrow> in_use (pg_sockets p s)" "r \<noteq> Ws_Closed \<Longrightarrow> pg_sockets p s \<noteq> Ws_Closed"
  shows "page_ok (p\<lparr>pg_sockets := (pg_sockets p)(s := r)\<rparr>)"
proof -
  let ?p = "p\<lparr>pg_sockets := (pg_sockets p)(s := r)\<rparr>"
  have owned: "owned x ?p \<longleftrightarrow> owned x p" for x by (simp add: owned_def)
  have "table_ok ?p" using page_okD(1) [OF assms(1)] by (simp add: table_ok_def)
  moreover have "tab_ok ?p x" if "x < pg_nextEntry ?p" for x
    using page_okD(2) [OF assms(1), of x] that assms(3) by (auto simp: tab_ok_def)
  moreover have "socket_ok ?p x" for x
    using page_okD(3) [OF assms(1), of x] assms(2,3) owned by (auto simp: socket_ok_def)
  ultimately show ?thesis by (simp add: page_ok_def)
qed

text \<open>A new connection for a terminal whose own is closed.\<close>

lemma page_ok_connect:
  assumes "page_ok p" "owned e p" "e < pg_nextEntry p" "pg_sockets p (tb_socket (pg_heap p e)) = Ws_Closed"
    and "\<not> tb_timer (pg_heap p e)"
  shows "page_ok (emit_state e V_Opening (connect_tab e p))"
proof -
  let ?p = "emit_state e V_Opening (connect_tab e p)"
  have owned: "owned x ?p \<longleftrightarrow> owned x p" for x by (simp add: owned_def pg_simps)
  have "table_ok ?p" using page_okD(1) [OF assms(1)] by (auto simp: table_ok_def pg_simps)
  moreover have "tab_ok ?p x" if "x < pg_nextEntry ?p" for x
    using page_okD(2) [OF assms(1), of x] page_okD(2) [OF assms(1,3)] that assms(5)
    by (auto simp: tab_ok_def pg_simps)
  moreover have "socket_ok ?p s" for s
    using page_okD(3) [OF assms(1), of s] assms(2-4) owned by (auto simp: socket_ok_def pg_simps)
  ultimately show ?thesis by (simp add: page_ok_def)
qed

text \<open>A tab that goes, and a tab that comes.\<close>

lemma map_of_delete: "map_of (AList.delete k xs) x = (if x = k then None else map_of xs x)"
  by (simp add: delete_conv)

lemma page_ok_dispose:
  assumes "page_ok p"
  shows "page_ok (dispose_tab key p)"
proof (cases "map_of (pg_table p) key")
  case None
  with assms page_ok_same [OF assms] show ?thesis by (simp add: dispose_tab_def)
next
  case (Some e)
  let ?s = "tb_socket (pg_heap p e)"
  let ?p = "dispose_tab key p"
  have e: "e < pg_nextEntry p" "tb_key (pg_heap p e) = key"
    using page_okD(1) [OF assms] map_of_SomeD [OF Some] by (auto simp: table_ok_def)
  have fields: "pg_heap ?p = (pg_heap p)(e := (pg_heap p e)\<lparr>tb_timer := False\<rparr>)" "pg_table ?p = AList.delete key (pg_table p)"
    "pg_sockets ?p = (pg_sockets p)(?s := if pg_sockets p ?s = Ws_Closed then Ws_Closed else Ws_Closing)"
    "pg_wires ?p = pg_wires p" "pg_nextEntry ?p = pg_nextEntry p" "pg_nextSocket ?p = pg_nextSocket p"
    using Some by (simp_all add: dispose_tab_def Let_def pg_simps)
  have owned: "owned x ?p \<longleftrightarrow> owned x p \<and> tb_key (pg_heap p x) \<noteq> key" for x
    by (auto simp: owned_def fields map_of_delete)
  have "table_ok ?p"
    using page_okD(1) [OF assms] by (auto simp: table_ok_def fields AList.delete_eq distinct_map_filter)
  moreover have "tab_ok ?p x" if "x < pg_nextEntry ?p" for x
    using page_okD(2) [OF assms, of x] that by (auto simp: tab_ok_def fields)
  moreover have "socket_ok ?p x" for x
  proof -
    have "in_use (pg_sockets ?p x) \<Longrightarrow> tb_key (pg_heap p (pg_wires p x)) \<noteq> key"
    proof
      assume use: "in_use (pg_sockets ?p x)" and key: "tb_key (pg_heap p (pg_wires p x)) = key"
      then have "x \<noteq> ?s" "in_use (pg_sockets p x)" by (auto simp: fields in_use_def split: if_splits)
      with page_okD(3) [OF assms, of x] key Some have "pg_wires p x = e" "tb_socket (pg_heap p (pg_wires p x)) = x"
        by (auto simp: socket_ok_def in_use_def owned_def)
      with \<open>x \<noteq> ?s\<close> show False by simp
    qed
    with page_okD(3) [OF assms, of x] owned show ?thesis
      by (auto simp: socket_ok_def fields in_use_def split: if_splits)
  qed
  ultimately show ?thesis by (simp add: page_ok_def)
qed

lemma page_ok_create:
  fixes target :: terminal_target and d :: "rat \<times> rat"
  assumes "page_ok p" "map_of (pg_table p) (tabKey n t) = None"
  defines "p1 \<equiv> create_tab n t target d p"
  shows "page_ok (p1\<lparr>pg_table := pg_table p1 @ [(tabKey n t, pg_nextEntry p)]\<rparr>)"
proof -
  let ?e = "pg_nextEntry p" and ?s = "pg_nextSocket p" and ?k = "tabKey n t"
  let ?p = "p1\<lparr>pg_table := pg_table p1 @ [(?k, ?e)]\<rparr>"
  obtain b where heap: "pg_heap ?p = (pg_heap p)(?e := b)" and b: "tb_key b = ?k" "tb_sessionId b = n" "tb_tabId b = t"
      "tb_socket b = ?s" "\<not> tb_timer b" "tb_view b = V_Opening"
    by (simp add: p1_def create_tab_def Let_def pg_simps blank_tab_def)
  have fields: "pg_table ?p = pg_table p @ [(?k, ?e)]" "pg_sockets ?p = (pg_sockets p)(?s := Ws_Connecting)"
    "pg_wires ?p = (pg_wires p)(?s := ?e)" "pg_nextEntry ?p = Suc ?e" "pg_nextSocket ?p = Suc ?s"
    by (simp_all add: p1_def create_tab_def Let_def pg_simps)
  have old: "(k, e) \<in> set (pg_table p) \<Longrightarrow> e < ?e \<and> tb_key (pg_heap p e) = k" for k e
    using page_okD(1) [OF assms(1)] by (auto simp: table_ok_def)
  have owned: "owned x p \<Longrightarrow> x < ?e \<Longrightarrow> owned x ?p" for x
    using assms(2) by (auto simp: owned_def fields heap map_add_def)
  have "owned ?e ?p" using assms(2) b by (simp add: owned_def fields heap map_add_def)
  moreover have "table_ok ?p"
    using page_okD(1) [OF assms(1)] assms(2) b
    by (auto simp: table_ok_def fields heap map_of_eq_None_iff intro: less_SucI dest: old)
  moreover have "tab_ok ?p x" if "x < pg_nextEntry ?p" for x
    using page_okD(2) [OF assms(1), of x] that b by (auto simp: tab_ok_def fields heap less_Suc_eq)
  moreover have "socket_ok ?p s" for s
    using page_okD(3) [OF assms(1), of s] owned calculation(1) b
    by (auto simp: socket_ok_def fields heap in_use_def less_Suc_eq)
  ultimately show ?thesis by (simp add: page_ok_def)
qed

subsection \<open>Every step\<close>

lemma page_ok_upd:
  assumes "page_ok p" "\<And>t. same_place t (f t)" "\<And>t. tb_timer (f t) = tb_timer t" "\<And>t. tb_view (f t) = tb_view t"
  shows "page_ok (upd_tab e f p)"
proof (cases "e < pg_nextEntry p")
  case True
  show ?thesis
    by (rule page_ok_tab [OF assms(1), where e = e and t = "f (pg_heap p e)"])
      (use assms(2-4) page_okD(2) [OF assms(1) True] in \<open>auto simp: pg_simps tab_ok_def\<close>)
next
  case False
  have owned: "owned x (upd_tab e f p) \<longleftrightarrow> owned x p" for x
    using assms(2) by (simp add: owned_def pg_simps same_place_def)
  from False show ?thesis
    using assms(1,2) owned
    by (auto simp: page_ok_def table_ok_def tab_ok_def socket_ok_def pg_simps same_place_def)
qed

lemma page_ok_emit: "page_ok p \<Longrightarrow> v \<noteq> V_Closed \<Longrightarrow> e < pg_nextEntry p \<Longrightarrow> page_ok (emit_state e v p)"
  by (rule page_ok_tab [where e = e and t = "(pg_heap p e)\<lparr>tb_view := v\<rparr>"])
    (auto simp: pg_simps same_place_def tab_ok_def dest: page_okD(2))

lemma page_ok_quiet [intro]:
  "page_ok p \<Longrightarrow> page_ok (px fx p)" "page_ok p \<Longrightarrow> page_ok (send_frame e f p)"
  "page_ok p \<Longrightarrow> page_ok (memorize n i p)" "page_ok p \<Longrightarrow> page_ok (forget_terminal n i p)"
  "page_ok p \<Longrightarrow> page_ok (chooseTerminal n t x p)"
  by (rule page_ok_same, assumption, simp_all add: pg_simps chooseTerminal_def)+

lemma on_open_ok:
  assumes "page_ok p" "pg_sockets p s = Ws_Connecting"
  shows "page_ok (on_open s p)"
proof -
  have "page_ok (p\<lparr>pg_sockets := (pg_sockets p)(s := Ws_Open)\<rparr>)"
    by (rule page_ok_socket) (use assms in \<open>auto simp: in_use_def\<close>)
  then show ?thesis
    by (auto simp: on_open_def Let_def same_place_def intro!: page_ok_quiet page_ok_upd split: option.splits)
qed

lemma on_frame_ok:
  assumes "page_ok p" "pg_sockets p s = Ws_Open"
  shows "page_ok (on_frame s f p)"
proof -
  have "pg_wires p s < pg_nextEntry p" using wired_entry(1) assms by simp
  with assms(1) show ?thesis
    by (auto simp: on_frame_def Let_def same_place_def pg_simps
        intro!: page_ok_quiet page_ok_upd page_ok_emit split: host_frame.splits tab_view.splits)
qed

lemma on_close_ok:
  assumes "page_ok p" "pg_sockets p s \<noteq> Ws_Closed"
  shows "page_ok (on_close s p)"
proof -
  let ?p = "p\<lparr>pg_sockets := (pg_sockets p)(s := Ws_Closed)\<rparr>" and ?e = "pg_wires p s"
  have p1: "page_ok ?p" by (rule page_ok_socket) (use assms in \<open>auto simp: in_use_def\<close>)
  have closed: "pg_sockets ?p (tb_socket (pg_heap ?p ?e)) = Ws_Closed" using wired_entry(2) [OF assms] by simp
  have p2: "page_ok (emit_state ?e V_Closed ?p)"
    by (rule page_ok_tab [OF p1, where e = ?e and t = "(pg_heap ?p ?e)\<lparr>tb_view := V_Closed\<rparr>"])
      (use closed in \<open>auto simp: pg_simps same_place_def\<close>)
  have "page_ok (upd_tab ?e (\<lambda>t. t\<lparr>tb_timer := True\<rparr>) (emit_state ?e V_Closed ?p))"
    by (rule page_ok_tab [OF p2, where e = ?e and t = "(pg_heap (emit_state ?e V_Closed ?p) ?e)\<lparr>tb_timer := True\<rparr>"])
      (use closed in \<open>auto simp: pg_simps same_place_def\<close>)
  with p1 p2 show ?thesis
    by (auto simp: on_close_def Let_def scheduleReconnect_def split: tab_view.splits)
qed

lemma page_ok_stop:
  assumes "page_ok p"
  shows "page_ok (upd_tab e (\<lambda>t. t\<lparr>tb_timer := False\<rparr>) p)"
proof (cases "e < pg_nextEntry p")
  case True
  show ?thesis
    by (rule page_ok_tab [OF assms, where e = e and t = "(pg_heap p e)\<lparr>tb_timer := False\<rparr>"])
      (use page_okD(2) [OF assms True] in \<open>auto simp: pg_simps same_place_def tab_ok_def\<close>)
next
  case False
  have owned: "owned x (upd_tab e (\<lambda>t. t\<lparr>tb_timer := False\<rparr>) p) \<longleftrightarrow> owned x p" for x
    by (simp add: owned_def pg_simps)
  from False assms owned show ?thesis
    by (auto simp: page_ok_def table_ok_def tab_ok_def socket_ok_def pg_simps)
qed

lemma owned_upd: "(\<And>t. same_place t (f t)) \<Longrightarrow> owned x (upd_tab e f p) \<longleftrightarrow> owned x p"
  by (simp add: owned_def pg_simps same_place_def)

lemma reconnect_ok:
  assumes "page_ok p" "e < pg_nextEntry p"
  shows "page_ok (reconnect e p)"
proof (cases "tb_timer (pg_heap p e) \<and> owned e p")
  case True
  let ?p1 = "upd_tab e (\<lambda>t. t\<lparr>tb_timer := False\<rparr>) p"
  let ?p2 = "upd_tab e (\<lambda>t. t\<lparr>tb_attempts := Suc (tb_attempts t)\<rparr>) ?p1"
  have closed: "pg_sockets p (tb_socket (pg_heap p e)) = Ws_Closed"
    using page_okD(2) [OF assms] True by (simp add: tab_ok_def)
  have "page_ok ?p2" by (rule page_ok_upd [OF page_ok_stop [OF assms(1)]]) (simp_all add: same_place_def)
  moreover have "owned e ?p1" "owned e ?p2" using True by (simp_all add: owned_upd same_place_def)
  ultimately have "page_ok (emit_state e V_Opening (connect_tab e ?p2))"
    using assms(2) closed by (intro page_ok_connect) (auto simp: pg_simps)
  with True \<open>owned e ?p1\<close> show ?thesis by (simp add: reconnect_def Let_def)
next
  case False
  with assms page_ok_stop [OF assms(1)] show ?thesis
    by (auto simp: reconnect_def Let_def owned_upd same_place_def)
qed

lemma restart_ok:
  assumes "page_ok p"
  shows "page_ok (restartTerminal n t d p)"
proof (cases "entry_of n t p")
  case (Some e)
  let ?p1 = "upd_tab e (\<lambda>t. t\<lparr>tb_timer := False\<rparr>) p"
  have in_table: "(tabKey n t, e) \<in> set (pg_table p)" using Some map_of_SomeD unfolding entry_of_def by fast
  then have e: "e < pg_nextEntry p" "tb_key (pg_heap p e) = tabKey n t"
    using page_okD(1) [OF assms] by (auto simp: table_ok_def)
  have p1: "page_ok ?p1" by (rule page_ok_stop [OF assms])
  show ?thesis
  proof (cases "tb_view (pg_heap p e) = V_Closed \<and> tb_id (pg_heap p e) \<noteq> None")
    case True
    let ?p2 = "upd_tab e (\<lambda>t. t\<lparr>tb_attempts := 0\<rparr>) ?p1"
    have "pg_sockets p (tb_socket (pg_heap p e)) = Ws_Closed"
      using page_okD(2) [OF assms e(1)] True by (simp add: tab_ok_def)
    moreover have "page_ok ?p2" by (rule page_ok_upd [OF p1]) (simp_all add: same_place_def)
    moreover have "owned e ?p2" using Some e(2) by (simp add: owned_def pg_simps entry_of_def)
    ultimately have "page_ok (emit_state e V_Opening (connect_tab e ?p2))"
      using e(1) by (intro page_ok_connect) (auto simp: pg_simps)
    with True Some show ?thesis by (simp add: restartTerminal_def Let_def pg_simps)
  next
    case False
    let ?p2 = "dispose_tab (tabKey n t) ?p1"
    have key: "tabKey (tb_sessionId (pg_heap p e)) (tb_tabId (pg_heap p e)) = tabKey n t"
      using page_okD(2) [OF assms e(1)] e(2) by (simp add: tab_ok_def)
    have none: "map_of (pg_table ?p2) (tabKey n t) = None"
      by (auto simp: dispose_tab_def Let_def pg_simps map_of_delete split: option.splits)
    have p2: "page_ok ?p2" by (rule page_ok_dispose [OF p1])
    from none page_ok_create [OF p2, where n = "tb_sessionId (pg_heap p e)" and t = "tb_tabId (pg_heap p e)"
        and target = New_Shell and d = d] key
    have "page_ok ((create_tab (tb_sessionId (pg_heap p e)) (tb_tabId (pg_heap p e)) New_Shell d ?p2)
        \<lparr>pg_table := pg_table (create_tab (tb_sessionId (pg_heap p e)) (tb_tabId (pg_heap p e)) New_Shell d ?p2) @
           [(tabKey n t, pg_nextEntry ?p2)]\<rparr>)" by simp
    with False Some show ?thesis by (auto simp: restartTerminal_def Let_def pg_simps)
  qed
qed (use assms in \<open>simp add: restartTerminal_def\<close>)

lemma page_step_ok:
  assumes "page_ok p"
  shows "page_ok (page_step ev p)"
proof (cases ev)
  case (Pe_Mount n t x d)
  with assms page_ok_create [OF assms, of n t x d] show ?thesis
    by (simp add: mountTerminal_def entry_of_def Let_def split: option.splits)
next
  case (Pe_Abort n t)
  with assms page_ok_dispose show ?thesis by simp
next
  case (Pe_Restart n t d)
  with assms restart_ok show ?thesis by simp
next
  case (Pe_Open s)
  with assms on_open_ok show ?thesis by simp
next
  case (Pe_Binary s b)
  with assms show ?thesis
    by (auto simp: on_binary_def Let_def same_place_def intro!: page_ok_quiet page_ok_upd)
next
  case (Pe_Frame s f)
  with assms on_frame_ok show ?thesis by simp
next
  case (Pe_Close s)
  with assms on_close_ok show ?thesis by simp
next
  case (Pe_Timer e)
  with assms reconnect_ok show ?thesis by simp
qed (use assms in \<open>auto simp: parsed_def on_resize_def on_data_def same_place_def intro!: page_ok_quiet page_ok_upd\<close>)

lemma page_run_ok: "page_ok (page_run evs (fresh_page storage memory))"
proof (induction evs rule: rev_induct)
  case Nil
  show ?case
    by (simp add: page_run_def fresh_page_def page_ok_def table_ok_def socket_ok_def in_use_def)
next
  case (snoc ev evs)
  then show ?case by (simp add: page_run_snoc page_step_ok)
qed

subsection \<open>Properties\<close>

text \<open>C25: whatever the bodies, the sockets and the timers do, a connection in use is the one of a
  terminal that a tab has: no reconnect, restart or closed tab leaves a second connection to a
  shell behind, and no two tabs share one.\<close>

theorem connections_belong_to_tabs:
  assumes "in_use (pg_sockets (page_run evs (fresh_page storage memory)) s)"
  shows "\<exists>!k. \<exists>e. map_of (pg_table (page_run evs (fresh_page storage memory))) k = Some e \<and>
    tb_socket (pg_heap (page_run evs (fresh_page storage memory)) e) = s"
proof -
  let ?p = "page_run evs (fresh_page storage memory)"
  note p = page_run_ok [of evs storage memory]
  have s: "tb_socket (pg_heap ?p (pg_wires ?p s)) = s" "owned (pg_wires ?p s) ?p"
    using page_okD(3) [OF p, of s] assms by (auto simp: socket_ok_def in_use_def)
  show ?thesis
  proof (rule ex1I [of _ "tb_key (pg_heap ?p (pg_wires ?p s))"])
    show "\<exists>e. map_of (pg_table ?p) (tb_key (pg_heap ?p (pg_wires ?p s))) = Some e \<and> tb_socket (pg_heap ?p e) = s"
      using s by (auto simp: owned_def)
  next
    fix k assume "\<exists>e. map_of (pg_table ?p) k = Some e \<and> tb_socket (pg_heap ?p e) = s"
    then obtain e where e: "map_of (pg_table ?p) k = Some e" "tb_socket (pg_heap ?p e) = s" by blast
    then have "e < pg_nextEntry ?p" "tb_key (pg_heap ?p e) = k"
      using page_okD(1) [OF p] map_of_SomeD [OF e(1)] by (auto simp: table_ok_def)
    moreover from this(1) have "pg_wires ?p (tb_socket (pg_heap ?p e)) = e"
      using page_okD(2) [OF p] unfolding tab_ok_def by blast
    ultimately show "k = tb_key (pg_heap ?p (pg_wires ?p s))" using e(2) by simp
  qed
qed

definition sample_tab_events :: "page_event list" where
  "sample_tab_events =
     [Pe_Mount ''s'' ''t'' (Existing ''term-1'') (80, 24), Pe_Open 0, Pe_Frame 0 (ReadyFrame 7 ''/w'' ''term-1'' ''sh''),
      Pe_Close 0, Pe_Timer 0, Pe_Open 1]"

theorem connections_belong_to_tabs_witness:
  "\<exists>k e. map_of (pg_table (page_run sample_tab_events (fresh_page True []))) k = Some e \<and>
     tb_socket (pg_heap (page_run sample_tab_events (fresh_page True [])) e) = 1"
proof -
  have "in_use (pg_sockets (page_run sample_tab_events (fresh_page True [])) 1)" by code_simp
  from connections_belong_to_tabs [OF this] show ?thesis by blast
qed

text \<open>C26: a connection that is lost while the shell is up comes back to the same shell: the tab shows
  that it is closed, a new connection is made after the delay, and its first frame attaches to the
  id the host gave, never opens another; the memory of the session is kept.\<close>

theorem dropped_socket_reattaches:
  assumes "page_ok p" "pg_sockets p s = Ws_Open" "tb_view (pg_heap p (pg_wires p s)) = V_Live cwd fixed"
    and "tb_id (pg_heap p (pg_wires p s)) = Some i"
  shows "let e = pg_wires p s; p1 = page_step (Pe_Close s) p; p2 = page_step (Pe_Timer e) p1;
      p3 = page_step (Pe_Open (pg_nextSocket p)) p2 in
    tb_view (pg_heap p1 e) = V_Closed \<and> tb_view (pg_heap p2 e) = V_Opening \<and>
    tb_id (pg_heap p3 e) = Some i \<and> pg_memory p3 = pg_memory p \<and>
    pg_effects p3 = pg_effects p @
      [Px_State e V_Closed, Px_Socket (pg_nextSocket p), Px_State e V_Opening,
       Px_Send (pg_nextSocket p) (sized (pg_heap p e) (AttachFrame (tb_sessionId (pg_heap p e)) i))]"
proof -
  let ?e = "pg_wires p s" and ?n = "pg_nextSocket p"
  have e: "?e < pg_nextEntry p" "tb_socket (pg_heap p ?e) = s" using wired_entry [OF assms(1)] assms(2) by simp_all
  have owned: "owned ?e p" using page_okD(3) [OF assms(1), of s] assms(2) by (simp add: socket_ok_def in_use_def)
  have timer: "\<not> tb_timer (pg_heap p ?e)"
    using page_okD(2) [OF assms(1) e(1)] assms(2) e(2) by (auto simp: tab_ok_def)
  define p1 where "p1 = page_step (Pe_Close s) p"
  define p2 where "p2 = page_step (Pe_Timer ?e) p1"
  define p3 where "p3 = page_step (Pe_Open ?n) p2"
  have p1: "p1 = upd_tab ?e (\<lambda>t. t\<lparr>tb_timer := True\<rparr>) (emit_state ?e V_Closed (p\<lparr>pg_sockets := (pg_sockets p)(s := Ws_Closed)\<rparr>))"
    using assms(2,3) owned timer
    by (simp add: p1_def on_close_def Let_def scheduleReconnect_def pg_simps owned_def)
  have p2: "p2 = emit_state ?e V_Opening (connect_tab ?e
      (upd_tab ?e (\<lambda>t. t\<lparr>tb_attempts := Suc (tb_attempts t)\<rparr>) (upd_tab ?e (\<lambda>t. t\<lparr>tb_timer := False\<rparr>) p1)))"
    using e(1) owned by (simp add: p2_def p1 reconnect_def Let_def pg_simps owned_def)
  have p3: "p3 = on_open ?n p2" by (simp add: p3_def p2 p1 pg_simps)
  have "tb_view (pg_heap p1 ?e) = V_Closed" "tb_view (pg_heap p2 ?e) = V_Opening" by (simp_all add: p2 p1 pg_simps)
  moreover have "tb_id (pg_heap p3 ?e) = Some i" "pg_memory p3 = pg_memory p"
    using assms(4) by (simp_all add: p3 p2 p1 on_open_def Let_def pg_simps connect_tab_def)
  moreover have "pg_effects p3 = pg_effects p @
      [Px_State ?e V_Closed, Px_Socket ?n, Px_State ?e V_Opening,
       Px_Send ?n (sized (pg_heap p ?e) (AttachFrame (tb_sessionId (pg_heap p ?e)) i))]"
    using assms(4)
    by (simp add: p3 p2 p1 on_open_def Let_def send_frame_def sized_def emit_state_def connect_tab_def px_def upd_tab_def)
  ultimately show ?thesis unfolding Let_def p3_def p2_def p1_def by simp
qed

text \<open>The page of a tab that attached to a shell and was told it is up.\<close>

definition sample_attached :: page where
  "sample_attached =
     page_run [Pe_Mount ''s'' ''t'' (Existing ''term-1'') (80, 24), Pe_Open 0, Pe_Frame 0 (ReadyFrame 7 ''/w'' ''term-1'' ''sh'')]
       (fresh_page True [])"

lemma sample_attached_facts:
  "page_ok sample_attached" "pg_sockets sample_attached 0 = Ws_Open" "pg_wires sample_attached 0 = 0"
  "tb_view (pg_heap sample_attached 0) = V_Live ''/w'' False" "tb_id (pg_heap sample_attached 0) = Some ''term-1''"
  "tb_pending (pg_heap sample_attached 0) = First_Attach" "pg_nextSocket sample_attached = 1"
proof -
  show "page_ok sample_attached" unfolding sample_attached_def by (rule page_run_ok)
qed code_simp+

theorem dropped_socket_reattaches_witness:
  "tb_id (pg_heap (page_step (Pe_Open 1) (page_step (Pe_Timer 0) (page_step (Pe_Close 0) sample_attached))) 0) = Some ''term-1''"
  using dropped_socket_reattaches [of sample_attached 0 "''/w''" False "''term-1''"]
  by (simp add: sample_attached_facts Let_def del: page_step.simps)

text \<open>A failure of a shell that was attached to is not shown: the frame that tells it is taken for
  the answer to the attach, long after the host said the shell was up. The tab still shows it live,
  forgets its id, asks for another shell on the socket that is closing, and when that is gone opens
  another shell on a new connection; the message is lost.\<close>

theorem attached_failure_opens_another:
  assumes "page_ok p" "pg_sockets p s = Ws_Open" "tb_view (pg_heap p (pg_wires p s)) = V_Live cwd fixed"
    and "tb_pending (pg_heap p (pg_wires p s)) = First_Attach"
  shows "let e = pg_wires p s; p1 = page_step (Pe_Frame s (ErrorFrame message)) p; p2 = page_step (Pe_Close s) p1;
      p3 = page_step (Pe_Timer e) p2; p4 = page_step (Pe_Open (pg_nextSocket p)) p3;
      another = sized (pg_heap p e) (OpenFrame (tb_sessionId (pg_heap p e))) in
    tb_view (pg_heap p1 e) = V_Live cwd fixed \<and> tb_id (pg_heap p1 e) = None \<and>
    pg_effects p4 = pg_effects p @
      [Px_Send s another, Px_State e V_Closed, Px_Socket (pg_nextSocket p), Px_State e V_Opening,
       Px_Send (pg_nextSocket p) another]"
proof -
  let ?e = "pg_wires p s" and ?n = "pg_nextSocket p"
  let ?another = "sized (pg_heap p ?e) (OpenFrame (tb_sessionId (pg_heap p ?e)))"
  have e: "?e < pg_nextEntry p" "tb_socket (pg_heap p ?e) = s" using wired_entry [OF assms(1)] assms(2) by simp_all
  have owned: "owned ?e p" using page_okD(3) [OF assms(1), of s] assms(2) by (simp add: socket_ok_def in_use_def)
  have timer: "\<not> tb_timer (pg_heap p ?e)"
    using page_okD(2) [OF assms(1) e(1)] assms(2) e(2) by (auto simp: tab_ok_def)
  define q where "q = forget_terminal (tb_sessionId (pg_heap p ?e)) (tb_id (pg_heap p ?e)) p"
  define p1 where "p1 = page_step (Pe_Frame s (ErrorFrame message)) p"
  define p2 where "p2 = page_step (Pe_Close s) p1"
  define p3 where "p3 = page_step (Pe_Timer ?e) p2"
  define p4 where "p4 = page_step (Pe_Open ?n) p3"
  have q: "pg_heap q = pg_heap p" "pg_table q = pg_table p" "pg_sockets q = pg_sockets p" "pg_wires q = pg_wires p"
    "pg_nextEntry q = pg_nextEntry p" "pg_nextSocket q = pg_nextSocket p" "pg_effects q = pg_effects p"
    by (simp_all add: q_def pg_simps) (simp add: forget_terminal_def memorize_def)
  have p1: "p1 = px [Px_Send s ?another]
      (upd_tab ?e (\<lambda>t. t\<lparr>tb_id := None, tb_label := None, tb_pending := First_Open, tb_replaying := False\<rparr>) q)"
    using assms(2,4) e(2) by (simp add: p1_def on_frame_def Let_def send_frame_def pg_simps q) (simp add: q_def)
  have p2: "p2 = upd_tab ?e (\<lambda>t. t\<lparr>tb_timer := True\<rparr>) (emit_state ?e V_Closed (p1\<lparr>pg_sockets := (pg_sockets p1)(s := Ws_Closed)\<rparr>))"
    using assms(2,3) owned timer
    by (simp add: p2_def p1 on_close_def Let_def scheduleReconnect_def pg_simps owned_def q)
  have p3: "p3 = emit_state ?e V_Opening (connect_tab ?e
      (upd_tab ?e (\<lambda>t. t\<lparr>tb_attempts := Suc (tb_attempts t)\<rparr>) (upd_tab ?e (\<lambda>t. t\<lparr>tb_timer := False\<rparr>) p2)))"
    using e(1) owned by (simp add: p3_def p2 p1 reconnect_def Let_def pg_simps owned_def q)
  have p4: "p4 = on_open ?n p3" by (simp add: p4_def p3 p2 p1 pg_simps q)
  have "tb_view (pg_heap p1 ?e) = V_Live cwd fixed" "tb_id (pg_heap p1 ?e) = None"
    using assms(3) by (simp_all add: p1 pg_simps q)
  moreover have "pg_effects p4 = pg_effects p @
      [Px_Send s ?another, Px_State ?e V_Closed, Px_Socket ?n, Px_State ?e V_Opening, Px_Send ?n ?another]"
    by (simp add: p4 p3 p2 p1 q on_open_def Let_def send_frame_def sized_def emit_state_def connect_tab_def px_def upd_tab_def)
  ultimately show ?thesis unfolding Let_def p4_def p3_def p2_def p1_def by simp
qed

theorem attached_failure_opens_another_witness:
  "tb_view (pg_heap (page_step (Pe_Frame 0 (ErrorFrame ''lost'')) sample_attached) 0) = V_Live ''/w'' False"
  using attached_failure_opens_another [of sample_attached 0 "''/w''" False "''lost''"]
  by (simp add: sample_attached_facts Let_def del: page_step.simps)

text \<open>Restarting a shell that ended or failed loses the tab's choice: the tab has its new terminal,
  but what it was told to show is gone, so that the body asks again while the shell runs unseen.\<close>

theorem restart_loses_choice:
  assumes "entry_of n t p = Some e" "tb_key (pg_heap p e) = tabKey n t"
    and "tabKey (tb_sessionId (pg_heap p e)) (tb_tabId (pg_heap p e)) = tabKey n t"
    and "tb_view (pg_heap p e) \<noteq> V_Closed \<or> tb_id (pg_heap p e) = None"
  shows "terminalTarget n t (page_step (Pe_Restart n t d) p) = None \<and>
    entry_of n t (page_step (Pe_Restart n t d) p) = Some (pg_nextEntry p)"
proof -
  have "map_of (pg_table p) (tabKey n t) = Some e" using assms(1) by (simp add: entry_of_def)
  with assms show ?thesis
    by (auto simp: restartTerminal_def Let_def pg_simps terminalTarget_def entry_of_def dispose_tab_def create_tab_def
        map_of_delete map_add_def)
qed

definition sample_ended :: page where
  "sample_ended =
     page_run [Pe_Choose ''s'' ''t'' New_Shell, Pe_Mount ''s'' ''t'' New_Shell (80, 24), Pe_Open 0,
       Pe_Frame 0 (ReadyFrame 7 ''/w'' ''term-1'' ''sh''), Pe_Frame 0 (ExitFrame (Some 0) None)] (fresh_page True [])"

theorem restart_loses_choice_witness:
  "terminalTarget ''s'' ''t'' sample_ended = Some New_Shell \<and>
   terminalTarget ''s'' ''t'' (page_step (Pe_Restart ''s'' ''t'' (80, 24)) sample_ended) = None"
proof -
  have "entry_of ''s'' ''t'' sample_ended = Some 0" "tb_key (pg_heap sample_ended 0) = tabKey ''s'' ''t''"
    "tabKey (tb_sessionId (pg_heap sample_ended 0)) (tb_tabId (pg_heap sample_ended 0)) = tabKey ''s'' ''t''"
    "tb_view (pg_heap sample_ended 0) \<noteq> V_Closed" "terminalTarget ''s'' ''t'' sample_ended = Some New_Shell"
    by code_simp+
  with restart_loses_choice [of "''s''" "''t''" sample_ended 0 "(80, 24)"] show ?thesis by simp
qed

text \<open>The delay before a reconnect is at least half a second and at most five, and never shrinks
  while attempts fail.\<close>

theorem reconnect_delay_bounds:
  "500 \<le> reconnect_delay k \<and> reconnect_delay k \<le> 5000 \<and> reconnect_delay k \<le> reconnect_delay (Suc k)"
proof -
  have "(1::nat) \<le> 2 ^ k" by simp
  then show ?thesis
    by (auto simp: reconnect_delay_def RECONNECT_BASE_MS_def RECONNECT_MAX_MS_def min_def)
qed

end
