(* ===== verification/Ssh.thy ===== *)
theory Ssh
  imports Node_Store Worktree_World
begin

section \<open>The operator's ssh: remote/ssh.ts\<close>

text \<open>
  The argument vectors, the diagnosis of a failure, one remote command, and the forward that carries
  a connection. How a process ends and what the probes of a port and the clock answer is given by
  the environment, the \<open>i\<close>-th answer of a loop by a function of \<open>i\<close>.
\<close>

subsection \<open>Arguments and diagnosis\<close>

record ssh_target =
  sh_target :: string
  sh_port :: "js_number option"
  sh_identity :: "string option"

definition sshArgs :: "ssh_target \<Rightarrow> string list" where
  "sshArgs t =
     [''-o'', ''BatchMode=yes'', ''-o'', ''ExitOnForwardFailure=yes'', ''-o'', ''ServerAliveInterval=15'',
      ''-o'', ''ServerAliveCountMax=3''] @
     (case sh_port t of None \<Rightarrow> [] | Some p \<Rightarrow> [''-p'', js_number_text p]) @
     (case sh_identity t of None \<Rightarrow> [] | Some f \<Rightarrow> [''-i'', f])"

definition runArgs :: "ssh_target \<Rightarrow> string \<Rightarrow> string list" where
  "runArgs t command = sshArgs t @ [sh_target t, command]"

definition tunnelArgs :: "ssh_target \<Rightarrow> nat \<Rightarrow> nat \<Rightarrow> string list" where
  "tunnelArgs t remotePort localPort =
     [''-N''] @ sshArgs t @
     [''-L'', ''127.0.0.1:'' @ str_nat localPort @ '':127.0.0.1:'' @ str_nat remotePort, sh_target t]"

definition mentions :: "string \<Rightarrow> string \<Rightarrow> bool" where
  "mentions message phrase = sublist phrase (map lower message)"

definition in_quotes :: "string \<Rightarrow> string" where
  "in_quotes s = [CHR 0x22] @ s @ [CHR 0x22]"

definition sshFailure :: "string \<Rightarrow> string \<Rightarrow> string \<Rightarrow> string" where
  "sshFailure target stderr fallback =
     (let m = trim stderr; suffix = (if m = [] then [] else '': '' @ m) in
      if mentions m ''host key verification failed'' then
        ''the SSH host key for '' @ in_quotes target @ '' is not known yet; run `ssh '' @ target @
        ''` once to verify and accept it'' @ suffix
      else if mentions m ''administratively prohibited'' then
        in_quotes target @ '' refuses TCP forwarding; its sshd needs AllowTcpForwarding yes'' @ suffix
      else if mentions m ''permission denied'' \<or> mentions m ''no supported authentication'' then
        in_quotes target @ '' rejected the key or agent; check the SSH key and ssh-agent'' @ suffix
      else if mentions m ''could not resolve hostname'' then
        in_quotes target @ '' cannot be resolved; check the SSH destination'' @ suffix
      else if mentions m ''connection refused'' \<or> mentions m ''connection timed out'' \<or> mentions m ''no route to host'' then
        in_quotes target @ '' is unreachable over SSH'' @ suffix
      else fallback @ suffix)"

definition tunnelFailure :: "string \<Rightarrow> string \<Rightarrow> string" where
  "tunnelFailure target stderr = sshFailure target stderr (''could not open an SSH forward to '' @ in_quotes target)"

subsection \<open>One command\<close>

record ssh_result =
  sr_code :: int
  sr_stdout :: string
  sr_stderr :: string

text \<open>How the run of the process ended: by itself, with no code when a signal ended it; not started; or
  not within the deadline.\<close>

datatype ssh_end = Ssh_Exited "int option" | Ssh_Not_Started string | Ssh_Timed_Out

definition exit_status :: "int option \<Rightarrow> int" where
  "exit_status code = (case code of None \<Rightarrow> 0 | Some c \<Rightarrow> c)"

definition runSsh :: "ssh_target \<Rightarrow> nat option \<Rightarrow> ssh_end \<Rightarrow> string \<Rightarrow> string \<Rightarrow> string + ssh_result" where
  "runSsh t timeoutMs ending stdout stderr =
     (case ending of
        Ssh_Exited code \<Rightarrow> Inr \<lparr>sr_code = exit_status code, sr_stdout = stdout, sr_stderr = stderr\<rparr>
      | Ssh_Timed_Out \<Rightarrow>
          Inl (''the SSH command on '' @ in_quotes (sh_target t) @ '' did not finish within '' @
               (case timeoutMs of None \<Rightarrow> ''undefined'' | Some ms \<Rightarrow> str_nat ms) @ ''ms'')
      | Ssh_Not_Started m \<Rightarrow> Inl (''could not start ssh for '' @ in_quotes (sh_target t) @ '': '' @ m))"

subsection \<open>The forward\<close>

record forward_world =
  fw_probe :: "nat \<Rightarrow> bool"
  fw_exited :: "nat \<Rightarrow> bool"
  fw_clock :: "nat \<Rightarrow> nat"
  fw_stderr :: "nat \<Rightarrow> string"

text \<open>One round of the loop: the probe, then the process, then the deadline. \<open>None\<close> is another round.\<close>

definition forward_round :: "forward_world \<Rightarrow> string \<Rightarrow> nat \<Rightarrow> nat \<Rightarrow> nat \<Rightarrow> (string + unit) option" where
  "forward_round w target timeoutMs deadline i =
     (if fw_probe w i then Some (Inr ())
      else if fw_exited w i then Some (Inl (tunnelFailure target (fw_stderr w i)))
      else if deadline \<le> fw_clock w i
      then Some (Inl (''the SSH forward to '' @ in_quotes target @ '' did not start accepting connections within '' @
                      str_nat timeoutMs @ ''ms''))
      else None)"

partial_function (option) wait_rounds ::
  "forward_world \<Rightarrow> string \<Rightarrow> nat \<Rightarrow> nat \<Rightarrow> nat \<Rightarrow> ((string + unit) \<times> nat) option" where
  "wait_rounds w target timeoutMs deadline i =
     (case forward_round w target timeoutMs deadline i of
        Some r \<Rightarrow> Some (r, i)
      | None \<Rightarrow> wait_rounds w target timeoutMs deadline (Suc i))"

declare wait_rounds.simps [code, simp del]

definition waitForForward :: "forward_world \<Rightarrow> nat \<Rightarrow> string \<Rightarrow> nat \<Rightarrow> ((string + unit) \<times> nat) option" where
  "waitForForward w start target timeoutMs = wait_rounds w target timeoutMs (start + timeoutMs) 0"

record tunnel =
  tu_localPort :: nat
  tu_closed :: bool
  tu_kills :: nat

definition close_tunnel :: "tunnel \<Rightarrow> tunnel" where
  "close_tunnel u = (if tu_closed u then u else u\<lparr>tu_closed := True, tu_kills := Suc (tu_kills u)\<rparr>)"

text \<open>Without a port there is no process and so no tunnel.\<close>

definition openTunnel :: "ssh_target \<Rightarrow> string + nat \<Rightarrow> forward_world \<Rightarrow> nat \<Rightarrow> nat \<Rightarrow> ((string + nat) \<times> tunnel option) option" where
  "openTunnel t allocated w start timeoutMs =
     (case allocated of
        Inl m \<Rightarrow> Some (Inl m, None)
      | Inr localPort \<Rightarrow>
          (let u = \<lparr>tu_localPort = localPort, tu_closed = False, tu_kills = 0\<rparr> in case waitForForward w start (sh_target t) timeoutMs of
             None \<Rightarrow> None
           | Some (Inr _, i) \<Rightarrow> Some (Inr localPort, Some u)
           | Some (Inl m, i) \<Rightarrow>
               Some (Inl (if fw_stderr w i \<noteq> [] then tunnelFailure (sh_target t) (fw_stderr w i) else m), Some (close_tunnel u))))"

subsection \<open>Properties\<close>

lemma wait_rounds_before:
  assumes "forward_round w target timeoutMs deadline k = Some r"
    and "\<forall>j. i \<le> j \<and> j < k \<longrightarrow> forward_round w target timeoutMs deadline j = None" "i \<le> k"
  shows "wait_rounds w target timeoutMs deadline i = Some (r, k)"
  using assms
proof (induction "k - i" arbitrary: i)
  case 0
  then show ?case by (subst wait_rounds.simps) simp
next
  case (Suc n)
  then have "i < k" by simp
  with Suc have "forward_round w target timeoutMs deadline i = None" by simp
  moreover have "wait_rounds w target timeoutMs deadline (Suc i) = Some (r, k)"
    using Suc \<open>i < k\<close> by (intro Suc.hyps(1)) auto
  ultimately show ?case by (subst wait_rounds.simps) simp
qed

lemma clock_reaches:
  assumes "\<forall>j. fw_clock w j < fw_clock w (Suc j)" "start \<le> fw_clock w 0"
  shows "start + k \<le> fw_clock w k"
proof (induction k)
  case (Suc k)
  moreover from assms(1) have "fw_clock w k < fw_clock w (Suc k)" by simp
  ultimately show ?case by simp
qed (use assms(2) in simp)

lemma first_round:
  fixes f :: "nat \<Rightarrow> 'a option"
  assumes "f n \<noteq> None"
  shows "\<exists>k \<le> n. f k \<noteq> None \<and> (\<forall>j < k. f j = None)"
  using assms ex_least_nat_le [of "\<lambda>k. f k \<noteq> None" n] by auto

text \<open>Waiting for a forward ends: while the clock advances between two rounds there is an answer, at
  the latest in the round the budget in milliseconds counts, and it is success exactly when a probe of
  an earlier or of that round was accepted before the process was seen to exit and the time was up.\<close>

theorem forward_wait_ends:
  assumes "\<forall>j. fw_clock w j < fw_clock w (Suc j)" "start \<le> fw_clock w 0"
  shows "\<exists>r k. waitForForward w start target timeoutMs = Some (r, k) \<and> k \<le> timeoutMs \<and>
    (r = Inr () \<longleftrightarrow> fw_probe w k) \<and>
    (\<forall>j < k. \<not> fw_probe w j \<and> \<not> fw_exited w j \<and> fw_clock w j < start + timeoutMs)"
proof -
  let ?round = "forward_round w target timeoutMs (start + timeoutMs)"
  have last_round: "?round timeoutMs \<noteq> None"
    using clock_reaches [OF assms, of timeoutMs] by (auto simp: forward_round_def)
  obtain k where k: "?round k \<noteq> None" "k \<le> timeoutMs" and before: "\<forall>j < k. ?round j = None"
    using first_round [of ?round timeoutMs] last_round by blast
  obtain r where r: "?round k = Some r" using k(1) by blast
  have "waitForForward w start target timeoutMs = Some (r, k)"
    unfolding waitForForward_def using before by (intro wait_rounds_before [OF r]) simp_all
  moreover have "r = Inr () \<longleftrightarrow> fw_probe w k" using r by (auto simp: forward_round_def split: if_splits)
  moreover have "\<not> fw_probe w j \<and> \<not> fw_exited w j \<and> fw_clock w j < start + timeoutMs" if "j < k" for j
    using before that by (force simp: forward_round_def split: if_splits)
  ultimately show ?thesis using k(2) by blast
qed

definition sample_forward :: forward_world where
  "sample_forward = \<lparr>fw_probe = (\<lambda>i. i = 2), fw_exited = (\<lambda>i. False), fw_clock = (\<lambda>i. 120 * i), fw_stderr = (\<lambda>i. [])\<rparr>"

theorem forward_wait_ends_witness:
  "\<exists>r k. waitForForward sample_forward 0 ''h'' 1000 = Some (r, k) \<and> k \<le> 1000 \<and> (r = Inr () \<longleftrightarrow> fw_probe sample_forward k)"
  using forward_wait_ends [of sample_forward 0 "''h''" 1000] by (auto simp: sample_forward_def)

text \<open>A forward that lost its local port does not report it: when another process of the host
  accepts on the port, the probe succeeds and the tunnel is handed out, although the ssh process has
  already exited on the failed bind.\<close>

theorem lost_port_accepted:
  assumes "fw_probe w 0" "fw_exited w 0" "fw_stderr w 0 = ''bind: Address already in use''"
  shows "openTunnel t (Inr localPort) w start timeoutMs =
    Some (Inr localPort, Some \<lparr>tu_localPort = localPort, tu_closed = False, tu_kills = 0\<rparr>)"
proof -
  have "waitForForward w start (sh_target t) timeoutMs = Some (Inr (), 0)"
    unfolding waitForForward_def using assms by (intro wait_rounds_before) (auto simp: forward_round_def)
  then show ?thesis by (simp add: openTunnel_def)
qed

definition taken_port :: forward_world where
  "taken_port =
     \<lparr>fw_probe = (\<lambda>i. True), fw_exited = (\<lambda>i. True), fw_clock = (\<lambda>i. i),
      fw_stderr = (\<lambda>i. ''bind: Address already in use'')\<rparr>"

theorem lost_port_accepted_witness:
  "openTunnel \<lparr>sh_target = ''h'', sh_port = None, sh_identity = None\<rparr> (Inr 5000) taken_port 0 15000 =
    Some (Inr 5000, Some \<lparr>tu_localPort = 5000, tu_closed = False, tu_kills = 0\<rparr>)"
  by (rule lost_port_accepted) (simp_all add: taken_port_def)

end
