(* ===== verification/Release.thy ===== *)
theory Release
  imports Ssh Utf8
begin

section \<open>Release binaries: remote/agent/release.ts\<close>

text \<open>
  Naming a machine's release asset, downloading it from the release or a mirror, checking its digest,
  taking the member out of the archive and caching it. The network, the decompressor, the digest and
  the faults of the cache directory are parameters; tar and the sums file are read here. The loop over
  the records of an archive can run for ever, so reading an archive is a partial function: \<open>None\<close> is
  a call that does not return.
\<close>

subsection \<open>Names and addresses\<close>

definition RELEASE_REPOSITORY :: string where "RELEASE_REPOSITORY = ''lengmoXXL/dsh-remote-workspace''"

definition DOWNLOAD_ROOT :: string where
  "DOWNLOAD_ROOT = ''https://github.com/'' @ RELEASE_REPOSITORY @ ''/releases/download''"

definition AGENT_MEMBER :: string where "AGENT_MEMBER = ''dsh-remote-agent''"

definition PTC_HOST_MEMBER :: string where "PTC_HOST_MEMBER = ''dsh-ptc-host''"

definition SUMS_FILE :: string where "SUMS_FILE = ''SHA256SUMS''"

definition TAR_BLOCK :: int where "TAR_BLOCK = 512"

text \<open>A name looked up in an object literal finds what every object inherits, too: of those names, two
  are in lower case.\<close>

definition record_get :: "(string \<times> string) list \<Rightarrow> string \<Rightarrow> string option" where
  "record_get table k =
     (case map_of table k of
        Some v \<Rightarrow> Some v
      | None \<Rightarrow>
          if k = ''constructor'' then Some ''function Object() { [native code] }''
          else if k = ''__proto__'' then Some ''[object Object]'' else None)"

definition PLATFORMS :: "(string \<times> string) list" where
  "PLATFORMS = [(''linux'', ''linux''), (''darwin'', ''darwin'')]"

definition ARCHITECTURES :: "(string \<times> string) list" where
  "ARCHITECTURES = [(''x86_64'', ''x86_64''), (''amd64'', ''x86_64'')]"

definition binaryAssetName :: "string \<Rightarrow> string \<Rightarrow> string \<Rightarrow> string + string" where
  "binaryAssetName binary platform arch =
     (case (record_get PLATFORMS (map lower (trim platform)), record_get ARCHITECTURES (map lower (trim arch))) of
        (Some os, Some cpu) \<Rightarrow> Inr (binary @ ''-'' @ os @ ''-'' @ cpu)
      | _ \<Rightarrow>
          Inl (''the machine reports platform '' @ in_quotes (trim platform) @ '' and architecture '' @
               in_quotes (trim arch) @ '', which has no '' @ binary @
               '' release; it ships for Linux and Darwin on x86_64''))"

definition agentAssetName :: "string \<Rightarrow> string \<Rightarrow> string + string" where
  "agentAssetName platform arch = binaryAssetName AGENT_MEMBER platform arch"

definition ptcHostAssetName :: "string \<Rightarrow> string \<Rightarrow> string + string" where
  "ptcHostAssetName platform arch = binaryAssetName PTC_HOST_MEMBER platform arch"

definition archiveName :: "string \<Rightarrow> string" where
  "archiveName asset = asset @ ''.tar.gz''"

definition agentArchiveUrl :: "string \<Rightarrow> string \<Rightarrow> string" where
  "agentArchiveUrl version asset = DOWNLOAD_ROOT @ ''/v'' @ version @ ''/'' @ archiveName asset"

definition agentSumsUrl :: "string \<Rightarrow> string" where
  "agentSumsUrl version = DOWNLOAD_ROOT @ ''/v'' @ version @ ''/'' @ SUMS_FILE"

subsection \<open>Downloading\<close>

definition DOWNLOAD_MIRRORS :: "string list" where
  "DOWNLOAD_MIRRORS = [''https://ghfast.top/'', ''https://gh-proxy.com/'', ''https://ghproxy.net/'']"

text \<open>The addresses in turn: the first answer, or the last failure, and the addresses that were asked.\<close>

fun try_addresses :: "(string \<Rightarrow> string + bytes) \<Rightarrow> string list \<Rightarrow> string \<Rightarrow> (string + bytes) \<times> string list" where
  "try_addresses fetch [] last_error = (Inl last_error, [])"
| "try_addresses fetch (a # as) last_error =
     (case fetch a of
        Inr b \<Rightarrow> (Inr b, [a])
      | Inl e \<Rightarrow> (let (r, asked) = try_addresses fetch as e in (r, a # asked)))"

definition download_addresses :: "string \<Rightarrow> string list" where
  "download_addresses url = url # map (\<lambda>m. m @ url) DOWNLOAD_MIRRORS"

definition download :: "(string \<Rightarrow> string + bytes) \<Rightarrow> string \<Rightarrow> (string + bytes) \<times> string list" where
  "download fetch url =
     (case try_addresses fetch (download_addresses url) ''undefined'' of
        (Inr b, asked) \<Rightarrow> (Inr b, asked)
      | (Inl e, asked) \<Rightarrow>
          (Inl (''downloading '' @ url @ '' failed at every address tried ('' @
                join_with '', '' (download_addresses url) @ ''): '' @ e), asked))"

subsection \<open>The archive\<close>

text \<open>\<open>buffer.subarray(a, b)\<close>: a negative bound counts from the end.\<close>

definition subarray :: "'a list \<Rightarrow> int \<Rightarrow> int \<Rightarrow> 'a list" where
  "subarray xs a b =
     (let n = int (length xs);
          lo = (if a < 0 then max 0 (n + a) else min a n);
          stop = (if b < 0 then max 0 (n + b) else min b n)
      in take (nat (stop - lo)) (drop (nat lo) xs))"

definition nul :: char where "nul = CHR 0x00"

definition index_of_nul :: "bytes \<Rightarrow> nat \<Rightarrow> nat option" where
  "index_of_nul h start =
     (let i = start + length (takeWhile (\<lambda>c. c \<noteq> nul) (drop start h)) in if i < length h then Some i else None)"

definition headerText :: "bytes \<Rightarrow> nat \<Rightarrow> nat \<Rightarrow> string" where
  "headerText h start len =
     (let stop = (case index_of_nul h start of None \<Rightarrow> start + len | Some i \<Rightarrow> if start + len < i then start + len else i)
      in trim (utf8_text (take (stop - start) (drop start h))))"

text \<open>\<open>Number.parseInt(text, 8)\<close>, \<open>None\<close> for NaN.\<close>

definition octal_char :: "char \<Rightarrow> bool" where
  "octal_char c \<longleftrightarrow> 48 \<le> byte c \<and> byte c \<le> 55"

definition octal_value :: "string \<Rightarrow> nat" where
  "octal_value ds = foldl (\<lambda>v c. 8 * v + (byte c - 48)) 0 ds"

definition parse_octal :: "string \<Rightarrow> int option" where
  "parse_octal s =
     (let signed = s \<noteq> [] \<and> (hd s = CHR ''-'' \<or> hd s = CHR ''+'');
          ds = takeWhile octal_char (if signed then tl s else s)
      in if ds = [] then None
         else Some (if signed \<and> hd s = CHR ''-'' then - int (octal_value ds) else int (octal_value ds)))"

definition headerSize :: "bytes \<Rightarrow> int option" where
  "headerSize h = (let t = headerText h 124 12 in if t = [] then Some 0 else parse_octal t)"

text \<open>One record: the end of the archive, the member, or the offset of the next record. With a size
  that is not a number the next offset is none either, and the loop ends.\<close>

datatype tar_step = Tar_Ends | Tar_Found bytes | Tar_On int

definition tar_record :: "string \<Rightarrow> bytes \<Rightarrow> int \<Rightarrow> tar_step" where
  "tar_record member tar offset =
     (let header = subarray tar offset (offset + TAR_BLOCK) in
      if list_all (\<lambda>c. c = nul) header then Tar_Ends
      else
        (let start = offset + TAR_BLOCK;
             kind = (if 156 < length header then header ! 156 else nul);
             name = headerText header 0 100
         in if (kind = CHR ''0'' \<or> kind = nul) \<and> last (split_on (CHR ''/'') name) = member
            then Tar_Found (case headerSize header of None \<Rightarrow> [] | Some n \<Rightarrow> subarray tar start (start + n))
            else
              (case headerSize header of
                 None \<Rightarrow> Tar_Ends
               | Some n \<Rightarrow> Tar_On (start + (- ((- n) div TAR_BLOCK)) * TAR_BLOCK))))"

partial_function (option) tar_search :: "string \<Rightarrow> bytes \<Rightarrow> int \<Rightarrow> bytes option option" where
  "tar_search member tar offset =
     (if offset + TAR_BLOCK \<le> int (length tar)
      then (case tar_record member tar offset of
              Tar_Ends \<Rightarrow> Some None
            | Tar_Found b \<Rightarrow> Some (Some b)
            | Tar_On next_offset \<Rightarrow> tar_search member tar next_offset)
      else Some None)"

declare tar_search.simps [code, simp del]

definition archiveMember :: "(bytes \<Rightarrow> bytes option) \<Rightarrow> bytes \<Rightarrow> string \<Rightarrow> string \<Rightarrow> (string + bytes) option" where
  "archiveMember gunzip archive sourceUrl member =
     (case gunzip archive of
        None \<Rightarrow> Some (Inl (sourceUrl @ '' is not a gzipped tar archive''))
      | Some tar \<Rightarrow>
          (case tar_search member tar 0 of
             None \<Rightarrow> None
           | Some None \<Rightarrow> Some (Inl (sourceUrl @ '' carries no '' @ in_quotes member))
           | Some (Some b) \<Rightarrow> Some (Inr b)))"

subsection \<open>The sums file\<close>

definition hex_char :: "char \<Rightarrow> bool" where
  "hex_char c \<longleftrightarrow> 48 \<le> byte c \<and> byte c \<le> 57 \<or> 97 \<le> byte (lower c) \<and> byte (lower c) \<le> 102"

text \<open>What ends a line for the \<open>.\<close> of a regular expression, after the split at line feeds.\<close>

definition breaks_line :: "string \<Rightarrow> bool" where
  "breaks_line s \<longleftrightarrow>
     CHR 0x0D \<in> set s \<or> sublist [CHR 0xE2, CHR 0x80, CHR 0xA8] s \<or> sublist [CHR 0xE2, CHR 0x80, CHR 0xA9] s"

text \<open>The match of a trimmed line: 64 hexadecimal digits, white space, and the rest, which neither
  starts nor ends with white space.\<close>

definition sums_line :: "string \<Rightarrow> (string \<times> string) option" where
  "sums_line line =
     (let t = trim line; digest = take 64 t; rest = drop 64 t; name = drop_forms js_spaces rest in
      if length digest = 64 \<and> list_all hex_char digest \<and> length name < length rest \<and> name \<noteq> [] \<and> \<not> breaks_line name
      then Some (map lower digest, name) else None)"

fun sums_find :: "string list \<Rightarrow> string \<Rightarrow> string option" where
  "sums_find [] fileName = None"
| "sums_find (l # ls) fileName =
     (case sums_line l of
        Some (digest, name) \<Rightarrow> if trim name = fileName then Some digest else sums_find ls fileName
      | None \<Rightarrow> sums_find ls fileName)"

definition expectedChecksum :: "string \<Rightarrow> string \<Rightarrow> string \<Rightarrow> string + string" where
  "expectedChecksum sums fileName sumsUrl =
     (case sums_find (split_on (CHR 0x0A) sums) fileName of
        Some digest \<Rightarrow> Inr digest
      | None \<Rightarrow> Inl (sumsUrl @ '' names no '' @ in_quotes fileName))"

subsection \<open>Resolving a binary\<close>

datatype cache_call =
    Cache_Read string
  | Cache_Mkdir string
  | Cache_Write string
  | Cache_Rename string string
  | Cache_Remove string

text \<open>The outside: the network, the decompressor, the digest, which download settles first when both
  fail, the faults of the cache directory other than a missing file, what a failed write leaves behind,
  and the suffix of the process and of chance of a temporary name.\<close>

record release_env =
  re_fetch :: "string \<Rightarrow> string + bytes"
  re_gunzip :: "bytes \<Rightarrow> bytes option"
  re_sha256 :: "bytes \<Rightarrow> string"
  re_sums_settle_first :: bool
  re_fault :: "cache_call \<Rightarrow> string option"
  re_partial :: "bytes option"
  re_suffix :: string

record binary_options =
  bo_version :: string
  bo_asset :: string
  bo_member :: "string option"
  bo_cacheDir :: string

datatype release_event = From_Cache | From_Network | Asked string

record release_state =
  rl_files :: "string \<Rightarrow> bytes option"
  rl_log :: "release_event list"

definition cached_path :: "binary_options \<Rightarrow> string" where
  "cached_path opts = posix_join [bo_cacheDir opts, bo_version opts, bo_asset opts]"

definition temp_path :: "release_env \<Rightarrow> binary_options \<Rightarrow> string" where
  "temp_path env opts = cached_path opts @ ''.'' @ re_suffix env"

text \<open>The error the two downloads, awaited together, end in, or their answers.\<close>

definition both_downloads :: "release_env \<Rightarrow> binary_options \<Rightarrow> (string + bytes \<times> bytes) \<times> string list" where
  "both_downloads env opts =
     (let (archive, asked) = download (re_fetch env) (agentArchiveUrl (bo_version opts) (bo_asset opts));
          (sums, asked') = download (re_fetch env) (agentSumsUrl (bo_version opts))
      in ((case (archive, sums) of
             (Inr a, Inr b) \<Rightarrow> Inr (a, b)
           | (Inl e, Inr _) \<Rightarrow> Inl e
           | (Inr _, Inl e) \<Rightarrow> Inl e
           | (Inl e, Inl e') \<Rightarrow> Inl (if re_sums_settle_first env then e' else e)),
          asked @ asked'))"

text \<open>The check and the unpacking.\<close>

definition verified_binary :: "release_env \<Rightarrow> binary_options \<Rightarrow> bytes \<Rightarrow> bytes \<Rightarrow> (string + bytes) option" where
  "verified_binary env opts archive sums =
     (let archiveUrl = agentArchiveUrl (bo_version opts) (bo_asset opts);
          sumsUrl = agentSumsUrl (bo_version opts)
      in case expectedChecksum (utf8_text sums) (archiveName (bo_asset opts)) sumsUrl of
           Inl e \<Rightarrow> Some (Inl e)
         | Inr expected \<Rightarrow>
             (let actual = re_sha256 env archive in
              if actual \<noteq> expected
              then Some (Inl (''the download from '' @ archiveUrl @ '' failed its SHA-256 check: expected '' @
                              expected @ '', got '' @ actual))
              else archiveMember (re_gunzip env) archive archiveUrl
                     (case bo_member opts of None \<Rightarrow> AGENT_MEMBER | Some m \<Rightarrow> m)))"

text \<open>Removing the temporary file can fail as well; its error then takes the place of the first.\<close>

definition discard_temp :: "release_env \<Rightarrow> string \<Rightarrow> string \<Rightarrow> release_state \<Rightarrow> (string + bytes) \<times> release_state" where
  "discard_temp env temp e s =
     (case re_fault env (Cache_Remove temp) of
        Some e' \<Rightarrow> (Inl e', s)
      | None \<Rightarrow> (Inl e, s\<lparr>rl_files := (rl_files s)(temp := None)\<rparr>))"

definition store_binary :: "release_env \<Rightarrow> binary_options \<Rightarrow> bytes \<Rightarrow> release_state \<Rightarrow> (string + bytes) \<times> release_state" where
  "store_binary env opts binary s =
     (let cached = cached_path opts; temp = temp_path env opts in
      case re_fault env (Cache_Mkdir (posix_dirname cached)) of
        Some e \<Rightarrow> (Inl e, s)
      | None \<Rightarrow>
          (case re_fault env (Cache_Write temp) of
             Some e \<Rightarrow> discard_temp env temp e (s\<lparr>rl_files := (rl_files s)(temp := re_partial env)\<rparr>)
           | None \<Rightarrow>
               (let s' = s\<lparr>rl_files := (rl_files s)(temp := Some binary)\<rparr> in
                case re_fault env (Cache_Rename temp cached) of
                  Some e \<Rightarrow> discard_temp env temp e s'
                | None \<Rightarrow> (Inr binary, s'\<lparr>rl_files := (rl_files s')(temp := None, cached := rl_files s' temp)\<rparr>))))"

definition resolveAgentBinary ::
  "release_env \<Rightarrow> binary_options \<Rightarrow> release_state \<Rightarrow> ((string + bytes) \<times> release_state) option" where
  "resolveAgentBinary env opts s =
     (case re_fault env (Cache_Read (cached_path opts)) of
        Some e \<Rightarrow> Some (Inl e, s)
      | None \<Rightarrow>
          (case rl_files s (cached_path opts) of
             Some b \<Rightarrow> Some (Inr b, s\<lparr>rl_log := rl_log s @ [From_Cache]\<rparr>)
           | None \<Rightarrow>
               (let (answer, asked) = both_downloads env opts;
                    s' = s\<lparr>rl_log := rl_log s @ From_Network # map Asked asked\<rparr>
                in case answer of
                     Inl e \<Rightarrow> Some (Inl e, s')
                   | Inr (archive, sums) \<Rightarrow>
                       (case verified_binary env opts archive sums of
                          None \<Rightarrow> None
                        | Some (Inl e) \<Rightarrow> Some (Inl e, s')
                        | Some (Inr binary) \<Rightarrow> Some (store_binary env opts binary s')))))"

end
