(* ===== verification/Release_Properties.thy ===== *)
theory Release_Properties
  imports Release
begin

section \<open>Release binaries: what is installed\<close>

text \<open>
  Reading an archive against a writer of archives, with records before the member and after it; the
  round trip from what a release publishes to the bytes that are installed; the cache, which changes
  only to verified bytes; and what the check does not show.
\<close>

subsection \<open>A writer of archives\<close>

fun octal_field :: "nat \<Rightarrow> nat \<Rightarrow> string" where
  "octal_field 0 n = []"
| "octal_field (Suc k) n = octal_field k (n div 8) @ [char_of (48 + n mod 8)]"

record tar_file =
  tf_name :: string
  tf_kind :: char
  tf_data :: bytes
  tf_mode :: bytes
  tf_sums :: bytes
  tf_link :: bytes

definition tar_header :: "tar_file \<Rightarrow> bytes" where
  "tar_header f =
     tf_name f @ replicate (100 - length (tf_name f)) nul @ tf_mode f @ octal_field 11 (length (tf_data f)) @ [nul] @
     tf_sums f @ [tf_kind f] @ tf_link f"

definition tar_padding :: "nat \<Rightarrow> nat" where
  "tar_padding n = nat (- ((- int n) div TAR_BLOCK) * TAR_BLOCK - int n)"

definition tar_entry :: "tar_file \<Rightarrow> bytes" where
  "tar_entry f = tar_header f @ tf_data f @ replicate (tar_padding (length (tf_data f))) nul"

definition tar_pack :: "tar_file list \<Rightarrow> bytes" where
  "tar_pack fs = concat (map tar_entry fs) @ replicate 1024 nul"

definition tar_ok :: "tar_file \<Rightarrow> bool" where
  "tar_ok f \<longleftrightarrow>
     tf_name f \<noteq> [] \<and> length (tf_name f) \<le> 100 \<and> list_all printable (tf_name f) \<and>
     length (tf_data f) < 8 ^ 11 \<and> length (tf_mode f) = 24 \<and> length (tf_sums f) = 20 \<and> length (tf_link f) = 355"

definition tar_holds :: "string \<Rightarrow> tar_file \<Rightarrow> bool" where
  "tar_holds member f \<longleftrightarrow>
     (tf_kind f = CHR ''0'' \<or> tf_kind f = nul) \<and> last (split_on (CHR ''/'') (tf_name f)) = member"

subsection \<open>Fields of a header\<close>

lemma octal_field_length [simp]: "length (octal_field k n) = k"
  by (induction k n rule: octal_field.induct) auto

lemma octal_digit: "octal_char (char_of (48 + n mod 8))" "byte (char_of (48 + n mod 8)) = 48 + n mod 8"
  by (simp_all add: octal_char_def byte_def)

lemma octal_field_chars: "list_all octal_char (octal_field k n)"
  by (induction k n rule: octal_field.induct) (auto simp: octal_digit)

lemma octal_value_snoc: "octal_value (ds @ [c]) = 8 * octal_value ds + (byte c - 48)"
  by (simp add: octal_value_def)

lemma octal_value_field: "n < 8 ^ k \<Longrightarrow> octal_value (octal_field k n) = n"
proof (induction k n rule: octal_field.induct)
  case (2 k n)
  then have "octal_value (octal_field k (n div 8)) = n div 8" by (simp add: less_mult_imp_div_less mult.commute)
  then show ?case by (simp add: octal_value_snoc octal_digit)
qed (simp add: octal_value_def)

lemma octal_char_printable: "octal_char c \<Longrightarrow> printable c"
  by (simp add: octal_char_def printable_def byte_def)

lemma takeWhile_all: "list_all P xs \<Longrightarrow> takeWhile P xs = xs"
  by (simp add: list_all_iff takeWhile_eq_all_conv)

lemma parse_octal_field:
  assumes "n < 8 ^ k" "0 < k"
  shows "parse_octal (octal_field k n) = Some (int n)"
proof -
  let ?t = "octal_field k n"
  have ne: "?t \<noteq> []" using assms(2) by (metis length_0_conv less_irrefl octal_field_length)
  moreover have "octal_char (hd ?t)" using octal_field_chars [of k n] hd_in_set [OF ne] by (auto simp: list_all_iff)
  then have "hd ?t \<noteq> CHR ''-''" "hd ?t \<noteq> CHR ''+''" by (auto simp: octal_char_def byte_def)
  ultimately show ?thesis
    using octal_field_chars [of k n] octal_value_field [OF assms(1)]
    by (simp add: parse_octal_def takeWhile_all del: octal_field.simps)
qed

lemma headerText_field:
  assumes "list_all printable t" "length t \<le> n" "length t = n \<or> z \<noteq> [] \<and> hd z = nul"
  shows "headerText (a @ t @ z) (length a) n = t"
proof -
  have t: "nul \<notin> set t" using assms(1) by (auto simp: list_all_iff printable_def nul_def)
  then have whole: "takeWhile (\<lambda>c. c \<noteq> nul) t = t" by (auto simp: takeWhile_eq_all_conv)
  have cut: "take (stop - length a) (drop (length a) (a @ t @ z)) = t"
    if "stop = (case index_of_nul (a @ t @ z) (length a) of None \<Rightarrow> length a + n
       | Some i \<Rightarrow> if length a + n < i then length a + n else i)" for stop
    using assms(2,3) t that whole
    by (cases z) (auto simp: index_of_nul_def Let_def takeWhile_append split: if_splits)
  have "utf8_valid t" using assms(1) by (intro utf8_valid_ascii) (auto simp: list_all_iff printable_def byte_def)
  then have "utf8_text t = t" by (simp add: utf8_valid_def)
  moreover have "trim t = t" using assms(1) by (intro trim_id) (cases t, auto simp: list_all_iff)
  ultimately show ?thesis using cut [OF refl] by (simp add: headerText_def Let_def)
qed

lemma subarray_middle:
  "i = int (length a) \<Longrightarrow> j = int (length a + length b) \<Longrightarrow> subarray (a @ b @ c) i j = b"
  by (simp add: subarray_def Let_def)

lemma tar_header_length: "tar_ok f \<Longrightarrow> length (tar_header f) = 512"
  by (simp add: tar_ok_def tar_header_def)

lemma header_name: "tar_ok f \<Longrightarrow> headerText (tar_header f) 0 100 = tf_name f"
  unfolding tar_header_def
  using headerText_field [of "tf_name f" 100 _ "[]"]
  by (cases "length (tf_name f) = 100") (auto simp: tar_ok_def)

lemma header_size: 
  assumes "tar_ok f"
  shows "headerSize (tar_header f) = Some (int (length (tf_data f)))"
proof -
  let ?n = "length (tf_data f)"
  let ?a = "tf_name f @ replicate (100 - length (tf_name f)) nul @ tf_mode f"
  have "headerText (?a @ octal_field 11 ?n @ [nul] @ tf_sums f @ [tf_kind f] @ tf_link f) (length ?a) 12 = octal_field 11 ?n"
    using octal_field_chars [of 11 ?n]
    by (intro headerText_field) (auto simp: list_all_iff octal_char_printable)
  moreover have "length ?a = 124" using assms by (simp add: tar_ok_def)
  ultimately have "headerText (tar_header f) 124 12 = octal_field 11 ?n" by (simp add: tar_header_def)
  moreover have "octal_field 11 ?n \<noteq> []" by (metis octal_field_length length_0_conv zero_neq_numeral)
  moreover have "parse_octal (octal_field 11 ?n) = Some (int ?n)"
    using assms by (intro parse_octal_field) (simp_all add: tar_ok_def)
  ultimately show ?thesis by (simp add: headerSize_def)
qed

lemma header_kind:
  assumes "tar_ok f"
  shows "tar_header f ! 156 = tf_kind f"
proof -
  let ?a = "tf_name f @ replicate (100 - length (tf_name f)) nul @ tf_mode f @ octal_field 11 (length (tf_data f)) @ [nul] @ tf_sums f"
  have "length ?a = 156" using assms by (simp add: tar_ok_def)
  moreover have "tar_header f = ?a @ tf_kind f # tf_link f" by (simp add: tar_header_def)
  ultimately show ?thesis using nth_append_length [of ?a] by metis
qed

lemma header_not_zero: "tar_ok f \<Longrightarrow> \<not> list_all (\<lambda>c. c = nul) (tar_header f)"
  by (cases "tf_name f") (auto simp: tar_ok_def tar_header_def printable_def nul_def)

subsection \<open>Searching an archive\<close>

lemma padding_rounds: "int n + int (tar_padding n) = (- ((- int n) div TAR_BLOCK)) * TAR_BLOCK"
  by (simp add: tar_padding_def TAR_BLOCK_def) presburger

lemma tar_entry_length:
  "tar_ok f \<Longrightarrow> int (length (tar_entry f)) = TAR_BLOCK + (- ((- int (length (tf_data f))) div TAR_BLOCK)) * TAR_BLOCK"
  using padding_rounds [of "length (tf_data f)"] by (simp add: tar_entry_def tar_header_length TAR_BLOCK_def)

lemma tar_record_entry:
  assumes "tar_ok f"
  shows "tar_record member (pre @ tar_entry f @ post) (int (length pre)) =
    (if tar_holds member f then Tar_Found (tf_data f) else Tar_On (int (length (pre @ tar_entry f))))"
proof -
  let ?tar = "pre @ tar_entry f @ post" and ?n = "int (length (tf_data f))"
  let ?pad = "replicate (tar_padding (length (tf_data f))) nul"
  have "subarray (pre @ tar_header f @ (tf_data f @ ?pad @ post)) (int (length pre)) (int (length pre) + TAR_BLOCK) = tar_header f"
    using tar_header_length [OF assms] by (intro subarray_middle) (simp_all add: TAR_BLOCK_def)
  then have h: "subarray ?tar (int (length pre)) (int (length pre) + TAR_BLOCK) = tar_header f" by (simp add: tar_entry_def)
  have "subarray ((pre @ tar_header f) @ tf_data f @ (?pad @ post)) (int (length pre) + TAR_BLOCK) (int (length pre) + TAR_BLOCK + ?n) = tf_data f"
    using tar_header_length [OF assms] by (intro subarray_middle) (simp_all add: TAR_BLOCK_def)
  then have d: "subarray ?tar (int (length pre) + TAR_BLOCK) (int (length pre) + TAR_BLOCK + ?n) = tf_data f"
    by (simp add: tar_entry_def)
  have "156 < length (tar_header f)" using tar_header_length [OF assms] by simp
  then show ?thesis
    using header_not_zero [OF assms] tar_entry_length [OF assms]
    by (simp add: tar_record_def h d header_kind [OF assms] header_name [OF assms] header_size [OF assms] tar_holds_def Let_def)
qed

lemma tar_search_entry:
  assumes "tar_ok f"
  shows "tar_search member (pre @ tar_entry f @ post) (int (length pre)) =
    (if tar_holds member f then Some (Some (tf_data f))
     else tar_search member (pre @ tar_entry f @ post) (int (length (pre @ tar_entry f))))"
proof -
  have "int (length pre) + TAR_BLOCK \<le> int (length (pre @ tar_entry f @ post))"
    using tar_header_length [OF assms] by (simp add: tar_entry_def TAR_BLOCK_def)
  then show ?thesis by (subst tar_search.simps) (simp add: tar_record_entry [OF assms])
qed

lemma tar_search_entries:
  assumes "\<forall>g \<in> set before. tar_ok g \<and> \<not> tar_holds member g" "tar_ok f" "tar_holds member f"
  shows "tar_search member (pre @ concat (map tar_entry (before @ f # after)) @ post) (int (length pre)) = Some (Some (tf_data f))"
  using assms(1)
proof (induction before arbitrary: pre)
  case Nil
  show ?case using assms(2,3) tar_search_entry [of f member pre "concat (map tar_entry after) @ post"] by simp
next
  case (Cons g before)
  then have "tar_ok g" "\<not> tar_holds member g" by simp_all
  then show ?case
    using Cons.IH [of "pre @ tar_entry g"] Cons.prems
      tar_search_entry [of g member pre "concat (map tar_entry (before @ f # after)) @ post"] by simp
qed

lemma archiveMember_packed:
  assumes "\<forall>g \<in> set before. tar_ok g \<and> \<not> tar_holds member g" "tar_ok f" "tar_holds member f"
    and "gunzip archive = Some (tar_pack (before @ f # after))"
  shows "archiveMember gunzip archive url member = Some (Inr (tf_data f))"
  using tar_search_entries [OF assms(1-3), of "[]" after "replicate 1024 nul"]
  by (simp add: archiveMember_def assms(4) tar_pack_def)

subsection \<open>The round trip of a release\<close>

definition digest_ok :: "string \<Rightarrow> bool" where
  "digest_ok d \<longleftrightarrow> length d = 64 \<and> list_all (\<lambda>c. hex_char c \<and> lower c = c) d"

definition sums_text :: "(string \<times> string) list \<Rightarrow> string" where
  "sums_text entries = concat (map (\<lambda>(digest, name). digest @ ''  '' @ name @ [CHR 0x0A]) entries)"

definition published_name :: "string \<Rightarrow> bool" where
  "published_name n \<longleftrightarrow> n \<noteq> [] \<and> list_all printable n"

lemma hex_printable: "hex_char c \<Longrightarrow> lower c = c \<Longrightarrow> printable c"
  by (auto simp: hex_char_def printable_def byte_def)

lemma drop_spaces_printable: "s = [] \<or> printable (hd s) \<Longrightarrow> drop_forms js_spaces s = s"
  by (rule drop_forms_id) (use space_bytes in \<open>metis\<close>)

lemma drop_two_spaces: "s = [] \<or> printable (hd s) \<Longrightarrow> drop_forms js_spaces (''  '' @ s) = s"
  using drop_spaces_printable [of s]
  by (subst drop_forms.simps, subst drop_forms.simps) (simp add: js_spaces_def)

lemma printable_line: "list_all printable n \<Longrightarrow> \<not> breaks_line n"
  by (auto simp: breaks_line_def list_all_iff printable_def sublist_def)

lemma sums_line_entry:
  assumes "digest_ok d" "published_name n"
  shows "sums_line (d @ ''  '' @ n) = Some (d, n)"
proof -
  have d: "length d = 64" "list_all hex_char d" "map lower d = d" "d \<noteq> []" "printable (hd d)"
    using assms(1) hex_printable by (cases d; auto simp: digest_ok_def list_all_iff map_idI)+
  have n: "n \<noteq> []" "printable (hd n)" "printable (last n)" "list_all printable n"
    using assms(2) by (auto simp: published_name_def list_all_iff)
  have "trim (d @ ''  '' @ n) = d @ ''  '' @ n" using d n by (intro trim_id) auto
  moreover have "take 64 (d @ ''  '' @ n) = d" "drop 64 (d @ ''  '' @ n) = ''  '' @ n" using d(1) by simp_all
  ultimately show ?thesis
    using d n drop_two_spaces [of n] printable_line [of n] by (simp only: sums_line_def Let_def) simp
qed

lemma printable_no_newline: "list_all printable n \<Longrightarrow> CHR 0x0A \<notin> set n"
  by (auto simp: list_all_iff printable_def)

lemma sums_find_entries:
  assumes "\<forall>(d, n) \<in> set entries. digest_ok d \<and> published_name n"
  shows "sums_find (split_on (CHR 0x0A) (sums_text entries)) fileName = map_of (map (\<lambda>(d, n). (n, d)) entries) fileName"
  using assms
proof (induction entries)
  case Nil
  show ?case by code_simp
next
  case (Cons e entries)
  obtain d n where e: "e = (d, n)" by (cases e)
  with Cons have ok: "digest_ok d" "published_name n" by auto
  have "list_all printable d" using ok(1) hex_printable by (auto simp: digest_ok_def list_all_iff)
  then have "CHR 0x0A \<notin> set (d @ ''  '' @ n)"
    using ok(2) printable_no_newline [of d] printable_no_newline [of n] by (auto simp: published_name_def)
  from split_on_append_sep [OF this, of "sums_text entries"]
  have "split_on (CHR 0x0A) (sums_text (e # entries)) = (d @ ''  '' @ n) # split_on (CHR 0x0A) (sums_text entries)"
    by (simp add: sums_text_def e)
  moreover have "trim n = n" using ok(2) by (intro trim_id) (auto simp: published_name_def list_all_iff)
  ultimately show ?case using Cons sums_line_entry [OF ok] by (simp add: e)
qed

lemma sums_text_plain:
  "\<forall>(d, n) \<in> set entries. digest_ok d \<and> published_name n \<Longrightarrow> utf8_text (sums_text entries) = sums_text entries"
proof -
  assume ok: "\<forall>(d, n) \<in> set entries. digest_ok d \<and> published_name n"
  have "byte c < 0x80" if "c \<in> set (sums_text entries)" for c
  proof -
    obtain d n where dn: "(d, n) \<in> set entries" "c \<in> set d \<or> c = CHR '' '' \<or> c \<in> set n \<or> c = CHR 0x0A"
      using \<open>c \<in> set (sums_text entries)\<close> by (auto simp: sums_text_def)
    then have "list_all printable d" "list_all printable n"
      using ok hex_printable by (auto simp: digest_ok_def published_name_def list_all_iff)
    then show ?thesis using dn(2) by (auto simp: list_all_iff printable_def byte_def)
  qed
  then have "utf8_valid (sums_text entries)" by (intro utf8_valid_ascii) blast
  then show ?thesis by (simp add: utf8_valid_def)
qed

definition wanted_member :: "binary_options \<Rightarrow> string" where
  "wanted_member opts = (case bo_member opts of None \<Rightarrow> AGENT_MEMBER | Some m \<Rightarrow> m)"

text \<open>C30: what a release publishes is what is unpacked: of an archive a tar writes, gzipped, whose digest
  is the entry of its file in the sums, the check and the unpacking give back the bytes of the member,
  whatever other records and entries there are.\<close>

theorem published_binary_verifies:
  assumes "\<forall>g \<in> set before. tar_ok g \<and> \<not> tar_holds (wanted_member opts) g"
    and "tar_ok f" "tar_holds (wanted_member opts) f"
    and "re_gunzip env archive = Some (tar_pack (before @ f # after))"
    and "\<forall>(d, n) \<in> set entries. digest_ok d \<and> published_name n"
    and "map_of (map (\<lambda>(d, n). (n, d)) entries) (archiveName (bo_asset opts)) = Some (re_sha256 env archive)"
  shows "verified_binary env opts archive (sums_text entries) = Some (Inr (tf_data f))"
proof -
  have "expectedChecksum (utf8_text (sums_text entries)) (archiveName (bo_asset opts)) url = Inr (re_sha256 env archive)" for url
    using assms(5,6) by (simp add: expectedChecksum_def sums_text_plain sums_find_entries)
  then show ?thesis
    using archiveMember_packed [where gunzip = "re_gunzip env", OF assms(1-4)] by (simp add: verified_binary_def Let_def wanted_member_def)
qed

subsection \<open>The cache\<close>

lemma try_addresses_some: "try_addresses fetch as e = (Inr b, asked) \<Longrightarrow> \<exists>a \<in> set as. fetch a = Inr b"
proof (induction as arbitrary: e asked)
  case (Cons a as)
  then show ?case by (cases "fetch a"; cases "try_addresses fetch as (projl (fetch a))") auto
qed simp

lemma download_some: "download fetch url = (Inr b, asked) \<Longrightarrow> \<exists>a \<in> set (download_addresses url). fetch a = Inr b"
  by (auto simp: download_def split: prod.splits sum.splits dest: try_addresses_some)

lemma both_downloads_some:
  assumes "both_downloads env opts = (Inr (archive, sums), asked)"
  shows "\<exists>asked. download (re_fetch env) (agentArchiveUrl (bo_version opts) (bo_asset opts)) = (Inr archive, asked)"
    and "\<exists>asked. download (re_fetch env) (agentSumsUrl (bo_version opts)) = (Inr sums, asked)"
  using assms by (auto simp: both_downloads_def split: prod.splits sum.splits)

lemma verified_digest:
  assumes "verified_binary env opts archive sums = Some (Inr b)"
  shows "expectedChecksum (utf8_text sums) (archiveName (bo_asset opts)) (agentSumsUrl (bo_version opts)) = Inr (re_sha256 env archive)"
    and "archiveMember (re_gunzip env) archive (agentArchiveUrl (bo_version opts) (bo_asset opts)) (wanted_member opts) = Some (Inr b)"
  using assms by (auto simp: verified_binary_def wanted_member_def Let_def split: sum.splits if_splits)

lemma temp_not_cached [simp]: "temp_path env opts \<noteq> cached_path opts" "cached_path opts \<noteq> temp_path env opts"
  by (simp_all add: temp_path_def)

lemma store_binary_files:
  assumes "store_binary env opts b s = (r, s')"
  shows "(\<forall>q. q \<noteq> temp_path env opts \<longrightarrow> q \<noteq> cached_path opts \<longrightarrow> rl_files s' q = rl_files s q)
    \<and> (rl_files s' (cached_path opts) = rl_files s (cached_path opts) \<or> rl_files s' (cached_path opts) = Some b)
    \<and> (\<forall>x. r = Inr x \<longrightarrow> x = b \<and> rl_files s' (cached_path opts) = Some b)"
  using assms by (auto simp: store_binary_def discard_temp_def Let_def split: option.splits)

text \<open>A binary is vouched for when an archive with it was downloaded and its digest is the one a
  downloaded sums file has for the archive.\<close>

definition vouched :: "release_env \<Rightarrow> binary_options \<Rightarrow> bytes \<Rightarrow> bool" where
  "vouched env opts b \<longleftrightarrow>
     (\<exists>a \<in> set (download_addresses (agentArchiveUrl (bo_version opts) (bo_asset opts))).
      \<exists>a' \<in> set (download_addresses (agentSumsUrl (bo_version opts))). \<exists>archive sums.
        re_fetch env a = Inr archive \<and> re_fetch env a' = Inr sums \<and>
        expectedChecksum (utf8_text sums) (archiveName (bo_asset opts)) (agentSumsUrl (bo_version opts)) = Inr (re_sha256 env archive) \<and>
        archiveMember (re_gunzip env) archive (agentArchiveUrl (bo_version opts) (bo_asset opts)) (wanted_member opts) = Some (Inr b))"

lemma verified_vouched:
  assumes "both_downloads env opts = (Inr (archive, sums), asked)" "verified_binary env opts archive sums = Some (Inr b)"
  shows "vouched env opts b"
  using both_downloads_some [OF assms(1)] verified_digest [OF assms(2)] download_some unfolding vouched_def by blast

text \<open>C29: nothing unchecked enters the cache and no reader of it sees a part of a binary: whatever fails
  on the way, the file of the version and the platform is as it was or holds the whole of a binary
  whose archive had the digest its sums file names, and no other file than it and the temporary one
  changes; a call that succeeds gives what the cache then holds.\<close>

theorem unverified_never_cached:
  assumes "resolveAgentBinary env opts s = Some (r, s')"
  shows "(\<forall>q. q \<noteq> temp_path env opts \<longrightarrow> q \<noteq> cached_path opts \<longrightarrow> rl_files s' q = rl_files s q)
    \<and> (rl_files s' (cached_path opts) = rl_files s (cached_path opts)
       \<or> (\<exists>b. vouched env opts b \<and> rl_files s (cached_path opts) = None \<and> rl_files s' (cached_path opts) = Some b))
    \<and> (\<forall>b. r = Inr b \<longrightarrow> rl_files s' (cached_path opts) = Some b)"
proof (cases "re_fault env (Cache_Read (cached_path opts)) \<noteq> None \<or> rl_files s (cached_path opts) \<noteq> None")
  case True
  with assms show ?thesis by (auto simp: resolveAgentBinary_def split: option.splits)
next
  case False
  obtain answer asked where both: "both_downloads env opts = (answer, asked)" by fastforce
  let ?s = "s\<lparr>rl_log := rl_log s @ From_Network # map Asked asked\<rparr>"
  show ?thesis
  proof (cases "\<exists>archive sums b. answer = Inr (archive, sums) \<and> verified_binary env opts archive sums = Some (Inr b)")
    case True
    then obtain archive sums b where b: "answer = Inr (archive, sums)" "verified_binary env opts archive sums = Some (Inr b)"
      by blast
    then have "store_binary env opts b ?s = (r, s')" using assms False both by (auto simp: resolveAgentBinary_def)
    from store_binary_files [OF this] verified_vouched [of env opts archive sums asked b] b both False show ?thesis by auto
  next
    case no: False
    then have "s' = ?s \<and> (\<exists>e. r = Inl e)"
      using assms False both by (auto simp: resolveAgentBinary_def Let_def split: option.splits sum.splits prod.splits)
    then show ?thesis by auto
  qed
qed

lemma download_own: "fetch url = Inr b \<Longrightarrow> download fetch url = (Inr b, [url])"
  by (simp add: download_def download_addresses_def)

lemma download_mirror:
  "fetch url = Inl e \<Longrightarrow> fetch (hd DOWNLOAD_MIRRORS @ url) = Inr b \<Longrightarrow>
     download fetch url = (Inr b, [url, hd DOWNLOAD_MIRRORS @ url])"
  by (simp add: download_def download_addresses_def DOWNLOAD_MIRRORS_def)

definition no_faults :: "release_env \<Rightarrow> binary_options \<Rightarrow> bool" where
  "no_faults env opts \<longleftrightarrow>
     (let cached = cached_path opts; temp = temp_path env opts in
      list_all (\<lambda>c. re_fault env c = None)
        [Cache_Read cached, Cache_Mkdir (posix_dirname cached), Cache_Write temp, Cache_Rename temp cached])"

lemma resolve_downloaded:
  assumes "no_faults env opts" "rl_files s (cached_path opts) = None"
    and "both_downloads env opts = (Inr (archive, sums), asked)"
    and "verified_binary env opts archive sums = Some (Inr b)"
  shows "\<exists>s'. resolveAgentBinary env opts s = Some (Inr b, s') \<and> rl_files s' (cached_path opts) = Some b"
  using assms by (simp add: resolveAgentBinary_def no_faults_def store_binary_def Let_def)

text \<open>The digest does not hold a mirror to what the release published: where the release's own
  addresses do not answer, the mirror serves the sums as well as the archive, so whatever binary it
  puts in an archive, with a sums file of its own, is accepted, cached and installed.\<close>

theorem mirror_substitutes:
  assumes "re_fetch env (agentArchiveUrl (bo_version opts) (bo_asset opts)) = Inl e"
    and "re_fetch env (agentSumsUrl (bo_version opts)) = Inl e'"
    and "re_fetch env (hd DOWNLOAD_MIRRORS @ agentArchiveUrl (bo_version opts) (bo_asset opts)) = Inr archive"
    and "re_fetch env (hd DOWNLOAD_MIRRORS @ agentSumsUrl (bo_version opts)) =
      Inr (sums_text [(re_sha256 env archive, archiveName (bo_asset opts))])"
    and "re_gunzip env archive = Some (tar_pack [f])" "tar_ok f" "tar_holds (wanted_member opts) f"
    and "digest_ok (re_sha256 env archive)" "published_name (archiveName (bo_asset opts))"
    and "no_faults env opts" "rl_files s (cached_path opts) = None"
  shows "\<exists>s'. resolveAgentBinary env opts s = Some (Inr (tf_data f), s') \<and> rl_files s' (cached_path opts) = Some (tf_data f)"
proof -
  let ?digest = "re_sha256 env archive" and ?name = "archiveName (bo_asset opts)"
  have "archiveMember (re_gunzip env) archive url (wanted_member opts) = Some (Inr (tf_data f))" for url
    using assms(5-7) archiveMember_packed [where before = "[]" and after = "[]" and gunzip = "re_gunzip env"] by simp
  moreover have "expectedChecksum (utf8_text (sums_text [(?digest, ?name)])) ?name url = Inr ?digest" for url
    using assms(8,9) by (simp add: expectedChecksum_def sums_text_plain sums_find_entries)
  ultimately have "verified_binary env opts archive (sums_text [(?digest, ?name)]) = Some (Inr (tf_data f))"
    by (simp add: verified_binary_def Let_def wanted_member_def)
  then show ?thesis
    using resolve_downloaded [OF assms(10,11)] download_mirror [OF assms(1,3)] download_mirror [OF assms(2,4)]
    by (simp add: both_downloads_def)
qed

subsection \<open>Whether reading ends\<close>

lemma tar_record_on:
  assumes "tar_record member tar offset = Tar_On next_offset"
    and "\<forall>n. headerSize (subarray tar offset (offset + TAR_BLOCK)) = Some n \<longrightarrow> 0 \<le> n"
  shows "offset + TAR_BLOCK \<le> next_offset"
proof -
  obtain n where "headerSize (subarray tar offset (offset + TAR_BLOCK)) = Some n"
    "next_offset = offset + TAR_BLOCK + (- ((- n) div TAR_BLOCK)) * TAR_BLOCK"
    using assms(1) by (auto simp: tar_record_def Let_def split: if_splits option.splits)
  then show ?thesis using assms(2) by (auto simp: TAR_BLOCK_def)
qed

lemma tar_search_ends:
  assumes "\<forall>i \<ge> 0. \<forall>n. headerSize (subarray tar i (i + TAR_BLOCK)) = Some n \<longrightarrow> 0 \<le> n" "0 \<le> offset"
  shows "tar_search member tar offset \<noteq> None"
  using assms(2)
proof (induction "nat (int (length tar) - offset)" arbitrary: offset rule: less_induct)
  case less
  show ?case
  proof (cases "offset + TAR_BLOCK \<le> int (length tar)")
    case True
    show ?thesis
    proof (cases "tar_record member tar offset")
      case (Tar_On next_offset)
      have "offset + TAR_BLOCK \<le> next_offset" using tar_record_on [OF Tar_On] assms(1) less.prems by blast
      then have "tar_search member tar next_offset \<noteq> None"
        using less.prems True by (intro less.hyps) (auto simp: TAR_BLOCK_def)
      then show ?thesis using True Tar_On by (subst tar_search.simps) simp
    qed (use True in \<open>subst tar_search.simps, simp\<close>)+
  qed (subst tar_search.simps, simp)
qed

text \<open>Reading an archive ends, with the member or an error, when no record of it has a negative
  size.\<close>

theorem archive_read_ends:
  assumes "\<forall>tar. gunzip archive = Some tar \<longrightarrow>
    (\<forall>i \<ge> 0. \<forall>n. headerSize (subarray tar i (i + TAR_BLOCK)) = Some n \<longrightarrow> 0 \<le> n)"
  shows "\<exists>r. archiveMember gunzip archive url member = Some r"
proof (cases "gunzip archive")
  case (Some tar)
  then have "tar_search member tar 0 \<noteq> None" using assms by (intro tar_search_ends) auto
  then show ?thesis using Some by (auto simp: archiveMember_def split: option.splits)
qed (simp add: archiveMember_def)

lemma tar_search_stuck:
  assumes "tar_record member tar i = Tar_On i" "i + TAR_BLOCK \<le> int (length tar)"
  shows "tar_search member tar i = None"
proof -
  have "\<not> (member = member \<and> tar = tar \<and> i = i)" if "tar_search member tar i = Some r" for r
  proof (rule tar_search.raw_induct [of "\<lambda>m t j r. \<not> (m = member \<and> t = tar \<and> j = i)", OF _ that])
    fix search m t j r
    assume IH: "\<And>m t j r. search m t j = Some r \<Longrightarrow> \<not> (m = member \<and> t = tar \<and> j = i)"
      and "(if j + TAR_BLOCK \<le> int (length t) then case tar_record m t j of Tar_Ends \<Rightarrow> Some None
         | Tar_Found b \<Rightarrow> Some (Some b) | Tar_On k \<Rightarrow> search m t k else Some None) = Some r"
    then show "\<not> (m = member \<and> t = tar \<and> j = i)" using assms IH [of member tar i r] by auto
  qed
  then show ?thesis by (cases "tar_search member tar i") auto
qed

text \<open>An archive whose first record has a size between \<open>-1023\<close> and \<open>-512\<close>, and is not the member,
  is read for ever: the next record is the same one. The loop is synchronous, so the host does
  nothing else from then on.\<close>

theorem negative_size_never_returns:
  assumes "gunzip archive = Some tar" "512 \<le> length tar"
    and "headerSize (take 512 tar) = Some n" "- 1024 < n" "n \<le> - 512"
    and "\<not> list_all (\<lambda>c. c = nul) (take 512 tar)" "last (split_on (CHR ''/'') (headerText (take 512 tar) 0 100)) \<noteq> member"
  shows "archiveMember gunzip archive url member = None"
proof -
  have "(- n) div TAR_BLOCK = 1" using assms(4,5) by (simp add: TAR_BLOCK_def)
  moreover have "subarray tar 0 (0 + TAR_BLOCK) = take 512 tar"
    using assms(2) by (simp add: subarray_def TAR_BLOCK_def min_def)
  ultimately have "tar_record member tar 0 = Tar_On 0"
    using assms(3,6,7) by (simp add: tar_record_def Let_def)
  then have "tar_search member tar 0 = None" using assms(2) by (intro tar_search_stuck) (simp_all add: TAR_BLOCK_def)
  then show ?thesis by (simp add: archiveMember_def assms(1))
qed

subsection \<open>Instances\<close>

definition sample_file :: tar_file where
  "sample_file =
     \<lparr>tf_name = ''out/dsh-remote-agent'', tf_kind = CHR ''0'', tf_data = ''ELF'', tf_mode = replicate 24 (CHR ''0''),
      tf_sums = replicate 20 (CHR ''0''), tf_link = replicate 355 nul\<rparr>"

definition sample_digest :: string where
  "sample_digest = replicate 64 (CHR ''a'')"

definition sample_options :: binary_options where
  "sample_options = \<lparr>bo_version = ''0.0.7'', bo_asset = ''dsh-remote-agent-linux-x86_64'', bo_member = None, bo_cacheDir = ''/cache''\<rparr>"

text \<open>A network in which the release does not answer and the mirrors serve the archive and sums of their
  own; the archive is not compressed.\<close>

definition sample_release :: release_env where
  "sample_release =
     \<lparr>re_fetch = (\<lambda>a. if startsWith a DOWNLOAD_ROOT then Inl ''ETIMEDOUT''
                   else if endsWith a SUMS_FILE then Inr (sums_text [(sample_digest, archiveName (bo_asset sample_options))])
                   else Inr (tar_pack [sample_file])),
      re_gunzip = Some, re_sha256 = (\<lambda>b. sample_digest), re_sums_settle_first = False, re_fault = (\<lambda>c. None),
      re_partial = None, re_suffix = ''1.u''\<rparr>"

definition empty_cache :: release_state where
  "empty_cache = \<lparr>rl_files = (\<lambda>q. None), rl_log = []\<rparr>"

lemma sample_file_ok: "tar_ok sample_file" "tar_holds AGENT_MEMBER sample_file"
  by (simp add: tar_ok_def sample_file_def printable_def, code_simp)

lemma sample_names_ok: "digest_ok sample_digest" "published_name (archiveName (bo_asset sample_options))"
  by code_simp+

lemma sample_options_simps: "wanted_member sample_options = AGENT_MEMBER"
  by code_simp

theorem published_binary_verifies_witness:
  "verified_binary sample_release sample_options (tar_pack [sample_file])
     (sums_text [(sample_digest, archiveName (bo_asset sample_options))]) = Some (Inr ''ELF'')"
  using published_binary_verifies [of "[]" sample_options sample_file sample_release "tar_pack [sample_file]" "[]"
      "[(sample_digest, archiveName (bo_asset sample_options))]"] sample_file_ok sample_names_ok
  by (simp add: sample_options_simps) (simp add: sample_release_def sample_file_def)

lemma sample_answers:
  "re_fetch sample_release (agentArchiveUrl (bo_version sample_options) (bo_asset sample_options)) = Inl ''ETIMEDOUT''"
  "re_fetch sample_release (agentSumsUrl (bo_version sample_options)) = Inl ''ETIMEDOUT''"
  "re_fetch sample_release (hd DOWNLOAD_MIRRORS @ agentArchiveUrl (bo_version sample_options) (bo_asset sample_options)) = Inr (tar_pack [sample_file])"
  "re_fetch sample_release (hd DOWNLOAD_MIRRORS @ agentSumsUrl (bo_version sample_options)) =
     Inr (sums_text [(sample_digest, archiveName (bo_asset sample_options))])"
proof -
  have "startsWith (agentArchiveUrl v a) DOWNLOAD_ROOT" "startsWith (agentSumsUrl v) DOWNLOAD_ROOT" for v a
    by (simp_all add: startsWith_def agentArchiveUrl_def agentSumsUrl_def)
  moreover have "\<not> startsWith (hd DOWNLOAD_MIRRORS @ x) DOWNLOAD_ROOT" for x
    by (simp add: startsWith_def DOWNLOAD_MIRRORS_def DOWNLOAD_ROOT_def)
  moreover have "\<not> endsWith (hd DOWNLOAD_MIRRORS @ agentArchiveUrl (bo_version sample_options) (bo_asset sample_options)) SUMS_FILE"
    "endsWith (hd DOWNLOAD_MIRRORS @ agentSumsUrl (bo_version sample_options)) SUMS_FILE"
    by code_simp+
  ultimately show
    "re_fetch sample_release (agentArchiveUrl (bo_version sample_options) (bo_asset sample_options)) = Inl ''ETIMEDOUT''"
    "re_fetch sample_release (agentSumsUrl (bo_version sample_options)) = Inl ''ETIMEDOUT''"
    "re_fetch sample_release (hd DOWNLOAD_MIRRORS @ agentArchiveUrl (bo_version sample_options) (bo_asset sample_options)) = Inr (tar_pack [sample_file])"
    "re_fetch sample_release (hd DOWNLOAD_MIRRORS @ agentSumsUrl (bo_version sample_options)) =
       Inr (sums_text [(sample_digest, archiveName (bo_asset sample_options))])"
    by (simp_all add: sample_release_def)
qed

lemma sample_world:
  "re_gunzip sample_release b = Some b" "re_sha256 sample_release b = sample_digest"
  "no_faults sample_release sample_options" "rl_files empty_cache q = None"
  by (simp_all add: sample_release_def no_faults_def empty_cache_def Let_def)

theorem mirror_substitutes_witness:
  "\<exists>s'. resolveAgentBinary sample_release sample_options empty_cache = Some (Inr ''ELF'', s')
     \<and> rl_files s' (cached_path sample_options) = Some ''ELF''"
proof -
  have "\<exists>s'. resolveAgentBinary sample_release sample_options empty_cache = Some (Inr (tf_data sample_file), s')
     \<and> rl_files s' (cached_path sample_options) = Some (tf_data sample_file)"
    by (rule mirror_substitutes [OF sample_answers(1,2,3)])
      (simp_all add: sample_world sample_answers sample_file_ok sample_names_ok sample_options_simps)
  then show ?thesis by (simp add: sample_file_def)
qed

lemma sample_resolved:
  "\<exists>s'. resolveAgentBinary sample_release sample_options empty_cache = Some (Inr (tf_data sample_file), s')"
proof -
  have "verified_binary sample_release sample_options (tar_pack [sample_file])
      (sums_text [(sample_digest, archiveName (bo_asset sample_options))]) = Some (Inr (tf_data sample_file))"
    using sample_file_ok sample_names_ok archiveMember_packed [of "[]" AGENT_MEMBER sample_file "re_gunzip sample_release" "tar_pack [sample_file]" "[]"]
    by (simp add: verified_binary_def Let_def sample_world expectedChecksum_def sums_text_plain sums_find_entries)
       (simp add: sample_options_def)
  then show ?thesis
    using resolve_downloaded [OF sample_world(3) sample_world(4) [of "cached_path sample_options"]]
      download_mirror [OF sample_answers(1,3)] download_mirror [OF sample_answers(2,4)]
    by (fastforce simp: both_downloads_def)
qed

theorem unverified_never_cached_witness:
  "\<exists>s'. resolveAgentBinary sample_release sample_options empty_cache = Some (Inr (tf_data sample_file), s')
     \<and> rl_files s' (cached_path sample_options) = Some (tf_data sample_file)"
  using sample_resolved unverified_never_cached by blast

lemma headerText_nul: "headerText (replicate k nul) start n = []"
proof -
  have "trim [] = []" by code_simp
  then show ?thesis by (cases "start < k") (simp_all add: headerText_def index_of_nul_def Let_def)
qed

theorem archive_read_ends_witness: "\<exists>r. archiveMember (\<lambda>b. Some (replicate 1024 nul)) ''x'' ''u'' ''m'' = Some r"
proof (rule archive_read_ends, safe)
  fix i :: int and n
  assume "headerSize (subarray (replicate 1024 nul) i (i + TAR_BLOCK)) = Some n"
  moreover have "\<exists>k. subarray (replicate 1024 nul) i (i + TAR_BLOCK) = replicate k nul"
    by (auto simp: subarray_def Let_def drop_replicate take_replicate)
  ultimately show "0 \<le> n" by (auto simp: headerSize_def headerText_nul)
qed

definition stuck_header :: bytes where
  "stuck_header = ''other'' @ replicate 119 nul @ ''-1000'' @ replicate 383 nul"

theorem negative_size_never_returns_witness: "archiveMember Some stuck_header ''u'' AGENT_MEMBER = None"
proof -
  have len: "length stuck_header = 512" by code_simp
  then have all: "take 512 stuck_header = stuck_header" by simp
  have size: "headerSize stuck_header = Some (- 512)" by code_simp
  have name: "headerText stuck_header 0 100 = ''other''" by code_simp
  have "last (split_on (CHR ''/'') ''other'') \<noteq> AGENT_MEMBER" by code_simp
  moreover have "\<not> list_all (\<lambda>c. c = nul) stuck_header" by code_simp
  ultimately show ?thesis
    using negative_size_never_returns [of Some stuck_header stuck_header "- 512" AGENT_MEMBER] by (simp add: len all size name)
qed

end
