(* ===== verification/Install.thy ===== *)
theory Install
  imports Release
begin

section \<open>The agent on a machine: remote/agent/install.ts\<close>

text \<open>
  Installing, starting and reusing the agent over ssh, and installing the PTC program host. A call is
  a computation whose state is the trace of what it did: the commands it ran on the machine, with
  what they were given, the binaries it resolved and the phases it reported. The machine answers a
  command as an arbitrary function of the trace up to it, and so does the clock. JSON's reading and
  writing are parameters. Waiting for the agent to publish its state may not end: \<open>None\<close>.
\<close>

subsection \<open>Commands\<close>

definition AGENT_VERSION :: string where "AGENT_VERSION = ''0.0.7''"

definition LAUNCH_RECIPE_VERSION :: int where "LAUNCH_RECIPE_VERSION = 2"

definition DEFAULT_AGENT_START_TIMEOUT_MS :: nat where "DEFAULT_AGENT_START_TIMEOUT_MS = 10000"

definition agent_path :: "string \<Rightarrow> string" where
  "agent_path name = in_quotes (''$HOME/.dsh/remote-agent'' @ name)"

definition read_marker :: "string \<Rightarrow> string" where
  "read_marker name = ''cat '' @ agent_path name @ '' 2>/dev/null || true''"

definition READ_STATE :: string where "READ_STATE = read_marker ''/state.json''"

definition READ_INSTALLED :: string where "READ_INSTALLED = read_marker ''/installed.json''"

definition READ_LAUNCH_ENV :: string where "READ_LAUNCH_ENV = read_marker ''/launch-env.json''"

definition READ_PTC_HOST :: string where
  "READ_PTC_HOST = ''test -x '' @ agent_path ''/dsh-ptc-host'' @ '' && '' @ read_marker ''/ptc-host.json''"

definition ENSURE_DIR :: string where "ENSURE_DIR = ''mkdir -p '' @ agent_path []"

definition upload_command :: "string \<Rightarrow> string" where
  "upload_command name =
     ''cat > '' @ agent_path (name @ ''.new'') @ '' && chmod 755 '' @ agent_path (name @ ''.new'') @
     '' && mv '' @ agent_path (name @ ''.new'') @ '' '' @ agent_path name"

definition UPLOAD_BINARY :: string where "UPLOAD_BINARY = upload_command ''/dsh-remote-agent''"

definition WRITE_INSTALLED :: string where "WRITE_INSTALLED = ''cat > '' @ agent_path ''/installed.json''"

definition WRITE_TOKEN :: string where
  "WRITE_TOKEN = ''cat > '' @ agent_path ''/token'' @ '' && chmod 600 '' @ agent_path ''/token''"

definition WRITE_LAUNCH_ENV :: string where "WRITE_LAUNCH_ENV = ''cat > '' @ agent_path ''/launch-env.json''"

definition UPLOAD_PTC_HOST :: string where "UPLOAD_PTC_HOST = upload_command ''/dsh-ptc-host''"

definition WRITE_PTC_HOST :: string where "WRITE_PTC_HOST = ''cat > '' @ agent_path ''/ptc-host.json''"

definition READ_PLATFORM :: string where "READ_PLATFORM = ''uname -s; uname -m''"

definition in_single :: "string \<Rightarrow> string" where
  "in_single s = [CHR 0x27] @ s @ [CHR 0x27]"

definition AGENT_UNDER_LOGIN_SHELL :: string where
  "AGENT_UNDER_LOGIN_SHELL =
     in_single ''exec ./dsh-remote-agent --listen 127.0.0.1:0 --token-file token --state-file state.json''"

definition shQuote :: "string \<Rightarrow> string" where
  "shQuote v = in_single (concat (map (\<lambda>c. if c = CHR 0x27 then [CHR 0x27, CHR 0x5C, CHR 0x27, CHR 0x27] else [c]) v))"

definition startAgentCommand :: "string option \<Rightarrow> string" where
  "startAgentCommand loginShell =
     (let seed = (case loginShell of None \<Rightarrow> in_quotes ''$SHELL'' | Some sh \<Rightarrow> shQuote sh);
          shell = in_quotes ''$agent_shell'';
          unless = '' if [ ! -x '' @ shell @ '' ]; then agent_shell='';
          whoami = ''$(id -un)'';
          launch = shell @ '' -ilc '' @ AGENT_UNDER_LOGIN_SHELL @ '' >>agent.log 2>&1 </dev/null &''
      in ''cd '' @ agent_path [] @ '' && {'' @
         '' agent_shell='' @ seed @ '';'' @
         unless @ in_quotes (''$(getent passwd '' @ in_quotes whoami @ '' 2>/dev/null | cut -d: -f7)'') @ ''; fi;'' @
         unless @ in_quotes (''$(dscl . -read '' @ in_quotes (''/Users/'' @ whoami) @ '' UserShell 2>/dev/null | awk '' @
                             in_single ''NR==1 {print $2}'' @ '')'') @ ''; fi;'' @
         unless @ in_quotes ''$(command -v bash)'' @ ''; fi;'' @
         unless @ in_quotes ''$(command -v sh)'' @ ''; fi;'' @
         '' if command -v setsid >/dev/null 2>&1; then setsid nohup '' @ launch @
         '' else nohup '' @ launch @ '' fi;'' @
         '' }; exit 0'')"

subsection \<open>The environment and one command\<close>

datatype binary_source = Cache_Source | Network_Source

datatype install_phase =
    Checking
  | Reusing
  | Fetching string "binary_source option"
  | Uploading
  | Starting

datatype install_event =
    Ran string "string option"
  | Resolving binary_options
  | Reported install_phase

text \<open>Resolving a binary says where the bytes come from once it has found out.\<close>

record install_env =
  ie_run :: "install_event list \<Rightarrow> string + ssh_result"
  ie_resolve :: "install_event list \<Rightarrow> binary_source option \<times> (string + bytes)"
  ie_clock :: "install_event list \<Rightarrow> nat"
  ie_parse :: "string \<Rightarrow> json option"
  ie_stringify :: "json \<Rightarrow> string"

record ensure_options =
  eo_target :: string
  eo_token :: string
  eo_version :: string
  eo_cacheDir :: string
  eo_loginShell :: "string option"
  eo_startTimeoutMs :: "nat option"

record agent_endpoint =
  ae_port :: js_number
  ae_version :: string
  ae_reused :: bool

type_synonym 'a install = "(install_event list, string, 'a) comp"

definition run_remote :: "install_env \<Rightarrow> string \<Rightarrow> string option \<Rightarrow> ssh_result install" where
  "run_remote env command given = (\<lambda>tr. let tr' = tr @ [Ran command given] in (ie_run env tr', tr'))"

definition report :: "install_phase \<Rightarrow> unit install" where
  "report phase = (\<lambda>tr. (Inr (), tr @ [Reported phase]))"

definition resolve_binary :: "install_env \<Rightarrow> binary_options \<Rightarrow> (binary_source \<Rightarrow> install_phase option) \<Rightarrow> bytes install" where
  "resolve_binary env opts onSource = (\<lambda>tr.
     (let tr' = tr @ [Resolving opts]; (source, answer) = ie_resolve env tr' in
      (answer, tr' @ (case source of None \<Rightarrow> [] | Some src \<Rightarrow> (case onSource src of None \<Rightarrow> [] | Some p \<Rightarrow> [Reported p])))))"

definition runChecked :: "install_env \<Rightarrow> string \<Rightarrow> string \<Rightarrow> string \<Rightarrow> string option \<Rightarrow> unit install" where
  "runChecked env target command fallback given =
     wbind (run_remote env command given) (\<lambda>r.
       if sr_code r \<noteq> 0 then wfail (sshFailure target (sr_stderr r) fallback) else wret ())"

subsection \<open>What the machine reports\<close>

record agent_state =
  ag_pid :: js_number
  ag_port :: js_number
  ag_version :: string

text \<open>\<open>Number.isInteger(n) && n > 0\<close>: of the numbers kept as text, the integers are the ones written
  with a positive exponent.\<close>

definition positive_integer :: "js_number \<Rightarrow> bool" where
  "positive_integer n =
     (case n of Whole i \<Rightarrow> 0 < i | Fraction s \<Rightarrow> sublist ''e+'' s \<and> \<not> startsWith s ''-'')"

definition parseState :: "(string \<Rightarrow> json option) \<Rightarrow> string \<Rightarrow> agent_state option" where
  "parseState parse stdout =
     (case parse stdout of
        None \<Rightarrow> None
      | Some v \<Rightarrow>
          (case (jnumber (jfield v ''pid''), jnumber (jfield v ''port''), jstring (jfield v ''version'')) of
             (Some pid, Some port, Some version) \<Rightarrow>
               if version \<noteq> [] \<and> positive_integer port \<and> positive_integer pid
               then Some \<lparr>ag_pid = pid, ag_port = port, ag_version = version\<rparr> else None
           | _ \<Rightarrow> None))"

definition readState :: "install_env \<Rightarrow> agent_state option install" where
  "readState env = wbind (run_remote env READ_STATE None) (\<lambda>r. wret (parseState (ie_parse env) (sr_stdout r)))"

definition remoteAssetName :: "install_env \<Rightarrow> string \<Rightarrow> (string \<Rightarrow> string \<Rightarrow> string + string) \<Rightarrow> string install" where
  "remoteAssetName env target asset_name =
     wbind (run_remote env READ_PLATFORM None) (\<lambda>r.
       if sr_code r \<noteq> 0 then wfail (sshFailure target (sr_stderr r) (''could not read the platform of '' @ in_quotes target))
       else
         (let rows = split_on (CHR 0x0A) (sr_stdout r);
              platform = trim (hd rows); arch = (if length rows < 2 then [] else trim (rows ! 1))
          in case asset_name platform arch of Inl e \<Rightarrow> wfail e | Inr a \<Rightarrow> wret a))"

definition markerVersion :: "(string \<Rightarrow> json option) \<Rightarrow> string \<Rightarrow> string option" where
  "markerVersion parse stdout = (case parse stdout of None \<Rightarrow> None | Some v \<Rightarrow> jstring (jfield v ''version''))"

definition installedVersion :: "install_env \<Rightarrow> string option install" where
  "installedVersion env =
     wbind (run_remote env READ_INSTALLED None) (\<lambda>r.
       wret (if sr_code r = 0 then markerVersion (ie_parse env) (sr_stdout r) else None))"

definition isAlive :: "install_env \<Rightarrow> js_number \<Rightarrow> bool install" where
  "isAlive env pid =
     wcatch (wbind (run_remote env (''kill -0 '' @ js_number_text pid) None) (\<lambda>r. wret (sr_code r = 0)))
       (\<lambda>e. wret False)"

definition launchRecipeMatches :: "install_env \<Rightarrow> bool install" where
  "launchRecipeMatches env =
     wbind (run_remote env READ_LAUNCH_ENV None) (\<lambda>r.
       wret (sr_code r = 0 \<and>
             (case ie_parse env (sr_stdout r) of
                None \<Rightarrow> False | Some v \<Rightarrow> jnumber (jfield v ''recipe'') = Some (Whole LAUNCH_RECIPE_VERSION))))"

subsection \<open>Ensuring the agent\<close>

definition failed_on :: "ensure_options \<Rightarrow> string \<Rightarrow> string" where
  "failed_on opts what = what @ '' on '' @ in_quotes (eo_target opts)"

definition version_json :: "install_env \<Rightarrow> string \<Rightarrow> string" where
  "version_json env version = ie_stringify env (JObj [(''version'', JStr version)])"

text \<open>The binary of the version, unless the machine's marker says it has it.\<close>

definition installBinary :: "install_env \<Rightarrow> ensure_options \<Rightarrow> string \<Rightarrow> unit install" where
  "installBinary env opts asset =
     wbind (installedVersion env) (\<lambda>installed.
       if installed = Some (eo_version opts) then wret ()
       else
         wbind (report (Fetching asset None)) (\<lambda>_.
         wbind (resolve_binary env
                  \<lparr>bo_version = eo_version opts, bo_asset = asset, bo_member = None, bo_cacheDir = eo_cacheDir opts\<rparr>
                  (\<lambda>src. Some (Fetching asset (Some src)))) (\<lambda>binary.
         wbind (report Uploading) (\<lambda>_.
         wbind (runChecked env (eo_target opts) UPLOAD_BINARY
                  (failed_on opts ''could not install the agent binary'') (Some binary)) (\<lambda>_.
         runChecked env (eo_target opts) WRITE_INSTALLED
           (failed_on opts ''could not record the installed agent version'')
           (Some (version_json env (eo_version opts))))))))"

text \<open>The process being replaced is killed, as far as it can be.\<close>

definition stopAgent :: "install_env \<Rightarrow> agent_state option \<Rightarrow> bool \<Rightarrow> unit install" where
  "stopAgent env state alive =
     (case state of
        None \<Rightarrow> wret ()
      | Some a \<Rightarrow>
          if alive
          then wcatch (wbind (run_remote env (''kill '' @ js_number_text (ag_pid a)) None) (\<lambda>_. wret ())) (\<lambda>e. wret ())
          else wret ())"

text \<open>The replacement up to the start; it gives the process id that is being replaced.\<close>

definition replaceAgent :: "install_env \<Rightarrow> ensure_options \<Rightarrow> string \<Rightarrow> agent_state option \<Rightarrow> bool \<Rightarrow> js_number option install" where
  "replaceAgent env opts asset state alive =
     wbind (runChecked env (eo_target opts) ENSURE_DIR (failed_on opts ''could not create ~/.dsh/remote-agent'') None) (\<lambda>_.
     wbind (installBinary env opts asset) (\<lambda>_.
     wbind (runChecked env (eo_target opts) WRITE_TOKEN (failed_on opts ''could not write the agent token'') (Some (eo_token opts))) (\<lambda>_.
     wbind (stopAgent env state alive) (\<lambda>_.
     wbind (report Starting) (\<lambda>_.
     wbind (runChecked env (eo_target opts) (startAgentCommand (eo_loginShell opts)) (failed_on opts ''could not start the agent'') None) (\<lambda>_.
     wret (map_option ag_pid state)))))))"

text \<open>The checks: the asset, the published state, whether its process lives, and whether it can be
  reused.\<close>

definition checkAgent :: "install_env \<Rightarrow> ensure_options \<Rightarrow> (string \<times> agent_state option \<times> bool \<times> bool) install" where
  "checkAgent env opts =
     wbind (report Checking) (\<lambda>_.
     wbind (remoteAssetName env (eo_target opts) agentAssetName) (\<lambda>asset.
     wbind (readState env) (\<lambda>state.
     wbind (case state of None \<Rightarrow> wret False | Some a \<Rightarrow> isAlive env (ag_pid a)) (\<lambda>alive.
     wbind (case state of
              None \<Rightarrow> wret False
            | Some a \<Rightarrow> if alive \<and> ag_version a = eo_version opts then launchRecipeMatches env else wret False) (\<lambda>reusable.
     wret (asset, state, alive, reusable))))))"

definition prepareAgent :: "install_env \<Rightarrow> ensure_options \<Rightarrow> (agent_endpoint + js_number option) install" where
  "prepareAgent env opts =
     wbind (checkAgent env opts) (\<lambda>(asset, state, alive, reusable).
       if reusable
       then wbind (report Reusing) (\<lambda>_.
              wret (Inl \<lparr>ae_port = ag_port (the state), ae_version = eo_version opts, ae_reused = True\<rparr>))
       else wbind (replaceAgent env opts asset state alive) (\<lambda>pid. wret (Inr pid)))"

text \<open>One round of the wait: the agent's publication, recorded; the deadline; or another round.\<close>

definition published_state :: "install_env \<Rightarrow> agent_state option install" where
  "published_state env = wcatch (readState env) (\<lambda>e. wret None)"

definition is_published :: "ensure_options \<Rightarrow> js_number option \<Rightarrow> agent_state option \<Rightarrow> bool" where
  "is_published opts replacedPid state =
     (case state of None \<Rightarrow> False | Some a \<Rightarrow> ag_version a = eo_version opts \<and> Some (ag_pid a) \<noteq> replacedPid)"

definition record_launch :: "install_env \<Rightarrow> ensure_options \<Rightarrow> agent_state \<Rightarrow> agent_endpoint install" where
  "record_launch env opts a =
     wbind (runChecked env (eo_target opts) WRITE_LAUNCH_ENV (failed_on opts ''could not record the agent launch recipe'')
              (Some (ie_stringify env (JObj [(''recipe'', JNum (Whole LAUNCH_RECIPE_VERSION))])))) (\<lambda>_.
     wret \<lparr>ae_port = ag_port a, ae_version = eo_version opts, ae_reused = False\<rparr>)"

definition start_budget :: "ensure_options \<Rightarrow> nat" where
  "start_budget opts = (case eo_startTimeoutMs opts of None \<Rightarrow> DEFAULT_AGENT_START_TIMEOUT_MS | Some ms \<Rightarrow> ms)"

partial_function (option) wait_published ::
  "install_env \<Rightarrow> ensure_options \<Rightarrow> js_number option \<Rightarrow> nat \<Rightarrow> install_event list \<Rightarrow>
     ((string + agent_endpoint) \<times> install_event list) option" where
  "wait_published env opts replacedPid deadline tr =
     (let (answer, tr') = published_state env tr;
          state = (case answer of Inl e \<Rightarrow> None | Inr st \<Rightarrow> st)
      in if is_published opts replacedPid state then Some (record_launch env opts (the state) tr')
         else if deadline \<le> ie_clock env tr'
         then Some (Inl (''the agent on '' @ in_quotes (eo_target opts) @ '' did not publish a port within '' @
                         str_nat (start_budget opts) @ ''ms; check ~/.dsh/remote-agent/agent.log on the machine''), tr')
         else wait_published env opts replacedPid deadline tr')"

declare wait_published.simps [code, simp del]

definition ensureAgent ::
  "install_env \<Rightarrow> ensure_options \<Rightarrow> install_event list \<Rightarrow> ((string + agent_endpoint) \<times> install_event list) option" where
  "ensureAgent env opts tr =
     (case prepareAgent env opts tr of
        (Inl e, tr') \<Rightarrow> Some (Inl e, tr')
      | (Inr (Inl reused), tr') \<Rightarrow> Some (Inr reused, tr')
      | (Inr (Inr replacedPid), tr') \<Rightarrow>
          wait_published env opts replacedPid (ie_clock env tr' + start_budget opts) tr')"

subsection \<open>Ensuring the PTC program host\<close>

definition ensurePtcHost :: "install_env \<Rightarrow> ensure_options \<Rightarrow> unit install" where
  "ensurePtcHost env opts =
     wbind (run_remote env READ_PTC_HOST None) (\<lambda>installed.
       if sr_code installed = 0 \<and> markerVersion (ie_parse env) (sr_stdout installed) = Some (eo_version opts) then wret ()
       else
         wbind (remoteAssetName env (eo_target opts) ptcHostAssetName) (\<lambda>asset.
         wbind (resolve_binary env
                  \<lparr>bo_version = eo_version opts, bo_asset = asset, bo_member = Some PTC_HOST_MEMBER, bo_cacheDir = eo_cacheDir opts\<rparr>
                  (\<lambda>src. None)) (\<lambda>binary.
         wbind (runChecked env (eo_target opts) ENSURE_DIR (failed_on opts ''could not create ~/.dsh/remote-agent'') None) (\<lambda>_.
         wbind (runChecked env (eo_target opts) UPLOAD_PTC_HOST (failed_on opts ''could not install the PTC program host'') (Some binary)) (\<lambda>_.
         runChecked env (eo_target opts) WRITE_PTC_HOST (failed_on opts ''could not record the installed PTC program host'')
           (Some (version_json env (eo_version opts))))))))"

end
