(* ===== verification/Install_Properties.thy ===== *)
theory Install_Properties
  imports Install
begin

section \<open>The agent on a machine: what an install leaves behind\<close>

text \<open>
  The order of the commands of an install; a marker is written only after a successful upload,
  whatever fails, by the closure of that relation under the combinators; what a reuse skips; when
  waiting for the agent ends; and the quoting of a shell word.
\<close>

subsection \<open>A marker follows its upload\<close>

definition marked_after :: "install_env \<Rightarrow> string \<Rightarrow> string \<Rightarrow> install_event list \<Rightarrow> install_event list \<Rightarrow> bool" where
  "marked_after env upload marker tr tr' \<longleftrightarrow>
     (\<exists>ev. tr' = tr @ ev \<and>
        (\<forall>a g b. ev = a @ Ran marker g # b \<longrightarrow>
           (\<exists>a' bin res. a = a' @ [Ran upload (Some bin)] \<and> ie_run env (tr @ a) = Inr res \<and> sr_code res = 0)))"

lemma marked_after_refl: "marked_after env upload marker tr tr"
  by (simp add: marked_after_def)

lemma marked_after_trans:
  assumes "marked_after env upload marker t u" "marked_after env upload marker u v"
  shows "marked_after env upload marker t v"
proof -
  obtain ev1 where u: "u = t @ ev1"
    and m1: "\<And>a g b. ev1 = a @ Ran marker g # b \<Longrightarrow>
      \<exists>a' bin res. a = a' @ [Ran upload (Some bin)] \<and> ie_run env (t @ a) = Inr res \<and> sr_code res = 0"
    using assms(1) unfolding marked_after_def by blast
  obtain ev2 where v: "v = u @ ev2"
    and m2: "\<And>a g b. ev2 = a @ Ran marker g # b \<Longrightarrow>
      \<exists>a' bin res. a = a' @ [Ran upload (Some bin)] \<and> ie_run env (u @ a) = Inr res \<and> sr_code res = 0"
    using assms(2) unfolding marked_after_def by blast
  have "\<exists>a' bin res. a = a' @ [Ran upload (Some bin)] \<and> ie_run env (t @ a) = Inr res \<and> sr_code res = 0"
    if eq: "ev1 @ ev2 = a @ Ran marker g # b" for a g b
  proof (cases "length a < length ev1")
    case True
    then obtain c where "ev1 = a @ Ran marker g # c"
      using eq by (auto simp: append_eq_append_conv2 append_eq_Cons_conv)
    then show ?thesis by (rule m1)
  next
    case False
    then obtain c where c: "a = ev1 @ c" "ev2 = c @ Ran marker g # b"
      using eq by (auto simp: append_eq_append_conv2 append_eq_Cons_conv)
    then show ?thesis using m2 [OF c(2)] u by auto
  qed
  then show ?thesis unfolding marked_after_def using u v by auto
qed

interpretation marks: step_relation "marked_after env upload marker" for env upload marker
  by unfold_locales (rule marked_after_refl, erule (1) marked_after_trans)

named_theorems not_marker \<open>commands that are not a marker\<close>

lemma marker_commands [not_marker]:
  "READ_PLATFORM \<noteq> WRITE_INSTALLED" "READ_STATE \<noteq> WRITE_INSTALLED" "READ_INSTALLED \<noteq> WRITE_INSTALLED"
  "READ_LAUNCH_ENV \<noteq> WRITE_INSTALLED" "ENSURE_DIR \<noteq> WRITE_INSTALLED" "UPLOAD_BINARY \<noteq> WRITE_INSTALLED"
  "WRITE_TOKEN \<noteq> WRITE_INSTALLED" "WRITE_LAUNCH_ENV \<noteq> WRITE_INSTALLED"
  by code_simp+

lemma marker_processes [not_marker]:
  "''kill -0 '' @ p \<noteq> WRITE_INSTALLED" "''kill '' @ p \<noteq> WRITE_INSTALLED" "startAgentCommand sh \<noteq> WRITE_INSTALLED"
  by (simp_all add: WRITE_INSTALLED_def startAgentCommand_def Let_def)

lemma marks_run: "command \<noteq> marker \<Longrightarrow> preserves (marked_after env upload marker) (run_remote env command given)"
  by (auto simp: preserves_def run_remote_def marked_after_def Let_def append_eq_Cons_conv Cons_eq_append_conv)

lemma marks_report: "preserves (marked_after env upload marker) (report phase)"
  by (auto simp: preserves_def report_def marked_after_def Cons_eq_append_conv)

lemma marks_resolve: "preserves (marked_after env upload marker) (resolve_binary env opts onSource)"
  by (auto simp: preserves_def resolve_binary_def marked_after_def Let_def Cons_eq_append_conv split: prod.splits option.splits)

lemma marks_checked:
  "command \<noteq> marker \<Longrightarrow> preserves (marked_after env upload marker) (runChecked env target command fallback given)"
  unfolding runChecked_def by (intro marks.keeps_intros comp_intros marks_run)

lemma marks_upload:
  assumes "upload \<noteq> marker"
  shows "preserves (marked_after env upload marker)
    (wbind (runChecked env target upload fallback (Some bin)) (\<lambda>_. runChecked env target marker fallback' given))"
  unfolding preserves_def
proof
  fix tr
  show "marked_after env upload marker tr
    (snd (wbind (runChecked env target upload fallback (Some bin)) (\<lambda>_. runChecked env target marker fallback' given) tr))"
  proof (cases "\<exists>res. ie_run env (tr @ [Ran upload (Some bin)]) = Inr res \<and> sr_code res = 0")
    case True
    then have "snd (wbind (runChecked env target upload fallback (Some bin)) (\<lambda>_. runChecked env target marker fallback' given) tr)
        = tr @ [Ran upload (Some bin), Ran marker given]"
      by (auto simp: runChecked_def wbind_def run_remote_def wret_def wfail_def Let_def split: sum.splits)
    with True assms show ?thesis by (auto simp: marked_after_def Cons_eq_append_conv)
  next
    case False
    then have "snd (wbind (runChecked env target upload fallback (Some bin)) (\<lambda>_. runChecked env target marker fallback' given) tr)
        = tr @ [Ran upload (Some bin)]"
      by (auto simp: runChecked_def wbind_def run_remote_def wret_def wfail_def Let_def split: sum.splits)
    with assms show ?thesis by (auto simp: marked_after_def Cons_eq_append_conv)
  qed
qed

lemmas marks_rules = marks.keeps_intros comp_intros marks_run marks_report marks_resolve marks_checked marks_upload not_marker

lemma marks_install: "preserves (marked_after env UPLOAD_BINARY WRITE_INSTALLED) (installBinary env opts asset)"
  unfolding installBinary_def installedVersion_def by (intro marks_rules)

lemma marks_replace: "preserves (marked_after env UPLOAD_BINARY WRITE_INSTALLED) (replaceAgent env opts asset state alive)"
  unfolding replaceAgent_def stopAgent_def by (intro marks_install marks_rules)

lemma marks_read: "preserves (marked_after env UPLOAD_BINARY WRITE_INSTALLED) (readState env)"
  unfolding readState_def by (intro marks_rules)

lemma marks_check: "preserves (marked_after env UPLOAD_BINARY WRITE_INSTALLED) (checkAgent env opts)"
  unfolding checkAgent_def remoteAssetName_def isAlive_def launchRecipeMatches_def Let_def
  by (intro marks_read marks_rules)

lemma marks_prepare: "preserves (marked_after env UPLOAD_BINARY WRITE_INSTALLED) (prepareAgent env opts)"
proof -
  have "preserves (marked_after env UPLOAD_BINARY WRITE_INSTALLED)
    ((\<lambda>(asset, state, alive, reusable). if reusable
       then wbind (report Reusing) (\<lambda>_. wret (Inl \<lparr>ae_port = ag_port (the state), ae_version = eo_version opts, ae_reused = True\<rparr>))
       else wbind (replaceAgent env opts asset state alive) (\<lambda>pid. wret (Inr pid))) x)" for x
    by (cases x) (auto intro!: marks_replace marks_report marks.keeps_intros)
  then show ?thesis unfolding prepareAgent_def by (intro marks.keeps_wbind marks_check)
qed

lemma marks_record: "preserves (marked_after env UPLOAD_BINARY WRITE_INSTALLED) (record_launch env opts a)"
  unfolding record_launch_def by (intro marks_rules)

lemma marks_published: "preserves (marked_after env UPLOAD_BINARY WRITE_INSTALLED) (published_state env)"
  unfolding published_state_def by (intro marks_read marks_rules)

lemma marks_wait:
  assumes "wait_published env opts pid deadline tr = Some (r, tr')"
  shows "marked_after env UPLOAD_BINARY WRITE_INSTALLED tr tr'"
proof -
  let ?P = "\<lambda>env opts pid deadline tr (p :: (string + agent_endpoint) \<times> install_event list).
    marked_after env UPLOAD_BINARY WRITE_INSTALLED tr (snd p)"
  have "?P env opts pid deadline tr (r, tr')"
  proof (rule wait_published.raw_induct [of ?P, OF _ assms])
    fix wait env opts pid deadline tr and p :: "(string + agent_endpoint) \<times> install_event list"
    assume IH: "\<And>env opts pid deadline tr p. wait env opts pid deadline tr = Some p \<Longrightarrow> ?P env opts pid deadline tr p"
      and body: "(let (answer, tr') = published_state env tr; state = (case answer of Inl e \<Rightarrow> None | Inr st \<Rightarrow> st)
        in if is_published opts pid state then Some (record_launch env opts (the state) tr')
           else if deadline \<le> ie_clock env tr'
           then Some (Inl (''the agent on '' @ in_quotes (eo_target opts) @ '' did not publish a port within '' @
                           str_nat (start_budget opts) @ ''ms; check ~/.dsh/remote-agent/agent.log on the machine''), tr')
           else wait env opts pid deadline tr') = Some p"
    obtain answer u where u: "published_state env tr = (answer, u)" by fastforce
    then have first: "marked_after env UPLOAD_BINARY WRITE_INSTALLED tr u" by (rule preservesD [OF marks_published])
    have "marked_after env UPLOAD_BINARY WRITE_INSTALLED u (snd p)"
      using body u IH [of env opts pid deadline u p] marks_record marked_after_refl
      by (auto simp: Let_def preserves_def split: if_splits)
    with first show "?P env opts pid deadline tr p" by (rule marked_after_trans)
  qed
  then show ?thesis by simp
qed


subsection \<open>Reuse\<close>

lemma wbind_Inr: "wbind m f s = (Inr y, s') \<longleftrightarrow> (\<exists>x t. m s = (Inr x, t) \<and> f x t = (Inr y, s'))"
  by (auto simp: wbind_def split: prod.splits sum.splits)

lemma record_not_reused: "record_launch env opts a tr = (Inr e, tr') \<Longrightarrow> \<not> ae_reused e"
  by (auto simp: record_launch_def wbind_Inr wret_def)

lemma wait_not_reused:
  assumes "wait_published env opts pid deadline tr = Some (Inr e, tr')"
  shows "\<not> ae_reused e"
proof -
  let ?P = "\<lambda>env opts pid deadline tr (p :: (string + agent_endpoint) \<times> install_event list).
    \<forall>e. fst p = Inr e \<longrightarrow> \<not> ae_reused e"
  have "?P env opts pid deadline tr (Inr e, tr')"
  proof (rule wait_published.raw_induct [of ?P, OF _ assms])
    fix wait env opts pid deadline tr and p :: "(string + agent_endpoint) \<times> install_event list"
    assume IH: "\<And>env opts pid deadline tr p. wait env opts pid deadline tr = Some p \<Longrightarrow> ?P env opts pid deadline tr p"
      and body: "(let (answer, tr') = published_state env tr; state = (case answer of Inl e \<Rightarrow> None | Inr st \<Rightarrow> st)
        in if is_published opts pid state then Some (record_launch env opts (the state) tr')
           else if deadline \<le> ie_clock env tr'
           then Some (Inl (''the agent on '' @ in_quotes (eo_target opts) @ '' did not publish a port within '' @
                           str_nat (start_budget opts) @ ''ms; check ~/.dsh/remote-agent/agent.log on the machine''), tr')
           else wait env opts pid deadline tr') = Some p"
    obtain answer u where u: "published_state env tr = (answer, u)" by fastforce
    show "?P env opts pid deadline tr p"
      using body u IH [of env opts pid deadline u p] record_not_reused [of env opts]
      by (cases p) (auto simp: Let_def split: if_splits)
  qed
  then show ?thesis by simp
qed

lemma checkAgent_token: "checkAgent env (opts\<lparr>eo_token := t\<rparr>) = checkAgent env opts"
  by (simp add: checkAgent_def cong: option.case_cong)

lemma reused_from:
  assumes "ensureAgent env opts tr = Some (Inr e, tr')" "ae_reused e"
  obtains asset state alive u where "checkAgent env opts tr = (Inr (asset, state, alive, True), u)"
    and "tr' = u @ [Reported Reusing]" "e = \<lparr>ae_port = ag_port (the state), ae_version = eo_version opts, ae_reused = True\<rparr>"
proof -
  obtain q u where q: "prepareAgent env opts tr = (q, u)" by fastforce
  then have "q = Inr (Inl e) \<and> u = tr'"
    using assms wait_not_reused by (auto simp: ensureAgent_def split: sum.splits)
  with q that show thesis
    by (auto simp: prepareAgent_def wbind_Inr report_def wret_def split: if_splits)
qed

lemma reuse_any_token:
  assumes "checkAgent env opts tr = (Inr (asset, state, alive, True), u)"
  shows "ensureAgent env (opts\<lparr>eo_token := t\<rparr>) tr =
    Some (Inr \<lparr>ae_port = ag_port (the state), ae_version = eo_version opts, ae_reused = True\<rparr>, u @ [Reported Reusing])"
  using assms by (simp add: ensureAgent_def prepareAgent_def checkAgent_token wbind_def report_def wret_def)

definition no_token :: "install_event list \<Rightarrow> install_event list \<Rightarrow> bool" where
  "no_token tr tr' \<longleftrightarrow> (\<exists>ev. tr' = tr @ ev \<and> (\<forall>g. Ran WRITE_TOKEN g \<notin> set ev))"

interpretation tokens: step_relation no_token
  by unfold_locales (auto simp: no_token_def)

lemma tokens_run: "command \<noteq> WRITE_TOKEN \<Longrightarrow> preserves no_token (run_remote env command given)"
  by (auto simp: preserves_def run_remote_def no_token_def Let_def)

lemma tokens_report: "preserves no_token (report phase)"
  by (auto simp: preserves_def report_def no_token_def)

lemma not_token_commands:
  "READ_PLATFORM \<noteq> WRITE_TOKEN" "READ_STATE \<noteq> WRITE_TOKEN" "READ_LAUNCH_ENV \<noteq> WRITE_TOKEN"
  by code_simp+

lemma kill_not_token: "''kill -0 '' @ p \<noteq> WRITE_TOKEN"
  by (simp add: WRITE_TOKEN_def)

lemma tokens_check: "preserves no_token (checkAgent env opts)"
  unfolding checkAgent_def remoteAssetName_def readState_def isAlive_def launchRecipeMatches_def Let_def
  by (intro tokens.keeps_intros comp_intros tokens_run tokens_report not_token_commands kill_not_token)

text \<open>Rotating the token in the plugin does not rotate it on a machine whose agent is reused: such a
  call runs no command that writes the token, and does the same, with the same endpoint, for every
  token the plugin has.\<close>

theorem reuse_ignores_token:
  assumes "ensureAgent env opts tr = Some (Inr e, tr')" "ae_reused e"
  shows "ensureAgent env (opts\<lparr>eo_token := t\<rparr>) tr = Some (Inr e, tr') \<and> Ran WRITE_TOKEN g \<notin> set (drop (length tr) tr')"
proof -
  obtain asset state alive u where u: "checkAgent env opts tr = (Inr (asset, state, alive, True), u)"
    "tr' = u @ [Reported Reusing]" "e = \<lparr>ae_port = ag_port (the state), ae_version = eo_version opts, ae_reused = True\<rparr>"
    using assms by (rule reused_from)
  have "no_token tr u" by (rule preservesD [OF tokens_check u(1)])
  then show ?thesis using u reuse_any_token [OF u(1), of t] by (auto simp: no_token_def)
qed

subsection \<open>The wait ends\<close>

lemma readState_one:
  obtains answer where "published_state env tr = (Inr answer, tr @ [Ran READ_STATE None])"
  by (cases "ie_run env (tr @ [Ran READ_STATE None])")
    (auto simp: published_state_def readState_def wcatch_def wbind_def run_remote_def wret_def Let_def)

lemma wait_round:
  assumes "published_state env tr = (Inr state, tr')"
  shows "wait_published env opts pid deadline tr =
    (if is_published opts pid state then Some (record_launch env opts (the state) tr')
     else if deadline \<le> ie_clock env tr'
     then Some (Inl (''the agent on '' @ in_quotes (eo_target opts) @ '' did not publish a port within '' @
                     str_nat (start_budget opts) @ ''ms; check ~/.dsh/remote-agent/agent.log on the machine''), tr')
     else wait_published env opts pid deadline tr')"
  by (subst wait_published.simps) (simp add: assms)

lemma wait_ends:
  assumes "\<forall>tr e. ie_clock env tr < ie_clock env (tr @ [e])"
  shows "\<exists>p. wait_published env opts pid deadline tr = Some p"
proof (induction "deadline - ie_clock env tr" arbitrary: tr rule: less_induct)
  case less
  obtain state where state: "published_state env tr = (Inr state, tr @ [Ran READ_STATE None])" by (rule readState_one)
  let ?u = "tr @ [Ran READ_STATE None]"
  have "ie_clock env tr < ie_clock env ?u" using assms by blast
  then have "\<exists>p. wait_published env opts pid deadline ?u = Some p" if "\<not> deadline \<le> ie_clock env ?u"
    using that less by simp
  then show ?case unfolding wait_round [OF state] by auto
qed


subsection \<open>The commands of a replacement\<close>

fun runs :: "install_event list \<Rightarrow> (string \<times> string option) list" where
  "runs [] = []"
| "runs (Ran c g # tr) = (c, g) # runs tr"
| "runs (Resolving opts # tr) = runs tr"
| "runs (Reported p # tr) = runs tr"

lemma runs_append [simp]: "runs (tr @ tr') = runs tr @ runs tr'"
  by (induction tr rule: runs.induct) auto

named_theorems runs_rules \<open>the commands a computation ran\<close>

lemma run_remote_runs [runs_rules]: "run_remote env c g tr = (r, tr') \<Longrightarrow> runs tr' = runs tr @ [(c, g)]"
  by (auto simp: run_remote_def Let_def)

lemma report_runs [runs_rules]: "report p tr = (r, tr') \<Longrightarrow> runs tr' = runs tr"
  by (auto simp: report_def)

lemma resolve_runs [runs_rules]: "resolve_binary env opts f tr = (r, tr') \<Longrightarrow> runs tr' = runs tr"
  by (auto simp: resolve_binary_def Let_def split: prod.splits option.splits)

lemma checked_runs [runs_rules]: "runChecked env target c fallback g tr = (Inr u, tr') \<Longrightarrow> runs tr' = runs tr @ [(c, g)]"
  by (auto simp: runChecked_def wbind_Inr wret_def wfail_def split: if_splits dest!: run_remote_runs)

lemma readState_runs [runs_rules]: "readState env tr = (Inr x, tr') \<Longrightarrow> runs tr' = runs tr @ [(READ_STATE, None)]"
  by (auto simp: readState_def wbind_Inr wret_def dest!: run_remote_runs)

lemma asset_runs [runs_rules]: "remoteAssetName env target f tr = (Inr x, tr') \<Longrightarrow> runs tr' = runs tr @ [(READ_PLATFORM, None)]"
  by (auto simp: remoteAssetName_def wbind_Inr wret_def wfail_def Let_def split: if_splits sum.splits dest!: run_remote_runs)

lemma installed_runs [runs_rules]: "installedVersion env tr = (Inr x, tr') \<Longrightarrow> runs tr' = runs tr @ [(READ_INSTALLED, None)]"
  by (auto simp: installedVersion_def wbind_Inr wret_def dest!: run_remote_runs)

lemma recipe_runs [runs_rules]: "launchRecipeMatches env tr = (Inr x, tr') \<Longrightarrow> runs tr' = runs tr @ [(READ_LAUNCH_ENV, None)]"
  by (auto simp: launchRecipeMatches_def wbind_Inr wret_def dest!: run_remote_runs)

lemma alive_runs [runs_rules]:
  "isAlive env pid tr = (Inr x, tr') \<Longrightarrow> runs tr' = runs tr @ [(''kill -0 '' @ js_number_text pid, None)]"
  by (auto simp: isAlive_def wcatch_def wbind_def wret_def run_remote_def Let_def split: sum.splits)

lemma install_runs [runs_rules]:
  assumes "installBinary env opts asset tr = (Inr u, tr')"
  shows "runs tr' = runs tr @ [(READ_INSTALLED, None)] \<or>
    (\<exists>b. runs tr' = runs tr @ [(READ_INSTALLED, None), (UPLOAD_BINARY, Some b), (WRITE_INSTALLED, Some (version_json env (eo_version opts)))])"
  using assms unfolding installBinary_def wbind_Inr
  by (auto simp: wret_def wbind_Inr split: if_splits dest!: runs_rules)

lemma wret_Inr: "wret x s = (Inr y, s') \<longleftrightarrow> x = y \<and> s' = s"
  by (auto simp: wret_def)

lemma kill_runs:
  assumes "wcatch (wbind (run_remote env c None) (\<lambda>_. wret ())) (\<lambda>e. wret ()) tr = (Inr u, tr')"
  shows "runs tr' = runs tr @ [(c, None)]"
  using assms by (auto simp: wcatch_def wbind_def wret_def run_remote_def Let_def split: sum.splits)

definition probes :: "string \<Rightarrow> agent_state option \<Rightarrow> bool \<Rightarrow> (string \<times> string option) list" where
  "probes version state alive =
     (case state of
        None \<Rightarrow> []
      | Some a \<Rightarrow>
          (''kill -0 '' @ js_number_text (ag_pid a), None) #
          (if alive \<and> ag_version a = version then [(READ_LAUNCH_ENV, None)] else []))"

definition stops :: "agent_state option \<Rightarrow> bool \<Rightarrow> (string \<times> string option) list" where
  "stops state alive =
     (case state of None \<Rightarrow> [] | Some a \<Rightarrow> if alive then [(''kill '' @ js_number_text (ag_pid a), None)] else [])"

lemma check_runs:
  assumes "checkAgent env opts tr = (Inr (asset, state, alive, reusable), u)"
  shows "runs u = runs tr @ [(READ_PLATFORM, None), (READ_STATE, None)] @ probes (eo_version opts) state alive"
  using assms unfolding checkAgent_def wbind_Inr
  by (cases state) (auto simp: wret_def probes_def split: if_splits dest!: runs_rules)

lemma replace_runs:
  assumes "replaceAgent env opts asset state alive tr = (Inr pid, tr')"
  shows "\<exists>upload. (upload = [] \<or> (\<exists>b. upload = [(UPLOAD_BINARY, Some b), (WRITE_INSTALLED, Some (version_json env (eo_version opts)))]))
    \<and> runs tr' = runs tr @ [(ENSURE_DIR, None), (READ_INSTALLED, None)] @ upload @ [(WRITE_TOKEN, Some (eo_token opts))] @
        stops state alive @ [(startAgentCommand (eo_loginShell opts), None)]"
proof -
  obtain t1 t2 t3 t4 t5 where
    t1: "runChecked env (eo_target opts) ENSURE_DIR (failed_on opts ''could not create ~/.dsh/remote-agent'') None tr = (Inr (), t1)" and
    t2: "installBinary env opts asset t1 = (Inr (), t2)" and
    t3: "runChecked env (eo_target opts) WRITE_TOKEN (failed_on opts ''could not write the agent token'') (Some (eo_token opts)) t2 = (Inr (), t3)" and
    t4: "stopAgent env state alive t3 = (Inr (), t4)" and
    t5: "report Starting t4 = (Inr (), t5)" and
    start: "\<exists>u. runChecked env (eo_target opts) (startAgentCommand (eo_loginShell opts)) (failed_on opts ''could not start the agent'') None t5 = (Inr u, tr')"
    using assms unfolding replaceAgent_def wbind_Inr by (auto simp: wret_def)
  have "runs t4 = runs t3 @ stops state alive"
    using t4 by (auto simp: stopAgent_def stops_def wret_Inr split: option.splits if_splits dest!: kill_runs)
  moreover have "runs tr' = runs t5 @ [(startAgentCommand (eo_loginShell opts), None)]" using start checked_runs by blast
  ultimately show ?thesis
    using checked_runs [OF t1] install_runs [OF t2] checked_runs [OF t3] report_runs [OF t5] by auto
qed


subsection \<open>An upload ended by a signal\<close>

text \<open>An upload whose ssh a signal ended counts as a success: no exit code is read as \<open>0\<close>, so the
  build is recorded as installed, whatever arrived of it.\<close>

theorem killed_upload_recorded:
  assumes "ie_run env (tr @ [Ran READ_INSTALLED None]) = Inr none" "sr_stdout none = []" "ie_parse env [] = None"
    and "\<forall>tr. ie_resolve env tr = (None, Inr binary)"
    and "\<forall>tr. ie_run env (tr @ [Ran UPLOAD_BINARY (Some binary)]) = runSsh t None (Ssh_Exited None) out err"
    and "\<forall>tr g. ie_run env (tr @ [Ran WRITE_INSTALLED g]) = Inr \<lparr>sr_code = 0, sr_stdout = [], sr_stderr = []\<rparr>"
  shows "\<exists>tr'. installBinary env opts asset tr = (Inr (), tr') \<and>
    runs tr' = runs tr @ [(READ_INSTALLED, None), (UPLOAD_BINARY, Some binary), (WRITE_INSTALLED, Some (version_json env (eo_version opts)))]"
proof -
  have "installedVersion env tr = (Inr None, tr @ [Ran READ_INSTALLED None])"
    using assms(1-3) by (simp add: installedVersion_def wbind_def run_remote_def wret_def markerVersion_def Let_def)
  moreover have "runChecked env target UPLOAD_BINARY fallback (Some binary) u = (Inr (), u @ [Ran UPLOAD_BINARY (Some binary)])" for target fallback u
    using assms(5) by (simp add: runChecked_def wbind_def run_remote_def wret_def runSsh_def exit_status_def Let_def)
  moreover have "runChecked env target WRITE_INSTALLED fallback g u = (Inr (), u @ [Ran WRITE_INSTALLED g])" for target fallback g u
    using assms(6) by (simp add: runChecked_def wbind_def run_remote_def wret_def Let_def)
  ultimately show ?thesis
    by (simp add: installBinary_def wbind_def report_def resolve_binary_def assms(4) Let_def)
qed

subsection \<open>Quoting\<close>

text \<open>How a POSIX shell reads one word: within single quotes every byte stands for itself, outside of
  them a backslash takes the next byte; a byte that could end the word or start an expansion there
  is none of the word.\<close>

definition plain_char :: "char \<Rightarrow> bool" where
  "plain_char c \<longleftrightarrow> (let n = byte c in 48 \<le> n \<and> n \<le> 57 \<or> 65 \<le> n \<and> n \<le> 90 \<or> 97 \<le> n \<and> n \<le> 122 \<or> n = 45 \<or> n = 46 \<or> n = 47 \<or> n = 95)"

fun sh_word :: "bool \<Rightarrow> string \<Rightarrow> string option" where
  "sh_word True [] = None"
| "sh_word False [] = Some []"
| "sh_word True (c # s) = (if c = CHR 0x27 then sh_word False s else map_option ((#) c) (sh_word True s))"
| "sh_word False (c # s) =
     (if c = CHR 0x27 then sh_word True s
      else if c = CHR 0x5C then (case s of [] \<Rightarrow> None | d # ds \<Rightarrow> map_option ((#) d) (sh_word False ds))
      else if plain_char c then map_option ((#) c) (sh_word False s)
      else None)"

lemma quoted_tail:
  "sh_word True (concat (map (\<lambda>c. if c = CHR 0x27 then [CHR 0x27, CHR 0x5C, CHR 0x27, CHR 0x27] else [c]) v) @ [CHR 0x27]) = Some v"
  by (induction v) auto

text \<open>A quoted string is one word of a POSIX shell, and that word is the string, whatever bytes it
  holds.\<close>

theorem quoted_word_reads_back: "sh_word False (shQuote v) = Some v"
  using quoted_tail [of v] by (simp add: shQuote_def in_single_def)

subsection \<open>Instances\<close>

definition sample_run :: "string \<Rightarrow> string" where
  "sample_run c = (if c = READ_PLATFORM then ''Linux'' @ [CHR 0x0A] @ ''x86_64'' else [])"

text \<open>A machine without an agent, on which every command succeeds and the clock counts the steps.\<close>

definition sample_install :: install_env where
  "sample_install =
     \<lparr>ie_run = (\<lambda>tr. Inr \<lparr>sr_code = 0, sr_stdout = (case last tr of Ran c g \<Rightarrow> sample_run c | _ \<Rightarrow> []), sr_stderr = []\<rparr>),
      ie_resolve = (\<lambda>tr. (None, Inr ''ELF'')), ie_clock = length, ie_parse = (\<lambda>s. None), ie_stringify = (\<lambda>v. ''{}'')\<rparr>"

definition sample_ensure :: ensure_options where
  "sample_ensure =
     \<lparr>eo_target = ''h'', eo_token = ''t'', eo_version = ''0.0.7'', eo_cacheDir = ''/cache'', eo_loginShell = None,
      eo_startTimeoutMs = Some 1\<rparr>"

text \<open>A machine on which an agent of the version runs, started by the current recipe.\<close>

definition sample_state :: json where
  "sample_state =
     JObj [(''pid'', JNum (Whole 7)), (''port'', JNum (Whole 4000)), (''version'', JStr ''0.0.7''), (''recipe'', JNum (Whole 2))]"

definition reused_install :: install_env where
  "reused_install = sample_install\<lparr>ie_parse := (\<lambda>s. Some sample_state)\<rparr>"

definition sample_asset :: string where
  "sample_asset = ''dsh-remote-agent-linux-x86_64''"

definition sample_binary :: binary_options where
  "sample_binary = \<lparr>bo_version = ''0.0.7'', bo_asset = sample_asset, bo_member = None, bo_cacheDir = ''/cache''\<rparr>"

definition sample_trace :: "install_event list" where
  "sample_trace =
     [Reported Checking, Ran READ_PLATFORM None, Ran READ_STATE None, Ran ENSURE_DIR None, Ran READ_INSTALLED None,
      Reported (Fetching sample_asset None), Resolving sample_binary, Reported Uploading, Ran UPLOAD_BINARY (Some ''ELF''),
      Ran WRITE_INSTALLED (Some ''{}''), Ran WRITE_TOKEN (Some ''t''), Reported Starting, Ran (startAgentCommand None) None]"

definition sample_commands :: "(string \<times> string option) list" where
  "sample_commands =
     [(READ_PLATFORM, None), (READ_STATE, None), (ENSURE_DIR, None), (READ_INSTALLED, None), (UPLOAD_BINARY, Some ''ELF''),
      (WRITE_INSTALLED, Some ''{}''), (WRITE_TOKEN, Some ''t''), (startAgentCommand None, None)]"

lemma sample_asset_name:
  "trim (hd (split_on (CHR 0x0A) (sample_run READ_PLATFORM))) = ''Linux''"
  "trim (split_on (CHR 0x0A) (sample_run READ_PLATFORM) ! 1) = ''x86_64''"
  "length (split_on (CHR 0x0A) (sample_run READ_PLATFORM)) = 2"
  "agentAssetName ''Linux'' ''x86_64'' = Inr sample_asset"
  by code_simp+

lemma sample_steps:
  "remoteAssetName sample_install t agentAssetName tr = (Inr sample_asset, tr @ [Ran READ_PLATFORM None])"
  "runChecked sample_install t c f g tr = (Inr (), tr @ [Ran c g])"
  "readState sample_install tr = (Inr None, tr @ [Ran READ_STATE None])"
  "installedVersion sample_install tr = (Inr None, tr @ [Ran READ_INSTALLED None])"
  "resolve_binary sample_install opts onSource tr = (Inr ''ELF'', tr @ [Resolving opts])"
  using sample_asset_name
  by (simp_all add: remoteAssetName_def runChecked_def readState_def installedVersion_def resolve_binary_def
      wbind_def run_remote_def wret_def parseState_def markerVersion_def sample_install_def Let_def)

lemma sample_ensure_simps:
  "eo_version sample_ensure = ''0.0.7''" "eo_token sample_ensure = ''t''" "eo_loginShell sample_ensure = None"
  "eo_cacheDir sample_ensure = ''/cache''" "version_json sample_install v = ''{}''" "start_budget sample_ensure = 1"
  by (simp_all add: sample_ensure_def version_json_def sample_install_def start_budget_def)

lemma sample_prepared: "prepareAgent sample_install sample_ensure [] = (Inr (Inr None), sample_trace)"
  by (simp add: prepareAgent_def checkAgent_def replaceAgent_def installBinary_def stopAgent_def wbind_def report_def wret_def
      sample_steps sample_ensure_simps sample_trace_def sample_binary_def)


definition before_marker :: "install_event list" where
  "before_marker = take 9 sample_trace"

lemma sample_ensured: "\<exists>m. ensureAgent sample_install sample_ensure [] = Some (Inl m, sample_trace @ [Ran READ_STATE None])"
proof -
  have "published_state sample_install sample_trace = (Inr None, sample_trace @ [Ran READ_STATE None])"
    by (simp add: published_state_def wcatch_def sample_steps)
  from wait_round [OF this, of sample_ensure None "ie_clock sample_install sample_trace + 1"]
  have "\<exists>m. wait_published sample_install sample_ensure None (ie_clock sample_install sample_trace + 1) sample_trace =
      Some (Inl m, sample_trace @ [Ran READ_STATE None])"
    by (simp add: is_published_def sample_install_def)
  then show ?thesis by (simp add: ensureAgent_def sample_prepared sample_ensure_simps)
qed



lemma sample_probe:
  "parseState (\<lambda>s. Some sample_state) out = Some \<lparr>ag_pid = Whole 7, ag_port = Whole 4000, ag_version = ''0.0.7''\<rparr>"
  "jnumber (jfield sample_state ''recipe'') = Some (Whole LAUNCH_RECIPE_VERSION)"
  by (simp_all add: parseState_def sample_state_def positive_integer_def LAUNCH_RECIPE_VERSION_def)

lemma reused_steps:
  "remoteAssetName reused_install t agentAssetName tr = (Inr sample_asset, tr @ [Ran READ_PLATFORM None])"
  "readState reused_install tr = (Inr (Some \<lparr>ag_pid = Whole 7, ag_port = Whole 4000, ag_version = ''0.0.7''\<rparr>), tr @ [Ran READ_STATE None])"
  "isAlive reused_install pid tr = (Inr True, tr @ [Ran (''kill -0 '' @ js_number_text pid) None])"
  "launchRecipeMatches reused_install tr = (Inr True, tr @ [Ran READ_LAUNCH_ENV None])"
  using sample_asset_name
  by (simp_all add: remoteAssetName_def readState_def isAlive_def launchRecipeMatches_def sample_probe
      wbind_def wcatch_def run_remote_def wret_def reused_install_def sample_install_def Let_def)

lemma sample_reused:
  "fst (prepareAgent reused_install sample_ensure []) = Inr (Inl \<lparr>ae_port = Whole 4000, ae_version = ''0.0.7'', ae_reused = True\<rparr>)"
  by (simp add: prepareAgent_def checkAgent_def wbind_def report_def wret_def reused_steps sample_ensure_simps)

theorem reuse_ignores_token_witness:
  "\<exists>e tr'. ensureAgent reused_install sample_ensure [] = Some (Inr e, tr') \<and> ae_reused e \<and>
     ensureAgent reused_install (sample_ensure\<lparr>eo_token := ''rotated''\<rparr>) [] = Some (Inr e, tr') \<and>
     Ran WRITE_TOKEN (Some ''rotated'') \<notin> set (drop (length ([] :: install_event list)) tr')"
proof -
  let ?e = "\<lparr>ae_port = Whole 4000, ae_version = ''0.0.7'', ae_reused = True\<rparr>"
  obtain tr' where "prepareAgent reused_install sample_ensure [] = (Inr (Inl ?e), tr')"
    using sample_reused by (metis prod.collapse)
  then have e: "ensureAgent reused_install sample_ensure [] = Some (Inr ?e, tr')" by (simp add: ensureAgent_def)
  have "ae_reused ?e" by simp
  with e reuse_ignores_token [OF e, of "''rotated''" "Some ''rotated''"] show ?thesis by blast
qed

text \<open>The same machine, where a signal ends the ssh of every upload.\<close>

definition killed_install :: install_env where
  "killed_install =
     sample_install\<lparr>ie_run := (\<lambda>tr.
       if last tr = Ran UPLOAD_BINARY (Some ''ELF'')
       then runSsh \<lparr>sh_target = ''h'', sh_port = None, sh_identity = None\<rparr> None (Ssh_Exited None) [] []
       else Inr \<lparr>sr_code = 0, sr_stdout = [], sr_stderr = []\<rparr>)\<rparr>"

lemma upload_is_not_read: "READ_INSTALLED \<noteq> UPLOAD_BINARY"
  by code_simp

theorem killed_upload_recorded_witness:
  "\<exists>tr'. installBinary killed_install sample_ensure ''a'' [] = (Inr (), tr') \<and>
    runs tr' = runs [] @ [(READ_INSTALLED, None), (UPLOAD_BINARY, Some ''ELF''),
      (WRITE_INSTALLED, Some (version_json killed_install (eo_version sample_ensure)))]"
  by (rule killed_upload_recorded [where none = "\<lparr>sr_code = 0, sr_stdout = [], sr_stderr = []\<rparr>"])
    (simp_all add: killed_install_def sample_install_def upload_is_not_read marker_commands(6) [symmetric])

end
