(* ===== verification/Ptc_Codec.thy ===== *)
theory Ptc_Codec
  imports Documents "HOL-Library.Word"
begin

section \<open>The value codec of the program host: ptc-host/src/program.js\<close>

text \<open>
  A value crosses the channel of a program as a flat list of tokens. The values of a program live in
  a heap, so that one can hold itself: flattening walks the heap with an explicit stack and a set of
  the containers it is inside of, and may be asked about a cycle. Reading the tokens back builds a
  heap. A string is the list of its UTF-16 code units; only data properties are modelled, since a
  getter or a proxy is the program's own code.
\<close>

subsection \<open>Values\<close>

type_synonym units = "16 word list"

definition units_of :: "string \<Rightarrow> units" where
  "units_of s = map (\<lambda>c. word_of_nat (of_char c)) s"

text \<open>A finite number is a whole one or a text, as in the documents; \<open>-0\<close> is a number of its own.\<close>

datatype ptc_number = Finite js_number | Negative_Zero | Not_Finite string

datatype js_value =
    V_Null
  | V_Bool bool
  | V_Num ptc_number
  | V_Str units
  | V_Undefined
  | V_BigInt units
  | V_Symbol units
  | V_Function units
  | V_Ref nat

datatype own_key = Named units | Symbolic

record own_property =
  op_key :: own_key
  op_enumerable :: bool
  op_value :: js_value

datatype object_class =
    Date_Class units
  | RegExp_Class units
  | Error_Class units units
  | Map_Class nat
  | Set_Class nat
  | Other_Class

text \<open>An array has the prototype of arrays or another one, elements or holes, and the number of its
  further own keys; an object has the prototype of objects, none, or that of a class.\<close>

datatype js_object =
    Array_Object bool "js_value option list" nat
  | Plain_Object "own_property list"
  | Class_Object object_class "own_property list"

type_synonym js_heap = "js_object list"

text \<open>What \<open>JSON.parse\<close> can answer, and so what a token can be.\<close>

datatype ptc_json =
    PJ_Null
  | PJ_Bool bool
  | PJ_Num ptc_number
  | PJ_Str units
  | PJ_Arr "ptc_json list"
  | PJ_Obj "(units \<times> ptc_json) list"

subsection \<open>flatten\<close>

definition array_marker :: "nat \<Rightarrow> ptc_json" where
  "array_marker n =
     PJ_Obj [(units_of ''kind'', PJ_Str (units_of ''array'')), (units_of ''length'', PJ_Num (Finite (Whole (int n))))]"

definition object_marker :: "units list \<Rightarrow> ptc_json" where
  "object_marker ks =
     PJ_Obj [(units_of ''kind'', PJ_Str (units_of ''object'')), (units_of ''keys'', PJ_Arr (map PJ_Str ks))]"

datatype flat_task = Visit js_value | Leave nat

datatype flat_visit = Cannot_Cross | Scalar ptc_json | Container ptc_json nat "js_value list"

definition named_keys :: "own_property list \<Rightarrow> units list option" where
  "named_keys ps =
     (if \<forall>p \<in> set ps. op_key p \<noteq> Symbolic \<and> op_enumerable p
      then Some (map (\<lambda>p. case op_key p of Named k \<Rightarrow> k | Symbolic \<Rightarrow> []) ps) else None)"

text \<open>What one value is: no part of a lossless value, a scalar, or a container with its marker and its
  children. A container that is being walked is none.\<close>

definition flat_visit_of :: "js_heap \<Rightarrow> nat list \<Rightarrow> js_value \<Rightarrow> flat_visit" where
  "flat_visit_of h active v =
     (case v of
        V_Null \<Rightarrow> Scalar PJ_Null
      | V_Bool b \<Rightarrow> Scalar (PJ_Bool b)
      | V_Str s \<Rightarrow> Scalar (PJ_Str s)
      | V_Num n \<Rightarrow> (case n of Finite x \<Rightarrow> Scalar (PJ_Num (Finite x)) | _ \<Rightarrow> Cannot_Cross)
      | V_Ref p \<Rightarrow>
          (if length h \<le> p \<or> p \<in> set active then Cannot_Cross
           else
             (case h ! p of
                Array_Object plain es extra \<Rightarrow>
                  (if \<not> plain \<or> length (filter (\<lambda>e. e \<noteq> None) es) + 1 + extra \<noteq> length es + 1 \<or> None \<in> set es
                   then Cannot_Cross
                   else Container (array_marker (length es)) p (map the es))
              | Plain_Object ps \<Rightarrow>
                  (case named_keys ps of
                     None \<Rightarrow> Cannot_Cross
                   | Some ks \<Rightarrow> Container (object_marker ks) p (map op_value ps))
              | Class_Object c ps \<Rightarrow> Cannot_Cross))
      | _ \<Rightarrow> Cannot_Cross)"

text \<open>One round of the loop over the stack, and the loop: \<open>None\<close> would be a loop that does not end.\<close>

datatype flat_step = Flat_Done "ptc_json list" | Flat_Refused | Flat_Goes "ptc_json list" "nat list" "flat_task list"

definition flatten_round :: "js_heap \<Rightarrow> ptc_json list \<Rightarrow> nat list \<Rightarrow> flat_task list \<Rightarrow> flat_step" where
  "flatten_round h wire active stack =
     (case stack of
        [] \<Rightarrow> Flat_Done wire
      | task # rest \<Rightarrow>
          (case task of
             Leave p \<Rightarrow> Flat_Goes wire (removeAll p active) rest
           | Visit v \<Rightarrow>
               (case flat_visit_of h active v of
                  Cannot_Cross \<Rightarrow> Flat_Refused
                | Scalar t \<Rightarrow> Flat_Goes (wire @ [t]) active rest
                | Container marker p vs \<Rightarrow> Flat_Goes (wire @ [marker]) (p # active) (map Visit vs @ Leave p # rest))))"

partial_function (option) flatten_loop ::
  "js_heap \<Rightarrow> ptc_json list \<Rightarrow> nat list \<Rightarrow> flat_task list \<Rightarrow> ptc_json list option option" where
  "flatten_loop h wire active stack =
     (case flatten_round h wire active stack of
        Flat_Done w \<Rightarrow> Some (Some w)
      | Flat_Refused \<Rightarrow> Some None
      | Flat_Goes wire' active' stack' \<Rightarrow> flatten_loop h wire' active' stack')"

declare flatten_loop.simps [code, simp del]

definition flatten :: "js_heap \<Rightarrow> js_value \<Rightarrow> ptc_json list option option" where
  "flatten h root = flatten_loop h [] [] [Visit root]"

subsection \<open>unflatten\<close>

datatype marker = Array_Of nat | Object_Of "units list"

text \<open>\<open>Number.isSafeInteger(n) && n >= 0\<close>.\<close>

definition safe_length :: "ptc_json \<Rightarrow> nat option" where
  "safe_length v =
     (case v of
        PJ_Num (Finite (Whole i)) \<Rightarrow> if 0 \<le> i \<and> i \<le> 2 ^ 53 - 1 then Some (nat i) else None
      | _ \<Rightarrow> None)"

fun string_items :: "ptc_json list \<Rightarrow> units list option" where
  "string_items [] = Some []"
| "string_items (PJ_Str s # vs) = map_option ((#) s) (string_items vs)"
| "string_items (_ # vs) = None"

definition containerMarker :: "ptc_json \<Rightarrow> marker option" where
  "containerMarker token =
     (case token of
        PJ_Obj fs \<Rightarrow>
          (if map_of fs (units_of ''kind'') = Some (PJ_Str (units_of ''array'')) then
             (if length fs \<noteq> 2 then None
              else (case map_of fs (units_of ''length'') of
                      None \<Rightarrow> None
                    | Some v \<Rightarrow> map_option Array_Of (safe_length v)))
           else if map_of fs (units_of ''kind'') = Some (PJ_Str (units_of ''object'')) then
             (if length fs \<noteq> 2 then None
              else (case map_of fs (units_of ''keys'') of
                      Some (PJ_Arr vs) \<Rightarrow>
                        (case string_items vs of
                           Some ks \<Rightarrow> if distinct ks then Some (Object_Of ks) else None
                         | None \<Rightarrow> None)
                    | _ \<Rightarrow> None))
           else None)
      | _ \<Rightarrow> None)"

text \<open>A frame: the container being filled, the keys of an object, how many children it takes and has.\<close>

record uf_frame =
  fr_target :: nat
  fr_keys :: "units list"
  fr_length :: nat
  fr_index :: nat

definition open_frame :: "uf_frame \<Rightarrow> bool" where
  "open_frame f \<longleftrightarrow> fr_index f < fr_length f"

definition bump :: "uf_frame \<Rightarrow> uf_frame" where
  "bump f = f\<lparr>fr_index := Suc (fr_index f)\<rparr>"

text \<open>Adding a child: pushed to an array, defined under the next key of an object.\<close>

definition add_child :: "uf_frame \<Rightarrow> js_value \<Rightarrow> js_heap \<Rightarrow> js_heap" where
  "add_child f v h =
     h[fr_target f :=
        (case h ! fr_target f of
           Array_Object plain es extra \<Rightarrow> Array_Object plain (es @ [Some v]) extra
         | Plain_Object ps \<Rightarrow>
             Plain_Object (ps @ [\<lparr>op_key = Named (fr_keys f ! fr_index f), op_enumerable = True, op_value = v\<rparr>])
         | Class_Object c ps \<Rightarrow> Class_Object c ps)]"

text \<open>The value of one token, the heap with it, and the frame it opens, if it has children.\<close>

definition read_token :: "js_heap \<Rightarrow> nat \<Rightarrow> ptc_json \<Rightarrow> (js_value \<times> js_heap \<times> uf_frame option) option" where
  "read_token h remaining token =
     (case token of
        PJ_Null \<Rightarrow> Some (V_Null, h, None)
      | PJ_Bool b \<Rightarrow> Some (V_Bool b, h, None)
      | PJ_Str s \<Rightarrow> Some (V_Str s, h, None)
      | PJ_Num n \<Rightarrow> (case n of Finite x \<Rightarrow> Some (V_Num n, h, None) | _ \<Rightarrow> None)
      | _ \<Rightarrow>
          (case containerMarker token of
             None \<Rightarrow> None
           | Some (Array_Of n) \<Rightarrow>
               (if remaining < n then None
                else Some (V_Ref (length h), h @ [Array_Object True [] 0],
                           if 0 < n then Some \<lparr>fr_target = length h, fr_keys = [], fr_length = n, fr_index = 0\<rparr> else None))
           | Some (Object_Of ks) \<Rightarrow>
               (if remaining < length ks then None
                else Some (V_Ref (length h), h @ [Plain_Object []],
                           if ks \<noteq> [] then Some \<lparr>fr_target = length h, fr_keys = ks, fr_length = length ks, fr_index = 0\<rparr> else None))))"

text \<open>The state of the loop. A frame is an object that the stack and the variable \<open>frame\<close> refer to, so
  the frames are a store and the stack holds their numbers, the top first. \<open>frame\<close> is declared with
  \<open>var\<close> in the body of the loop: it keeps its value from one token to the next.\<close>

record uf_state =
  uf_heap :: js_heap
  uf_store :: "uf_frame list"
  uf_stack :: "nat list"
  uf_frame_var :: "nat option"
  uf_root :: "js_value option"

definition attach :: "js_value \<Rightarrow> uf_state \<Rightarrow> uf_state option" where
  "attach v s =
     (case uf_stack s of
        [] \<Rightarrow> (if uf_root s \<noteq> None then None else Some (s\<lparr>uf_root := Some v\<rparr>))
      | i # _ \<Rightarrow>
          (let f = uf_store s ! i in
           if open_frame f
           then Some (s\<lparr>uf_heap := add_child f v (uf_heap s), uf_store := (uf_store s)[i := bump f]\<rparr>)
           else None))"

definition unflatten_step :: "nat \<Rightarrow> ptc_json \<Rightarrow> uf_state \<Rightarrow> uf_state option" where
  "unflatten_step remaining token s =
     (case read_token (uf_heap s) remaining token of
        None \<Rightarrow> None
      | Some (v, h, opened) \<Rightarrow>
          (let s1 = (case opened of
                       None \<Rightarrow> s\<lparr>uf_heap := h\<rparr>
                     | Some f \<Rightarrow> s\<lparr>uf_heap := h, uf_store := uf_store s @ [f], uf_frame_var := Some (length (uf_store s))\<rparr>)
           in case attach v s1 of
                None \<Rightarrow> None
              | Some s2 \<Rightarrow>
                  (let stack = (case uf_frame_var s2 of None \<Rightarrow> uf_stack s2 | Some i \<Rightarrow> i # uf_stack s2) in
                   Some (s2\<lparr>uf_stack := dropWhile (\<lambda>i. \<not> open_frame (uf_store s2 ! i)) stack\<rparr>))))"

fun unflatten_run :: "ptc_json list \<Rightarrow> uf_state \<Rightarrow> uf_state option" where
  "unflatten_run [] s = Some s"
| "unflatten_run (t # ts) s =
     (case unflatten_step (length ts) t s of None \<Rightarrow> None | Some s' \<Rightarrow> unflatten_run ts s')"

definition uf_start :: uf_state where
  "uf_start = \<lparr>uf_heap = [], uf_store = [], uf_stack = [], uf_frame_var = None, uf_root = None\<rparr>"

definition unflatten :: "ptc_json list \<Rightarrow> (js_heap \<times> js_value) option" where
  "unflatten tokens =
     (if tokens = [] then None
      else case unflatten_run tokens uf_start of
             None \<Rightarrow> None
           | Some s \<Rightarrow> if uf_stack s = [] then Some (uf_heap s, the (uf_root s)) else None)"

end
