(* ===== verification/Ptc_Output.thy ===== *)
theory Ptc_Output
  imports Ptc_Codec Node_Store
begin

section \<open>The output of a program: ptc-host/src/program.js\<close>

text \<open>
  What a line costs, the ledger that charges every line of the console against the budget, and how the
  console renders a value. The reference for the cost is the UTF-8 text of the JSON string itself;
  the ledger is shown to hold the length of the JSON array of the lines it passed on.
\<close>

unbundle bit_operations_syntax

subsection \<open>The cost of a string\<close>

definition high_surrogate :: "16 word \<Rightarrow> bool" where
  "high_surrogate c \<longleftrightarrow> 0xD800 \<le> c \<and> c \<le> 0xDBFF"

definition low_surrogate :: "16 word \<Rightarrow> bool" where
  "low_surrogate c \<longleftrightarrow> 0xDC00 \<le> c \<and> c \<le> 0xDFFF"

definition short_escape :: "16 word \<Rightarrow> bool" where
  "short_escape c \<longleftrightarrow> c \<in> {8, 9, 10, 12, 13, 34, 92}"

text \<open>The character at the front of a text: its cost, and its width in code units.\<close>

definition characterCost :: "16 word \<Rightarrow> units \<Rightarrow> nat \<times> nat" where
  "characterCost c rest =
     (if high_surrogate c \<and> rest \<noteq> [] \<and> low_surrogate (hd rest) then (4, 2)
      else if 0xD800 \<le> c \<and> c \<le> 0xDFFF then (6, 1)
      else if short_escape c then (2, 1)
      else if c < 32 then (6, 1)
      else if c < 0x80 then (1, 1)
      else if c < 0x800 then (2, 1)
      else (3, 1))"

definition over :: "int \<Rightarrow> int option \<Rightarrow> bool" where
  "over bytes limit = (case limit of None \<Rightarrow> False | Some l \<Rightarrow> l < bytes)"

lemma characterCost_width: "snd (characterCost c rest) = 1 \<or> snd (characterCost c rest) = 2 \<and> rest \<noteq> []"
  by (auto simp: characterCost_def)

text \<open>The limit of \<open>jsonStringBytesUpTo\<close> may be infinite.\<close>

function cost_loop :: "int option \<Rightarrow> int \<Rightarrow> units \<Rightarrow> int option" where
  "cost_loop limit bytes [] = Some bytes"
| "cost_loop limit bytes (c # rest) =
     (let (cost, width) = characterCost c rest; bytes' = bytes + int cost in
      if over bytes' limit then None else cost_loop limit bytes' (drop width (c # rest)))"
  by pat_completeness auto
termination
proof (relation "measure (\<lambda>(limit, bytes, s). length s)", goal_cases)
  case (2 limit bytes c rest p cost width bytes')
  then have "snd (characterCost c rest) = width" by (metis snd_conv)
  then show ?case using characterCost_width [of c rest] by auto
qed simp

definition jsonStringBytesUpTo :: "units \<Rightarrow> int option \<Rightarrow> int option" where
  "jsonStringBytesUpTo s limit = (if over 2 limit then None else cost_loop limit 2 s)"

definition jsonStringBytes :: "units \<Rightarrow> int" where
  "jsonStringBytes s = the (jsonStringBytesUpTo s None)"

function trunc_end :: "int \<Rightarrow> int \<Rightarrow> units \<Rightarrow> nat" where
  "trunc_end limit bytes [] = 0"
| "trunc_end limit bytes (c # rest) =
     (let (cost, width) = characterCost c rest; bytes' = bytes + int cost in
      if limit < bytes' then 0 else width + trunc_end limit bytes' (drop width (c # rest)))"
  by pat_completeness auto
termination
proof (relation "measure (\<lambda>(limit, bytes, s). length s)", goal_cases)
  case (2 limit bytes c rest p cost width bytes')
  then have "snd (characterCost c rest) = width" by (metis snd_conv)
  then show ?case using characterCost_width [of c rest] by auto
qed simp

declare cost_loop.simps(2) [simp del] trunc_end.simps(2) [simp del]

definition truncateJsonString :: "units \<Rightarrow> int \<Rightarrow> units" where
  "truncateJsonString s limit = (if limit < 2 then [] else take (trunc_end limit 2 s) s)"

subsection \<open>The ledger\<close>

text \<open>The lines passed to the sink, and how often the limit was reported.\<close>

record ledger =
  lg_bytes :: int
  lg_entries :: nat
  lg_truncated :: bool
  lg_maxBytes :: int
  lg_sunk :: "units list"
  lg_limits :: nat

definition new_ledger :: "int \<Rightarrow> ledger" where
  "new_ledger maxBytes =
     \<lparr>lg_bytes = 2, lg_entries = 0, lg_truncated = False, lg_maxBytes = maxBytes, lg_sunk = [], lg_limits = 0\<rparr>"

definition sink :: "units \<Rightarrow> int \<Rightarrow> ledger \<Rightarrow> ledger" where
  "sink s bytes l = l\<lparr>lg_bytes := lg_bytes l + bytes, lg_entries := Suc (lg_entries l), lg_sunk := lg_sunk l @ [s]\<rparr>"

definition ledger_push :: "units \<Rightarrow> ledger \<Rightarrow> ledger" where
  "ledger_push s l =
     (if lg_truncated l then l
      else
        (let separator = (if 0 < lg_entries l then 1 else 0);
             available = lg_maxBytes l - lg_bytes l - separator
         in case jsonStringBytesUpTo s (Some available) of
              None \<Rightarrow>
                (let p = truncateJsonString s available;
                     l' = l\<lparr>lg_truncated := True\<rparr>;
                     l'' = (if p \<noteq> [] then sink p (jsonStringBytes p + separator) l' else l')
                 in l''\<lparr>lg_limits := Suc (lg_limits l'')\<rparr>)
            | Some bytes \<Rightarrow> sink s (bytes + separator) l))"

definition ledger_remaining :: "ledger \<Rightarrow> int" where
  "ledger_remaining l = lg_maxBytes l - lg_bytes l"

subsection \<open>The console\<close>

text \<open>\<open>JSON.stringify\<close> of a string, in code units.\<close>

definition hex_unit :: "nat \<Rightarrow> 16 word" where
  "hex_unit n = word_of_nat (if n < 10 then 48 + n else 87 + n)"

definition unicode_escape :: "16 word \<Rightarrow> units" where
  "unicode_escape c =
     [92, 117, hex_unit (unat c div 4096), hex_unit (unat c div 256 mod 16), hex_unit (unat c div 16 mod 16), hex_unit (unat c mod 16)]"

definition escape_unit :: "16 word \<Rightarrow> units" where
  "escape_unit c =
     (if c = 8 then [92, 98] else if c = 9 then [92, 116] else if c = 10 then [92, 110]
      else if c = 12 then [92, 102] else if c = 13 then [92, 114] else if c = 34 then [92, 34]
      else if c = 92 then [92, 92] else if c < 32 then unicode_escape c else [c])"

fun quote_units :: "units \<Rightarrow> units" where
  "quote_units [] = []"
| "quote_units [c] = (if 0xD800 \<le> c \<and> c \<le> 0xDFFF then unicode_escape c else escape_unit c)"
| "quote_units (c # d # rest) =
     (if high_surrogate c \<and> low_surrogate d then c # d # quote_units rest
      else (if 0xD800 \<le> c \<and> c \<le> 0xDFFF then unicode_escape c else escape_unit c) @ quote_units (d # rest))"

definition json_quoted :: "units \<Rightarrow> units" where
  "json_quoted s = [34] @ quote_units s @ [34]"

definition number_units :: "ptc_number \<Rightarrow> units" where
  "number_units n =
     units_of (case n of Finite x \<Rightarrow> js_number_text x | Negative_Zero \<Rightarrow> ''0'' | Not_Finite t \<Rightarrow> t)"

fun join_units :: "units \<Rightarrow> units list \<Rightarrow> units" where
  "join_units sep [] = []"
| "join_units sep [s] = s"
| "join_units sep (s # t # ss) = s @ sep @ join_units sep (t # ss)"

definition own_enumerable :: "own_property list \<Rightarrow> (units \<times> js_value) list" where
  "own_enumerable ps =
     concat (map (\<lambda>p. case op_key p of Named k \<Rightarrow> if op_enumerable p then [(k, op_value p)] else [] | Symbolic \<Rightarrow> []) ps)"

definition element :: "js_value option \<Rightarrow> js_value" where
  "element e = (case e of None \<Rightarrow> V_Undefined | Some v \<Rightarrow> v)"

text \<open>The values that are rendered whatever the depth.\<close>

definition inspect_flat :: "js_heap \<Rightarrow> js_value \<Rightarrow> units option" where
  "inspect_flat h v =
     (case v of
        V_Null \<Rightarrow> Some (units_of ''null'')
      | V_Undefined \<Rightarrow> Some (units_of ''undefined'')
      | V_Str s \<Rightarrow> Some (json_quoted s)
      | V_Num n \<Rightarrow> Some (number_units n)
      | V_Bool b \<Rightarrow> Some (units_of (if b then ''true'' else ''false''))
      | V_BigInt s \<Rightarrow> Some (s @ units_of ''n'')
      | V_Symbol s \<Rightarrow> Some (units_of ''Symbol('' @ s @ units_of '')'')
      | V_Function s \<Rightarrow> Some (units_of ''[Function: '' @ (if s = [] then units_of ''anonymous'' else s) @ units_of '']'')
      | V_Ref p \<Rightarrow>
          (case h ! p of
             Class_Object c ps \<Rightarrow>
               (case c of
                  Date_Class s \<Rightarrow> Some s
                | RegExp_Class s \<Rightarrow> Some s
                | Error_Class n m \<Rightarrow> Some (n @ units_of '': '' @ m)
                | _ \<Rightarrow> None)
           | _ \<Rightarrow> None))"

definition bracketed :: "string \<Rightarrow> units list \<Rightarrow> string \<Rightarrow> units" where
  "bracketed l parts r =
     (if parts = [] then units_of (l @ r)
      else units_of (l @ '' '') @ join_units (units_of '', '') parts @ units_of ('' '' @ r))"

definition is_array :: "js_object \<Rightarrow> bool" where
  "is_array c = (case c of Array_Object _ _ _ \<Rightarrow> True | _ \<Rightarrow> False)"

fun inspect_value :: "js_heap \<Rightarrow> nat \<Rightarrow> js_value \<Rightarrow> units" where
  "inspect_value h 0 v =
     (case inspect_flat h v of
        Some s \<Rightarrow> s
      | None \<Rightarrow> (case v of V_Ref p \<Rightarrow> units_of (if is_array (h ! p) then ''[Array]'' else ''[Object]'') | _ \<Rightarrow> []))"
| "inspect_value h (Suc d) v =
     (case inspect_flat h v of
        Some s \<Rightarrow> s
      | None \<Rightarrow>
          (case v of
             V_Ref p \<Rightarrow>
               (let fields = (\<lambda>ps. bracketed ''{'' (map (\<lambda>(k, x). k @ units_of '': '' @ inspect_value h d x) (own_enumerable ps)) ''}'') in
                case h ! p of
                  Array_Object plain es extra \<Rightarrow>
                    bracketed ''[''
                      (map (\<lambda>e. inspect_value h d (element e)) (take 100 es) @
                       (if 100 < length es then [units_of (''... '' @ str_nat (length es - 100) @ '' more items'')] else []))
                      '']''
                | Plain_Object ps \<Rightarrow> fields ps
                | Class_Object c ps \<Rightarrow>
                    (case c of
                       Map_Class n \<Rightarrow> units_of (''Map('' @ str_nat n @ '')'')
                     | Set_Class n \<Rightarrow> units_of (''Set('' @ str_nat n @ '')'')
                     | _ \<Rightarrow> fields ps))
           | _ \<Rightarrow> []))"

definition console_line :: "js_heap \<Rightarrow> js_value list \<Rightarrow> units" where
  "console_line h args =
     join_units (units_of '' '') (map (\<lambda>v. case v of V_Str s \<Rightarrow> s | _ \<Rightarrow> inspect_value h 4 v) args)"

definition console_call :: "js_heap \<Rightarrow> js_value list \<Rightarrow> ledger \<Rightarrow> ledger" where
  "console_call h args l = ledger_push (console_line h args) l"

subsection \<open>The cost is the length of the JSON text\<close>

text \<open>The UTF-8 bytes of \<open>JSON.stringify\<close> of a string: a pair is one code point in four bytes, a lone
  surrogate is escaped.\<close>

definition utf8_unit :: "16 word \<Rightarrow> 8 word list" where
  "utf8_unit c =
     (let n = unat c in
      if n < 0x80 then [word_of_nat n]
      else if n < 0x800 then [word_of_nat (0xC0 + n div 64), word_of_nat (0x80 + n mod 64)]
      else [word_of_nat (0xE0 + n div 4096), word_of_nat (0x80 + n div 64 mod 64), word_of_nat (0x80 + n mod 64)])"

definition utf8_pair :: "16 word \<Rightarrow> 16 word \<Rightarrow> 8 word list" where
  "utf8_pair c d =
     (let n = 0x10000 + (unat c - 0xD800) * 0x400 + (unat d - 0xDC00) in
      [word_of_nat (0xF0 + n div 262144), word_of_nat (0x80 + n div 4096 mod 64), word_of_nat (0x80 + n div 64 mod 64),
       word_of_nat (0x80 + n mod 64)])"

fun utf8_units :: "units \<Rightarrow> 8 word list" where
  "utf8_units [] = []"
| "utf8_units [c] = utf8_unit c"
| "utf8_units (c # d # rest) =
     (if high_surrogate c \<and> low_surrogate d then utf8_pair c d @ utf8_units rest
      else utf8_unit c @ utf8_units (d # rest))"

definition json_string_bytes :: "units \<Rightarrow> 8 word list" where
  "json_string_bytes s = utf8_units (json_quoted s)"

fun text_cost :: "units \<Rightarrow> nat" where
  "text_cost [] = 0"
| "text_cost [c] = fst (characterCost c [])"
| "text_cost (c # d # rest) =
     (if high_surrogate c \<and> low_surrogate d then 4 + text_cost rest
      else fst (characterCost c []) + text_cost (d # rest))"

lemma characterCost_pair: "high_surrogate c \<Longrightarrow> low_surrogate d \<Longrightarrow> characterCost c (d # rest) = (4, 2)"
  by (simp add: characterCost_def)

lemma characterCost_single:
  "\<not> (high_surrogate c \<and> low_surrogate d) \<Longrightarrow> characterCost c (d # rest) = (fst (characterCost c []), 1)"
  "snd (characterCost c []) = 1"
  by (auto simp: characterCost_def)

lemma cost_loop_unlimited: "cost_loop None b s = Some (b + int (text_cost s))"
proof (induction s arbitrary: b rule: text_cost.induct)
  case (2 c)
  show ?case by (simp add: cost_loop.simps(2) over_def split_beta characterCost_single(2))
next
  case (3 c d rest)
  then show ?case
    using characterCost_pair [of c d rest] characterCost_single(1) [of c d rest]
    by (auto simp: cost_loop.simps(2) [of _ _ c] over_def split_beta Let_def)
qed simp

lemma cost_loop_limited:
  "b \<le> l \<Longrightarrow> cost_loop (Some l) b s = (if b + int (text_cost s) \<le> l then Some (b + int (text_cost s)) else None)"
proof (induction s arbitrary: b rule: text_cost.induct)
  case (2 c)
  then show ?case by (simp add: cost_loop.simps(2) over_def split_beta characterCost_single(2))
next
  case (3 c d rest)
  then show ?case
    using characterCost_pair [of c d rest] characterCost_single(1) [of c d rest]
    by (auto simp: cost_loop.simps(2) [of _ _ c] over_def split_beta Let_def)
qed simp

lemma trunc_fits: "b \<le> l \<Longrightarrow> b + int (text_cost (take (trunc_end l b s) s)) \<le> l"
proof (induction s arbitrary: b rule: text_cost.induct)
  case (2 c)
  then show ?case by (simp add: trunc_end.simps(2) split_beta characterCost_single(2) Let_def)
next
  case (3 c d rest)
  show ?case
  proof (cases "high_surrogate c \<and> low_surrogate d")
    case True
    then show ?thesis
      using 3(1) [OF True, of "b + 4"] 3(3) characterCost_pair [of c d rest]
      by (auto simp: trunc_end.simps(2) [of _ _ c] split_beta Let_def numeral_2_eq_2 algebra_simps)
  next
    case False
    let ?b = "b + int (fst (characterCost c []))"
    have "text_cost (c # take k (d # rest)) = fst (characterCost c []) + text_cost (take k (d # rest))" for k
      using False by (cases k) auto
    then show ?thesis
      using 3(2) [OF False, of ?b] 3(3) False characterCost_single(1) [of c d rest]
      by (auto simp: trunc_end.simps(2) [of _ _ c] split_beta Let_def algebra_simps)
  qed
qed simp

lemma utf8_next: "\<not> high_surrogate c \<Longrightarrow> utf8_units (c # s) = utf8_unit c @ utf8_units s"
  by (cases s) auto

lemma utf8_plain: "\<forall>c \<in> set e. \<not> high_surrogate c \<Longrightarrow> utf8_units (e @ s) = concat (map utf8_unit e) @ utf8_units s"
  by (induction e) (auto simp: utf8_next)

lemma utf8_length: "length (utf8_unit c) = (if c < 0x80 then 1 else if c < 0x800 then 2 else 3)"
  by (simp add: utf8_unit_def Let_def word_less_nat_alt)

lemma hex_unit_ascii: "n < 16 \<Longrightarrow> hex_unit n < 0x80"
proof -
  assume "n < 16"
  then have "n \<in> {0..<16}" by simp
  then show ?thesis unfolding atLeastLessThan_upt by (simp add: hex_unit_def upt_rec) auto
qed

definition ascii_text :: "units \<Rightarrow> bool" where
  "ascii_text e \<longleftrightarrow> (\<forall>c \<in> set e. c < 0x80)"

lemma ascii_length: "ascii_text e \<Longrightarrow> length (utf8_units (e @ s)) = length e + length (utf8_units s)"
proof -
  assume a: "ascii_text e"
  then have "\<forall>c \<in> set e. \<not> high_surrogate c"
    by (fastforce simp: ascii_text_def high_surrogate_def word_less_nat_alt word_le_nat_alt)
  moreover have "length (concat (map utf8_unit e)) = length e"
    using a by (induction e) (auto simp: ascii_text_def utf8_length)
  ultimately show ?thesis by (simp add: utf8_plain)
qed

lemma unicode_escape_ascii: "ascii_text (unicode_escape c)" "length (unicode_escape c) = 6"
proof -
  have "unat c < 2 ^ LENGTH(16)" by (rule unsigned_less)
  then have "unat c div 4096 < 16" by simp
  then show "ascii_text (unicode_escape c)" "length (unicode_escape c) = 6"
    by (simp_all add: ascii_text_def unicode_escape_def hex_unit_ascii)
qed

text \<open>One unit that is not part of a pair, quoted.\<close>

definition quote_one :: "16 word \<Rightarrow> units" where
  "quote_one c = (if 0xD800 \<le> c \<and> c \<le> 0xDFFF then unicode_escape c else escape_unit c)"

lemma quote_one_length: "length (utf8_units (quote_one c @ s)) = fst (characterCost c []) + length (utf8_units s)"
proof (cases "0xD800 \<le> c \<and> c \<le> 0xDFFF")
  case True
  then show ?thesis using ascii_length [OF unicode_escape_ascii(1)] unicode_escape_ascii(2) [of c]
    by (simp add: quote_one_def characterCost_def)
next
  case False
  then have high: "\<not> high_surrogate c" by (auto simp: high_surrogate_def word_le_nat_alt)
  consider "short_escape c" | "\<not> short_escape c" "c < 32" | "\<not> short_escape c" "\<not> c < 32" by blast
  then show ?thesis
  proof cases
    case 1
    then have e: "\<exists>x. escape_unit c = [92, x] \<and> x < 0x80" by (auto simp: short_escape_def escape_unit_def)
    then have "ascii_text (escape_unit c)" "length (escape_unit c) = 2" by (auto simp: ascii_text_def)
    then show ?thesis using False 1 ascii_length by (auto simp: quote_one_def characterCost_def)
  next
    case 2
    then have "escape_unit c = unicode_escape c" by (auto simp: short_escape_def escape_unit_def)
    then show ?thesis using False 2 ascii_length [OF unicode_escape_ascii(1)] unicode_escape_ascii(2) [of c]
      by (auto simp: quote_one_def characterCost_def)
  next
    case 3
    then have "escape_unit c = [c]" by (auto simp: short_escape_def escape_unit_def)
    then show ?thesis using False 3 high utf8_next [OF high] by (auto simp: quote_one_def characterCost_def utf8_length)
  qed
qed

lemma utf8_pair_next: "high_surrogate c \<Longrightarrow> low_surrogate d \<Longrightarrow> length (utf8_units (c # d # s)) = 4 + length (utf8_units s)"
  by (simp add: utf8_pair_def Let_def)

lemma quoted_length: "length (utf8_units (quote_units s @ t)) = text_cost s + length (utf8_units t)"
proof (induction s rule: text_cost.induct)
  case (2 c)
  show ?case using quote_one_length [of c t] by (simp add: quote_one_def)
next
  case (3 c d rest)
  show ?case
  proof (cases "high_surrogate c \<and> low_surrogate d")
    case True
    then show ?thesis using 3 utf8_pair_next [of c d "quote_units rest @ t"] by simp
  next
    case False
    then show ?thesis using 3 quote_one_length [of c "quote_units (d # rest) @ t"] by (auto simp: quote_one_def)
  qed
qed simp

lemma cost_is_length: "jsonStringBytes s = int (length (json_string_bytes s))"
proof -
  have ends: "\<not> high_surrogate 34" "length (utf8_unit 34) = 1"
    by (simp_all add: high_surrogate_def utf8_length)
  have "length (json_string_bytes s) = 1 + (text_cost s + length (utf8_units [34]))"
    using utf8_next [OF ends(1), of "quote_units s @ [34]"] quoted_length [of s "[34]"] ends(2)
    by (simp add: json_string_bytes_def json_quoted_def)
  then show ?thesis
    using ends(2) by (simp add: jsonStringBytes_def jsonStringBytesUpTo_def over_def cost_loop_unlimited)
qed

text \<open>The cost of a line is exactly the number of bytes of its JSON string: the loop over its code units
  gives the length of what \<open>JSON.stringify\<close> writes, in UTF-8, also for lone surrogates, pairs and
  control characters.\<close>

theorem cost_is_json_length: "jsonStringBytes s = int (length (json_string_bytes s))"
  by (rule cost_is_length)

subsection \<open>What the ledger holds\<close>

fun comma_join :: "8 word list list \<Rightarrow> 8 word list" where
  "comma_join [] = []"
| "comma_join [s] = s"
| "comma_join (s # t # ss) = s @ [0x2C] @ comma_join (t # ss)"

definition json_array_bytes :: "units list \<Rightarrow> 8 word list" where
  "json_array_bytes ss = [0x5B] @ comma_join (map json_string_bytes ss) @ [0x5D]"

lemma comma_join_snoc: "length (comma_join (ss @ [s])) = length (comma_join ss) + length s + (if ss = [] then 0 else 1)"
  by (induction ss rule: comma_join.induct) auto

lemma array_snoc:
  "int (length (json_array_bytes (ss @ [s]))) = int (length (json_array_bytes ss)) + jsonStringBytes s + (if ss = [] then 0 else 1)"
  using comma_join_snoc [of "map json_string_bytes ss" "json_string_bytes s"]
  by (simp add: json_array_bytes_def cost_is_length)

text \<open>The lines so far, and the ledger after them.\<close>

definition ledger_ok :: "units list \<Rightarrow> ledger \<Rightarrow> bool" where
  "ledger_ok texts l \<longleftrightarrow>
     lg_bytes l = int (length (json_array_bytes (lg_sunk l))) \<and> lg_entries l = length (lg_sunk l) \<and>
     lg_bytes l \<le> lg_maxBytes l \<and> lg_limits l = (if lg_truncated l then 1 else 0) \<and>
     (if lg_truncated l
      then \<exists>n < length texts. \<exists>p. prefix p (texts ! n) \<and> (p = [] \<or> p \<noteq> texts ! n) \<and> lg_sunk l = take n texts @ (if p = [] then [] else [p])
      else lg_sunk l = texts)"

lemma up_to_some:
  "jsonStringBytesUpTo s (Some a) = Some b \<Longrightarrow> b = jsonStringBytes s \<and> b \<le> a"
  by (auto simp: jsonStringBytesUpTo_def jsonStringBytes_def over_def cost_loop_unlimited cost_loop_limited split: if_splits)

lemma up_to_none: "jsonStringBytesUpTo s (Some a) = None \<Longrightarrow> a < jsonStringBytes s"
  by (auto simp: jsonStringBytesUpTo_def jsonStringBytes_def over_def cost_loop_unlimited cost_loop_limited split: if_splits)

lemma truncate_fits: "truncateJsonString s a \<noteq> [] \<Longrightarrow> jsonStringBytes (truncateJsonString s a) \<le> a"
  using trunc_fits [of 2 a s]
  by (auto simp: truncateJsonString_def jsonStringBytes_def jsonStringBytesUpTo_def over_def cost_loop_unlimited split: if_splits)

lemma truncate_prefix: "prefix (truncateJsonString s a) s"
  by (simp add: truncateJsonString_def take_is_prefix)

lemma ledger_step:
  assumes "ledger_ok texts l"
  shows "ledger_ok (texts @ [s]) (ledger_push s l)"
proof (cases "lg_truncated l")
  case True
  with assms obtain n p where n: "n < length texts" "prefix p (texts ! n)" "p = [] \<or> p \<noteq> texts ! n"
    "lg_sunk l = take n texts @ (if p = [] then [] else [p])" by (auto simp: ledger_ok_def)
  then have "\<exists>n < length (texts @ [s]). \<exists>p. prefix p ((texts @ [s]) ! n) \<and> (p = [] \<or> p \<noteq> (texts @ [s]) ! n) \<and>
      lg_sunk l = take n (texts @ [s]) @ (if p = [] then [] else [p])"
    by (intro exI [of _ n] conjI exI [of _ p]) (simp_all add: nth_append)
  then show ?thesis using assms True by (simp add: ledger_ok_def ledger_push_def)
next
  case False
  let ?sep = "if 0 < lg_entries l then 1 else 0 :: int"
  let ?a = "lg_maxBytes l - lg_bytes l - ?sep"
  have ok: "lg_bytes l = int (length (json_array_bytes texts))" "lg_entries l = length texts" "lg_sunk l = texts" "lg_limits l = 0"
    using assms False by (auto simp: ledger_ok_def)
  have sep: "?sep = (if texts = [] then 0 else 1)" using ok(2) by simp
  show ?thesis
  proof (cases "jsonStringBytesUpTo s (Some ?a)")
    case (Some b)
    then have "b = jsonStringBytes s" "b \<le> ?a" using up_to_some by blast+
    then show ?thesis
      using ok False Some sep array_snoc [of texts s] by (simp add: ledger_ok_def ledger_push_def sink_def Let_def)
  next
    case None
    let ?p = "truncateJsonString s ?a"
    have less: "?a < jsonStringBytes s" using up_to_none [OF None] .
    have ne: "?p = [] \<or> ?p \<noteq> s" using truncate_fits [of s ?a] less by fastforce
    have "\<exists>n < length (texts @ [s]). \<exists>p. prefix p ((texts @ [s]) ! n) \<and> (p = [] \<or> p \<noteq> (texts @ [s]) ! n) \<and>
        texts @ (if ?p = [] then [] else [?p]) = take n (texts @ [s]) @ (if p = [] then [] else [p])"
      using truncate_prefix ne by (intro exI [of _ "length texts"] conjI exI [of _ ?p]) simp_all
    moreover have "jsonStringBytes ?p \<le> ?a" if "?p \<noteq> []" using that by (rule truncate_fits)
    moreover have "lg_bytes l \<le> lg_maxBytes l" using assms by (simp add: ledger_ok_def)
    ultimately show ?thesis
      using ok False None sep array_snoc [of texts ?p]
      by (cases "?p = []") (simp_all add: ledger_ok_def ledger_push_def sink_def Let_def)
  qed
qed

lemma ledger_run: "ledger_ok texts l \<Longrightarrow> ledger_ok (texts @ ss) (fold ledger_push ss l)"
proof (induction ss arbitrary: texts l)
  case (Cons s ss)
  from Cons.IH [OF ledger_step [OF Cons.prems, of s]] show ?case by simp
qed simp

lemma new_ledger_ok: "2 \<le> maxBytes \<Longrightarrow> ledger_ok [] (new_ledger maxBytes)"
  by (simp add: ledger_ok_def new_ledger_def json_array_bytes_def)

lemma push_max [simp]: "lg_maxBytes (ledger_push s l) = lg_maxBytes l"
  by (simp add: ledger_push_def sink_def Let_def split: option.split)

lemma run_max: "lg_maxBytes (fold ledger_push ss l) = lg_maxBytes l"
  by (induction ss arbitrary: l) auto

text \<open>C39: the ledger is exact: whatever lines a program writes, the bytes it holds are those of the JSON
  array of the lines that were passed on, never more than the budget; the limit is reported once, by
  the line that passes it, of which at most a proper prefix is passed on, and nothing after it.\<close>

theorem ledger_exact:
  assumes "2 \<le> maxBytes" "l = fold ledger_push texts (new_ledger maxBytes)"
  shows "lg_bytes l = int (length (json_array_bytes (lg_sunk l))) \<and> lg_bytes l \<le> maxBytes \<and>
    lg_limits l = (if lg_truncated l then 1 else 0) \<and>
    (if lg_truncated l
     then \<exists>n < length texts. \<exists>p. prefix p (texts ! n) \<and> (p = [] \<or> p \<noteq> texts ! n) \<and> lg_sunk l = take n texts @ (if p = [] then [] else [p])
     else lg_sunk l = texts)"
  using ledger_run [OF new_ledger_ok [OF assms(1)], of texts] run_max [of texts "new_ledger maxBytes"] assms(2)
  by (simp add: ledger_ok_def new_ledger_def)

theorem ledger_exact_witness:
  "\<exists>l. l = fold ledger_push [units_of ''abc'', units_of ''defgh''] (new_ledger 12) \<and> lg_truncated l \<and>
     lg_sunk l = [units_of ''abc'', units_of ''de''] \<and> lg_bytes l = int (length (json_array_bytes (lg_sunk l))) \<and> lg_bytes l \<le> 12"
proof -
  let ?l = "fold ledger_push [units_of ''abc'', units_of ''defgh''] (new_ledger 12)"
  have "lg_truncated ?l" "lg_sunk ?l = [units_of ''abc'', units_of ''de'']" by code_simp+
  with ledger_exact [of 12 ?l "[units_of ''abc'', units_of ''defgh'']"] show ?thesis by auto
qed

end
