(* ===== verification/Ptc_Roundtrip.thy ===== *)
theory Ptc_Roundtrip
  imports Ptc_Codec
begin

section \<open>The value codec: what crosses, and that it comes back\<close>

text \<open>
  A value is lossless when it is a finite tree of JSON without \<open>-0\<close>: \<open>represents h v t\<close> holds of a value of
  the heap and its tree. Flattening always ends and crosses exactly these; reading the tokens of a
  tree builds a value of the tree again. The reader is proved in two steps: the variable that keeps
  its frame from token to token makes no difference, and the reader without it builds the tree.
\<close>

subsection \<open>The tree of a value and its tokens\<close>

fun tokens :: "ptc_json \<Rightarrow> ptc_json list" where
  "tokens (PJ_Arr ts) = array_marker (length ts) # concat (map tokens ts)"
| "tokens (PJ_Obj fs) = object_marker (map fst fs) # concat (map (\<lambda>f. tokens (snd f)) fs)"
| "tokens t = [t]"

inductive represents :: "js_heap \<Rightarrow> js_value \<Rightarrow> ptc_json \<Rightarrow> bool" for h where
  Null: "represents h V_Null PJ_Null"
| Bool: "represents h (V_Bool b) (PJ_Bool b)"
| Num: "represents h (V_Num (Finite x)) (PJ_Num (Finite x))"
| Str: "represents h (V_Str s) (PJ_Str s)"
| Arr: "p < length h \<Longrightarrow> h ! p = Array_Object True (map Some vs) 0 \<Longrightarrow> list_all2 (represents h) vs ts \<Longrightarrow>
    represents h (V_Ref p) (PJ_Arr ts)"
| Obj: "p < length h \<Longrightarrow> h ! p = Plain_Object (map2 (\<lambda>k v. \<lparr>op_key = Named k, op_enumerable = True, op_value = v\<rparr>) ks vs) \<Longrightarrow>
    distinct ks \<Longrightarrow> length ks = length ts \<Longrightarrow> list_all2 (represents h) vs ts \<Longrightarrow>
    represents h (V_Ref p) (PJ_Obj (zip ks ts))"

text \<open>The own keys of an object are distinct.\<close>

definition heap_ok :: "js_heap \<Rightarrow> bool" where
  "heap_ok h \<longleftrightarrow> (\<forall>ps. Plain_Object ps \<in> set h \<longrightarrow> distinct (map op_key ps))"

lemma named_keys_props:
  "named_keys ps = Some ks \<Longrightarrow> ps = map2 (\<lambda>k v. \<lparr>op_key = Named k, op_enumerable = True, op_value = v\<rparr>) ks (map op_value ps)"
proof (induction ps arbitrary: ks)
  case (Cons p ps)
  then obtain k where k: "op_key p = Named k" "op_enumerable p" "named_keys ps = Some (tl ks)" "hd ks = k" "ks \<noteq> []"
    by (cases "op_key p") (auto simp: named_keys_def split: if_splits)
  then have "p = \<lparr>op_key = Named k, op_enumerable = True, op_value = op_value p\<rparr>" by (cases p) simp
  with k Cons.IH [of "tl ks"] show ?case by (cases ks) auto
qed (simp add: named_keys_def)

lemma named_keys_length: "named_keys ps = Some ks \<Longrightarrow> length ks = length ps"
  by (auto simp: named_keys_def split: if_splits)

lemma named_keys_distinct: "named_keys ps = Some ks \<Longrightarrow> distinct (map op_key ps) \<Longrightarrow> distinct ks"
proof (induction ps arbitrary: ks)
  case (Cons p ps)
  then obtain k ks' where k: "ks = k # ks'" "op_key p = Named k" "named_keys ps = Some ks'"
    by (cases "op_key p") (auto simp: named_keys_def split: if_splits)
  have "set ks' \<subseteq> {k. Named k \<in> op_key ` set ps}"
    using k(3) by (force simp: named_keys_def split: if_splits own_key.splits)
  with k Cons show ?case by (auto simp: image_iff)
qed (simp add: named_keys_def)

lemma named_keys_map2:
  "length ks = length vs \<Longrightarrow> named_keys (map2 (\<lambda>k v. \<lparr>op_key = Named k, op_enumerable = True, op_value = v\<rparr>) ks vs) = Some ks
    \<and> map op_value (map2 (\<lambda>k v. \<lparr>op_key = Named k, op_enumerable = True, op_value = v\<rparr>) ks vs) = vs"
  by (induction ks vs rule: list_induct2) (auto simp: named_keys_def)

subsection \<open>Flattening ends and is sound\<close>

lemma flatten_leave [simp]: "flatten_loop h wire A (Leave p # rest) = flatten_loop h wire (removeAll p A) rest"
  by (subst flatten_loop.simps) (simp add: flatten_round_def)

lemma flatten_end [simp]: "flatten_loop h wire A [] = Some (Some wire)"
  by (subst flatten_loop.simps) (simp add: flatten_round_def)

lemma flatten_visit:
  "flatten_loop h wire A (Visit v # rest) =
     (case flat_visit_of h A v of
        Cannot_Cross \<Rightarrow> Some None
      | Scalar t \<Rightarrow> flatten_loop h (wire @ [t]) A rest
      | Container marker p vs \<Rightarrow> flatten_loop h (wire @ [marker]) (p # A) (map Visit vs @ Leave p # rest))"
  by (subst flatten_loop.simps) (simp add: flatten_round_def split: flat_visit.splits)

text \<open>A visit gives a result that does not depend on what came before or comes after.\<close>

definition visits :: "js_heap \<Rightarrow> nat list \<Rightarrow> js_value \<Rightarrow> bool" where
  "visits h A v \<longleftrightarrow> (\<exists>r.
     (\<forall>wire rest. flatten_loop h wire A (Visit v # rest) =
        (case r of None \<Rightarrow> Some None | Some w \<Rightarrow> flatten_loop h (wire @ w) A rest)) \<and>
     (\<forall>w. r = Some w \<longrightarrow> (\<exists>t. represents h v t \<and> w = tokens t)))"

lemma visits_list:
  assumes "\<forall>v \<in> set vs. visits h A v"
  shows "\<exists>r. (\<forall>wire rest. flatten_loop h wire A (map Visit vs @ rest) =
        (case r of None \<Rightarrow> Some None | Some w \<Rightarrow> flatten_loop h (wire @ w) A rest)) \<and>
     (\<forall>w. r = Some w \<longrightarrow> (\<exists>ts. list_all2 (represents h) vs ts \<and> w = concat (map tokens ts)))"
  using assms
proof (induction vs)
  case Nil
  show ?case by (rule exI [of _ "Some []"]) simp
next
  case (Cons v vs)
  then obtain r where r:
    "\<And>wire rest. flatten_loop h wire A (Visit v # rest) = (case r of None \<Rightarrow> Some None | Some w \<Rightarrow> flatten_loop h (wire @ w) A rest)"
    "\<And>w. r = Some w \<Longrightarrow> \<exists>t. represents h v t \<and> w = tokens t"
    by (auto simp: visits_def)
  from Cons obtain rs where rs:
    "\<And>wire rest. flatten_loop h wire A (map Visit vs @ rest) = (case rs of None \<Rightarrow> Some None | Some w \<Rightarrow> flatten_loop h (wire @ w) A rest)"
    "\<And>w. rs = Some w \<Longrightarrow> \<exists>ts. list_all2 (represents h) vs ts \<and> w = concat (map tokens ts)"
    by auto
  let ?r = "case r of None \<Rightarrow> None | Some w \<Rightarrow> map_option ((@) w) rs"
  have "flatten_loop h wire A (map Visit (v # vs) @ rest) =
      (case ?r of None \<Rightarrow> Some None | Some w \<Rightarrow> flatten_loop h (wire @ w) A rest)" for wire rest
    by (simp add: r(1) rs(1) split: option.splits)
  moreover have "\<exists>ts. list_all2 (represents h) (v # vs) ts \<and> w = concat (map tokens ts)" if eq: "?r = Some w" for w
  proof -
    obtain w1 w2 where w: "r = Some w1" "rs = Some w2" "w = w1 @ w2"
      using eq by (cases r; cases rs) auto
    obtain t where "represents h v t" "w1 = tokens t" using r(2) [OF w(1)] by blast
    moreover obtain ts where "list_all2 (represents h) vs ts" "w2 = concat (map tokens ts)" using rs(2) [OF w(2)] by blast
    ultimately show ?thesis using w(3) by (intro exI [of _ "t # ts"]) simp
  qed
  ultimately show ?case by blast
qed

lemma visits_container:
  assumes here: "flat_visit_of h A v = Container marker p vs" "p \<notin> set A"
    and children: "\<forall>v \<in> set vs. visits h (p # A) v"
    and tree: "\<And>ts. list_all2 (represents h) vs ts \<Longrightarrow> \<exists>t. represents h v t \<and> tokens t = marker # concat (map tokens ts)"
  shows "visits h A v"
proof -
  obtain r where r:
    "\<And>wire rest. flatten_loop h wire (p # A) (map Visit vs @ rest) =
       (case r of None \<Rightarrow> Some None | Some w \<Rightarrow> flatten_loop h (wire @ w) (p # A) rest)"
    "\<And>w. r = Some w \<Longrightarrow> \<exists>ts. list_all2 (represents h) vs ts \<and> w = concat (map tokens ts)"
    using visits_list [OF children] by blast
  have restored: "removeAll p A = A" using here(2) by (simp add: removeAll_id)
  have "flatten_loop h wire A (Visit v # rest) =
      (case map_option ((#) marker) r of None \<Rightarrow> Some None | Some w \<Rightarrow> flatten_loop h (wire @ w) A rest)" for wire rest
    by (simp add: flatten_visit here(1) r(1) restored split: option.splits)
  moreover have "\<exists>t. represents h v t \<and> w = tokens t" if "map_option ((#) marker) r = Some w" for w
    using that r(2) tree by (cases r) (auto, metis)
  ultimately show ?thesis unfolding visits_def by blast
qed

lemma visits_simple:
  "flat_visit_of h A v = Cannot_Cross \<Longrightarrow> visits h A v"
  "flat_visit_of h A v = Scalar t \<Longrightarrow> represents h v t \<Longrightarrow> tokens t = [t] \<Longrightarrow> visits h A v"
  unfolding visits_def
  by (rule exI [of _ None], simp add: flatten_visit)
     (rule exI [of _ "Some [t]"], auto simp: flatten_visit)

lemma scalar_tree: "flat_visit_of h A v = Scalar t \<Longrightarrow> represents h v t \<and> tokens t = [t]"
  by (auto simp: flat_visit_of_def intro: represents.intros
      split: js_value.splits ptc_number.splits if_splits js_object.splits option.splits)

lemma tokens_zip: "length ks = length ts \<Longrightarrow> map (\<lambda>f. tokens (snd f)) (zip ks ts) = map tokens ts"
  by (induction ks ts rule: list_induct2) auto

lemma container_tree:
  assumes "heap_ok h" "flat_visit_of h A v = Container marker p vs" "list_all2 (represents h) vs ts"
  shows "\<exists>t. represents h v t \<and> tokens t = marker # concat (map tokens ts)"
proof (cases v)
  case (V_Ref q)
  with assms(2) have q: "q < length h" "p = q" by (auto simp: flat_visit_of_def split: if_splits js_object.splits option.splits)
  show ?thesis
  proof (cases "h ! q")
    case (Array_Object plain es extra)
    then have es: "plain" "None \<notin> set es" "marker = array_marker (length es)" "vs = map the es"
      "length (filter (\<lambda>e. e \<noteq> None) es) + extra = length es"
      using assms(2) V_Ref by (auto simp: flat_visit_of_def split: if_splits)
    have "filter (\<lambda>e. e \<noteq> None) es = es" by (intro filter_True ballI) (use es(2) in metis)
    then have "extra = 0" using es(5) by simp
    moreover have "map (\<lambda>e. Some (the e)) es = es" by (rule map_idI) (use es(2) in \<open>metis option.exhaust_sel\<close>)
    then have "map Some vs = es" using es(4) by (simp add: comp_def)
    ultimately have "represents h v (PJ_Arr ts)"
      using V_Ref q(1) Array_Object es(1) assms(3) by (auto intro: Arr)
    moreover have "tokens (PJ_Arr ts) = marker # concat (map tokens ts)"
      using es(3,4) list_all2_lengthD [OF assms(3)] by simp
    ultimately show ?thesis by blast
  next
    case (Plain_Object ps)
    then obtain ks where ks: "named_keys ps = Some ks" "marker = object_marker ks" "vs = map op_value ps"
      using assms(2) V_Ref by (auto simp: flat_visit_of_def split: if_splits option.splits)
    have "Plain_Object ps \<in> set h" using q(1) Plain_Object by (metis nth_mem)
    then have "distinct ks" using assms(1) named_keys_distinct [OF ks(1)] by (auto simp: heap_ok_def)
    moreover have len: "length ks = length ts"
      using named_keys_length [OF ks(1)] list_all2_lengthD [OF assms(3)] ks(3) by simp
    ultimately have "represents h v (PJ_Obj (zip ks ts))"
      unfolding V_Ref using q(1) Plain_Object named_keys_props [OF ks(1)] assms(3) ks(3) by (intro Obj) auto
    moreover have "map (\<lambda>f. tokens (snd f)) (zip ks ts) = map tokens ts"
      using len by (rule tokens_zip)
    ultimately show ?thesis using len ks(2) by (intro exI [of _ "PJ_Obj (zip ks ts)"]) (simp add: comp_def)
  qed (use assms(2) V_Ref in \<open>auto simp: flat_visit_of_def split: if_splits\<close>)
qed (use assms(2) in \<open>auto simp: flat_visit_of_def split: ptc_number.splits\<close>)

lemma container_open: "flat_visit_of h A v = Container marker p vs \<Longrightarrow> p < length h \<and> p \<notin> set A"
  by (auto simp: flat_visit_of_def split: js_value.splits ptc_number.splits if_splits js_object.splits option.splits)

lemma visits_all:
  assumes "heap_ok h"
  shows "visits h A v"
proof (induction "card ({..<length h} - set A)" arbitrary: A v rule: less_induct)
  case (less A v)
  show ?case
  proof (cases "flat_visit_of h A v")
    case (Container marker p vs)
    then have p: "p < length h" "p \<notin> set A" using container_open by blast+
    have "card ({..<length h} - set (p # A)) < card ({..<length h} - set A)"
      using p by (intro psubset_card_mono) auto
    then have "\<forall>v \<in> set vs. visits h (p # A) v" using less by blast
    then show ?thesis using visits_container [OF Container p(2)] container_tree [OF assms Container] by blast
  qed (use visits_simple scalar_tree in blast)+
qed

text \<open>C37: flattening a value ends, also on a value that holds itself, and nothing that is not a lossless
  JSON tree crosses: what it gives, if anything, are the tokens of a tree the value is.\<close>

theorem flatten_ends_sound:
  assumes "heap_ok h"
  shows "\<exists>r. flatten h v = Some r \<and> (\<forall>w. r = Some w \<longrightarrow> (\<exists>t. represents h v t \<and> w = tokens t))"
proof -
  have "visits h [] v" using assms by (rule visits_all)
  then obtain r where r:
    "\<And>wire rest. flatten_loop h wire [] (Visit v # rest) = (case r of None \<Rightarrow> Some None | Some w \<Rightarrow> flatten_loop h (wire @ w) [] rest)"
    "\<And>w. r = Some w \<Longrightarrow> \<exists>t. represents h v t \<and> w = tokens t"
    unfolding visits_def by blast
  have "flatten h v = Some r" by (simp add: flatten_def r(1) split: option.splits)
  then show ?thesis using r(2) by blast
qed

text \<open>A list that holds itself.\<close>

theorem flatten_ends_sound_witness:
  "\<exists>r. flatten [Array_Object True [Some (V_Ref 0)] 0] (V_Ref 0) = Some r \<and>
     (\<forall>w. r = Some w \<longrightarrow> (\<exists>t. represents [Array_Object True [Some (V_Ref 0)] 0] (V_Ref 0) t \<and> w = tokens t))"
  by (rule flatten_ends_sound) (simp add: heap_ok_def)

subsection \<open>Flattening is complete\<close>

inductive_cases represents_Ref: "represents h (V_Ref p) t"

lemma list_all2_unique:
  "list_all2 (\<lambda>v t. \<forall>t'. represents h v t' \<longrightarrow> t' = t) vs ts \<Longrightarrow> list_all2 (represents h) vs ts' \<Longrightarrow> ts' = ts"
  by (induction vs ts arbitrary: ts' rule: list_all2_induct) (auto simp: list_all2_Cons1)

lemma map2_property_inject:
  "length ks = length vs \<Longrightarrow> length ks' = length vs' \<Longrightarrow>
     map2 (\<lambda>k v. \<lparr>op_key = Named k, op_enumerable = True, op_value = v\<rparr>) ks vs =
     map2 (\<lambda>k v. \<lparr>op_key = Named k, op_enumerable = True, op_value = v\<rparr>) ks' vs' \<Longrightarrow> ks = ks' \<and> vs = vs'"
  using named_keys_map2 [of ks vs] named_keys_map2 [of ks' vs'] by (metis option.inject)

lemma represents_array:
  assumes "represents h (V_Ref p) t" "h ! p = Array_Object True (map Some vs) 0"
  obtains ts where "t = PJ_Arr ts" "list_all2 (represents h) vs ts"
  using assms(1)
proof (rule represents_Ref)
  fix vs' ts assume "t = PJ_Arr ts" "h ! p = Array_Object True (map Some vs') 0" "list_all2 (represents h) vs' ts"
  moreover from this have "vs' = vs" using assms(2) by (simp add: inj_map_eq_map)
  ultimately show thesis using that by blast
qed (use assms(2) in simp)

lemma represents_object:
  assumes "represents h (V_Ref p) t" "length ks = length vs"
    and "h ! p = Plain_Object (map2 (\<lambda>k v. \<lparr>op_key = Named k, op_enumerable = True, op_value = v\<rparr>) ks vs)"
  obtains ts where "t = PJ_Obj (zip ks ts)" "list_all2 (represents h) vs ts"
  using assms(1)
proof (rule represents_Ref)
  fix ks' vs' ts
  assume t: "t = PJ_Obj (zip ks' ts)" "list_all2 (represents h) vs' ts" "length ks' = length ts"
    and cell: "h ! p = Plain_Object (map2 (\<lambda>k v. \<lparr>op_key = Named k, op_enumerable = True, op_value = v\<rparr>) ks' vs')"
  have "length ks' = length vs'" using t(2,3) by (simp add: list_all2_lengthD)
  then have "ks = ks' \<and> vs = vs'" using map2_property_inject [OF assms(2)] assms(3) cell by simp
  then show thesis using that t by blast
qed (use assms(3) in simp)

lemma represents_unique: "represents h v t \<Longrightarrow> represents h v t' \<Longrightarrow> t' = t"
proof (induction arbitrary: t' rule: represents.induct)
  case (Arr p vs ts)
  then obtain ts' where "t' = PJ_Arr ts'" "list_all2 (represents h) vs ts'" using represents_array by blast
  moreover have "list_all2 (\<lambda>v t. \<forall>t'. represents h v t' \<longrightarrow> t' = t) vs ts"
    using Arr.IH by (rule list_all2_mono) blast
  ultimately show ?case using list_all2_unique by blast
next
  case (Obj p ks vs ts)
  have "length ks = length vs" using list_all2_lengthD [OF Obj.IH] Obj.hyps by simp
  then obtain ts' where "t' = PJ_Obj (zip ks ts')" "list_all2 (represents h) vs ts'"
    using represents_object [OF Obj.prems] Obj.hyps by blast
  moreover have "list_all2 (\<lambda>v t. \<forall>t'. represents h v t' \<longrightarrow> t' = t) vs ts"
    using Obj.IH by (rule list_all2_mono) blast
  ultimately show ?case using list_all2_unique by blast
qed (auto elim: represents.cases)

text \<open>The containers the walk is inside of represent larger trees.\<close>

definition above :: "js_heap \<Rightarrow> nat list \<Rightarrow> ptc_json \<Rightarrow> bool" where
  "above h A t \<longleftrightarrow> (\<forall>p \<in> set A. \<exists>t'. represents h (V_Ref p) t' \<and> size t < size t')"

definition flattens :: "js_heap \<Rightarrow> nat list \<Rightarrow> js_value \<Rightarrow> ptc_json \<Rightarrow> bool" where
  "flattens h A v t \<longleftrightarrow> (\<forall>wire rest. flatten_loop h wire A (Visit v # rest) = flatten_loop h (wire @ tokens t) A rest)"

lemma flattens_list:
  "list_all2 (flattens h A) vs ts \<Longrightarrow>
     flatten_loop h wire A (map Visit vs @ rest) = flatten_loop h (wire @ concat (map tokens ts)) A rest"
  by (induction vs ts arbitrary: wire rule: list_all2_induct) (auto simp: flattens_def)

lemma above_not_in: "above h A t \<Longrightarrow> represents h (V_Ref p) t \<Longrightarrow> p \<notin> set A"
  using represents_unique by (fastforce simp: above_def)

lemma above_child: "above h A t \<Longrightarrow> represents h (V_Ref p) t \<Longrightarrow> size s < size t \<Longrightarrow> above h (p # A) s"
  by (auto simp: above_def) (meson less_trans)

lemma flattens_container:
  assumes "flat_visit_of h A (V_Ref p) = Container marker p vs" "p \<notin> set A"
    and "list_all2 (flattens h (p # A)) vs ts" "tokens t = marker # concat (map tokens ts)"
  shows "flattens h A (V_Ref p) t"
  using assms flattens_list [OF assms(3)] by (simp add: flattens_def flatten_visit)

lemma size_zip: "length ks = length ts \<Longrightarrow> t \<in> set ts \<Longrightarrow> size t < size (PJ_Obj (zip ks ts))"
proof -
  assume len: "length ks = length ts" and "t \<in> set ts"
  then obtain k where "(k, t) \<in> set (zip ks ts)" by (metis in_set_impl_in_set_zip2)
  then have "size_prod (\<lambda>x. 0) size (k, t) \<le> size_list (size_prod (\<lambda>x. 0) size) (zip ks ts)"
    by (rule size_list_estimation') simp
  then show ?thesis by simp
qed

lemma list_all2_upgrade:
  "list_all2 (\<lambda>v t. represents h v t \<and> (\<forall>A. above h A t \<longrightarrow> flattens h A v t)) vs ts \<Longrightarrow>
     \<forall>t \<in> set ts. above h A t \<Longrightarrow> list_all2 (flattens h A) vs ts"
  by (induction vs ts rule: list_all2_induct) auto

lemma represents_flattens: "represents h v t \<Longrightarrow> above h A t \<Longrightarrow> flattens h A v t"
proof (induction arbitrary: A rule: represents.induct)
  case (Arr p vs ts)
  have rep: "represents h (V_Ref p) (PJ_Arr ts)"
    using Arr.hyps Arr.IH by (intro represents.Arr) (auto elim: list_all2_mono)
  have len: "length vs = length ts" using Arr.IH by (rule list_all2_lengthD)
  have out: "p \<notin> set A" using above_not_in [OF Arr.prems rep] .
  have "size t < size (PJ_Arr ts)" if "t \<in> set ts" for t using size_list_estimation' [OF that, of "size t" size] by simp
  then have "\<forall>t \<in> set ts. above h (p # A) t" using above_child [OF Arr.prems rep] by blast
  then have children: "list_all2 (flattens h (p # A)) vs ts" using Arr.IH list_all2_upgrade by blast
  have "flat_visit_of h A (V_Ref p) = Container (array_marker (length ts)) p vs"
    using Arr.hyps out len by (auto simp: flat_visit_of_def comp_def filter_True)
  then show ?case using out children by (rule flattens_container) simp
next
  case (Obj p ks vs ts)
  have rep: "represents h (V_Ref p) (PJ_Obj (zip ks ts))"
    using Obj.hyps Obj.IH by (intro represents.Obj) (auto elim: list_all2_mono)
  have len: "length vs = length ts" using Obj.IH by (rule list_all2_lengthD)
  have out: "p \<notin> set A" using above_not_in [OF Obj.prems rep] .
  have "\<forall>t \<in> set ts. above h (p # A) t" using above_child [OF Obj.prems rep] size_zip Obj.hyps by blast
  then have children: "list_all2 (flattens h (p # A)) vs ts" using Obj.IH list_all2_upgrade by blast
  have "flat_visit_of h A (V_Ref p) = Container (object_marker ks) p vs"
    using Obj.hyps out len named_keys_map2 [of ks vs] by (auto simp: flat_visit_of_def)
  moreover have "map (\<lambda>f. tokens (snd f)) (zip ks ts) = map tokens ts"
    using Obj.hyps by (intro tokens_zip) simp
  ultimately show ?case using out children Obj.hyps by (intro flattens_container) auto
qed (auto simp: flattens_def flatten_visit flat_visit_of_def)

lemma flatten_complete: "represents h v t \<Longrightarrow> flatten h v = Some (Some (tokens t))"
  using represents_flattens [of h v t "[]"] by (simp add: above_def flattens_def flatten_def)

end
