(* ===== verification/Ptc_Reader.thy ===== *)
theory Ptc_Reader
  imports Ptc_Roundtrip
begin

section \<open>The value codec: reading back\<close>

text \<open>
  The loop of \<open>unflatten\<close> keeps the variable of its last frame from token to token, and so pushes a
  frame that is already on the stack, or a finished one, again and again. A reader without the
  variable, whose stack holds the frames themselves, gives the same for every input; that reader is
  shown to build the tree of the tokens.
\<close>

subsection \<open>A reader without the variable\<close>

record rd_state =
  rd_heap :: js_heap
  rd_stack :: "uf_frame list"
  rd_root :: "js_value option"

definition pop_closed :: "uf_frame list \<Rightarrow> uf_frame list" where
  "pop_closed fs = dropWhile (\<lambda>f. \<not> open_frame f) fs"

definition read_step :: "nat \<Rightarrow> ptc_json \<Rightarrow> rd_state \<Rightarrow> rd_state option" where
  "read_step remaining token r =
     (case read_token (rd_heap r) remaining token of
        None \<Rightarrow> None
      | Some (v, h, opened) \<Rightarrow>
          (let new = (case opened of None \<Rightarrow> [] | Some g \<Rightarrow> [g]) in
           case rd_stack r of
             [] \<Rightarrow> (if rd_root r \<noteq> None then None else Some \<lparr>rd_heap = h, rd_stack = pop_closed new, rd_root = Some v\<rparr>)
           | f # fs \<Rightarrow>
               (if open_frame f
                then Some \<lparr>rd_heap = add_child f v h, rd_stack = pop_closed (new @ bump f # fs), rd_root = rd_root r\<rparr>
                else None)))"

fun read_run :: "ptc_json list \<Rightarrow> rd_state \<Rightarrow> rd_state option" where
  "read_run [] r = Some r"
| "read_run (t # ts) r = (case read_step (length ts) t r of None \<Rightarrow> None | Some r' \<Rightarrow> read_run ts r')"

definition rd_start :: rd_state where
  "rd_start = \<lparr>rd_heap = [], rd_stack = [], rd_root = None\<rparr>"

definition read_back :: "ptc_json list \<Rightarrow> (js_heap \<times> js_value) option" where
  "read_back ts =
     (if ts = [] then None
      else case read_run ts rd_start of
             None \<Rightarrow> None
           | Some r \<Rightarrow> if rd_stack r = [] then Some (rd_heap r, the (rd_root r)) else None)"

subsection \<open>The variable makes no difference\<close>

text \<open>The stack of the loop is the frames of the reader, each possibly several times in a row; the variable
  holds a finished frame or the top one.\<close>

definition same_reader :: "uf_state \<Rightarrow> rd_state \<Rightarrow> bool" where
  "same_reader s r \<longleftrightarrow>
     uf_heap s = rd_heap r \<and> uf_root s = rd_root r \<and>
     (\<forall>i \<in> set (uf_stack s). i < length (uf_store s)) \<and>
     distinct (remdups_adj (uf_stack s)) \<and>
     map ((!) (uf_store s)) (remdups_adj (uf_stack s)) = rd_stack r \<and>
     (\<forall>j. uf_frame_var s = Some j \<longrightarrow>
        j < length (uf_store s) \<and> (open_frame (uf_store s ! j) \<longrightarrow> uf_stack s \<noteq> [] \<and> hd (uf_stack s) = j))"

lemma remdups_adj_dropWhile_id: "remdups_adj (dropWhile P xs) = dropWhile P (remdups_adj xs)"
  by (induction xs rule: remdups_adj.induct) auto

lemma hd_remdups: "hd (remdups_adj xs) = hd xs"
  by (induction xs rule: remdups_adj.induct) auto

lemma remdups_push: "remdups_adj (x # xs) = (if xs \<noteq> [] \<and> hd xs = x then remdups_adj xs else x # remdups_adj xs)"
  by (cases xs) auto

lemma dropWhile_distinct: "distinct xs \<Longrightarrow> distinct (dropWhile P xs)"
  by (induction xs) auto

lemma pop_map: "pop_closed (map f xs) = map f (dropWhile (\<lambda>x. \<not> open_frame (f x)) xs)"
  by (induction xs) (auto simp: pop_closed_def)

lemma read_token_open: "read_token h n t = Some (v, h', Some g) \<Longrightarrow> open_frame g"
  by (auto simp: read_token_def open_frame_def split: ptc_json.splits ptc_number.splits option.splits marker.splits if_splits)

lemma open_bump: "open_frame (bump f) \<Longrightarrow> open_frame f"
  by (simp add: open_frame_def bump_def)

lemma same_start: "same_reader uf_start rd_start"
  by (simp add: same_reader_def uf_start_def rd_start_def)

lemma push_same:
  assumes "\<forall>j. var = Some j \<longrightarrow> P j \<or> stk \<noteq> [] \<and> hd stk = j"
  shows "remdups_adj (dropWhile P (case var of None \<Rightarrow> stk | Some j \<Rightarrow> j # stk)) = dropWhile P (remdups_adj stk)"
  using assms by (cases var) (auto simp: remdups_adj_dropWhile_id remdups_push hd_remdups dropWhile_hd)

text \<open>The end of a round that opened no frame, and of one that did, on the frames as the store has them
  then.\<close>

lemma close_same:
  assumes "\<forall>i \<in> set stk. i < length st" "distinct (remdups_adj stk)"
    and "\<forall>j. var = Some j \<longrightarrow> j < length st \<and> (open_frame (st ! j) \<longrightarrow> stk \<noteq> [] \<and> hd stk = j)"
    and "stk' = dropWhile (\<lambda>i. \<not> open_frame (st ! i)) (case var of None \<Rightarrow> stk | Some j \<Rightarrow> j # stk)"
  shows "same_reader \<lparr>uf_heap = h, uf_store = st, uf_stack = stk', uf_frame_var = var, uf_root = root\<rparr>
    \<lparr>rd_heap = h, rd_stack = pop_closed (map ((!) st) (remdups_adj stk)), rd_root = root\<rparr>"
proof -
  have eq: "remdups_adj stk' = dropWhile (\<lambda>i. \<not> open_frame (st ! i)) (remdups_adj stk)"
    unfolding assms(4) using assms(3) by (intro push_same) blast
  have "set stk' \<subseteq> set (case var of None \<Rightarrow> stk | Some j \<Rightarrow> j # stk)" unfolding assms(4) by (meson set_dropWhileD subsetI)
  then have "\<forall>i \<in> set stk'. i < length st" using assms(1,3) by (auto split: option.splits)
  moreover have "stk' \<noteq> [] \<and> hd stk' = j" if "var = Some j" "open_frame (st ! j)" for j
    using that assms(4) by simp
  ultimately show ?thesis
    using assms(2,3) eq by (auto simp: same_reader_def pop_map dropWhile_distinct)
qed

lemma open_same:
  assumes "\<forall>i \<in> set stk. i < length st" "distinct (remdups_adj stk)" "open_frame g"
  shows "same_reader
    \<lparr>uf_heap = h, uf_store = st @ [g], uf_stack = length st # stk, uf_frame_var = Some (length st), uf_root = root\<rparr>
    \<lparr>rd_heap = h, rd_stack = pop_closed (g # map ((!) st) (remdups_adj stk)), rd_root = root\<rparr>"
proof -
  have new: "length st \<notin> set stk" using assms(1) by auto
  then have "remdups_adj (length st # stk) = length st # remdups_adj stk"
    by (cases stk) (auto simp: remdups_push)
  moreover have "map ((!) (st @ [g])) (remdups_adj stk) = map ((!) st) (remdups_adj stk)"
    using assms(1) by (intro map_cong) (auto simp: nth_append)
  ultimately show ?thesis
    using assms new by (auto simp: same_reader_def pop_closed_def nth_append less_Suc_eq)
qed

lemma bumped_frames:
  assumes "remdups_adj stk = i # ks" "distinct (i # ks)" "i < length st" "\<forall>k \<in> set ks. k < length st"
  shows "map ((!) (st[i := bump (st ! i)])) (remdups_adj stk) = bump (st ! i) # map ((!) st) ks"
  using assms by (auto simp: nth_list_update intro!: map_cong)

lemma same_step:
  assumes same: "same_reader s r"
  shows "case unflatten_step n t s of
      None \<Rightarrow> read_step n t r = None
    | Some s' \<Rightarrow> \<exists>r'. read_step n t r = Some r' \<and> same_reader s' r'"
proof (cases "read_token (rd_heap r) n t")
  case None
  with same show ?thesis by (simp add: unflatten_step_def read_step_def same_reader_def)
next
  case (Some a)
  then obtain v h opened where tok: "read_token (rd_heap r) n t = Some (v, h, opened)" by (cases a) auto
  obtain hp st stk var root where s: "s = \<lparr>uf_heap = hp, uf_store = st, uf_stack = stk, uf_frame_var = var, uf_root = root\<rparr>"
    by (cases s)
  obtain frames where r: "r = \<lparr>rd_heap = hp, rd_stack = frames, rd_root = root\<rparr>"
    using same by (cases r) (simp add: same_reader_def s)
  have inv: "\<forall>i \<in> set stk. i < length st" "distinct (remdups_adj stk)" "map ((!) st) (remdups_adj stk) = frames"
    "\<forall>j. var = Some j \<longrightarrow> j < length st \<and> (open_frame (st ! j) \<longrightarrow> stk \<noteq> [] \<and> hd stk = j)"
    using same by (auto simp: same_reader_def s r)
  have tok': "read_token hp n t = Some (v, h, opened)" using tok r by simp
  show ?thesis
  proof (cases stk)
    case Nil
    then have frames: "frames = []" using inv(3) by simp
    show ?thesis
    proof (cases opened)
      case None
      show ?thesis
        using close_same [OF inv(1,2,4) refl, of h "Some v"] tok' None Nil frames
        by (auto simp: unflatten_step_def read_step_def s r attach_def Let_def cong: option.case_cong)
    next
      case (Some g)
      have "open_frame g" using tok' Some read_token_open by blast
      from open_same [OF inv(1,2) this, of h "Some v"] this show ?thesis
        using tok' Some Nil frames by (auto simp: unflatten_step_def read_step_def s r attach_def Let_def)
    qed
  next
    case (Cons i rest)
    have "remdups_adj stk \<noteq> []" "hd (remdups_adj stk) = i" using Cons hd_remdups [of stk] by (simp_all add: remdups_push)
    then obtain ks where ks: "remdups_adj stk = i # ks" by (cases "remdups_adj stk") auto
    have f: "frames = st ! i # map ((!) st) ks" using inv(3) ks by simp
    have members: "set (remdups_adj stk) = set stk" by simp
    have i: "i < length st" "\<forall>k \<in> set ks. k < length st" "distinct (i # ks)" using inv(1,2) ks members by auto
    let ?st = "st[i := bump (st ! i)]"
    have frames': "map ((!) ?st) (remdups_adj stk) = bump (st ! i) # map ((!) st) ks"
      using bumped_frames [OF ks i(3,1,2)] .
    have var': "\<forall>j. var = Some j \<longrightarrow> j < length ?st \<and> (open_frame (?st ! j) \<longrightarrow> stk \<noteq> [] \<and> hd stk = j)"
      using inv(4) i(1) open_bump by (auto simp: nth_list_update split: if_splits)
    show ?thesis
    proof (cases "open_frame (st ! i)")
      case True
      show ?thesis
      proof (cases opened)
        case None
        have "same_reader \<lparr>uf_heap = add_child (st ! i) v h, uf_store = ?st,
            uf_stack = dropWhile (\<lambda>i. \<not> open_frame (?st ! i)) (case var of None \<Rightarrow> stk | Some j \<Rightarrow> j # stk),
            uf_frame_var = var, uf_root = root\<rparr>
          \<lparr>rd_heap = add_child (st ! i) v h, rd_stack = pop_closed (bump (st ! i) # map ((!) st) ks), rd_root = root\<rparr>"
          using close_same [OF _ inv(2) var' refl, of "add_child (st ! i) v h" root] inv(1) frames' by simp
        then show ?thesis
          using tok' None True f Cons
          by (auto simp: unflatten_step_def read_step_def s r attach_def Let_def cong: option.case_cong)
      next
        case (Some g)
        then have g: "open_frame g" using tok' read_token_open by blast
        have "same_reader \<lparr>uf_heap = add_child (st ! i) v h, uf_store = ?st @ [g], uf_stack = length ?st # stk,
            uf_frame_var = Some (length ?st), uf_root = root\<rparr>
          \<lparr>rd_heap = add_child (st ! i) v h, rd_stack = pop_closed (g # bump (st ! i) # map ((!) st) ks), rd_root = root\<rparr>"
          using open_same [OF _ inv(2) g, of ?st "add_child (st ! i) v h" root] inv(1) frames' by simp
        moreover have "(st @ [g])[i := bump (st ! i)] = ?st @ [g]" using i(1) by (simp add: list_update_append)
        ultimately show ?thesis
          using tok' Some True f Cons g i(1)
          by (auto simp: unflatten_step_def read_step_def s r attach_def Let_def nth_append)
      qed
    next
      case False
      then show ?thesis
        using tok' f Cons i(1)
        by (auto simp: unflatten_step_def read_step_def s r attach_def Let_def nth_append split: option.splits)
    qed
  qed
qed

lemma same_run:
  "same_reader s r \<Longrightarrow> case unflatten_run ts s of
      None \<Rightarrow> read_run ts r = None
    | Some s' \<Rightarrow> \<exists>r'. read_run ts r = Some r' \<and> same_reader s' r'"
proof (induction ts arbitrary: s r)
  case (Cons t ts)
  show ?case
  proof (cases "unflatten_step (length ts) t s")
    case (Some s')
    with same_step [OF Cons.prems, of "length ts" t] obtain r' where
      "read_step (length ts) t r = Some r'" "same_reader s' r'" by auto
    with Some Cons.IH [of s' r'] show ?thesis by (auto split: option.splits)
  qed (use same_step [OF Cons.prems, of "length ts" t] in simp)
qed simp

text \<open>C40: the variable that keeps the last frame makes no difference: for every list of tokens, also a
  malformed one, the loop answers what the reader without it answers.\<close>

theorem stale_frame_harmless: "unflatten ts = read_back ts"
proof -
  have "same_reader s' r' \<Longrightarrow> uf_heap s' = rd_heap r' \<and> uf_root s' = rd_root r' \<and> (uf_stack s' = [] \<longleftrightarrow> rd_stack r' = [])" for s' r'
    by (auto simp: same_reader_def)
  then show ?thesis
    using same_run [OF same_start, of ts]
    by (cases "unflatten_run ts uf_start") (fastforce simp: unflatten_def read_back_def)+
qed

subsection \<open>The tree is built\<close>

text \<open>\<open>built h lo v t\<close>: the value is the tree, in cells from \<open>lo\<close> on.\<close>

inductive built :: "js_heap \<Rightarrow> nat \<Rightarrow> js_value \<Rightarrow> ptc_json \<Rightarrow> bool" for h lo where
  BNull: "built h lo V_Null PJ_Null"
| BBool: "built h lo (V_Bool b) (PJ_Bool b)"
| BNum: "built h lo (V_Num (Finite x)) (PJ_Num (Finite x))"
| BStr: "built h lo (V_Str s) (PJ_Str s)"
| BArr: "lo \<le> p \<Longrightarrow> p < length h \<Longrightarrow> h ! p = Array_Object True (map Some vs) 0 \<Longrightarrow> list_all2 (built h lo) vs ts \<Longrightarrow>
    built h lo (V_Ref p) (PJ_Arr ts)"
| BObj: "lo \<le> p \<Longrightarrow> p < length h \<Longrightarrow>
    h ! p = Plain_Object (map2 (\<lambda>k v. \<lparr>op_key = Named k, op_enumerable = True, op_value = v\<rparr>) ks vs) \<Longrightarrow>
    distinct ks \<Longrightarrow> length ks = length ts \<Longrightarrow> list_all2 (built h lo) vs ts \<Longrightarrow>
    built h lo (V_Ref p) (PJ_Obj (zip ks ts))"

lemma built_represents: "built h lo v t \<Longrightarrow> represents h v t"
proof (induction rule: built.induct)
  case (BArr p vs ts)
  then show ?case by (intro Arr) (auto elim: list_all2_mono)
next
  case (BObj p ks vs ts)
  then show ?case by (intro Obj) (auto elim: list_all2_mono)
qed (auto intro: represents.intros)

lemma built_extend:
  "built h lo v t \<Longrightarrow> lo' \<le> lo \<Longrightarrow> length h \<le> length h' \<Longrightarrow> \<forall>p. lo \<le> p \<and> p < length h \<longrightarrow> h' ! p = h ! p \<Longrightarrow> built h' lo' v t"
proof (induction rule: built.induct)
  case (BArr p vs ts)
  then show ?case by (intro built.BArr) (auto elim: list_all2_mono)
next
  case (BObj p ks vs ts)
  then show ?case by (intro built.BObj) (auto elim: list_all2_mono)
qed (auto intro: built.intros)

lemma built_list_extend:
  "list_all2 (built h lo) vs ts \<Longrightarrow> lo' \<le> lo \<Longrightarrow> length h \<le> length h' \<Longrightarrow>
     \<forall>p. lo \<le> p \<and> p < length h \<longrightarrow> h' ! p = h ! p \<Longrightarrow> list_all2 (built h' lo') vs ts"
  by (erule list_all2_mono) (rule built_extend)

text \<open>A tree that can cross: distinct keys, finite numbers, lengths that are safe integers.\<close>

fun lossless :: "ptc_json \<Rightarrow> bool" where
  "lossless (PJ_Num n) \<longleftrightarrow> (\<exists>x. n = Finite x)"
| "lossless (PJ_Arr ts) \<longleftrightarrow> length ts < 2 ^ 53 \<and> (\<forall>t \<in> set ts. lossless t)"
| "lossless (PJ_Obj fs) \<longleftrightarrow> distinct (map fst fs) \<and> (\<forall>f \<in> set fs. lossless (snd f))"
| "lossless t \<longleftrightarrow> True"

lemma units_differ: "units_of ''array'' \<noteq> units_of ''object''" "units_of ''kind'' \<noteq> units_of ''length''" "units_of ''kind'' \<noteq> units_of ''keys''"
  by (simp_all add: units_of_def)

lemma string_items_map: "string_items (map PJ_Str ks) = Some ks"
  by (induction ks) auto

lemma marker_of_array: "n < 2 ^ 53 \<Longrightarrow> containerMarker (array_marker n) = Some (Array_Of n)"
  using units_differ by (simp add: containerMarker_def array_marker_def safe_length_def)

lemma marker_of_object: "distinct ks \<Longrightarrow> containerMarker (object_marker ks) = Some (Object_Of ks)"
  using units_differ by (simp add: containerMarker_def object_marker_def string_items_map)

lemma tokens_length: "0 < length (tokens t)"
  by (cases t) auto

lemma tokens_length_list: "length ts \<le> length (concat (map tokens ts))"
proof (induction ts)
  case (Cons t ts)
  then show ?case using tokens_length [of t] by (cases "tokens t") auto
qed simp

text \<open>A cell with further children, and a frame that has taken some.\<close>

definition cell_add :: "uf_frame \<Rightarrow> js_value \<Rightarrow> js_object \<Rightarrow> js_object" where
  "cell_add f v c =
     (case c of
        Array_Object plain es extra \<Rightarrow> Array_Object plain (es @ [Some v]) extra
      | Plain_Object ps \<Rightarrow> Plain_Object (ps @ [\<lparr>op_key = Named (fr_keys f ! fr_index f), op_enumerable = True, op_value = v\<rparr>])
      | Class_Object k ps \<Rightarrow> Class_Object k ps)"

lemma add_child_cell: "add_child f v h = h[fr_target f := cell_add f v (h ! fr_target f)]"
  by (simp add: add_child_def cell_add_def)

fun cell_add_all :: "uf_frame \<Rightarrow> js_value list \<Rightarrow> js_object \<Rightarrow> js_object" where
  "cell_add_all f [] c = c"
| "cell_add_all f (v # vs) c = cell_add_all (bump f) vs (cell_add f v c)"

definition advance :: "nat \<Rightarrow> uf_frame \<Rightarrow> uf_frame" where
  "advance n f = f\<lparr>fr_index := fr_index f + n\<rparr>"

lemma advance_simps [simp]: "advance 0 f = f" "advance n (bump f) = advance (Suc n) f" "fr_target (advance n f) = fr_target f"
  "fr_length (bump f) = fr_length f" "fr_index (bump f) = Suc (fr_index f)" "fr_target (bump f) = fr_target f" "fr_keys (bump f) = fr_keys f"
  by (simp_all add: advance_def bump_def)

lemma cell_add_array: "cell_add_all f vs (Array_Object True (map Some us) 0) = Array_Object True (map Some (us @ vs)) 0"
proof (induction vs arbitrary: f us)
  case (Cons v vs)
  from Cons.IH [of "bump f" "us @ [v]"] show ?case by (simp add: cell_add_def)
qed simp

lemma cell_add_object:
  "fr_index f + length vs \<le> length (fr_keys f) \<Longrightarrow>
     cell_add_all f vs (Plain_Object ps) = Plain_Object (ps @
       map2 (\<lambda>k v. \<lparr>op_key = Named k, op_enumerable = True, op_value = v\<rparr>) (drop (fr_index f) (fr_keys f)) vs)"
proof (induction vs arbitrary: f ps)
  case (Cons v vs)
  then have "drop (fr_index f) (fr_keys f) = fr_keys f ! fr_index f # drop (Suc (fr_index f)) (fr_keys f)"
    by (simp add: Cons_nth_drop_Suc)
  with Cons show ?case by (simp add: cell_add_def)
qed simp

text \<open>Where a value lands: at the root, or as the next child of the top frame.\<close>

definition land :: "js_heap \<Rightarrow> uf_frame list \<Rightarrow> js_value option \<Rightarrow> js_value \<Rightarrow> (js_heap \<times> uf_frame list \<times> js_value option) option" where
  "land h stk root v =
     (case stk of
        [] \<Rightarrow> (if root \<noteq> None then None else Some (h, [], Some v))
      | f # fs \<Rightarrow> (if open_frame f then Some (add_child f v h, bump f # fs, root) else None))"

lemma read_step_land:
  assumes "read_token h n t = Some (v, h1, opened)" "land h1 stk root v = Some (h2, stk2, root2)"
  shows "read_step n t \<lparr>rd_heap = h, rd_stack = stk, rd_root = root\<rparr> =
    Some \<lparr>rd_heap = h2, rd_stack = pop_closed ((case opened of None \<Rightarrow> [] | Some g \<Rightarrow> [g]) @ stk2), rd_root = root2\<rparr>"
  using assms by (cases stk) (auto simp: read_step_def land_def split: if_splits)

fun first_value :: "js_heap \<Rightarrow> ptc_json \<Rightarrow> js_value" where
  "first_value h PJ_Null = V_Null"
| "first_value h (PJ_Bool b) = V_Bool b"
| "first_value h (PJ_Num n) = V_Num n"
| "first_value h (PJ_Str s) = V_Str s"
| "first_value h t = V_Ref (length h)"

fun first_cell :: "ptc_json \<Rightarrow> js_object list" where
  "first_cell (PJ_Arr ts) = [Array_Object True [] 0]"
| "first_cell (PJ_Obj fs) = [Plain_Object []]"
| "first_cell t = []"

definition reads :: "ptc_json \<Rightarrow> bool" where
  "reads t \<longleftrightarrow> (\<forall>rest h stk root h1 stk1 root1.
     land (h @ first_cell t) stk root (first_value h t) = Some (h1, stk1, root1) \<longrightarrow>
     (stk \<noteq> [] \<longrightarrow> fr_target (hd stk) < length h) \<longrightarrow>
     (\<exists>h'. read_run (tokens t @ rest) \<lparr>rd_heap = h, rd_stack = stk, rd_root = root\<rparr> =
             read_run rest \<lparr>rd_heap = h', rd_stack = pop_closed stk1, rd_root = root1\<rparr> \<and>
           length h1 \<le> length h' \<and> (\<forall>p < length h. h' ! p = h1 ! p) \<and> built h' (length h) (first_value h t) t))"

lemma readsD:
  assumes "reads t" "land (h @ first_cell t) stk root (first_value h t) = Some (h1, stk1, root1)"
    "stk \<noteq> [] \<longrightarrow> fr_target (hd stk) < length h"
  obtains h' where "read_run (tokens t @ rest) \<lparr>rd_heap = h, rd_stack = stk, rd_root = root\<rparr> =
      read_run rest \<lparr>rd_heap = h', rd_stack = pop_closed stk1, rd_root = root1\<rparr>"
    "length h1 \<le> length h'" "\<forall>p < length h. h' ! p = h1 ! p" "built h' (length h) (first_value h t) t"
  using assms unfolding reads_def by blast

lemma land_length: "land h stk root v = Some (h1, stk1, root1) \<Longrightarrow> length h1 = length h"
  by (auto simp: land_def add_child_def split: list.splits if_splits)

lemma reads_scalar:
  assumes "tokens t = [t]" "first_cell t = []" "\<And>h n. read_token h n t = Some (first_value h t, h, None)"
    "\<And>h lo. built h lo (first_value h t) t" "\<And>h h'. first_value h t = first_value h' t"
  shows "reads t"
  unfolding reads_def
proof (intro allI impI)
  fix rest :: "ptc_json list" and h stk root h1 stk1 root1
  assume "land (h @ first_cell t) stk root (first_value h t) = Some (h1, stk1, root1)"
  then have here: "land h stk root (first_value h t) = Some (h1, stk1, root1)" by (simp add: assms(2))
  have step: "read_step (length rest) t \<lparr>rd_heap = h, rd_stack = stk, rd_root = root\<rparr> =
      Some \<lparr>rd_heap = h1, rd_stack = pop_closed stk1, rd_root = root1\<rparr>"
    using read_step_land [OF assms(3) here, of "length rest"] by simp
  have "built h1 (length h) (first_value h t) t" using assms(4) [of h1 "length h"] assms(5) [of h h1] by simp
  then show "\<exists>h'. read_run (tokens t @ rest) \<lparr>rd_heap = h, rd_stack = stk, rd_root = root\<rparr> =
             read_run rest \<lparr>rd_heap = h', rd_stack = pop_closed stk1, rd_root = root1\<rparr> \<and>
           length h1 \<le> length h' \<and> (\<forall>p < length h. h' ! p = h1 ! p) \<and> built h' (length h) (first_value h t) t"
    unfolding assms(1) by (intro exI [of _ h1]) (simp add: step)
qed

lemma pop_open: "open_frame g \<Longrightarrow> pop_closed (g # tail) = g # tail"
  by (simp add: pop_closed_def)

lemma children_read:
  assumes "\<forall>t \<in> set ts. reads t" "fr_target g < length h" "fr_index g + length ts \<le> fr_length g"
  shows "\<exists>h' vs. read_run (concat (map tokens ts) @ rest) \<lparr>rd_heap = h, rd_stack = pop_closed (g # tail), rd_root = root\<rparr> =
      read_run rest \<lparr>rd_heap = h', rd_stack = pop_closed (advance (length ts) g # tail), rd_root = root\<rparr> \<and>
    length h \<le> length h' \<and> (\<forall>p < length h. p \<noteq> fr_target g \<longrightarrow> h' ! p = h ! p) \<and>
    h' ! fr_target g = cell_add_all g vs (h ! fr_target g) \<and> list_all2 (built h' (length h)) vs ts"
  using assms
proof (induction ts arbitrary: g h)
  case Nil
  show ?case by (intro exI [of _ h] exI [of _ "[]"]) simp
next
  case (Cons t ts)
  let ?v = "first_value h t" and ?q = "fr_target g"
  have g: "open_frame g" using Cons.prems(3) by (simp add: open_frame_def)
  let ?h1 = "add_child g ?v (h @ first_cell t)"
  have landed: "land (h @ first_cell t) (g # tail) root ?v = Some (?h1, bump g # tail, root)" using g by (simp add: land_def)
  have "reads t" using Cons.prems(1) by simp
  then obtain h2 where h2:
    "read_run (tokens t @ concat (map tokens ts) @ rest) \<lparr>rd_heap = h, rd_stack = g # tail, rd_root = root\<rparr> =
       read_run (concat (map tokens ts) @ rest) \<lparr>rd_heap = h2, rd_stack = pop_closed (bump g # tail), rd_root = root\<rparr>"
    "length ?h1 \<le> length h2" "\<forall>p < length h. h2 ! p = ?h1 ! p" "built h2 (length h) ?v t"
    using readsD [OF _ landed] Cons.prems(2) by (metis list.sel(1))
  have len: "length h \<le> length h2" using h2(2) by (simp add: add_child_def)
  have cell: "h2 ! ?q = cell_add g ?v (h ! ?q)" and other: "\<And>p. p < length h \<Longrightarrow> p \<noteq> ?q \<Longrightarrow> h2 ! p = h ! p"
    using h2(3) Cons.prems(2) by (simp_all add: add_child_cell nth_append)
  obtain h' vs where rest:
    "read_run (concat (map tokens ts) @ rest) \<lparr>rd_heap = h2, rd_stack = pop_closed (bump g # tail), rd_root = root\<rparr> =
       read_run rest \<lparr>rd_heap = h', rd_stack = pop_closed (advance (length ts) (bump g) # tail), rd_root = root\<rparr>"
    "length h2 \<le> length h'" "\<forall>p < length h2. p \<noteq> ?q \<longrightarrow> h' ! p = h2 ! p"
    "h' ! ?q = cell_add_all (bump g) vs (h2 ! ?q)" "list_all2 (built h' (length h2)) vs ts"
    using Cons.IH [of "bump g" h2] Cons.prems len by auto
  have "built h' (length h) ?v t"
    using h2(4) rest(2,3) Cons.prems(2) by (intro built_extend [OF h2(4)]) auto
  moreover have "list_all2 (built h' (length h)) vs ts" by (rule built_list_extend [OF rest(5) len]) simp_all
  moreover have "length h \<le> length h'" using len rest(2) by simp
  moreover have "\<forall>p < length h. p \<noteq> ?q \<longrightarrow> h' ! p = h ! p" using other rest(3) len by auto
  moreover have "h' ! ?q = cell_add_all g (?v # vs) (h ! ?q)" using rest(4) cell by simp
  ultimately show ?case
    using h2(1) rest(1) pop_open [OF g] by (intro exI [of _ h'] exI [of _ "?v # vs"]) simp
qed

text \<open>A container reads when its children do: the marker opens a frame on a new cell, which the children
  fill.\<close>

lemma reads_container:
  assumes "tokens t = m # concat (map tokens ts)" "first_cell t = [c]" "\<And>h. first_value h t = V_Ref (length h)"
    and token: "\<And>h n. length ts \<le> n \<Longrightarrow> read_token h n m = Some (V_Ref (length h), h @ [c],
        if 0 < length ts then Some \<lparr>fr_target = length h, fr_keys = ks, fr_length = length ts, fr_index = 0\<rparr> else None)"
    and children: "\<forall>t \<in> set ts. reads t"
    and tree: "\<And>h p vs. p < length h \<Longrightarrow>
      h ! p = cell_add_all \<lparr>fr_target = p, fr_keys = ks, fr_length = length ts, fr_index = 0\<rparr> vs c \<Longrightarrow>
      list_all2 (built h p) vs ts \<Longrightarrow> built h p (V_Ref p) t"
  shows "reads t"
  unfolding reads_def
proof (intro allI impI)
  fix rest :: "ptc_json list" and h stk root h1 stk1 root1
  assume "land (h @ first_cell t) stk root (first_value h t) = Some (h1, stk1, root1)"
    and below: "stk \<noteq> [] \<longrightarrow> fr_target (hd stk) < length h"
  then have here: "land (h @ [c]) stk root (V_Ref (length h)) = Some (h1, stk1, root1)" by (simp add: assms(2,3))
  let ?g = "\<lparr>fr_target = length h, fr_keys = ks, fr_length = length ts, fr_index = 0\<rparr>"
  have len: "length h1 = Suc (length h)" using land_length [OF here] by simp
  have new: "h1 ! length h = c"
    using here below by (auto simp: land_def add_child_cell nth_list_update split: list.splits if_splits)
  have "length ts \<le> length (concat (map tokens ts) @ rest)" using tokens_length_list [of ts] by simp
  from read_step_land [OF token [OF this] here]
  have step: "read_step (length (concat (map tokens ts) @ rest)) m \<lparr>rd_heap = h, rd_stack = stk, rd_root = root\<rparr> =
      Some \<lparr>rd_heap = h1, rd_stack = (if 0 < length ts then pop_closed (?g # stk1) else pop_closed stk1), rd_root = root1\<rparr>"
    by simp
  have closed: "pop_closed (advance (length ts) ?g # stk1) = pop_closed stk1"
    by (simp add: pop_closed_def open_frame_def advance_def)
  obtain h' vs where h':
    "read_run (concat (map tokens ts) @ rest) \<lparr>rd_heap = h1, rd_stack = pop_closed (?g # stk1), rd_root = root1\<rparr> =
       read_run rest \<lparr>rd_heap = h', rd_stack = pop_closed (advance (length ts) ?g # stk1), rd_root = root1\<rparr>"
    "length h1 \<le> length h'" "\<forall>p < length h1. p \<noteq> length h \<longrightarrow> h' ! p = h1 ! p"
    "h' ! length h = cell_add_all ?g vs (h1 ! length h)" "list_all2 (built h' (length h1)) vs ts"
    using children_read [OF children, of ?g h1 rest stk1 root1] len by auto
  have "list_all2 (built h' (length h)) vs ts" by (rule built_list_extend [OF h'(5)]) (simp_all add: len)
  then have tree': "built h' (length h) (V_Ref (length h)) t" using tree [of "length h" h' vs] h'(2,4) new len by simp
  have "read_run (tokens t @ rest) \<lparr>rd_heap = h, rd_stack = stk, rd_root = root\<rparr> =
      read_run rest \<lparr>rd_heap = h', rd_stack = pop_closed stk1, rd_root = root1\<rparr>"
  proof (cases "0 < length ts")
    case True
    then show ?thesis using step h'(1) closed by (simp add: assms(1))
  next
    case False
    then have "pop_closed (?g # stk1) = pop_closed stk1" by (simp add: pop_closed_def open_frame_def)
    with False show ?thesis using step h'(1) closed by (simp add: assms(1))
  qed
  then show "\<exists>h'. read_run (tokens t @ rest) \<lparr>rd_heap = h, rd_stack = stk, rd_root = root\<rparr> =
             read_run rest \<lparr>rd_heap = h', rd_stack = pop_closed stk1, rd_root = root1\<rparr> \<and>
           length h1 \<le> length h' \<and> (\<forall>p < length h. h' ! p = h1 ! p) \<and> built h' (length h) (first_value h t) t"
    using h'(2,3) len tree' by (intro exI [of _ h']) (simp add: assms(3))
qed

lemma lossless_reads: "lossless t \<Longrightarrow> reads t"
proof (induction t)
  case (PJ_Num n)
  then obtain x where "n = Finite x" by auto
  then show ?case by (intro reads_scalar) (auto simp: read_token_def intro: built.intros)
next
  case (PJ_Arr ts)
  show ?case
  proof (rule reads_container [where m = "array_marker (length ts)" and ts = ts and c = "Array_Object True [] 0" and ks = "[]"])
    show "read_token h n (array_marker (length ts)) = Some (V_Ref (length h), h @ [Array_Object True [] 0],
        if 0 < length ts then Some \<lparr>fr_target = length h, fr_keys = [], fr_length = length ts, fr_index = 0\<rparr> else None)"
      if "length ts \<le> n" for h n
      using that marker_of_array [of "length ts"] PJ_Arr.prems by (simp add: read_token_def array_marker_def)
    show "\<forall>t \<in> set ts. reads t" using PJ_Arr by simp
    show "built h p (V_Ref p) (PJ_Arr ts)" if "p < length h"
      "h ! p = cell_add_all \<lparr>fr_target = p, fr_keys = [], fr_length = length ts, fr_index = 0\<rparr> vs (Array_Object True [] 0)"
      "list_all2 (built h p) vs ts" for h p vs
      using that cell_add_array [of _ vs "[]"] by (intro BArr) auto
  qed simp_all
next
  case (PJ_Obj fs)
  let ?ks = "map fst fs" and ?ts = "map snd fs"
  have "reads (PJ_Obj (zip ?ks ?ts))"
  proof (rule reads_container [where m = "object_marker ?ks" and ts = ?ts and c = "Plain_Object []" and ks = ?ks])
    show "read_token h n (object_marker ?ks) = Some (V_Ref (length h), h @ [Plain_Object []],
        if 0 < length ?ts then Some \<lparr>fr_target = length h, fr_keys = ?ks, fr_length = length ?ts, fr_index = 0\<rparr> else None)"
      if "length ?ts \<le> n" for h n
      using that marker_of_object [of ?ks] PJ_Obj.prems by (simp add: read_token_def object_marker_def)
    show "\<forall>t \<in> set ?ts. reads t" using PJ_Obj by (auto simp: snds.simps)
    show "built h p (V_Ref p) (PJ_Obj (zip ?ks ?ts))" if "p < length h"
      "h ! p = cell_add_all \<lparr>fr_target = p, fr_keys = ?ks, fr_length = length ?ts, fr_index = 0\<rparr> vs (Plain_Object [])"
      "list_all2 (built h p) vs ?ts" for h p vs
    proof (rule BObj)
      have "length vs = length ?ts" using that(3) by (rule list_all2_lengthD)
      then show "h ! p = Plain_Object (map2 (\<lambda>k v. \<lparr>op_key = Named k, op_enumerable = True, op_value = v\<rparr>) ?ks vs)"
        using that(2) cell_add_object [of "\<lparr>fr_target = p, fr_keys = ?ks, fr_length = length ?ts, fr_index = 0\<rparr>" vs "[]"] by simp
    qed (use that PJ_Obj.prems in simp_all)
  qed (simp_all add: zip_map_fst_snd comp_def)
  then show ?case by (simp add: zip_map_fst_snd)
qed (rule reads_scalar; auto simp: read_token_def intro: built.intros)+

lemma read_back_tokens:
  assumes "lossless t"
  shows "\<exists>h v. read_back (tokens t) = Some (h, v) \<and> represents h v t"
proof -
  have "land ([] @ first_cell t) [] None (first_value [] t) = Some (first_cell t, [], Some (first_value [] t))"
    by (simp add: land_def)
  then obtain h where h: "read_run (tokens t @ []) \<lparr>rd_heap = [], rd_stack = [], rd_root = None\<rparr> =
      read_run [] \<lparr>rd_heap = h, rd_stack = pop_closed [], rd_root = Some (first_value [] t)\<rparr>"
    "built h 0 (first_value [] t) t"
    using readsD [OF lossless_reads [OF assms]] by (metis list.size(3))
  have "tokens t \<noteq> []" using tokens_length [of t] by auto
  then have "read_back (tokens t) = Some (h, first_value [] t)"
    using h(1) by (simp add: read_back_def rd_start_def pop_closed_def)
  then show ?thesis using built_represents [OF h(2)] by blast
qed

text \<open>The length of an array of JavaScript is below \<open>2 ^ 32\<close>.\<close>

definition heap_small :: "js_heap \<Rightarrow> bool" where
  "heap_small h \<longleftrightarrow> (\<forall>plain es extra. Array_Object plain es extra \<in> set h \<longrightarrow> length es < 2 ^ 32)"

lemma represents_lossless: "represents h v t \<Longrightarrow> heap_small h \<Longrightarrow> lossless t"
proof (induction rule: represents.induct)
  case (Arr p vs ts)
  then have "Array_Object True (map Some vs) 0 \<in> set h" by (metis nth_mem)
  then have "length vs < 2 ^ 32" using Arr.prems by (fastforce simp: heap_small_def)
  moreover have "length vs = length ts" using Arr.IH by (rule list_all2_lengthD)
  moreover have "\<forall>t \<in> set ts. lossless t" using Arr.IH Arr.prems by (auto simp: list_all2_conv_all_nth in_set_conv_nth)
  ultimately show ?case by simp
next
  case (Obj p ks vs ts)
  then have "\<forall>t \<in> set ts. lossless t" by (auto simp: list_all2_conv_all_nth in_set_conv_nth)
  then show ?case using Obj.hyps by (auto dest: set_zip_rightD)
qed auto

text \<open>C35: a lossless value crosses and comes back: the value is flattened to the tokens of its tree, and
  reading them gives a value of the same tree, shared parts each read on their own.\<close>

theorem codec_roundtrip:
  assumes "represents h v t" "heap_small h"
  shows "\<exists>w h' v'. flatten h v = Some (Some w) \<and> unflatten w = Some (h', v') \<and> represents h' v' t"
proof -
  obtain h' v' where "read_back (tokens t) = Some (h', v')" "represents h' v' t"
    using read_back_tokens [OF represents_lossless [OF assms]] by blast
  moreover have "unflatten (tokens t) = read_back (tokens t)"
    using same_run [OF same_start, of "tokens t"]
    by (cases "unflatten_run (tokens t) uf_start") (fastforce simp: unflatten_def read_back_def same_reader_def)+
  ultimately show ?thesis using flatten_complete [OF assms(1)] by auto
qed

definition sample_heap :: js_heap where
  "sample_heap =
     [Array_Object True [Some (V_Num (Finite (Whole 1))), Some (V_Ref 1), Some (V_Ref 1)] 0,
      Plain_Object [\<lparr>op_key = Named [97], op_enumerable = True, op_value = V_Str [98]\<rparr>]]"

definition sample_tree :: ptc_json where
  "sample_tree = PJ_Arr [PJ_Num (Finite (Whole 1)), PJ_Obj (zip [[97]] [PJ_Str [98]]), PJ_Obj (zip [[97]] [PJ_Str [98]])]"

lemma sample_represents: "represents sample_heap (V_Ref 0) sample_tree"
proof -
  have object: "represents sample_heap (V_Ref 1) (PJ_Obj (zip [[97]] [PJ_Str [98]]))"
    by (rule Obj [where vs = "[V_Str [98]]"]) (auto simp: sample_heap_def intro: Str)
  show ?thesis
    unfolding sample_tree_def using object
    by (intro Arr [where vs = "[V_Num (Finite (Whole 1)), V_Ref 1, V_Ref 1]"]) (auto simp: sample_heap_def intro: Num)
qed

theorem codec_roundtrip_witness:
  "\<exists>w h' v'. flatten sample_heap (V_Ref 0) = Some (Some w) \<and> unflatten w = Some (h', v') \<and> represents h' v' sample_tree"
  by (rule codec_roundtrip [OF sample_represents]) (auto simp: heap_small_def sample_heap_def)

end
