(* ===== verification/Ptc_Host.thy ===== *)
theory Ptc_Host
  imports Ptc_Output Ptc_Reader
begin

section \<open>The program host: ptc-host/src/program.js\<close>

text \<open>
  The frames of the channel, the calls of a program to its bindings, and how a program ends. The state
  is the frame the bootstrap waits for, the calls that wait for a reply, and what was sent and settled.
  Running the program itself is the engine's: it calls bindings and the console, and returns or throws.
  \<open>JSON.parse\<close> is a parameter.
\<close>

subsection \<open>State\<close>

record error_descriptor =
  ed_name :: units
  ed_memberNameProperty :: units

record ptc_namespace =
  ns_global :: units
  ns_names :: "units list"
  ns_errorClass :: "error_descriptor option"

text \<open>What a call rejects with: a plain error, or one of the namespace's class that names the member.\<close>

record binding_error =
  be_class :: "error_descriptor option"
  be_member :: units
  be_message :: units

datatype binding_outcome = Resolved js_heap js_value | Rejected binding_error

record pending_call =
  pc_class :: "error_descriptor option"
  pc_member :: units

datatype done_frame = Done_Value "ptc_json list option" | Done_Error string units

datatype sent_frame =
    Sent_Ready
  | Sent_Call nat units units "ptc_json list"
  | Sent_Log units
  | Sent_Limit
  | Sent_Done done_frame

record host_state =
  hs_bootWaits :: bool
  hs_bootSettled :: bool
  hs_bootFrame :: "units option"
  hs_bootGiven :: "units option option"
  hs_replies :: "(nat \<times> pending_call) list"
  hs_nextId :: nat
  hs_sent :: "sent_frame list"
  hs_settled :: "(nat \<times> binding_outcome) list"

definition host_start :: host_state where
  "host_start =
     \<lparr>hs_bootWaits = False, hs_bootSettled = False, hs_bootFrame = None, hs_bootGiven = None, hs_replies = [],
      hs_nextId = 1, hs_sent = [Sent_Ready], hs_settled = []\<rparr>"

subsection \<open>Frames\<close>

text \<open>The text of the boot frame, or none when the channel closed first; it is given to the bootstrap if
  that waits already.\<close>

definition settleBoot :: "units option \<Rightarrow> host_state \<Rightarrow> host_state" where
  "settleBoot text s =
     (if hs_bootSettled s then s
      else
        (let s' = s\<lparr>hs_bootSettled := True, hs_bootFrame := text\<rparr> in
         if hs_bootWaits s then s'\<lparr>hs_bootWaits := False, hs_bootGiven := Some text\<rparr> else s'))"

definition nextFrame :: "host_state \<Rightarrow> host_state" where
  "nextFrame s =
     (if hs_bootSettled s then s\<lparr>hs_bootFrame := None, hs_bootGiven := Some (hs_bootFrame s)\<rparr>
      else s\<lparr>hs_bootWaits := True\<rparr>)"

definition bindingFailure :: "error_descriptor option \<Rightarrow> units \<Rightarrow> units \<Rightarrow> binding_error" where
  "bindingFailure errorClass memberName message = \<lparr>be_class = errorClass, be_member = memberName, be_message = message\<rparr>"

definition settle_call :: "nat \<Rightarrow> binding_outcome \<Rightarrow> host_state \<Rightarrow> host_state" where
  "settle_call i r s = s\<lparr>hs_settled := hs_settled s @ [(i, r)]\<rparr>"

definition reply_value :: "ptc_json option \<Rightarrow> (js_heap \<times> js_value) option" where
  "reply_value v = (case v of Some (PJ_Arr ts) \<Rightarrow> unflatten ts | _ \<Rightarrow> None)"

definition reply_outcome :: "(units \<times> ptc_json) list \<Rightarrow> pending_call \<Rightarrow> binding_outcome" where
  "reply_outcome message c =
     (let reject = (\<lambda>m. Rejected (bindingFailure (pc_class c) (pc_member c) m)) in
      if map_of message (units_of ''ok'') = Some (PJ_Bool True)
      then (case reply_value (map_of message (units_of ''value'')) of
              None \<Rightarrow> reject (units_of ''binding resolution must be lossless JSON'')
            | Some (h, v) \<Rightarrow> Resolved h v)
      else reject (case map_of message (units_of ''message'') of
                     Some (PJ_Str m) \<Rightarrow> m | _ \<Rightarrow> units_of ''binding call failed''))"

definition reply_id :: "(units \<times> ptc_json) list \<Rightarrow> nat option" where
  "reply_id message =
     (case map_of message (units_of ''id'') of
        Some (PJ_Num (Finite (Whole i))) \<Rightarrow> if 0 \<le> i then Some (nat i) else None
      | _ \<Rightarrow> None)"

definition deliverReply :: "(units \<times> ptc_json) list \<Rightarrow> host_state \<Rightarrow> host_state" where
  "deliverReply message s =
     (case reply_id message of
        None \<Rightarrow> s
      | Some i \<Rightarrow>
          (case map_of (hs_replies s) i of
             None \<Rightarrow> s
           | Some c \<Rightarrow> settle_call i (reply_outcome message c) (s\<lparr>hs_replies := filter (\<lambda>(j, _). j \<noteq> i) (hs_replies s)\<rparr>)))"

definition onFrame :: "(units \<Rightarrow> ptc_json option) \<Rightarrow> units \<Rightarrow> host_state \<Rightarrow> host_state" where
  "onFrame parse text s =
     (case parse text of
        None \<Rightarrow> s
      | Some (PJ_Obj message) \<Rightarrow>
          if map_of message (units_of ''type'') = Some (PJ_Str (units_of ''reply'')) then deliverReply message s
          else settleBoot (Some text) s
      | Some _ \<Rightarrow> settleBoot (Some text) s)"

definition onClose :: "host_state \<Rightarrow> host_state" where
  "onClose s = settleBoot None s"

subsection \<open>Calls\<close>

text \<open>A call of a member of a namespace. One whose arguments cannot cross is rejected at once and takes no
  number; one that could not be sent is taken back. The answer is the rejection of a call that was not
  made, else its number.\<close>

definition call_binding ::
  "ptc_namespace \<Rightarrow> units \<Rightarrow> js_heap \<Rightarrow> js_value \<Rightarrow> units option \<Rightarrow> host_state \<Rightarrow> (binding_error + nat) \<times> host_state" where
  "call_binding ns member h args send_failure s =
     (case flatten h args of
        Some (Some wire) \<Rightarrow>
          (let i = hs_nextId s;
               s' = s\<lparr>hs_nextId := Suc i, hs_replies := (i, \<lparr>pc_class = ns_errorClass ns, pc_member = member\<rparr>) # hs_replies s\<rparr>
           in case send_failure of
                None \<Rightarrow> (Inr i, s'\<lparr>hs_sent := hs_sent s @ [Sent_Call i (ns_global ns) member wire]\<rparr>)
              | Some m \<Rightarrow>
                  (let e = bindingFailure (ns_errorClass ns) member (units_of ''binding arguments must be structured-cloneable: '' @ m) in
                   (Inl e, settle_call i (Rejected e) (s'\<lparr>hs_replies := hs_replies s\<rparr>))))
      | _ \<Rightarrow> (Inl (bindingFailure (ns_errorClass ns) member (units_of ''binding arguments must be lossless JSON'')), s))"

subsection \<open>The end of a program\<close>

fun token_bytes :: "ptc_json \<Rightarrow> int" where
  "token_bytes PJ_Null = 4"
| "token_bytes (PJ_Bool b) = (if b then 4 else 5)"
| "token_bytes (PJ_Num n) = int (length (number_units n))"
| "token_bytes (PJ_Str s) = jsonStringBytes s"
| "token_bytes (PJ_Arr ts) = 2"
| "token_bytes (PJ_Obj fs) =
     2 + (if map_of fs (units_of ''kind'') = Some (PJ_Str (units_of ''object''))
          then (case map_of fs (units_of ''keys'') of
                  Some (PJ_Arr ks) \<Rightarrow> sum_list (map (\<lambda>k. (case k of PJ_Str s \<Rightarrow> jsonStringBytes s | _ \<Rightarrow> 0) + 1) ks)
                | _ \<Rightarrow> 0)
          else 0)"

definition wireBytes :: "ptc_json list \<Rightarrow> int" where
  "wireBytes wire = sum_list (map token_bytes wire)"

definition int_units :: "int \<Rightarrow> units" where
  "int_units i = units_of (js_number_text (Whole i))"

definition overflow :: "int \<Rightarrow> done_frame" where
  "overflow maxOutputBytes =
     Done_Error ''output-limit'' (units_of ''outer output exceeded '' @ int_units maxOutputBytes @ units_of '' bytes'')"

definition program_failure :: "string \<Rightarrow> units \<Rightarrow> int \<Rightarrow> int \<Rightarrow> done_frame" where
  "program_failure kind message remaining maxOutputBytes =
     (if jsonStringBytesUpTo message (Some remaining) = None then overflow maxOutputBytes else Done_Error kind message)"

text \<open>The value a program returned; \<open>None\<close> is \<open>undefined\<close>, which sends no value.\<close>

definition completion :: "(js_heap \<times> js_value) option \<Rightarrow> int \<Rightarrow> int \<Rightarrow> done_frame" where
  "completion v remaining maxOutputBytes =
     (case v of
        None \<Rightarrow> Done_Value None
      | Some (h, x) \<Rightarrow>
          (case flatten h x of
             Some (Some wire) \<Rightarrow> if remaining < wireBytes wire then overflow maxOutputBytes else Done_Value (Some wire)
           | _ \<Rightarrow> program_failure ''invalid-output'' (units_of ''program completion must be lossless JSON'') remaining maxOutputBytes))"

text \<open>What was thrown: an error with its stack, if it is a string, and its message; another value as the
  text it has, or none when it cannot be rendered.\<close>

datatype thrown = Thrown_Error "units option" units | Thrown_Text units | Thrown_Unrenderable

definition thrown_message :: "thrown \<Rightarrow> units" where
  "thrown_message e =
     (case e of
        Thrown_Error stack message \<Rightarrow> (case stack of Some s \<Rightarrow> s | None \<Rightarrow> message)
      | Thrown_Text s \<Rightarrow> s
      | Thrown_Unrenderable \<Rightarrow> units_of ''program threw an unrenderable value'')"

definition program_exception :: "thrown \<Rightarrow> int \<Rightarrow> int \<Rightarrow> done_frame" where
  "program_exception e remaining maxOutputBytes =
     program_failure ''exception'' (thrown_message e) remaining maxOutputBytes"

text \<open>The parameters of the generated function: the globals, the classes that were declared, the console.\<close>

definition program_parameters :: "ptc_namespace list \<Rightarrow> units list" where
  "program_parameters nss =
     map ns_global nss @
     concat (map (\<lambda>ns. case ns_errorClass ns of None \<Rightarrow> [] | Some d \<Rightarrow> [ed_name d]) nss) @ [units_of ''console'']"

datatype program_end = Returned "(js_heap \<times> js_value) option" | Threw thrown

definition program_done :: "int \<Rightarrow> ledger \<Rightarrow> program_end \<Rightarrow> done_frame" where
  "program_done maxOutputBytes l e =
     (case e of
        Returned v \<Rightarrow> completion v (ledger_remaining l) maxOutputBytes
      | Threw t \<Rightarrow> program_exception t (ledger_remaining l) maxOutputBytes)"

text \<open>The frames of a run: the lines of the ledger and its limit in order, then the end.\<close>

definition line_frames :: "ledger \<Rightarrow> ledger \<Rightarrow> sent_frame list" where
  "line_frames l l' =
     map Sent_Log (drop (length (lg_sunk l)) (lg_sunk l')) @ replicate (lg_limits l' - lg_limits l) Sent_Limit"

fun log_lines :: "units list \<Rightarrow> ledger \<Rightarrow> sent_frame list \<times> ledger" where
  "log_lines [] l = ([], l)"
| "log_lines (t # ts) l =
     (let l' = ledger_push t l; (frames, l'') = log_lines ts l' in (line_frames l l' @ frames, l''))"

definition runProgram :: "int \<Rightarrow> units list \<Rightarrow> program_end \<Rightarrow> sent_frame list" where
  "runProgram maxOutputBytes texts e =
     (let (frames, l) = log_lines texts (new_ledger maxOutputBytes) in
      frames @ [Sent_Done (program_done maxOutputBytes l e)])"

subsection \<open>No call is lost, and none is settled twice\<close>

datatype host_event =
    Ev_Call ptc_namespace units js_heap js_value "units option"
  | Ev_Frame units
  | Ev_Close
  | Ev_Wait

definition host_step :: "(units \<Rightarrow> ptc_json option) \<Rightarrow> host_event \<Rightarrow> host_state \<Rightarrow> host_state" where
  "host_step parse e s =
     (case e of
        Ev_Call ns member h args send_failure \<Rightarrow> snd (call_binding ns member h args send_failure s)
      | Ev_Frame text \<Rightarrow> onFrame parse text s
      | Ev_Close \<Rightarrow> onClose s
      | Ev_Wait \<Rightarrow> nextFrame s)"

inductive host_reachable :: "(units \<Rightarrow> ptc_json option) \<Rightarrow> host_state \<Rightarrow> bool" for parse where
  Start: "host_reachable parse host_start"
| Step: "host_reachable parse s \<Longrightarrow> host_reachable parse (host_step parse e s)"

definition calls_ok :: "host_state \<Rightarrow> bool" where
  "calls_ok s \<longleftrightarrow>
     distinct (map fst (hs_replies s) @ map fst (hs_settled s)) \<and>
     set (map fst (hs_replies s) @ map fst (hs_settled s)) = {1..<hs_nextId s} \<and> 1 \<le> hs_nextId s"

lemma settleBoot_calls [simp]:
  "hs_replies (settleBoot t s) = hs_replies s" "hs_settled (settleBoot t s) = hs_settled s" "hs_nextId (settleBoot t s) = hs_nextId s"
  by (simp_all add: settleBoot_def Let_def)

lemma calls_ok_boot [simp]: "calls_ok (settleBoot t s) = calls_ok s"
  by (simp add: calls_ok_def)

lemma nextFrame_calls [simp]: "calls_ok (nextFrame s) = calls_ok s"
  by (simp add: calls_ok_def nextFrame_def)

lemma keys_without: "map fst (filter (\<lambda>(j, _). j \<noteq> i) xs) = filter (\<lambda>j. j \<noteq> i) (map fst xs)"
  by (induction xs) auto

lemma deliver_calls:
  assumes "calls_ok s"
  shows "calls_ok (deliverReply message s)"
proof (cases "\<exists>i c. reply_id message = Some i \<and> map_of (hs_replies s) i = Some c")
  case True
  then obtain i c where i: "reply_id message = Some i" "map_of (hs_replies s) i = Some c" by blast
  then have "i \<in> set (map fst (hs_replies s))" by (force dest: map_of_SomeD)
  with assms i show ?thesis by (auto simp: calls_ok_def deliverReply_def settle_call_def keys_without)
next
  case False
  with assms show ?thesis by (auto simp: deliverReply_def split: option.splits)
qed

lemma call_calls: "calls_ok s \<Longrightarrow> calls_ok (snd (call_binding ns member h args send_failure s))"
  by (auto simp: call_binding_def calls_ok_def settle_call_def Let_def split: option.splits)

lemma frame_calls: "calls_ok s \<Longrightarrow> calls_ok (onFrame parse text_in s)"
  by (auto simp: onFrame_def deliver_calls split: option.splits ptc_json.splits)

lemma step_calls: "calls_ok s \<Longrightarrow> calls_ok (host_step parse e s)"
  by (cases e) (auto simp: host_step_def onClose_def call_calls frame_calls)

text \<open>Every number a program's call was given is waiting for its reply or settled, never both and never
  twice, whatever frames arrive in whatever order, replies to unknown or settled calls included.\<close>

theorem calls_settle_once:
  assumes "host_reachable parse s"
  shows "distinct (map fst (hs_replies s) @ map fst (hs_settled s)) \<and>
    set (map fst (hs_replies s) @ map fst (hs_settled s)) = {1..<hs_nextId s}"
proof -
  from assms have "calls_ok s"
  proof (induction rule: host_reachable.induct)
    case Start
    show ?case by (simp add: calls_ok_def host_start_def)
  qed (rule step_calls)
  then show ?thesis by (simp add: calls_ok_def)
qed

text \<open>Concretely: of two calls the second is answered, twice.\<close>

definition two_calls :: "host_event list" where
  "two_calls =
     (let ns = \<lparr>ns_global = units_of ''tools'', ns_names = [units_of ''read''], ns_errorClass = None\<rparr>;
          call = Ev_Call ns (units_of ''read'') [] V_Null None
      in [call, call, Ev_Frame (units_of ''2''), Ev_Frame (units_of ''2'')])"

definition two_parse :: "units \<Rightarrow> ptc_json option" where
  "two_parse t =
     Some (PJ_Obj [(units_of ''type'', PJ_Str (units_of ''reply'')), (units_of ''id'', PJ_Num (Finite (Whole 2))),
                   (units_of ''ok'', PJ_Bool True), (units_of ''value'', PJ_Arr [PJ_Bool True])])"

lemma run_reachable: "host_reachable parse s \<Longrightarrow> host_reachable parse (fold (host_step parse) es s)"
  by (induction es arbitrary: s) (auto intro: host_reachable.Step)

theorem calls_settle_once_witness:
  "\<exists>s. host_reachable two_parse s \<and> map fst (hs_replies s) = [1] \<and> map fst (hs_settled s) = [2] \<and> hs_nextId s = 3 \<and>
     distinct (map fst (hs_replies s) @ map fst (hs_settled s))"
proof -
  let ?s = "fold (host_step two_parse) two_calls host_start"
  have "map fst (hs_replies ?s) = [1]" "map fst (hs_settled ?s) = [2]" "hs_nextId ?s = 3" by code_simp+
  moreover have r: "host_reachable two_parse ?s" by (intro run_reachable host_reachable.Start)
  moreover note conjunct1 [OF calls_settle_once [OF r]]
  ultimately show ?thesis by (intro exI [of _ ?s] conjI)
qed

subsection \<open>A run stays within its budget\<close>

definition log_texts :: "sent_frame list \<Rightarrow> units list" where
  "log_texts frames = concat (map (\<lambda>f. case f of Sent_Log t \<Rightarrow> [t] | _ \<Rightarrow> []) frames)"

definition done_bytes :: "done_frame \<Rightarrow> int" where
  "done_bytes d =
     (case d of
        Done_Value wire \<Rightarrow> (case wire of None \<Rightarrow> 0 | Some w \<Rightarrow> wireBytes w)
      | Done_Error kind message \<Rightarrow> jsonStringBytes message)"

lemma log_texts_append [simp]: "log_texts (xs @ ys) = log_texts xs @ log_texts ys"
  by (simp add: log_texts_def)

lemma log_texts_line [simp]: "log_texts (line_frames l l') = drop (length (lg_sunk l)) (lg_sunk l')"
proof -
  have "concat (map (\<lambda>f. case f of Sent_Log t \<Rightarrow> [t] | _ \<Rightarrow> []) (map Sent_Log ts)) = ts" for ts
    by (induction ts) auto
  then show ?thesis by (simp add: log_texts_def line_frames_def)
qed

lemma push_sunk: "prefix (lg_sunk l) (lg_sunk (ledger_push t l))"
  by (auto simp: ledger_push_def sink_def Let_def split: option.split)

lemma run_sunk: "prefix (lg_sunk l) (lg_sunk (fold ledger_push ts l))"
proof (induction ts arbitrary: l)
  case (Cons t ts)
  show ?case using prefix_order.trans [OF push_sunk Cons.IH] by simp
qed simp

lemma log_lines_run: "log_lines ts l = (frames, l') \<Longrightarrow>
    l' = fold ledger_push ts l \<and> log_texts frames = drop (length (lg_sunk l)) (lg_sunk l')"
proof (induction ts arbitrary: l frames)
  case (Cons t ts)
  obtain fs where fs: "log_lines ts (ledger_push t l) = (fs, l')" "frames = line_frames l (ledger_push t l) @ fs"
    using Cons.prems by (auto simp: Let_def split: prod.splits)
  have "log_texts frames =
      drop (length (lg_sunk l)) (lg_sunk (ledger_push t l)) @ drop (length (lg_sunk (ledger_push t l))) (lg_sunk l')"
    using Cons.IH [OF fs(1)] fs(2) by simp
  moreover have "l' = fold ledger_push ts (ledger_push t l)" using Cons.IH [OF fs(1)] by simp
  ultimately show ?case
    using push_sunk [of l t] run_sunk [of "ledger_push t l" ts] by (auto elim!: prefixE)
qed (simp add: log_texts_def)

lemma failure_fits: "program_failure kind m r mx = d \<Longrightarrow> d = overflow mx \<or> done_bytes d \<le> r"
  using up_to_some [of m r] by (auto simp: program_failure_def done_bytes_def split: if_splits)

lemma done_fits:
  assumes "0 \<le> ledger_remaining l"
  shows "program_done mx l e = overflow mx \<or> done_bytes (program_done mx l e) \<le> ledger_remaining l"
proof (cases e)
  case (Threw t)
  show ?thesis using failure_fits by (simp add: Threw program_done_def program_exception_def)
next
  case (Returned v)
  show ?thesis
  proof (cases v)
    case None
    with assms show ?thesis by (simp add: Returned program_done_def completion_def done_bytes_def)
  next
    case (Some hx)
    show ?thesis using failure_fits
      by (auto simp: Some Returned program_done_def completion_def done_bytes_def not_less split: prod.splits option.splits)
  qed
qed

text \<open>C16: whatever a program prints and however it ends, the lines that were sent, as one JSON array, and
  the charge of the value or message it ends with stay together within the budget; what would not fit
  is replaced by the report of the limit. (The charge of a value is that of its tokens, and leaves out its
  commas: \<open>commas_uncharged\<close>.)\<close>

theorem run_within_budget:
  assumes "2 \<le> maxOutputBytes" "runProgram maxOutputBytes texts e = frames @ [Sent_Done d]"
  shows "int (length (json_array_bytes (log_texts frames))) \<le> maxOutputBytes \<and>
    (d = overflow maxOutputBytes \<or> int (length (json_array_bytes (log_texts frames))) + done_bytes d \<le> maxOutputBytes)"
proof -
  obtain fs l where l: "log_lines texts (new_ledger maxOutputBytes) = (fs, l)" by fastforce
  then have run: "frames = fs" "d = program_done maxOutputBytes l e"
    using assms(2) by (auto simp: runProgram_def)
  have "log_texts fs = lg_sunk l" and fold: "l = fold ledger_push texts (new_ledger maxOutputBytes)"
    using log_lines_run [OF l] by (auto simp: new_ledger_def)
  moreover have "ledger_ok ([] @ texts) l" using ledger_run [OF new_ledger_ok [OF assms(1)]] fold by simp
  moreover have "lg_maxBytes l = maxOutputBytes" using fold run_max by (simp add: new_ledger_def)
  ultimately show ?thesis using done_fits [of l maxOutputBytes e] run
    by (auto simp: ledger_ok_def ledger_remaining_def)
qed

theorem run_within_budget_witness:
  "runProgram 12 [units_of ''abc''] (Returned (Some ([], V_Bool True))) =
     [Sent_Log (units_of ''abc'')] @ [Sent_Done (Done_Value (Some [PJ_Bool True]))] \<and>
   int (length (json_array_bytes (log_texts [Sent_Log (units_of ''abc'')]))) + done_bytes (Done_Value (Some [PJ_Bool True])) \<le> 12"
proof -
  have run: "runProgram 12 [units_of ''abc''] (Returned (Some ([], V_Bool True))) =
      [Sent_Log (units_of ''abc'')] @ [Sent_Done (Done_Value (Some [PJ_Bool True]))]" by code_simp
  show ?thesis using run_within_budget [OF _ run] run by (simp add: overflow_def)
qed

text \<open>The text \<open>[null,null,null]\<close> has sixteen bytes; with fourteen left it is passed on.\<close>

lemma commas_uncharged:
  "completion (Some ([Array_Object True [Some V_Null, Some V_Null, Some V_Null] 0], V_Ref 0)) 14 1000 =
     Done_Value (Some [array_marker 3, PJ_Null, PJ_Null, PJ_Null])"
  by code_simp

end
