(* ===== verification/Remote_Tty.thy ===== *)
theory Remote_Tty
  imports Terminal_Registry Routing Node_Store Base64
begin

section \<open>A terminal of a machine: remote/tty.ts\<close>

text \<open>
  \<open>createRemoteTty\<close> follows a terminal the daemon owns: a loop reads the daemon's window from the last
  offset, decodes it, and writes it to a local stream; \<open>terminate\<close> stops the loop, asks the daemon to
  release the terminal and pulls once more. Both await, so each is a phase of the state, and an event is
  what one awaited promise answers. Whether a write to the local stream leaves it full, and when it
  drains, is its consumer's.
\<close>

subsection \<open>The streaming decoder\<close>

text \<open>\<open>StringDecoder\<close>: the text of what is complete, and the beginning of a sequence that is not, which
  is held for the next write.\<close>

function utf8_stream :: "bytes \<Rightarrow> string \<times> bytes" where
  "utf8_stream [] = ([], [])"
| "utf8_stream (c # s) =
     (case utf8_lead c of
        None \<Rightarrow> (let (t, h) = utf8_stream s in (replacement @ t, h))
      | Some (k, lo, hi) \<Rightarrow>
          (let cs = utf8_conts k lo hi s in
           if length cs < k \<and> length cs = length s then ([], c # s)
           else
             (let (t, h) = utf8_stream (drop (length cs) s)
              in ((if length cs = k then c # cs else replacement) @ t, h))))"
  by pat_completeness auto
termination by (relation "measure length") (auto simp: le_imp_less_Suc)

lemma conts_short: "length (utf8_conts k lo hi s) < k \<Longrightarrow> length (utf8_conts k lo hi s) < length s \<Longrightarrow>
    utf8_conts k lo hi (s @ t) = utf8_conts k lo hi s"
  by (induction k lo hi s rule: utf8_conts.induct) auto

text \<open>What is held is held again, and what was decoded does not depend on what follows.\<close>

lemma stream_append:
  "utf8_stream (s @ t) = (fst (utf8_stream s) @ fst (utf8_stream (snd (utf8_stream s) @ t)), snd (utf8_stream (snd (utf8_stream s) @ t)))"
proof (induction s rule: utf8_stream.induct)
  case 1
  then show ?case by simp
next
  case (2 c s)
  show ?case
  proof (cases "utf8_lead c")
    case None
    with 2(1) show ?thesis by (simp add: split_beta Let_def)
  next
    case (Some l)
    obtain k lo hi where l: "l = (k, lo, hi)" by (cases l) auto
    let ?cs = "utf8_conts k lo hi s"
    show ?thesis
    proof (cases "length ?cs < k \<and> length ?cs = length s")
      case True
      with Some l show ?thesis by (simp add: Let_def)
    next
      case False
      then have cs: "utf8_conts k lo hi (s @ t) = ?cs"
        using utf8_conts_append [of k lo hi s t] conts_short [of k lo hi s t] utf8_conts_length [of k lo hi s]
          utf8_conts_prefix [of k lo hi s]
        by (metis le_neq_implies_less length_take min.cobounded1)
      have le: "length ?cs \<le> length s" using utf8_conts_prefix [of k lo hi s] by (metis length_take min.cobounded1)
      from False le have "\<not> (length ?cs < k \<and> length ?cs = length (s @ t))" by auto
      moreover have "drop (length ?cs) (s @ t) = drop (length ?cs) s @ t" using le by simp
      ultimately show ?thesis using 2(2) [OF Some l [symmetric] refl refl False] Some l cs False
          le utf8_conts_length [of k lo hi s]
        by (auto simp: Let_def split_beta)
    qed
  qed
qed

lemma stream_text: "utf8_text s = fst (utf8_stream s) @ utf8_text (snd (utf8_stream s))"
proof (induction s rule: utf8_stream.induct)
  case (2 c s)
  show ?case
  proof (cases "utf8_lead c")
    case None
    with 2(1) show ?thesis by (simp add: split_beta)
  next
    case (Some l)
    obtain k lo hi where l: "l = (k, lo, hi)" by (cases l) auto
    let ?cs = "utf8_conts k lo hi s"
    show ?thesis
    proof (cases "length ?cs < k \<and> length ?cs = length s")
      case False
      from 2(2) [OF Some l [symmetric] refl refl False] Some l False show ?thesis
        by (simp add: Let_def split_beta)
    qed (use Some l in \<open>simp add: Let_def\<close>)
  qed
qed simp

lemma stream_ascii: "list_all (\<lambda>c. byte c < 0x80) s \<Longrightarrow> utf8_stream s = (s, [])"
  by (induction s) (auto simp: utf8_lead_def)

declare utf8_stream.simps(2) [simp del]

subsection \<open>State\<close>

definition READ_WAIT_MS :: nat where "READ_WAIT_MS = 20000"

definition DEFAULT_TTY_GRACE_MS :: int where "DEFAULT_TTY_GRACE_MS = 3000"

datatype wire_outcome = Absent_Outcome | Null_Outcome | Facts tty_outcome

record wire_read =
  wr_data :: string
  wr_nextOffset :: nat
  wr_lossy :: bool
  wr_outcome :: wire_outcome

datatype tty_call =
    Call_Read nat nat
  | Call_Write string
  | Call_Resize int int
  | Call_Terminate
  | Call_Outcome

text \<open>A pull waits for its answer, for the notice of a gap to be written, or for its text to be written;
  the flag is a write that left the stream full.\<close>

datatype pull_phase =
    Pull_Idle
  | Pull_Reading nat
  | Pull_Marked wire_read bool
  | Pull_Written wire_outcome bool

datatype stop_phase = Stop_None | Stop_Asked | Stop_Pulling | Stop_Outcome | Stop_Done | Stop_Failed

record remote_tty =
  ry_offset :: nat
  ry_held :: bytes
  ry_finished :: bool
  ry_releasing :: bool
  ry_output :: string
  ry_done :: "tty_outcome option"
  ry_follow :: pull_phase
  ry_stop :: stop_phase
  ry_last :: pull_phase
  ry_calls :: "tty_call list"

definition no_facts :: tty_outcome where
  "no_facts = \<lparr>to_exitCode = None, to_signal = None\<rparr>"

definition tty_start :: remote_tty where
  "tty_start =
     \<lparr>ry_offset = 0, ry_held = [], ry_finished = False, ry_releasing = False, ry_output = [], ry_done = None,
      ry_follow = Pull_Reading 0, ry_stop = Stop_None, ry_last = Pull_Idle, ry_calls = [Call_Read 0 READ_WAIT_MS]\<rparr>"

subsection \<open>finish, publish and pull\<close>

definition finish_tty :: "tty_outcome \<Rightarrow> remote_tty \<Rightarrow> remote_tty" where
  "finish_tty outcome h =
     (if ry_finished h then h
      else h\<lparr>ry_finished := True, ry_output := ry_output h @ utf8_text (ry_held h), ry_held := [], ry_done := Some outcome\<rparr>)"

text \<open>\<open>publish\<close>; the flag answers whether it waits for the stream to drain.\<close>

definition publish_text :: "string \<Rightarrow> bool \<Rightarrow> remote_tty \<Rightarrow> remote_tty \<times> bool" where
  "publish_text txt full h =
     (if ry_finished h \<or> txt = [] then (h, False) else (h\<lparr>ry_output := ry_output h @ txt\<rparr>, full))"

definition lost_notice :: "int \<Rightarrow> string" where
  "lost_notice lost =
     [CHR 0x0D, CHR 0x0A] @ ''[output lost: '' @ js_number_text (Whole lost) @ '' bytes]'' @ [CHR 0x0D, CHR 0x0A]"

definition read_bytes :: "wire_read \<Rightarrow> bytes" where
  "read_bytes r = (if wr_data r = [] then [] else base64_decode (wr_data r))"

definition pull_deliver :: "wire_read \<Rightarrow> bool \<Rightarrow> remote_tty \<Rightarrow> remote_tty \<times> pull_phase" where
  "pull_deliver r full h =
     (let h' = h\<lparr>ry_offset := wr_nextOffset r\<rparr> in
      if read_bytes r = [] then (h', Pull_Written (wr_outcome r) False)
      else
        (let (txt, held) = utf8_stream (ry_held h @ read_bytes r);
             (h'', waits) = publish_text txt full (h'\<lparr>ry_held := held\<rparr>)
         in (h'', Pull_Written (wr_outcome r) waits)))"

definition pull_answer :: "wire_read \<Rightarrow> bool \<Rightarrow> remote_tty \<Rightarrow> remote_tty \<times> pull_phase" where
  "pull_answer r full h =
     (if wr_lossy r
      then
        (let lost = int (wr_nextOffset r) - int (length (read_bytes r)) - int (ry_offset h);
             (h', waits) = publish_text (lost_notice lost) full h
         in (h', Pull_Marked r waits))
      else pull_deliver r full h)"

subsection \<open>Events\<close>

datatype puller = Follower | Stopper

definition phase_of :: "puller \<Rightarrow> remote_tty \<Rightarrow> pull_phase" where
  "phase_of who h = (case who of Follower \<Rightarrow> ry_follow h | Stopper \<Rightarrow> ry_last h)"

definition set_phase :: "puller \<Rightarrow> remote_tty \<times> pull_phase \<Rightarrow> remote_tty" where
  "set_phase who hp =
     (let (h, p) = hp in case who of Follower \<Rightarrow> h\<lparr>ry_follow := p\<rparr> | Stopper \<Rightarrow> h\<lparr>ry_last := p\<rparr>)"

definition start_pull :: "puller \<Rightarrow> remote_tty \<Rightarrow> remote_tty" where
  "start_pull who h =
     set_phase who (h\<lparr>ry_calls := ry_calls h @ [Call_Read (ry_offset h) READ_WAIT_MS]\<rparr>, Pull_Reading (ry_offset h))"

text \<open>What the loop does with the answer of a pull, and with one that failed.\<close>

definition follow_next :: "wire_outcome \<Rightarrow> remote_tty \<Rightarrow> remote_tty" where
  "follow_next ended h =
     (if ry_finished h \<or> ry_releasing h then h\<lparr>ry_follow := Pull_Idle\<rparr>
      else case ended of
             Facts outcome \<Rightarrow> finish_tty outcome (h\<lparr>ry_follow := Pull_Idle\<rparr>)
           | _ \<Rightarrow> start_pull Follower h)"

definition follow_lost :: "remote_tty \<Rightarrow> remote_tty" where
  "follow_lost h = finish_tty no_facts (h\<lparr>ry_follow := Pull_Idle\<rparr>)"

text \<open>What \<open>terminate\<close> does with the answer of its last pull, \<open>undefined\<close> for one that failed.\<close>

definition stop_finish :: "tty_outcome \<Rightarrow> remote_tty \<Rightarrow> remote_tty" where
  "stop_finish outcome h = finish_tty outcome (h\<lparr>ry_last := Pull_Idle, ry_stop := Stop_Done\<rparr>)"

definition stop_next :: "wire_outcome \<Rightarrow> remote_tty \<Rightarrow> remote_tty" where
  "stop_next last_pull h =
     (case last_pull of
        Absent_Outcome \<Rightarrow> h\<lparr>ry_last := Pull_Idle, ry_stop := Stop_Outcome, ry_calls := ry_calls h @ [Call_Outcome]\<rparr>
      | Null_Outcome \<Rightarrow> stop_finish no_facts h
      | Facts outcome \<Rightarrow> stop_finish outcome h)"

definition pulled :: "puller \<Rightarrow> wire_outcome \<Rightarrow> remote_tty \<Rightarrow> remote_tty" where
  "pulled who = (case who of Follower \<Rightarrow> follow_next | Stopper \<Rightarrow> stop_next)"

definition pull_failed :: "puller \<Rightarrow> remote_tty \<Rightarrow> remote_tty" where
  "pull_failed who = (case who of Follower \<Rightarrow> follow_lost | Stopper \<Rightarrow> stop_next Absent_Outcome)"

definition pull_resume :: "puller \<Rightarrow> bool \<Rightarrow> remote_tty \<Rightarrow> remote_tty" where
  "pull_resume who full h =
     (case phase_of who h of
        Pull_Marked r False \<Rightarrow> set_phase who (pull_deliver r full h)
      | Pull_Written outcome False \<Rightarrow> pulled who outcome h
      | _ \<Rightarrow> h)"

text \<open>A stream that was ended never drains.\<close>

definition drained_phase :: "pull_phase \<Rightarrow> pull_phase" where
  "drained_phase p = (case p of Pull_Marked r w \<Rightarrow> Pull_Marked r False | Pull_Written r w \<Rightarrow> Pull_Written r False | _ \<Rightarrow> p)"

definition tty_drain :: "remote_tty \<Rightarrow> remote_tty" where
  "tty_drain h =
     (if ry_finished h then h
      else h\<lparr>ry_follow := drained_phase (ry_follow h), ry_last := drained_phase (ry_last h)\<rparr>)"

text \<open>A call of \<open>terminate\<close>: only the first one asks, later ones join it.\<close>

definition tty_terminate :: "remote_tty \<Rightarrow> remote_tty" where
  "tty_terminate h =
     (if ry_stop h \<noteq> Stop_None then h
      else if ry_finished h then h\<lparr>ry_stop := Stop_Done\<rparr>
      else h\<lparr>ry_releasing := True, ry_stop := Stop_Asked, ry_calls := ry_calls h @ [Call_Terminate]\<rparr>)"

datatype tty_event =
    Ev_Answer puller wire_read
  | Ev_Unread puller
  | Ev_Resume puller
  | Ev_Drain
  | Ev_Input string
  | Ev_Resized int int
  | Ev_Terminate
  | Ev_Terminated
  | Ev_Unterminated
  | Ev_Outcome "tty_outcome option"

definition tty_step :: "tty_event \<Rightarrow> bool \<Rightarrow> remote_tty \<Rightarrow> remote_tty" where
  "tty_step e full h =
     (case e of
        Ev_Answer who r \<Rightarrow>
          (case phase_of who h of Pull_Reading k \<Rightarrow> set_phase who (pull_answer r full h) | _ \<Rightarrow> h)
      | Ev_Unread who \<Rightarrow> (case phase_of who h of Pull_Reading k \<Rightarrow> pull_failed who h | _ \<Rightarrow> h)
      | Ev_Resume who \<Rightarrow> pull_resume who full h
      | Ev_Drain \<Rightarrow> tty_drain h
      | Ev_Input d \<Rightarrow> h\<lparr>ry_calls := ry_calls h @ [Call_Write d]\<rparr>
      | Ev_Resized c r \<Rightarrow> h\<lparr>ry_calls := ry_calls h @ [Call_Resize c r]\<rparr>
      | Ev_Terminate \<Rightarrow> tty_terminate h
      | Ev_Terminated \<Rightarrow>
          if ry_stop h = Stop_Asked then start_pull Stopper (h\<lparr>ry_stop := Stop_Pulling\<rparr>) else h
      | Ev_Unterminated \<Rightarrow> if ry_stop h = Stop_Asked then h\<lparr>ry_stop := Stop_Failed\<rparr> else h
      | Ev_Outcome answer \<Rightarrow>
          if ry_stop h = Stop_Outcome
          then stop_finish (case answer of None \<Rightarrow> no_facts | Some outcome \<Rightarrow> outcome) h
          else h)"

subsection \<open>The request of an allocation\<close>

record tty_wire_spawn =
  tw_argv :: "string list"
  tw_cwd :: path
  tw_rows :: int
  tw_cols :: int
  tw_graceMs :: int
  tw_env :: "(string \<times> string) list option"

definition remote_tty_request :: "tty_request \<Rightarrow> tty_wire_spawn" where
  "remote_tty_request q =
     \<lparr>tw_argv = tq_argv q, tw_cwd = tq_cwd q, tw_rows = tq_rows q, tw_cols = tq_cols q,
      tw_graceMs = (case tq_graceMs q of None \<Rightarrow> DEFAULT_TTY_GRACE_MS | Some g \<Rightarrow> g), tw_env = tq_env q\<rparr>"

text \<open>\<open>terminalWire\<close> of \<open>plugin/routing/tty.ts\<close>: the daemon's method of each call, and its parameters.\<close>

datatype wire_arg = Arg_Text string | Arg_Int int

definition terminalWire :: "string \<Rightarrow> tty_call \<Rightarrow> string \<times> (string \<times> wire_arg) list" where
  "terminalWire termId call =
     (case call of
        Call_Read k w \<Rightarrow> (''term.read'', [(''termId'', Arg_Text termId), (''fromByte'', Arg_Int (int k)), (''waitMs'', Arg_Int (int w))])
      | Call_Write d \<Rightarrow> (''term.write'', [(''termId'', Arg_Text termId), (''data'', Arg_Text d)])
      | Call_Resize c r \<Rightarrow> (''term.resize'', [(''termId'', Arg_Text termId), (''cols'', Arg_Int c), (''rows'', Arg_Int r)])
      | Call_Terminate \<Rightarrow> (''term.terminate'', [(''termId'', Arg_Text termId)])
      | Call_Outcome \<Rightarrow> (''term.outcome'', [(''termId'', Arg_Text termId)]))"

subsection \<open>A terminal settles once\<close>

lemma phase_frame [simp]:
  "ry_output (set_phase who (h, p)) = ry_output h" "ry_done (set_phase who (h, p)) = ry_done h"
  "ry_finished (set_phase who (h, p)) = ry_finished h" "ry_held (set_phase who (h, p)) = ry_held h"
  "ry_releasing (set_phase who (h, p)) = ry_releasing h" "ry_stop (set_phase who (h, p)) = ry_stop h"
  "ry_offset (set_phase who (h, p)) = ry_offset h" "ry_calls (set_phase who (h, p)) = ry_calls h"
  by (cases who; simp add: set_phase_def)+

definition tty_run :: "(tty_event \<times> bool) list \<Rightarrow> remote_tty \<Rightarrow> remote_tty" where
  "tty_run es h = fold (\<lambda>(e, full). tty_step e full) es h"

lemma run_append: "tty_run (es @ es') h = tty_run es' (tty_run es h)"
  by (simp add: tty_run_def)

text \<open>What every step keeps: a law of the phases the two pulls can be in, under the events that are
  allowed.\<close>

locale tty_law =
  fixes P :: "remote_tty \<Rightarrow> bool" and allowed :: "tty_event \<Rightarrow> bool"
  assumes answer_law: "P h \<Longrightarrow> phase_of who h = Pull_Reading k \<Longrightarrow> allowed (Ev_Answer who r) \<Longrightarrow>
      P (set_phase who (pull_answer r full h))"
    and failed_law: "P h \<Longrightarrow> phase_of who h = Pull_Reading k \<Longrightarrow> allowed (Ev_Unread who) \<Longrightarrow> P (pull_failed who h)"
    and deliver_law: "P h \<Longrightarrow> phase_of who h = Pull_Marked r False \<Longrightarrow> P (set_phase who (pull_deliver r full h))"
    and pulled_law: "P h \<Longrightarrow> phase_of who h = Pull_Written ended False \<Longrightarrow> P (pulled who ended h)"
    and drain_law: "P h \<Longrightarrow> allowed Ev_Drain \<Longrightarrow> P (tty_drain h)"
    and call_law: "P h \<Longrightarrow> P (h\<lparr>ry_calls := ry_calls h @ [Call_Write d]\<rparr>)" "P h \<Longrightarrow> P (h\<lparr>ry_calls := ry_calls h @ [Call_Resize c w]\<rparr>)"
    and stop_law: "P h \<Longrightarrow> P (tty_terminate h)"
    and stopped_law: "P h \<Longrightarrow> ry_stop h = Stop_Asked \<Longrightarrow> P (start_pull Stopper (h\<lparr>ry_stop := Stop_Pulling\<rparr>))"
    and unstopped_law: "P h \<Longrightarrow> ry_stop h = Stop_Asked \<Longrightarrow> P (h\<lparr>ry_stop := Stop_Failed\<rparr>)"
    and facts_law: "P h \<Longrightarrow> ry_stop h = Stop_Outcome \<Longrightarrow> P (stop_finish outcome h)"
begin

lemma resume_kept: "P h \<Longrightarrow> P (pull_resume who full h)"
  by (auto simp: pull_resume_def deliver_law pulled_law split: pull_phase.splits bool.splits)

lemma step_kept: "P h \<Longrightarrow> allowed e \<Longrightarrow> P (tty_step e full h)"
  by (cases e)
    (auto simp: tty_step_def resume_kept answer_law failed_law drain_law call_law stop_law stopped_law unstopped_law facts_law
      split: pull_phase.split)

lemma run_kept: "P h \<Longrightarrow> \<forall>e \<in> fst ` set es. allowed e \<Longrightarrow> P (tty_run es h)"
  by (induction es arbitrary: h) (auto simp: tty_run_def step_kept)

end

text \<open>A law that does not look at the phases, nor at the text.\<close>

locale tty_plain_law =
  fixes P :: "remote_tty \<Rightarrow> bool"
  assumes publish_law: "P h \<Longrightarrow> P (fst (publish_text t full h))"
    and place_law: "P h \<Longrightarrow> P (h\<lparr>ry_offset := n\<rparr>)" "P h \<Longrightarrow> P (h\<lparr>ry_held := b\<rparr>)"
    and phase_law: "P h \<Longrightarrow> P (set_phase who (h, p))"
    and any_failed_law: "P h \<Longrightarrow> P (pull_failed who h)"
    and any_pulled_law: "P h \<Longrightarrow> P (pulled who ended h)"
    and any_drain_law: "P h \<Longrightarrow> P (tty_drain h)"
    and any_call_law: "P h \<Longrightarrow> P (h\<lparr>ry_calls := ry_calls h @ [Call_Write d]\<rparr>)" "P h \<Longrightarrow> P (h\<lparr>ry_calls := ry_calls h @ [Call_Resize c w]\<rparr>)"
    and any_stop_law: "P h \<Longrightarrow> P (tty_terminate h)"
    and any_stopped_law: "P h \<Longrightarrow> ry_stop h = Stop_Asked \<Longrightarrow> P (start_pull Stopper (h\<lparr>ry_stop := Stop_Pulling\<rparr>))"
    and any_unstopped_law: "P h \<Longrightarrow> ry_stop h = Stop_Asked \<Longrightarrow> P (h\<lparr>ry_stop := Stop_Failed\<rparr>)"
    and any_facts_law: "P h \<Longrightarrow> P (stop_finish outcome h)"
begin

lemma deliver_kept: "P h \<Longrightarrow> P (fst (pull_deliver r full h))"
  using place_law(2) [OF place_law(1)] by (simp add: pull_deliver_def split_beta Let_def place_law(1) publish_law)

lemma answer_kept: "P h \<Longrightarrow> P (fst (pull_answer r full h))"
  by (simp add: pull_answer_def split_beta Let_def deliver_kept publish_law)

lemma phase_kept: "P (fst hp) \<Longrightarrow> P (set_phase who hp)"
  by (cases hp) (simp add: phase_law)

end

sublocale tty_plain_law \<subseteq> tty_law P "\<lambda>e. True"
  by unfold_locales
    (simp_all add: phase_kept answer_kept deliver_kept any_failed_law any_pulled_law any_drain_law any_call_law any_stop_law
      any_stopped_law any_unstopped_law any_facts_law)

lemmas tty_outcome_defs = pulled_def pull_failed_def follow_next_def follow_lost_def stop_next_def stop_finish_def
  start_pull_def finish_tty_def tty_drain_def tty_terminate_def publish_text_def

definition settled_as :: "string \<Rightarrow> tty_outcome option \<Rightarrow> remote_tty \<Rightarrow> bool" where
  "settled_as txt outcome h \<longleftrightarrow> ry_finished h \<and> ry_output h = txt \<and> ry_done h = outcome"

interpretation settled_law: tty_plain_law "settled_as t d" for t d
  by unfold_locales (auto simp: settled_as_def tty_outcome_defs split: puller.split wire_outcome.split)

definition done_iff :: "remote_tty \<Rightarrow> bool" where
  "done_iff h \<longleftrightarrow> (ry_finished h \<longleftrightarrow> ry_done h \<noteq> None)"

interpretation done_law: tty_plain_law done_iff
  by unfold_locales (auto simp: done_iff_def tty_outcome_defs split: puller.split wire_outcome.split)

text \<open>A terminal settles once. Whatever its reads answer, in whatever order a release, the two pulls
  and the drains interleave, it has facts exactly when it has finished, and from then on neither the
  facts nor its output change: nothing is written to the stream that was ended.\<close>

theorem settles_once:
  assumes "ry_done (tty_run es tty_start) = Some outcome"
  shows "ry_done (tty_run (es @ es') tty_start) = Some outcome \<and>
    ry_output (tty_run (es @ es') tty_start) = ry_output (tty_run es tty_start)"
proof -
  have "done_iff tty_start" by (simp add: done_iff_def tty_start_def)
  from done_law.run_kept [OF this, of es] assms have "settled_as (ry_output (tty_run es tty_start)) (Some outcome) (tty_run es tty_start)"
    by (simp add: settled_as_def done_iff_def)
  from settled_law.run_kept [OF this, of es'] show ?thesis by (simp add: settled_as_def run_append)
qed

definition plain_read :: "string \<Rightarrow> nat \<Rightarrow> wire_outcome \<Rightarrow> wire_read" where
  "plain_read txt n outcome =
     \<lparr>wr_data = base64_encode txt, wr_nextOffset = n, wr_lossy = False, wr_outcome = outcome\<rparr>"

lemma plain_read_facts [simp]:
  "read_bytes (plain_read s n d) = s" "wr_nextOffset (plain_read s n d) = n" "\<not> wr_lossy (plain_read s n d)"
  "wr_outcome (plain_read s n d) = d"
  using base64_roundtrip [of s] by (auto simp: plain_read_def read_bytes_def base64_decode_def List.map_filter_simps)

lemmas tty_run_simps = tty_run_def tty_step_def tty_start_def phase_of_def set_phase_def pull_answer_def pull_deliver_def
  pull_resume_def drained_phase_def tty_outcome_defs stream_ascii byte_def

theorem settles_once_witness:
  "\<exists>es. ry_output (tty_run es tty_start) = ''ok'' \<and>
     ry_done (tty_run (es @ [(Ev_Unread Stopper, False), (Ev_Terminate, False)]) tty_start) = Some no_facts"
proof -
  let ?es = "[(Ev_Answer Follower (plain_read ''ok'' 2 Absent_Outcome), False), (Ev_Resume Follower, False), (Ev_Unread Follower, False)]"
  have r: "ry_done (tty_run ?es tty_start) = Some no_facts" and o1: "ry_output (tty_run ?es tty_start) = ''ok''"
    by (simp_all add: tty_run_simps)
  from o1 conjunct1 [OF settles_once [OF r, of "[(Ev_Unread Stopper, False), (Ev_Terminate, False)]"]]
  show ?thesis by (intro exI [of _ ?es] conjI)
qed

subsection \<open>A release stops the reading\<close>

definition reads_issued :: "remote_tty \<Rightarrow> nat" where
  "reads_issued h = length (filter (\<lambda>c. case c of Call_Read k w \<Rightarrow> True | _ \<Rightarrow> False) (ry_calls h))"

definition reads_left :: "remote_tty \<Rightarrow> nat" where
  "reads_left h = (if ry_stop h = Stop_Asked then 1 else 0)"

definition no_more :: "nat \<Rightarrow> remote_tty \<Rightarrow> bool" where
  "no_more n h \<longleftrightarrow> ry_releasing h \<and> ry_stop h \<noteq> Stop_None \<and> reads_issued h + reads_left h \<le> n"

interpretation release_law: tty_plain_law "no_more n" for n
  by unfold_locales
    (auto simp: no_more_def reads_issued_def reads_left_def tty_outcome_defs split: puller.split wire_outcome.split)

text \<open>Once a release has begun, the terminal reads the daemon at most once more: the loop that follows
  it stops after the read it has in flight, however many answers and calls of \<open>terminate\<close> come.\<close>

theorem release_stops_reading:
  assumes "ry_releasing h" "ry_stop h \<noteq> Stop_None"
  shows "reads_issued (tty_run es h) \<le> Suc (reads_issued h)"
proof -
  have "no_more (Suc (reads_issued h)) h" using assms by (simp add: no_more_def reads_left_def)
  from release_law.run_kept [OF this, of es] show ?thesis by (simp add: no_more_def)
qed

theorem release_stops_reading_witness:
  "ry_releasing (tty_terminate tty_start) \<and>
   reads_issued (tty_run (replicate 5 (Ev_Terminated, False)) (tty_terminate tty_start)) \<le> 2"
  using release_stops_reading [of "tty_terminate tty_start" "replicate 5 (Ev_Terminated, False)"]
  by (simp add: tty_terminate_def tty_start_def reads_issued_def)

subsection \<open>What a reader is shown\<close>

text \<open>The reads of a run, each the bytes it could no longer fetch and those it brought, and what is shown
  of them: the text so far and what the decoder holds.\<close>

definition render_step :: "string \<times> bytes \<Rightarrow> nat \<times> bytes \<Rightarrow> string \<times> bytes" where
  "render_step shown read =
     (let (out, held) = shown; (lost, bs) = read; out' = out @ (if 0 < lost then lost_notice (int lost) else [])
      in if bs = [] then (out', held)
         else (out' @ fst (utf8_stream (held @ bs)), snd (utf8_stream (held @ bs))))"

definition render :: "(nat \<times> bytes) list \<Rightarrow> string \<times> bytes" where
  "render reads = foldl render_step ([], []) reads"

fun covers :: "bytes \<Rightarrow> nat \<Rightarrow> (nat \<times> bytes) list \<Rightarrow> nat \<Rightarrow> bool" where
  "covers s k [] e = (k = e)"
| "covers s k ((lost, bs) # reads) e =
     (k + lost + length bs \<le> length s \<and> bs = take (length bs) (drop (k + lost) s) \<and>
      covers s (k + lost + length bs) reads e)"

definition gapless :: "bool \<Rightarrow> (nat \<times> bytes) list \<Rightarrow> bool" where
  "gapless fits reads \<longleftrightarrow> (fits \<longrightarrow> list_all (\<lambda>(lost, bs). lost = 0) reads)"

lemma covers_more: "covers s k reads e \<Longrightarrow> covers (s @ t) k reads e"
  by (induction reads arbitrary: k) auto

lemma covers_snoc:
  "covers s k reads e \<Longrightarrow> e + lost + length bs \<le> length s \<Longrightarrow> bs = take (length bs) (drop (e + lost) s) \<Longrightarrow>
    covers s k (reads @ [(lost, bs)]) (e + lost + length bs)"
  by (induction reads arbitrary: k) auto

lemma covers_whole: "covers s k reads e \<Longrightarrow> list_all (\<lambda>(lost, bs). lost = 0) reads \<Longrightarrow>
    concat (map snd reads) = take (e - k) (drop k s) \<and> k \<le> e"
proof (induction reads arbitrary: k)
  case (Cons r reads)
  obtain bs where r: "r = (0, bs)" using Cons.prems(2) by (cases r) auto
  have bs: "bs = take (length bs) (drop k s)" "concat (map snd reads) = take (e - (k + length bs)) (drop (k + length bs) s)"
    "k + length bs \<le> e"
    using Cons.IH [of "k + length bs"] Cons.prems r by auto
  then have "take (e - k) (drop k s) = take (length bs) (drop k s) @ take (e - (k + length bs)) (drop (length bs) (drop k s))"
    using take_add [of "length bs" "e - (k + length bs)" "drop k s"] by simp
  with bs r show ?case by (simp add: add.commute)
qed simp

lemma render_whole: "list_all (\<lambda>(lost, bs). lost = 0) reads \<Longrightarrow> render reads = utf8_stream (concat (map snd reads))"
proof (induction reads rule: rev_induct)
  case (snoc r reads)
  obtain bs where r: "r = (0, bs)" using snoc.prems by (cases r) auto
  have ih: "render reads = utf8_stream (concat (map snd reads))" using snoc by simp
  have "render (reads @ [r]) = render_step (utf8_stream (concat (map snd reads))) (0, bs)"
    using ih r by (simp add: render_def)
  also have "\<dots> = utf8_stream (concat (map snd reads) @ bs)"
    using stream_append [of "concat (map snd reads)" bs] by (cases "bs = []") (simp_all add: render_step_def split_beta)
  finally show ?case using r by simp
qed (simp add: render_def)

subsection \<open>The follower and the daemon's window\<close>

text \<open>A terminal that is not released, beside the window of the daemon (of \<open>m\<close> bytes, after the stream
  \<open>s\<close>): its reads are answered from the window as it then is.\<close>

inductive followed :: "nat \<Rightarrow> stream_buffer \<Rightarrow> bytes \<Rightarrow> remote_tty \<Rightarrow> bool" for m where
  Opened: "daemon_window.tracks m b s \<Longrightarrow> followed m b s tty_start"
| Wrote: "followed m b s h \<Longrightarrow> followed m (sb_push bs b) (s @ bs) h"
| Answered: "followed m b s h \<Longrightarrow> ry_follow h = Pull_Reading k \<Longrightarrow> sb_read k b = (bs, nxt, lossy) \<Longrightarrow>
    r = \<lparr>wr_data = base64_encode bs, wr_nextOffset = nxt, wr_lossy = lossy, wr_outcome = ended\<rparr> \<Longrightarrow>
    followed m b s (tty_step (Ev_Answer Follower r) full h)"
| Other: "followed m b s h \<Longrightarrow> e = Ev_Unread Follower \<or> e = Ev_Resume Follower \<or> e = Ev_Drain \<or> e = Ev_Input d \<or> e = Ev_Resized c w \<Longrightarrow>
    followed m b s (tty_step e full h)"

definition shows_reads :: "nat \<Rightarrow> bytes \<Rightarrow> remote_tty \<Rightarrow> (nat \<times> bytes) list \<Rightarrow> bool" where
  "shows_reads m s h reads \<longleftrightarrow>
     covers s 0 reads (ry_offset h) \<and> gapless (length s \<le> m) reads \<and>
     (if ry_finished h then ry_output h = fst (render reads) @ utf8_text (snd (render reads))
      else (ry_output h, ry_held h) = render reads)"

definition shows_marked :: "nat \<Rightarrow> bytes \<Rightarrow> remote_tty \<Rightarrow> wire_read \<Rightarrow> bool" where
  "shows_marked m s h r \<longleftrightarrow>
     (\<exists>reads lost. shows_reads m s (h\<lparr>ry_output := fst (render reads)\<rparr>) reads \<and> m < length s \<and> 0 < lost \<and>
        ry_output h = fst (render reads) @ lost_notice (int lost) \<and>
        ry_offset h + lost + length (read_bytes r) = wr_nextOffset r \<and> wr_nextOffset r \<le> length s \<and>
        read_bytes r = take (length (read_bytes r)) (drop (ry_offset h + lost) s))"

definition following :: "nat \<Rightarrow> bytes \<Rightarrow> remote_tty \<Rightarrow> bool" where
  "following m s h \<longleftrightarrow>
     ry_stop h = Stop_None \<and> \<not> ry_releasing h \<and> ry_last h = Pull_Idle \<and>
     (case ry_follow h of
        Pull_Idle \<Rightarrow> ry_finished h \<and> (\<exists>reads. shows_reads m s h reads)
      | Pull_Reading k \<Rightarrow> \<not> ry_finished h \<and> k = ry_offset h \<and> (\<exists>reads. shows_reads m s h reads)
      | Pull_Marked r w \<Rightarrow> \<not> ry_finished h \<and> shows_marked m s h r
      | Pull_Written d w \<Rightarrow> \<not> ry_finished h \<and> (\<exists>reads. shows_reads m s h reads))"

lemma following_start: "following m s tty_start"
  by (auto simp: following_def tty_start_def shows_reads_def gapless_def render_def intro!: exI [of _ "[]"])

lemma shows_more: "shows_reads m s h reads \<Longrightarrow> shows_reads m (s @ t) h reads"
  by (auto simp: shows_reads_def gapless_def intro: covers_more)

lemma marked_more: "shows_marked m s h r \<Longrightarrow> shows_marked m (s @ t) h r"
  unfolding shows_marked_def
  by (elim exE conjE, rule exI, rule exI) (auto intro: shows_more)

lemma following_more: "following m s h \<Longrightarrow> following m (s @ t) h"
  by (auto simp: following_def intro: shows_more marked_more split: pull_phase.splits)

text \<open>Bytes that continue what was read, after a gap of \<open>lost\<close>, are shown by delivering them.\<close>

lemma deliver_shows:
  assumes "shows_reads m s (h\<lparr>ry_output := fst (render reads)\<rparr>) reads" "\<not> ry_finished h"
    and "ry_output h = fst (render reads) @ (if 0 < lost then lost_notice (int lost) else [])"
    and "ry_offset h + lost + length (read_bytes r) = wr_nextOffset r" "wr_nextOffset r \<le> length s"
    and "read_bytes r = take (length (read_bytes r)) (drop (ry_offset h + lost) s)"
    and "0 < lost \<longrightarrow> m < length s"
  shows "shows_reads m s (fst (pull_deliver r full h)) (reads @ [(lost, read_bytes r)])"
proof -
  have r: "render reads = (fst (render reads), ry_held h)" using assms(1,2) by (auto simp: shows_reads_def)
  have c: "covers s 0 (reads @ [(lost, read_bytes r)]) (wr_nextOffset r)"
    using covers_snoc [of s 0 reads "ry_offset h" lost "read_bytes r"] assms(1,4,5,6) by (auto simp: shows_reads_def)
  have g: "gapless (length s \<le> m) (reads @ [(lost, read_bytes r)])"
    using assms(1,7) by (auto simp: shows_reads_def gapless_def)
  have "render (reads @ [(lost, read_bytes r)]) = render_step (fst (render reads), ry_held h) (lost, read_bytes r)"
    using r by (simp add: render_def)
  with c g assms(2,3) show ?thesis
    by (auto simp: shows_reads_def pull_deliver_def publish_text_def render_step_def Let_def split_beta)
qed

lemma covers_le: "covers s k reads e \<Longrightarrow> k \<le> length s \<Longrightarrow> e \<le> length s"
  by (induction reads arbitrary: k) auto

lemma deliver_frame [simp]:
  "ry_stop (fst (pull_deliver r full h)) = ry_stop h" "ry_releasing (fst (pull_deliver r full h)) = ry_releasing h"
  "ry_last (fst (pull_deliver r full h)) = ry_last h" "ry_finished (fst (pull_deliver r full h)) = ry_finished h"
  by (simp_all add: pull_deliver_def publish_text_def Let_def split_beta)

lemma deliver_phase: "\<exists>w. snd (pull_deliver r full h) = Pull_Written (wr_outcome r) w"
  by (cases "read_bytes r = []") (auto simp: pull_deliver_def Let_def split_beta)

lemma marked_phase [simp]: "shows_marked m s (h\<lparr>ry_follow := p\<rparr>) r = shows_marked m s h r"
  by (simp add: shows_marked_def shows_reads_def)

lemma deliver_following:
  assumes "following m s h" "\<not> ry_finished h" "shows_reads m s (fst (pull_deliver r full h)) reads"
  shows "following m s (set_phase Follower (pull_deliver r full h))"
proof -
  obtain h' w where h': "pull_deliver r full h = (h', Pull_Written (wr_outcome r) w)"
    using deliver_phase by (metis prod.collapse)
  have "shows_reads m s (h'\<lparr>ry_follow := Pull_Written (wr_outcome r) w\<rparr>) reads"
    using assms(3) h' by (simp add: shows_reads_def)
  moreover have "ry_stop h' = ry_stop h" "ry_releasing h' = ry_releasing h" "ry_last h' = ry_last h" "ry_finished h' = ry_finished h"
    using h' deliver_frame [of r full h] by simp_all
  ultimately show ?thesis using assms(1,2) by (auto simp: following_def set_phase_def h')
qed

lemma following_answer:
  assumes f: "following m s h" and t: "daemon_window.tracks m b s" and k: "ry_follow h = Pull_Reading k"
    and rd: "sb_read k b = (bs, nxt, lossy)"
    and r: "r = \<lparr>wr_data = base64_encode bs, wr_nextOffset = nxt, wr_lossy = lossy, wr_outcome = ended\<rparr>"
  shows "following m s (set_phase Follower (pull_answer r full h))"
proof -
  obtain reads where reads: "shows_reads m s h reads" and nf: "\<not> ry_finished h" and off: "k = ry_offset h"
    using f k by (auto simp: following_def)
  have out: "ry_output h = fst (render reads)" using reads nf by (auto simp: shows_reads_def dest: sym)
  have le: "k \<le> length s" using reads off covers_le by (auto simp: shows_reads_def)
  have rb: "read_bytes r = bs"
    using base64_roundtrip [of bs] by (auto simp: r read_bytes_def base64_decode_def List.map_filter_simps)
  have ans: "bs = (if k < length s - m then tail_of m s else drop k s)" "nxt = length s" "lossy \<longleftrightarrow> k < length s - m"
    using rd sb_read_fed [OF t, of k] by auto
  have same: "h\<lparr>ry_output := fst (render reads)\<rparr> = h" using out by simp
  have base: "shows_reads m s (h\<lparr>ry_output := fst (render reads)\<rparr>) reads" unfolding same by (rule reads)
  show ?thesis
  proof (cases lossy)
    case False
    have "shows_reads m s (fst (pull_deliver r full h)) (reads @ [(0, read_bytes r)])"
      by (rule deliver_shows) (use base nf out ans False le off rb r in auto)
    from deliver_following [OF f nf this] False show ?thesis by (simp add: pull_answer_def r)
  next
    case True
    let ?lost = "length s - m - k"
    have marked: "shows_marked m s (h\<lparr>ry_output := ry_output h @ lost_notice (int ?lost)\<rparr>) r"
      unfolding shows_marked_def
      using base out ans True off rb
      by (intro exI [of _ reads] exI [of _ ?lost]) (auto simp: r tail_of_def)
    have "int (wr_nextOffset r) - int (length (read_bytes r)) - int (ry_offset h) = int ?lost"
      using ans True rb off by (auto simp: r)
    then have "pull_answer r full h = (h\<lparr>ry_output := ry_output h @ lost_notice (int ?lost)\<rparr>, Pull_Marked r full)"
      using True nf by (simp add: pull_answer_def publish_text_def r lost_notice_def)
    then show ?thesis using f nf marked by (simp add: following_def set_phase_def)
  qed
qed

lemma shows_frame [simp]:
  "shows_reads m s (h\<lparr>ry_follow := p\<rparr>) = shows_reads m s h"
  "shows_reads m s (h\<lparr>ry_calls := cs\<rparr>) = shows_reads m s h"
  "shows_marked m s (h\<lparr>ry_calls := cs\<rparr>) r = shows_marked m s h r"
  by (simp_all add: shows_reads_def shows_marked_def fun_eq_iff)

lemma finish_shows: "shows_reads m s h reads \<Longrightarrow> shows_reads m s (finish_tty d h) reads"
  by (cases "render reads") (auto simp: shows_reads_def finish_tty_def)

lemma following_finish:
  assumes "following m s h" "shows_reads m s h reads"
  shows "following m s (finish_tty d (h\<lparr>ry_follow := Pull_Idle\<rparr>))"
proof -
  have "shows_reads m s (finish_tty d (h\<lparr>ry_follow := Pull_Idle\<rparr>)) reads" using assms(2) by (simp add: finish_shows)
  then show ?thesis using assms(1) by (auto simp: following_def finish_tty_def)
qed

lemma following_next:
  assumes "following m s h" "ry_follow h = Pull_Written ended w"
  shows "following m s (follow_next ended h)"
proof -
  obtain reads where "shows_reads m s h reads" "\<not> ry_finished h" "\<not> ry_releasing h"
    using assms by (auto simp: following_def)
  with following_finish [OF assms(1)] assms(1) show ?thesis
    by (cases ended) (auto simp: follow_next_def start_pull_def set_phase_def following_def)
qed

lemma following_resume:
  assumes "following m s h"
  shows "following m s (pull_resume Follower full h)"
proof (cases "ry_follow h")
  case (Pull_Written d w)
  with following_next [OF assms] assms show ?thesis
    by (auto simp: pull_resume_def phase_of_def pulled_def split: bool.splits)
next
  case (Pull_Marked r w)
  with assms have nf: "\<not> ry_finished h" and "shows_marked m s h r" by (auto simp: following_def)
  then obtain reads lost where "shows_reads m s (h\<lparr>ry_output := fst (render reads)\<rparr>) reads" "m < length s" "0 < lost"
    "ry_output h = fst (render reads) @ lost_notice (int lost)"
    "ry_offset h + lost + length (read_bytes r) = wr_nextOffset r" "wr_nextOffset r \<le> length s"
    "read_bytes r = take (length (read_bytes r)) (drop (ry_offset h + lost) s)"
    unfolding shows_marked_def by blast
  then have "shows_reads m s (fst (pull_deliver r full h)) (reads @ [(lost, read_bytes r)])"
    by (intro deliver_shows [OF _ nf]) auto
  from deliver_following [OF assms nf this] Pull_Marked assms show ?thesis
    by (auto simp: pull_resume_def phase_of_def split: bool.splits)
qed (use assms in \<open>simp_all add: pull_resume_def phase_of_def\<close>)

lemma following_drain: "following m s h \<Longrightarrow> following m s (tty_drain h)"
  by (cases "ry_follow h") (auto simp: tty_drain_def following_def drained_phase_def shows_reads_def shows_marked_def)

lemma following_other:
  assumes "following m s h"
    and "e = Ev_Unread Follower \<or> e = Ev_Resume Follower \<or> e = Ev_Drain \<or> e = Ev_Input d \<or> e = Ev_Resized c w"
  shows "following m s (tty_step e full h)"
proof -
  have "following m s (tty_step (Ev_Unread Follower) full h)"
  proof (cases "\<exists>k. ry_follow h = Pull_Reading k")
    case True
    then obtain k reads where "ry_follow h = Pull_Reading k" "shows_reads m s h reads"
      using assms(1) by (auto simp: following_def)
    with following_finish [OF assms(1)] show ?thesis
      by (auto simp: tty_step_def phase_of_def pull_failed_def follow_lost_def)
  next
    case False
    with assms(1) show ?thesis by (auto simp: tty_step_def phase_of_def split: pull_phase.split)
  qed
  moreover have "following m s (h\<lparr>ry_calls := cs\<rparr>)" for cs
    using assms(1) by (auto simp: following_def split: pull_phase.split)
  ultimately show ?thesis using assms following_resume [OF assms(1), of full] following_drain [OF assms(1)]
    by (auto simp: tty_step_def)
qed

lemma followed_tracks: "followed m b s h \<Longrightarrow> daemon_window.tracks m b s"
  by (induction rule: followed.induct) (auto intro: daemon_window.tracks_push)

lemma followed_following: "followed m b s h \<Longrightarrow> following m s h"
proof (induction rule: followed.induct)
  case (Answered b s h k bs nxt lossy r ended full)
  have "following m s (set_phase Follower (pull_answer r full h))"
    by (rule following_answer [OF Answered.IH followed_tracks [OF Answered.hyps(1)] Answered.hyps(2,3,4)])
  then show ?case using Answered.hyps(2) by (simp add: tty_step_def phase_of_def)
qed (auto intro: following_start following_more following_other)



subsection \<open>What can go wrong\<close>

text \<open>A release the daemon refused leaves a terminal that never settles: the loop stopped for it, and it
  is not asked again.\<close>

definition abandoned :: "remote_tty \<Rightarrow> bool" where
  "abandoned h \<longleftrightarrow>
     ry_follow h = Pull_Idle \<and> ry_last h = Pull_Idle \<and> ry_stop h = Stop_Failed \<and> \<not> ry_finished h \<and> ry_done h = None"

interpretation abandoned_law: tty_law abandoned "\<lambda>e. True"
  by unfold_locales
    (auto simp: abandoned_def phase_of_def tty_drain_def drained_phase_def tty_terminate_def split: puller.splits)

text \<open>When the daemon refuses to release a terminal (a member of its session outlived the kill), the
  terminal never settles while its transport stays up: the loop stops after the read it had in flight, a
  further call of \<open>terminate\<close> joins the one that failed, and no event after that yields its facts.\<close>

theorem failed_release_never_settles:
  "ry_done (tty_run ([(Ev_Terminate, f1), (Ev_Unterminated, f2), (Ev_Answer Follower (plain_read bs n ended), f3),
      (Ev_Drain, f4), (Ev_Resume Follower, f5)] @ es) tty_start) = None"
proof -
  let ?es = "[(Ev_Terminate, f1), (Ev_Unterminated, f2), (Ev_Answer Follower (plain_read bs n ended), f3),
      (Ev_Drain, f4), (Ev_Resume Follower, f5)]"
  have "abandoned (tty_run ?es tty_start)"
    by (cases "bs = []"; cases "fst (utf8_stream bs) = []")
      (simp_all add: tty_run_simps abandoned_def split_beta Let_def)
  then have "abandoned (tty_run (?es @ es) tty_start)" unfolding run_append by (rule abandoned_law.run_kept) simp
  then show ?thesis by (simp add: abandoned_def)
qed

definition unread :: "remote_tty \<Rightarrow> bool" where
  "unread h \<longleftrightarrow>
     (\<exists>d. ry_follow h = Pull_Written d True) \<and> (\<exists>d. ry_last h = Pull_Written d True) \<and> ry_stop h = Stop_Pulling \<and>
     \<not> ry_finished h \<and> ry_done h = None"

interpretation unread_law: tty_law unread "\<lambda>e. e \<noteq> Ev_Drain"
  by unfold_locales (auto simp: unread_def phase_of_def tty_terminate_def split: puller.splits)

text \<open>A release waits for the consumer of its terminal. When nothing reads the output any more (a
  registry that kills a terminal while a delivery is pending leaves it paused for good) and the last pull
  finds the stream full, \<open>terminate\<close> does not return and the terminal does not settle, whatever else
  happens.\<close>

theorem unread_release_never_ends:
  assumes "\<forall>e \<in> fst ` set es. e \<noteq> Ev_Drain"
  shows "ry_done (tty_run ([(Ev_Answer Follower (plain_read ''a'' 1 Absent_Outcome), True), (Ev_Terminate, False),
      (Ev_Terminated, False), (Ev_Answer Stopper (plain_read ''b'' 2 Absent_Outcome), True)] @ es) tty_start) = None \<and>
    ry_stop (tty_run ([(Ev_Answer Follower (plain_read ''a'' 1 Absent_Outcome), True), (Ev_Terminate, False),
      (Ev_Terminated, False), (Ev_Answer Stopper (plain_read ''b'' 2 Absent_Outcome), True)] @ es) tty_start) = Stop_Pulling"
proof -
  let ?es = "[(Ev_Answer Follower (plain_read ''a'' 1 Absent_Outcome), True), (Ev_Terminate, False),
      (Ev_Terminated, False), (Ev_Answer Stopper (plain_read ''b'' 2 Absent_Outcome), True)]"
  have "unread (tty_run ?es tty_start)" by (simp add: tty_run_simps unread_def)
  then have "unread (tty_run (?es @ es) tty_start)" unfolding run_append using assms by (rule unread_law.run_kept)
  then show ?thesis by (simp add: unread_def)
qed

theorem unread_release_never_ends_witness:
  "ry_done (tty_run ([(Ev_Answer Follower (plain_read ''a'' 1 Absent_Outcome), True), (Ev_Terminate, False),
      (Ev_Terminated, False), (Ev_Answer Stopper (plain_read ''b'' 2 Absent_Outcome), True)] @
      [(Ev_Terminate, False), (Ev_Resume Stopper, False)]) tty_start) = None"
  using unread_release_never_ends [of "[(Ev_Terminate, False), (Ev_Resume Stopper, False)]"] by simp

text \<open>The last pull asks from the offset of a read that is still in flight, and shows its bytes again.\<close>

lemma last_pull_repeats:
  "ry_output (tty_run [(Ev_Terminate, False), (Ev_Terminated, False),
      (Ev_Answer Follower (plain_read ''ab'' 2 Absent_Outcome), False),
      (Ev_Answer Stopper (plain_read ''ab'' 2 Absent_Outcome), False)] tty_start) = ''abab''"
  by (simp add: tty_run_simps)

text \<open>A sequence that a gap cut is completed by what follows the gap.\<close>

lemma gap_completes_character:
  "render [(0, [CHR 0xE2, CHR 0x82]), (3, [CHR 0xAC])] = (lost_notice 3 @ [CHR 0xE2, CHR 0x82, CHR 0xAC], [])"
proof -
  have "utf8_stream [CHR 0xE2, CHR 0x82] = ([], [CHR 0xE2, CHR 0x82])"
    "utf8_stream [CHR 0xE2, CHR 0x82, CHR 0xAC] = ([CHR 0xE2, CHR 0x82, CHR 0xAC], [])" by code_simp+
  then show ?thesis by (simp add: render_def render_step_def)
qed

text \<open>The first answer with facts ends the loop, so what the daemon's reader pushes after its reaper saw
  the exit is not shown.\<close>

lemma facts_outrun_output:
  "ry_finished (tty_run [(Ev_Answer Follower (plain_read [] 0 (Facts no_facts)), False), (Ev_Resume Follower, False)] tty_start) \<and>
   ry_output (tty_run ([(Ev_Answer Follower (plain_read [] 0 (Facts no_facts)), False), (Ev_Resume Follower, False)] @ es) tty_start) = []"
proof -
  let ?es = "[(Ev_Answer Follower (plain_read [] 0 (Facts no_facts)), False), (Ev_Resume Follower, False)]"
  have "settled_as [] (Some no_facts) (tty_run ?es tty_start)" by (simp add: tty_run_simps settled_as_def)
  moreover from settled_law.run_kept [OF this, of es] have "settled_as [] (Some no_facts) (tty_run (?es @ es) tty_start)"
    unfolding run_append by simp
  ultimately show ?thesis by (simp add: settled_as_def)
qed

end
