(* ===== verification/Local_Tty.thy ===== *)
theory Local_Tty
  imports Remote_Tty
begin

section \<open>A terminal of this host: local/tty.ts\<close>

text \<open>
  \<open>LocalTtyHandle\<close> over the PTY of node-pty: its data and its exit are events, and so is the timer of a
  wait that \<open>stop\<close> is in. \<open>stop\<close> awaits twice, the exit or a timer; what it does next is a step of its
  own, which takes place once the one or the other has happened.
\<close>

subsection \<open>The environment and the signals\<close>

definition tty_TERM :: string where "tty_TERM = ''xterm-256color''"

definition KILL_SETTLE_MS :: int where "KILL_SETTLE_MS = 2000"

definition host_entries :: "(string \<times> string option) list \<Rightarrow> (string \<rightharpoonup> string)" where
  "host_entries env = foldl (\<lambda>m (k, v). case v of None \<Rightarrow> m | Some x \<Rightarrow> m(k \<mapsto> x)) Map.empty env"

definition spawnEnv :: "(string \<times> string option) list \<Rightarrow> (string \<times> string) list option \<Rightarrow> (string \<rightharpoonup> string)" where
  "spawnEnv env overrides =
     foldl (\<lambda>m (k, v). m(k \<mapsto> v)) ((host_entries env)(''TERM'' \<mapsto> tty_TERM))
       (case overrides of None \<Rightarrow> [] | Some es \<Rightarrow> es)"

text \<open>The name of a signal number; \<open>signals\<close> is the table of the operating system.\<close>

fun signal_of :: "(string \<times> int) list \<Rightarrow> int \<Rightarrow> string option" where
  "signal_of [] code = None"
| "signal_of ((name, number) # signals) code = (if number = code then Some name else signal_of signals code)"

definition signalName :: "(string \<times> int) list \<Rightarrow> int \<Rightarrow> string option" where
  "signalName signals code = (if code = 0 then None else signal_of signals code)"

subsection \<open>The handle\<close>

datatype stop_wait = Not_Stopping | Grace_Wait bool | Kill_Wait bool | Stopped

datatype pty_call = Pty_Write string | Pty_Resize int int | Pty_Kill string

record local_tty =
  lt_graceMs :: int
  lt_exited :: bool
  lt_output :: bytes
  lt_ended :: bool
  lt_done :: "tty_outcome option"
  lt_stop :: stop_wait
  lt_timers :: "int list"
  lt_calls :: "pty_call list"

definition local_start :: "int option \<Rightarrow> local_tty" where
  "local_start graceMs =
     \<lparr>lt_graceMs = (case graceMs of None \<Rightarrow> DEFAULT_TTY_GRACE_MS | Some g \<Rightarrow> g), lt_exited = False, lt_output = [],
      lt_ended = False, lt_done = None, lt_stop = Not_Stopping, lt_timers = [], lt_calls = []\<rparr>"

definition pty_data :: "bytes \<Rightarrow> local_tty \<Rightarrow> local_tty" where
  "pty_data data_in t = t\<lparr>lt_output := lt_output t @ data_in\<rparr>"

text \<open>node-pty reports an exit once; a promise keeps the first value it was given.\<close>

definition pty_exit :: "(string \<times> int) list \<Rightarrow> int \<Rightarrow> int option \<Rightarrow> local_tty \<Rightarrow> local_tty" where
  "pty_exit signals exitCode signal t =
     (let facts = \<lparr>to_exitCode = Some exitCode, to_signal = signalName signals (case signal of None \<Rightarrow> 0 | Some s \<Rightarrow> s)\<rparr> in
      t\<lparr>lt_exited := True, lt_ended := True,
        lt_done := (case lt_done t of None \<Rightarrow> Some facts | Some d \<Rightarrow> Some d)\<rparr>)"

definition stop_begin :: "local_tty \<Rightarrow> local_tty" where
  "stop_begin t =
     (if lt_exited t then t\<lparr>lt_stop := Stopped\<rparr>
      else t\<lparr>lt_calls := lt_calls t @ [Pty_Kill ''SIGTERM''], lt_stop := Grace_Wait False,
             lt_timers := lt_timers t @ [lt_graceMs t]\<rparr>)"

definition local_terminate :: "local_tty \<Rightarrow> local_tty" where
  "local_terminate t = (if lt_stop t = Not_Stopping then stop_begin t else t)"

definition stop_resume :: "local_tty \<Rightarrow> local_tty" where
  "stop_resume t =
     (case lt_stop t of
        Grace_Wait expired \<Rightarrow>
          if \<not> (lt_exited t \<or> expired) then t
          else if lt_exited t then t\<lparr>lt_stop := Stopped\<rparr>
          else t\<lparr>lt_calls := lt_calls t @ [Pty_Kill ''SIGKILL''], lt_stop := Kill_Wait False,
                 lt_timers := lt_timers t @ [KILL_SETTLE_MS]\<rparr>
      | Kill_Wait expired \<Rightarrow> if lt_exited t \<or> expired then t\<lparr>lt_stop := Stopped\<rparr> else t
      | _ \<Rightarrow> t)"

definition timer_expired :: "local_tty \<Rightarrow> local_tty" where
  "timer_expired t =
     (case lt_stop t of
        Grace_Wait e \<Rightarrow> t\<lparr>lt_stop := Grace_Wait True\<rparr>
      | Kill_Wait e \<Rightarrow> t\<lparr>lt_stop := Kill_Wait True\<rparr>
      | _ \<Rightarrow> t)"

datatype local_event =
    Lt_Data bytes
  | Lt_Exit int "int option"
  | Lt_Write string
  | Lt_Resize int int
  | Lt_Terminate
  | Lt_Timer
  | Lt_Resume

definition local_step :: "(string \<times> int) list \<Rightarrow> local_event \<Rightarrow> local_tty \<Rightarrow> local_tty" where
  "local_step signals e t =
     (case e of
        Lt_Data d \<Rightarrow> pty_data d t
      | Lt_Exit c s \<Rightarrow> pty_exit signals c s t
      | Lt_Write d \<Rightarrow> t\<lparr>lt_calls := lt_calls t @ [Pty_Write d]\<rparr>
      | Lt_Resize c r \<Rightarrow> t\<lparr>lt_calls := lt_calls t @ [Pty_Resize c r]\<rparr>
      | Lt_Terminate \<Rightarrow> local_terminate t
      | Lt_Timer \<Rightarrow> timer_expired t
      | Lt_Resume \<Rightarrow> stop_resume t)"

definition local_run :: "(string \<times> int) list \<Rightarrow> local_event list \<Rightarrow> local_tty \<Rightarrow> local_tty" where
  "local_run signals es t = fold (local_step signals) es t"

record pty_options =
  po_program :: string
  po_args :: "string list"
  po_name :: string
  po_cols :: int
  po_rows :: int
  po_cwd :: path
  po_env :: "string \<rightharpoonup> string"

definition local_spawn :: "(string \<times> string option) list \<Rightarrow> tty_request \<Rightarrow> pty_options \<times> local_tty" where
  "local_spawn env q =
     (\<lparr>po_program = hd (tq_argv q), po_args = tl (tq_argv q), po_name = tty_TERM, po_cols = tq_cols q, po_rows = tq_rows q,
       po_cwd = tq_cwd q, po_env = spawnEnv env (tq_env q)\<rparr>,
      local_start (tq_graceMs q))"

subsection \<open>The signals a stop sends\<close>

definition kills :: "local_tty \<Rightarrow> string list" where
  "kills t = concat (map (\<lambda>c. case c of Pty_Kill s \<Rightarrow> [s] | _ \<Rightarrow> []) (lt_calls t))"

lemma kills_call [simp]:
  "kills (t\<lparr>lt_calls := lt_calls t @ [Pty_Kill s]\<rparr>) = kills t @ [s]"
  "kills (t\<lparr>lt_calls := lt_calls t @ [Pty_Write d]\<rparr>) = kills t"
  "kills (t\<lparr>lt_calls := lt_calls t @ [Pty_Resize c r]\<rparr>) = kills t"
  by (simp_all add: kills_def)

text \<open>A stop sends nothing to a terminal that exited, and each signal once; a kill follows a whole grace.\<close>

definition stop_ok :: "local_tty \<Rightarrow> bool" where
  "stop_ok t \<longleftrightarrow>
     (case lt_stop t of
        Not_Stopping \<Rightarrow> kills t = [] \<and> lt_timers t = []
      | Grace_Wait e \<Rightarrow> kills t = [''SIGTERM''] \<and> lt_timers t = [lt_graceMs t]
      | Kill_Wait e \<Rightarrow> kills t = [''SIGTERM'', ''SIGKILL''] \<and> lt_timers t = [lt_graceMs t, KILL_SETTLE_MS]
      | Stopped \<Rightarrow>
          (kills t, lt_timers t) \<in> {([], []), ([''SIGTERM''], [lt_graceMs t]),
            ([''SIGTERM'', ''SIGKILL''], [lt_graceMs t, KILL_SETTLE_MS])} \<and>
          (lt_exited t \<or> kills t = [''SIGTERM'', ''SIGKILL'']))"

lemma step_stop_ok: "stop_ok t \<Longrightarrow> stop_ok (local_step signals e t)"
  by (cases e; cases "lt_stop t")
    (auto simp: stop_ok_def local_step_def pty_data_def pty_exit_def local_terminate_def stop_begin_def stop_resume_def
      timer_expired_def kills_def Let_def)

lemma run_stop_ok: "stop_ok t \<Longrightarrow> stop_ok (local_run signals es t)"
  by (induction es arbitrary: t) (auto simp: local_run_def step_stop_ok)

lemma run_grace [simp]: "lt_graceMs (local_run signals es t) = lt_graceMs t"
proof (induction es arbitrary: t)
  case (Cons e es)
  have "lt_graceMs (local_step signals e t) = lt_graceMs t"
    by (cases e) (auto simp: local_step_def pty_data_def pty_exit_def local_terminate_def stop_begin_def stop_resume_def
      timer_expired_def split: stop_wait.split)
  with Cons show ?case by (simp add: local_run_def)
qed (simp add: local_run_def)

lemma stop_ok_kills:
  assumes "stop_ok t"
  shows "prefix (kills t) [''SIGTERM'', ''SIGKILL''] \<and> prefix (lt_timers t) [lt_graceMs t, KILL_SETTLE_MS] \<and>
    length (kills t) = length (lt_timers t) \<and>
    \<not> (lt_stop t = Stopped \<and> \<not> lt_exited t \<and> kills t \<noteq> [''SIGTERM'', ''SIGKILL''])"
  using assms by (cases "lt_stop t") (auto simp: stop_ok_def)

text \<open>A terminal of this host is stopped as the seam says, whatever is called and whenever it exits: it is
  signalled with TERM at most once and with KILL at most once, the kill only after TERM and a wait of the
  whole grace, it waits no longer than the grace and two seconds more, and a stop that has ended left a
  terminal that exited or was sent both.\<close>

theorem stop_escalates:
  "prefix (kills (local_run signals es (local_start g))) [''SIGTERM'', ''SIGKILL''] \<and>
   prefix (lt_timers (local_run signals es (local_start g))) [case g of None \<Rightarrow> DEFAULT_TTY_GRACE_MS | Some x \<Rightarrow> x, KILL_SETTLE_MS] \<and>
   length (kills (local_run signals es (local_start g))) = length (lt_timers (local_run signals es (local_start g))) \<and>
   \<not> (lt_stop (local_run signals es (local_start g)) = Stopped \<and> \<not> lt_exited (local_run signals es (local_start g)) \<and>
      kills (local_run signals es (local_start g)) \<noteq> [''SIGTERM'', ''SIGKILL''])"
proof -
  have "stop_ok (local_start g)" by (simp add: stop_ok_def local_start_def kills_def)
  moreover have "lt_graceMs (local_start g) = (case g of None \<Rightarrow> DEFAULT_TTY_GRACE_MS | Some x \<Rightarrow> x)"
    by (simp add: local_start_def)
  ultimately show ?thesis using stop_ok_kills [OF run_stop_ok, of "local_start g" signals es] by simp
qed

text \<open>A stop ends. Whatever state a terminal is in, once its waits have run out \<open>terminate\<close> returns,
  even when no exit is ever reported.\<close>

theorem stop_ends:
  "lt_stop (local_run signals [Lt_Terminate, Lt_Timer, Lt_Resume, Lt_Timer, Lt_Resume] t) = Stopped"
  by (cases "lt_stop t"; cases "lt_exited t")
    (simp_all add: local_run_def local_step_def local_terminate_def stop_begin_def stop_resume_def timer_expired_def)

text \<open>The value an assignment in order leaves: the last one.\<close>

lemma fold_last: "foldl (\<lambda>m (k, v). m(k \<mapsto> v)) m es k = (case map_of (rev es) k of None \<Rightarrow> m k | Some v \<Rightarrow> Some v)"
  by (induction es arbitrary: m) (auto simp: map_add_def split: option.split)

lemma host_last: "host_entries env k = map_of (rev (List.map_filter (\<lambda>(k, v). map_option (Pair k) v) env)) k"
proof -
  have "foldl (\<lambda>m (k, v). case v of None \<Rightarrow> m | Some x \<Rightarrow> m(k \<mapsto> x)) m env =
      foldl (\<lambda>m (k, v). m(k \<mapsto> v)) m (List.map_filter (\<lambda>(k, v). map_option (Pair k) v) env)" for m
    by (induction env arbitrary: m) (auto simp: List.map_filter_simps split: option.split)
  then show ?thesis using fold_last [of Map.empty "List.map_filter (\<lambda>(k, v). map_option (Pair k) v) env" k]
    by (simp add: host_entries_def split: option.splits)
qed

text \<open>A shell of this host starts in this process's environment: an entry the caller named has the
  caller's value, the terminal type is the fixed one unless the caller named it, and every other entry is
  the host's; an entry without a value is not there at all.\<close>

theorem shell_environment:
  "spawnEnv env overrides k =
     (case map_of (rev (case overrides of None \<Rightarrow> [] | Some es \<Rightarrow> es)) k of
        Some v \<Rightarrow> Some v
      | None \<Rightarrow> if k = ''TERM'' then Some tty_TERM
                else map_of (rev (List.map_filter (\<lambda>(k, v). map_option (Pair k) v) env)) k)"
  by (auto simp: spawnEnv_def fold_last host_last split: option.split)

end
