(* ===== verification/Autoconnect.thy ===== *)
theory Autoconnect
  imports Machine_Runs
begin

section \<open>Connecting by itself: models/autoconnect.ts\<close>

text \<open>
  A pass over a machine makes a few attempts with a gap between them; one starts for every machine when
  the plugin does, and for every machine that failed at each refresh. A pass awaits the gap and the
  connection; beside it the connection manager goes on, and so does the person who uses it.
\<close>

definition ATTEMPTS :: nat where "ATTEMPTS = 3"

definition RETRY_GAP_MS :: nat where "RETRY_GAP_MS = 2000"

datatype pass_phase = Pass_Gap | Pass_Connecting | Pass_Over

record auto_pass =
  ap_record :: node_record
  ap_attempt :: nat
  ap_phase :: pass_phase

record autoconnect =
  ac_attempts :: nat
  ac_stopped :: bool
  ac_passes :: "auto_pass list"
  ac_issued :: "node_record list"
  ac_manager :: manager

definition autoconnect_new :: "nat option \<Rightarrow> manager \<Rightarrow> autoconnect" where
  "autoconnect_new attempts m =
     \<lparr>ac_attempts = (case attempts of None \<Rightarrow> ATTEMPTS | Some n \<Rightarrow> n), ac_stopped = False, ac_passes = [],
      ac_issued = [], ac_manager = m\<rparr>"

text \<open>The call of \<open>connect\<close>, after the second look at whether the passes were stopped.\<close>

definition pass_connect :: "auto_pass \<Rightarrow> autoconnect \<Rightarrow> auto_pass \<times> autoconnect" where
  "pass_connect p s =
     (if ac_stopped s then (p\<lparr>ap_phase := Pass_Over\<rparr>, s)
      else (p\<lparr>ap_phase := Pass_Connecting\<rparr>,
            s\<lparr>ac_issued := ac_issued s @ [ap_record p], ac_manager := snd (connectRecord (ap_record p) (ac_manager s))\<rparr>))"

text \<open>The head of the loop.\<close>

definition pass_loop :: "auto_pass \<Rightarrow> autoconnect \<Rightarrow> auto_pass \<times> autoconnect" where
  "pass_loop p s =
     (if ac_attempts s \<le> ap_attempt p \<or> ac_stopped s then (p\<lparr>ap_phase := Pass_Over\<rparr>, s)
      else if 0 < ap_attempt p then (p\<lparr>ap_phase := Pass_Gap\<rparr>, s)
      else pass_connect p s)"

definition new_pass :: "node_record \<Rightarrow> auto_pass" where
  "new_pass r = \<lparr>ap_record = r, ap_attempt = 0, ap_phase = Pass_Over\<rparr>"

definition start_pass :: "node_record \<Rightarrow> autoconnect \<Rightarrow> autoconnect" where
  "start_pass r s = (let (p, s') = pass_loop (new_pass r) s in s'\<lparr>ac_passes := ac_passes s' @ [p]\<rparr>)"

definition set_pass :: "nat \<Rightarrow> auto_pass \<times> autoconnect \<Rightarrow> autoconnect" where
  "set_pass i ps = (let (p, s) = ps in s\<lparr>ac_passes := (ac_passes s)[i := p]\<rparr>)"

definition consider_machine :: "bool \<Rightarrow> node_record \<Rightarrow> autoconnect \<Rightarrow> autoconnect" where
  "consider_machine retryOnlyFailed r s =
     (if nd_transport r = Local_Transport then s
      else if retryOnlyFailed \<and> st_state (mg_status (nd_nodeId r) (ac_manager s)) \<noteq> Failed then s
      else start_pass r s)"

definition autoconnect :: "nat option \<Rightarrow> node_record list \<Rightarrow> manager \<Rightarrow> autoconnect" where
  "autoconnect attempts records m = fold (consider_machine False) records (autoconnect_new attempts m)"

definition refresh_passes :: "node_record list \<Rightarrow> autoconnect \<Rightarrow> autoconnect" where
  "refresh_passes records s = (if ac_stopped s then s else fold (consider_machine True) records s)"

definition gap_over :: "nat \<Rightarrow> autoconnect \<Rightarrow> autoconnect" where
  "gap_over i s =
     (if i < length (ac_passes s) \<and> ap_phase (ac_passes s ! i) = Pass_Gap
      then set_pass i (pass_connect (ac_passes s ! i) s) else s)"

text \<open>An attempt has connected or failed.\<close>

definition attempt_over :: "nat \<Rightarrow> bool \<Rightarrow> autoconnect \<Rightarrow> autoconnect" where
  "attempt_over i ok s =
     (if i < length (ac_passes s) \<and> ap_phase (ac_passes s ! i) = Pass_Connecting
      then
        (let p = ac_passes s ! i in
         if ok then set_pass i (p\<lparr>ap_phase := Pass_Over\<rparr>, s)
         else set_pass i (pass_loop (p\<lparr>ap_attempt := Suc (ap_attempt p)\<rparr>) s))
      else s)"

definition stop_passes :: "autoconnect \<Rightarrow> autoconnect" where
  "stop_passes s = s\<lparr>ac_stopped := True\<rparr>"

datatype auto_event =
    Au_Refresh "node_record list"
  | Au_Gap nat
  | Au_Result nat bool
  | Au_Stop
  | Au_Machine machine_event

definition auto_step :: "manager_config \<Rightarrow> auto_event \<Rightarrow> autoconnect \<Rightarrow> autoconnect" where
  "auto_step cf e s =
     (case e of
        Au_Refresh rs \<Rightarrow> refresh_passes rs s
      | Au_Gap i \<Rightarrow> gap_over i s
      | Au_Result i ok \<Rightarrow> attempt_over i ok s
      | Au_Stop \<Rightarrow> stop_passes s
      | Au_Machine me \<Rightarrow> s\<lparr>ac_manager := mg_step cf me (ac_manager s)\<rparr>)"

definition auto_run :: "manager_config \<Rightarrow> auto_event list \<Rightarrow> autoconnect \<Rightarrow> autoconnect" where
  "auto_run cf es s = fold (auto_step cf) es s"

subsection \<open>How often a machine is tried\<close>

text \<open>The connections a pass has asked for: at most those of its count and the one it waits for; one that is
  over asked for at most all of them.\<close>

definition asked_by :: "nat \<Rightarrow> auto_pass \<Rightarrow> nat" where
  "asked_by n p =
     (case ap_phase p of Pass_Gap \<Rightarrow> ap_attempt p | Pass_Connecting \<Rightarrow> Suc (ap_attempt p) | Pass_Over \<Rightarrow> n)"

definition pass_ok :: "nat \<Rightarrow> auto_pass \<Rightarrow> bool" where
  "pass_ok n p \<longleftrightarrow> (ap_phase p \<noteq> Pass_Over \<longrightarrow> ap_attempt p < n) \<and> nd_transport (ap_record p) \<noteq> Local_Transport"

definition auto_ok :: "autoconnect \<Rightarrow> bool" where
  "auto_ok s \<longleftrightarrow>
     (\<forall>p \<in> set (ac_passes s). pass_ok (ac_attempts s) p) \<and>
     (\<forall>r \<in> set (ac_issued s). nd_transport r \<noteq> Local_Transport) \<and>
     length (ac_issued s) \<le> sum_list (map (asked_by (ac_attempts s)) (ac_passes s))"

lemma asked_bound: "pass_ok n p \<Longrightarrow> asked_by n p \<le> n"
  by (cases "ap_phase p") (auto simp: asked_by_def pass_ok_def)

lemma sum_update: "i < length xs \<Longrightarrow> sum_list (map f (xs[i := x])) + f (xs ! i) = sum_list (map f xs) + (f x :: nat)"
proof (induction xs arbitrary: i)
  case (Cons y xs)
  then show ?case by (cases i) auto
qed simp

text \<open>Going on with a pass that asked for \<open>k\<close> connections.\<close>

lemma loop_asks:
  assumes "pass_loop p s = (p', s')" "nd_transport (ap_record p) \<noteq> Local_Transport"
  shows "ac_attempts s' = ac_attempts s" "ac_passes s' = ac_passes s" "pass_ok (ac_attempts s) p'"
    "\<exists>rs. ac_issued s' = ac_issued s @ rs \<and> set rs \<subseteq> {ap_record p}
      \<and> length rs + ap_attempt p \<le> max (ap_attempt p) (asked_by (ac_attempts s) p') \<and> (rs = [] \<or> ap_attempt p = 0)
      \<and> min (ap_attempt p) (ac_attempts s) \<le> asked_by (ac_attempts s) p'"
  using assms by (auto simp: pass_loop_def pass_connect_def pass_ok_def asked_by_def split: if_splits)

lemma pass_start_ok: "auto_ok s \<Longrightarrow> nd_transport r \<noteq> Local_Transport \<Longrightarrow> auto_ok (start_pass r s)"
proof -
  assume s: "auto_ok s" and r: "nd_transport r \<noteq> Local_Transport"
  obtain p s' where l: "pass_loop (new_pass r) s = (p, s')" by fastforce
  from loop_asks [OF l] r obtain rs where rs: "ac_attempts s' = ac_attempts s" "ac_passes s' = ac_passes s"
    "pass_ok (ac_attempts s) p" "ac_issued s' = ac_issued s @ rs" "set rs \<subseteq> {r}" "length rs \<le> asked_by (ac_attempts s) p"
    by (auto simp: new_pass_def)
  with s r show ?thesis by (auto simp: auto_ok_def start_pass_def l)
qed

lemma consider_ok: "auto_ok s \<Longrightarrow> auto_ok (consider_machine b r s)"
  by (simp add: consider_machine_def pass_start_ok)

lemma consider_all_ok: "auto_ok s \<Longrightarrow> auto_ok (fold (consider_machine b) rs s)"
  by (induction rs arbitrary: s) (auto simp: consider_ok)

lemma set_pass_ok:
  assumes "auto_ok s" "i < length (ac_passes s)" "ac_attempts s' = ac_attempts s" "ac_passes s' = ac_passes s"
    and "pass_ok (ac_attempts s) p" "ac_issued s' = ac_issued s @ rs" "\<forall>r \<in> set rs. nd_transport r \<noteq> Local_Transport"
    and "length rs + asked_by (ac_attempts s) (ac_passes s ! i) \<le> asked_by (ac_attempts s) p"
  shows "auto_ok (set_pass i (p, s'))"
proof -
  have "\<forall>q \<in> set ((ac_passes s)[i := p]). pass_ok (ac_attempts s) q"
    using assms(1,5) set_update_subset_insert [of "ac_passes s" i p] by (auto simp: auto_ok_def)
  with assms sum_update [OF assms(2), of "asked_by (ac_attempts s)" p] show ?thesis
    by (auto simp: auto_ok_def set_pass_def)
qed

lemma gap_ok: "auto_ok s \<Longrightarrow> auto_ok (gap_over i s)"
proof (cases "i < length (ac_passes s) \<and> ap_phase (ac_passes s ! i) = Pass_Gap")
  case True
  assume s: "auto_ok s"
  let ?p = "ac_passes s ! i"
  have p: "pass_ok (ac_attempts s) ?p" using s True by (simp add: auto_ok_def)
  show ?thesis
  proof (cases "ac_stopped s")
    case True
    have "auto_ok (set_pass i (?p\<lparr>ap_phase := Pass_Over\<rparr>, s))"
      by (rule set_pass_ok [where rs = "[]"]) (use s p \<open>i < _ \<and> _\<close> in \<open>auto simp: pass_ok_def asked_by_def\<close>)
    with True \<open>i < _ \<and> _\<close> show ?thesis by (simp add: gap_over_def pass_connect_def)
  next
    case False
    have "auto_ok (set_pass i (?p\<lparr>ap_phase := Pass_Connecting\<rparr>, s\<lparr>ac_issued := ac_issued s @ [ap_record ?p],
        ac_manager := snd (connectRecord (ap_record ?p) (ac_manager s))\<rparr>))"
      by (rule set_pass_ok [where rs = "[ap_record ?p]"]) (use s p \<open>i < _ \<and> _\<close> in \<open>auto simp: pass_ok_def asked_by_def\<close>)
    with False \<open>i < _ \<and> _\<close> show ?thesis by (simp add: gap_over_def pass_connect_def)
  qed
qed (auto simp: gap_over_def)

lemma attempt_ok: "auto_ok s \<Longrightarrow> auto_ok (attempt_over i ok s)"
proof (cases "i < length (ac_passes s) \<and> ap_phase (ac_passes s ! i) = Pass_Connecting")
  case True
  assume s: "auto_ok s"
  let ?p = "ac_passes s ! i" and ?q = "(ac_passes s ! i)\<lparr>ap_attempt := Suc (ap_attempt (ac_passes s ! i))\<rparr>"
  have p: "pass_ok (ac_attempts s) ?p" using s True by (simp add: auto_ok_def)
  obtain q s' where l: "pass_loop ?q s = (q, s')" by fastforce
  from loop_asks [OF l] p obtain rs where rs: "ac_attempts s' = ac_attempts s" "ac_passes s' = ac_passes s"
    "pass_ok (ac_attempts s) q" "ac_issued s' = ac_issued s @ rs" "rs = []"
    "min (Suc (ap_attempt ?p)) (ac_attempts s) \<le> asked_by (ac_attempts s) q"
    by (auto simp: pass_ok_def)
  have fail: "auto_ok (set_pass i (q, s'))"
    by (rule set_pass_ok [where rs = rs]) (use s p True rs in \<open>auto simp: pass_ok_def asked_by_def\<close>)
  have good: "auto_ok (set_pass i (?p\<lparr>ap_phase := Pass_Over\<rparr>, s))"
    by (rule set_pass_ok [where rs = "[]"]) (use s p True in \<open>auto simp: pass_ok_def asked_by_def\<close>)
  show ?thesis using True fail good l by (simp add: attempt_over_def Let_def)
qed (auto simp: attempt_over_def)

lemma auto_step_ok: "auto_ok s \<Longrightarrow> auto_ok (auto_step cf e s)"
  by (cases e)
    (simp_all add: auto_step_def refresh_passes_def consider_all_ok gap_ok attempt_ok, simp_all add: auto_ok_def stop_passes_def)

lemma auto_run_ok: "auto_ok s \<Longrightarrow> auto_ok (auto_run cf es s)"
  by (induction es arbitrary: s) (auto simp: auto_run_def auto_step_ok)

text \<open>What a machine's part of a pass leaves alone.\<close>

lemma start_attempts [simp]: "ac_attempts (start_pass r s) = ac_attempts s"
  by (auto simp: start_pass_def pass_loop_def pass_connect_def split_beta)

lemma consider_attempts [simp]: "ac_attempts (fold (consider_machine b) rs s) = ac_attempts s"
  by (induction rs arbitrary: s) (auto simp: consider_machine_def)

lemma step_attempts [simp]: "ac_attempts (auto_step cf e s) = ac_attempts s"
  by (cases e)
    (auto simp: auto_step_def refresh_passes_def gap_over_def attempt_over_def set_pass_def pass_loop_def pass_connect_def
      stop_passes_def split_beta Let_def)

lemma run_attempts [simp]: "ac_attempts (auto_run cf es s) = ac_attempts s"
  by (induction es arbitrary: s) (auto simp: auto_run_def)

lemma asked_sum: "\<forall>p \<in> set ps. pass_ok k p \<Longrightarrow> sum_list (map (asked_by k) ps) \<le> k * length ps"
  by (induction ps) (auto simp: add_mono asked_bound)

text \<open>Connecting by itself is bounded: whatever answers, disconnects, losses and refreshes come, the passes
  ask for at most as many connections as there are attempts to a pass, and never for one to this host.\<close>

theorem autoconnect_bounded:
  "length (ac_issued (auto_run cf es (autoconnect attempts records m)))
     \<le> (case attempts of None \<Rightarrow> 3 | Some n \<Rightarrow> n) * length (ac_passes (auto_run cf es (autoconnect attempts records m))) \<and>
   Local_Transport \<notin> nd_transport ` set (ac_issued (auto_run cf es (autoconnect attempts records m)))"
proof -
  let ?s = "auto_run cf es (autoconnect attempts records m)"
  have "auto_ok (autoconnect_new attempts m)" by (simp add: auto_ok_def autoconnect_new_def)
  then have ok: "auto_ok ?s" by (simp add: auto_run_ok autoconnect_def consider_all_ok)
  have n: "ac_attempts ?s = (case attempts of None \<Rightarrow> 3 | Some n \<Rightarrow> n)"
    by (simp add: autoconnect_def autoconnect_new_def ATTEMPTS_def split: option.split)
  have "length (ac_issued ?s) \<le> sum_list (map (asked_by (ac_attempts ?s)) (ac_passes ?s))" using ok by (simp only: auto_ok_def)
  also have "\<dots> \<le> ac_attempts ?s * length (ac_passes ?s)" by (rule asked_sum) (use ok in \<open>auto simp: auto_ok_def\<close>)
  finally show ?thesis using ok unfolding n by (auto simp: auto_ok_def)
qed

subsection \<open>After a stop\<close>

lemma stopped_step: "ac_stopped s \<Longrightarrow> ac_stopped (auto_step cf e s) \<and> ac_issued (auto_step cf e s) = ac_issued s
    \<and> length (ac_passes (auto_step cf e s)) = length (ac_passes s)"
  by (cases e)
    (auto simp: auto_step_def refresh_passes_def gap_over_def attempt_over_def set_pass_def pass_loop_def pass_connect_def
      stop_passes_def split_beta Let_def)

text \<open>A stop is final: once the plugin has stopped the passes no further connection is asked for and no
  pass starts, whatever gap, attempt or refresh was still to come.\<close>

theorem stop_is_final:
  assumes "ac_stopped s"
  shows "ac_issued (auto_run cf es s) = ac_issued s \<and> length (ac_passes (auto_run cf es s)) = length (ac_passes s)"
  using assms by (induction es arbitrary: s) (auto simp: auto_run_def stopped_step)

subsection \<open>A machine a person disconnected\<close>

text \<open>A machine that a person disconnects between two attempts of a pass does not stay down: the next
  attempt does not look at its state and connects it again.\<close>

theorem retry_overrides_disconnect:
  assumes "i < length (ac_passes s)" "ap_phase (ac_passes s ! i) = Pass_Gap" "\<not> ac_stopped s"
    and "map_of (mg_table (ac_manager s)) (nd_nodeId (ap_record (ac_passes s ! i))) = Some e"
  shows "st_state (mg_status (nd_nodeId (ap_record (ac_passes s ! i)))
      (ac_manager (auto_run cf [Au_Machine (Ev_Disconnect (nd_nodeId (ap_record (ac_passes s ! i))))] s))) = Disconnected \<and>
    st_state (mg_status (nd_nodeId (ap_record (ac_passes s ! i)))
      (ac_manager (auto_run cf [Au_Machine (Ev_Disconnect (nd_nodeId (ap_record (ac_passes s ! i)))), Au_Gap i] s))) = Connecting"
  using assms
  by (auto simp: auto_run_def auto_step_def gap_over_def set_pass_def pass_connect_def mg_status_def statusOf_def
      mg_disconnect_def connectRecord_def entryFor_def clear_def upd_entry_def emit_def clear_entry_def Let_def)

definition sample_passes :: autoconnect where
  "sample_passes =
     auto_run sample_config [Au_Machine (Ev_Opened 1 (Inl ''no route'')), Au_Result 0 False]
       (autoconnect None [sample_machine] createNodeConnections)"

theorem stop_is_final_witness:
  "ac_stopped (stop_passes sample_passes) \<and>
   ac_issued (auto_run sample_config [Au_Gap 0, Au_Refresh [sample_machine]] (stop_passes sample_passes)) = ac_issued sample_passes"
  using stop_is_final [of "stop_passes sample_passes" sample_config "[Au_Gap 0, Au_Refresh [sample_machine]]"]
  by (simp add: stop_passes_def)

theorem retry_overrides_disconnect_witness:
  "st_state (mg_status ''n'' (ac_manager sample_passes)) = Failed \<and>
   st_state (mg_status ''n'' (ac_manager (auto_run sample_config [Au_Machine (Ev_Disconnect ''n''), Au_Gap 0] sample_passes))) = Connecting"
proof -
  have p: "0 < length (ac_passes sample_passes)" "ap_phase (ac_passes sample_passes ! 0) = Pass_Gap" "\<not> ac_stopped sample_passes"
    "nd_nodeId (ap_record (ac_passes sample_passes ! 0)) = ''n''" "map_of (mg_table (ac_manager sample_passes)) ''n'' = Some 0"
    "st_state (mg_status ''n'' (ac_manager sample_passes)) = Failed" by code_simp+
  from conjunct2 [OF retry_overrides_disconnect [OF p(1-3), unfolded p(4), OF p(5), of sample_config]] p(6)
  show ?thesis by (intro conjI)
qed

end
