(* ===== verification/Node_Client.thy ===== *)
theory Node_Client
  imports Remote_Process Machines
begin

section \<open>The client of a daemon: remote/client.ts\<close>

text \<open>
  \<open>connectNode\<close> dials, then says hello, each within the same bound; the connection that comes of it
  carries requests, and one handler for the chunks of piped streams. The JSON-RPC library is the
  environment: it answers a request, refuses one on a connection that is closed or disposed, and rejects
  the pending ones when it is disposed; a link that drops leaves them pending, as the source says.
\<close>

subsection \<open>Failures\<close>

datatype rpc_error = Rpc_Response json | Rpc_Other string

datatype channel_error = Node_Request_Error string string | Rpc_Error rpc_error | Socket_Error string | Dial_Timeout | Hello_Timeout

definition isWireErrorData :: "json \<Rightarrow> bool" where
  "isWireErrorData v =
     (case jfield v ''code'' of
        Some (JStr c) \<Rightarrow> (case jfield v ''message'' of Some (JStr m) \<Rightarrow> True | _ \<Rightarrow> False)
      | _ \<Rightarrow> False)"

definition json_text :: "json option \<Rightarrow> string" where
  "json_text v = (case v of Some (JStr s) \<Rightarrow> s | _ \<Rightarrow> [])"

definition toChannelError :: "rpc_error \<Rightarrow> channel_error" where
  "toChannelError e =
     (case e of
        Rpc_Response d \<Rightarrow>
          if isWireErrorData d then Node_Request_Error (json_text (jfield d ''code'')) (json_text (jfield d ''message''))
          else Rpc_Error e
      | Rpc_Other m \<Rightarrow> Rpc_Error e)"

subsection \<open>State\<close>

datatype client_phase = Cl_Dialing | Cl_Hello | Cl_Ready node_info | Cl_Failed channel_error

record node_client =
  nc_bounded :: bool
  nc_phase :: client_phase
  nc_dropped :: bool
  nc_disposed :: bool
  nc_destroyed :: bool
  nc_closed :: bool
  nc_next :: nat
  nc_pending :: "nat list"
  nc_settled :: "(nat \<times> (channel_error + json)) list"
  nc_sent :: "(nat \<times> string) list"

definition client_start :: "bool \<Rightarrow> node_client" where
  "client_start bounded =
     \<lparr>nc_bounded = bounded, nc_phase = Cl_Dialing, nc_dropped = False, nc_disposed = False, nc_destroyed = False,
      nc_closed = False, nc_next = 0, nc_pending = [], nc_settled = [], nc_sent = []\<rparr>"

definition settle_request :: "nat \<Rightarrow> channel_error + json \<Rightarrow> node_client \<Rightarrow> node_client" where
  "settle_request i r c =
     (if i \<in> set (nc_pending c)
      then c\<lparr>nc_pending := removeAll i (nc_pending c), nc_settled := nc_settled c @ [(i, r)]\<rparr> else c)"

text \<open>\<open>channel.request\<close>.\<close>

definition channel_request :: "string \<Rightarrow> node_client \<Rightarrow> node_client" where
  "channel_request method c =
     (let i = nc_next c; c' = c\<lparr>nc_next := Suc i\<rparr> in
      if nc_disposed c \<or> nc_dropped c
      then c'\<lparr>nc_settled := nc_settled c @ [(i, Inl (toChannelError (Rpc_Other ''connection is closed'')))]\<rparr>
      else c'\<lparr>nc_pending := nc_pending c @ [i], nc_sent := nc_sent c @ [(i, method)]\<rparr>)"

text \<open>\<open>connection.dispose\<close> rejects what is pending.\<close>

definition dispose_connection :: "node_client \<Rightarrow> node_client" where
  "dispose_connection c =
     (if nc_disposed c then c
      else c\<lparr>nc_disposed := True, nc_pending := [],
             nc_settled := nc_settled c @ map (\<lambda>i. (i, Inl (toChannelError (Rpc_Other ''pending response rejected'')))) (nc_pending c)\<rparr>)"

definition hello_failed :: "channel_error \<Rightarrow> node_client \<Rightarrow> node_client" where
  "hello_failed e c = (dispose_connection c)\<lparr>nc_destroyed := True, nc_phase := Cl_Failed e\<rparr>"

text \<open>The daemon's answer to a request; the answer to hello ends the handshake. \<open>info\<close> reads it.\<close>

definition answered :: "(json \<Rightarrow> node_info) \<Rightarrow> nat \<Rightarrow> rpc_error + json \<Rightarrow> node_client \<Rightarrow> node_client" where
  "answered info i r c =
     (if i \<notin> set (nc_pending c) then c
      else
        (let c' = settle_request i (case r of Inl e \<Rightarrow> Inl (toChannelError e) | Inr v \<Rightarrow> Inr v) c in
         if nc_phase c = Cl_Hello \<and> i = 0
         then (case r of Inl e \<Rightarrow> hello_failed (toChannelError e) c' | Inr v \<Rightarrow> c'\<lparr>nc_phase := Cl_Ready (info v)\<rparr>)
         else c'))"

definition socket_connected :: "node_client \<Rightarrow> node_client" where
  "socket_connected c =
     (if nc_phase c = Cl_Dialing then channel_request ''node.hello'' (c\<lparr>nc_phase := Cl_Hello\<rparr>) else c)"

definition socket_error :: "string \<Rightarrow> node_client \<Rightarrow> node_client" where
  "socket_error m c = (if nc_phase c = Cl_Dialing then c\<lparr>nc_phase := Cl_Failed (Socket_Error m)\<rparr> else c)"

definition client_timer :: "node_client \<Rightarrow> node_client" where
  "client_timer c =
     (if \<not> nc_bounded c then c
      else case nc_phase c of
             Cl_Dialing \<Rightarrow> c\<lparr>nc_destroyed := True, nc_phase := Cl_Failed Dial_Timeout\<rparr>
           | Cl_Hello \<Rightarrow> hello_failed Hello_Timeout c
           | _ \<Rightarrow> c)"

text \<open>A write that failed disposes the connection; during the handshake that rejects hello.\<close>

definition write_failed :: "node_client \<Rightarrow> node_client" where
  "write_failed c =
     (if nc_phase c = Cl_Hello
      then hello_failed (toChannelError (Rpc_Other ''pending response rejected'')) c
      else dispose_connection c)"

definition client_close :: "node_client \<Rightarrow> node_client" where
  "client_close c =
     (if nc_closed c then c else (dispose_connection (c\<lparr>nc_closed := True\<rparr>))\<lparr>nc_destroyed := True\<rparr>)"

datatype client_event =
    Ce_Connected
  | Ce_Socket_Error string
  | Ce_Timer
  | Ce_Answer nat "rpc_error + json"
  | Ce_Dropped
  | Ce_Write_Failed
  | Ce_Request string
  | Ce_Close

definition is_ready :: "node_client \<Rightarrow> bool" where
  "is_ready c = (case nc_phase c of Cl_Ready i \<Rightarrow> True | _ \<Rightarrow> False)"

definition client_step :: "(json \<Rightarrow> node_info) \<Rightarrow> client_event \<Rightarrow> node_client \<Rightarrow> node_client" where
  "client_step info e c =
     (case e of
        Ce_Connected \<Rightarrow> socket_connected c
      | Ce_Socket_Error m \<Rightarrow> socket_error m c
      | Ce_Timer \<Rightarrow> client_timer c
      | Ce_Answer i r \<Rightarrow> answered info i r c
      | Ce_Dropped \<Rightarrow> c\<lparr>nc_dropped := True\<rparr>
      | Ce_Write_Failed \<Rightarrow> if nc_phase c = Cl_Dialing then c else write_failed c
      | Ce_Request m \<Rightarrow> if is_ready c then channel_request m c else c
      | Ce_Close \<Rightarrow> if is_ready c then client_close c else c)"

definition client_run :: "(json \<Rightarrow> node_info) \<Rightarrow> client_event list \<Rightarrow> node_client \<Rightarrow> node_client" where
  "client_run info es c = fold (client_step info) es c"

subsection \<open>Every request settles once\<close>

definition requests_ok :: "node_client \<Rightarrow> bool" where
  "requests_ok c \<longleftrightarrow>
     distinct (nc_pending c @ map fst (nc_settled c)) \<and> set (nc_pending c @ map fst (nc_settled c)) = {..<nc_next c}"

definition failed_ok :: "node_client \<Rightarrow> bool" where
  "failed_ok c \<longleftrightarrow>
     (nc_disposed c \<longrightarrow> nc_pending c = []) \<and>
     (case nc_phase c of
        Cl_Dialing \<Rightarrow> nc_next c = 0 \<and> nc_pending c = [] \<and> nc_settled c = [] \<and> \<not> nc_disposed c
      | Cl_Failed e \<Rightarrow> nc_pending c = [] \<and> (nc_destroyed c \<or> (\<exists>m. e = Socket_Error m))
      | _ \<Rightarrow> True)"

lemma settle_ok: "requests_ok c \<Longrightarrow> requests_ok (settle_request i r c)"
  by (auto simp: requests_ok_def settle_request_def distinct_removeAll)

lemma request_ok: "requests_ok c \<Longrightarrow> requests_ok (channel_request m c)"
  by (auto simp: requests_ok_def channel_request_def Let_def lessThan_Suc)

lemma dispose_ok: "requests_ok c \<Longrightarrow> requests_ok (dispose_connection c)"
  by (auto simp: requests_ok_def dispose_connection_def comp_def image_Un image_image)

lemma requests_frame [simp]:
  "requests_ok (c\<lparr>nc_phase := p\<rparr>) = requests_ok c" "requests_ok (c\<lparr>nc_destroyed := b\<rparr>) = requests_ok c"
  "requests_ok (c\<lparr>nc_dropped := b\<rparr>) = requests_ok c" "requests_ok (c\<lparr>nc_closed := b\<rparr>) = requests_ok c"
  by (simp_all add: requests_ok_def)

lemma step_requests: "requests_ok c \<Longrightarrow> requests_ok (client_step info e c)"
  by (cases e)
    (auto simp: client_step_def socket_connected_def socket_error_def client_timer_def answered_def hello_failed_def
      write_failed_def client_close_def Let_def settle_ok request_ok dispose_ok split: client_phase.split sum.split)

lemma step_failed: "failed_ok c \<Longrightarrow> failed_ok (client_step info e c)"
  by (cases e)
    (auto simp: client_step_def socket_connected_def socket_error_def client_timer_def answered_def hello_failed_def is_ready_def
      write_failed_def client_close_def failed_ok_def dispose_connection_def channel_request_def settle_request_def Let_def
      split: client_phase.splits sum.splits)

lemma run_ok: "requests_ok c \<and> failed_ok c \<Longrightarrow> requests_ok (client_run info es c) \<and> failed_ok (client_run info es c)"
  by (induction es arbitrary: c) (auto simp: client_run_def step_requests step_failed)

lemma client_start_ok: "requests_ok (client_start b) \<and> failed_ok (client_start b)"
  by (simp add: requests_ok_def failed_ok_def client_start_def)

text \<open>Every request of a connection is answered at most once and none is lost: in every run each number
  that was given out is either waiting or settled, whatever answers, drops, failed writes and closes come.\<close>

theorem requests_settle_once:
  "distinct (nc_pending (client_run info es (client_start b)) @ map fst (nc_settled (client_run info es (client_start b)))) \<and>
   set (nc_pending (client_run info es (client_start b)) @ map fst (nc_settled (client_run info es (client_start b))))
     = {..<nc_next (client_run info es (client_start b))}"
  using run_ok [OF client_start_ok] by (auto simp: requests_ok_def)

text \<open>A connection that failed holds nothing: no request waits on it, and its socket is destroyed unless
  the socket itself reported the failure.\<close>

theorem failed_connect_released:
  assumes "nc_phase (client_run info es (client_start b)) = Cl_Failed err"
  shows "nc_pending (client_run info es (client_start b)) = [] \<and>
    (nc_destroyed (client_run info es (client_start b)) \<or> (\<exists>m. err = Socket_Error m))"
  using run_ok [OF client_start_ok, of info es b] assms by (auto simp: failed_ok_def)

definition refused :: json where
  "refused = JObj [(''code'', JStr ''NODE_UNAUTHORIZED''), (''message'', JStr ''no'')]"

definition blank_info :: "json \<Rightarrow> node_info" where
  "blank_info v =
     \<lparr>ni_protocol = Whole 2, ni_agentVersion = [], ni_platform = [], ni_arch = [], ni_node = [], ni_homedir = [],
      ni_capability = \<lparr>cap_pty = True, cap_spill = True, cap_ripgrep = None\<rparr>\<rparr>"

theorem failed_connect_released_witness:
  "nc_phase (client_run blank_info [Ce_Connected, Ce_Answer 0 (Inl (Rpc_Response refused))] (client_start True)) =
     Cl_Failed (Node_Request_Error ''NODE_UNAUTHORIZED'' ''no'') \<and>
   nc_destroyed (client_run blank_info [Ce_Connected, Ce_Answer 0 (Inl (Rpc_Response refused))] (client_start True))"
proof -
  have f: "nc_phase (client_run blank_info [Ce_Connected, Ce_Answer 0 (Inl (Rpc_Response refused))] (client_start True)) =
      Cl_Failed (Node_Request_Error ''NODE_UNAUTHORIZED'' ''no'')" by code_simp
  from failed_connect_released [OF f] f show ?thesis by simp
qed

lemma bounded_step [simp]: "nc_bounded (client_step info e c) = nc_bounded c"
  by (cases e)
    (auto simp: client_step_def socket_connected_def socket_error_def client_timer_def answered_def hello_failed_def
      write_failed_def client_close_def dispose_connection_def channel_request_def settle_request_def Let_def
      split: client_phase.split sum.split)

lemma bounded_run [simp]: "nc_bounded (client_run info es c) = nc_bounded c"
  by (induction es arbitrary: c) (auto simp: client_run_def)

text \<open>Connecting ends: once the bound has run out a connection neither dials nor waits for hello any more,
  even when the machine answered nothing at all.\<close>

theorem connect_ends:
  "nc_phase (client_run info (es @ [Ce_Timer]) (client_start True)) \<notin> {Cl_Dialing, Cl_Hello}"
proof -
  let ?c = "client_run info es (client_start True)"
  have "nc_bounded ?c" by (simp add: client_start_def)
  moreover have "client_run info (es @ [Ce_Timer]) (client_start True) = client_timer ?c"
    by (simp add: client_run_def client_step_def)
  ultimately show ?thesis
    by (cases "nc_phase ?c") (auto simp: client_timer_def hello_failed_def)
qed

definition without_answer :: "client_event \<Rightarrow> bool" where
  "without_answer e = (case e of Ce_Answer i r \<Rightarrow> False | Ce_Write_Failed \<Rightarrow> False | Ce_Close \<Rightarrow> False | _ \<Rightarrow> True)"

lemma waiting_step: "is_ready c \<and> i \<in> set (nc_pending c) \<Longrightarrow> without_answer e \<Longrightarrow>
    is_ready (client_step info e c) \<and> i \<in> set (nc_pending (client_step info e c))"
  by (cases e)
    (auto simp: client_step_def without_answer_def socket_connected_def socket_error_def client_timer_def is_ready_def
      channel_request_def Let_def split: client_phase.splits)

text \<open>A request that was in flight when the link of a connection dropped stays pending: nothing watches for
  the drop, so with no further answer, and no write to fail since a request after the drop is refused before
  it is written, only a close from outside settles it.\<close>

theorem dropped_link_hangs:
  assumes "is_ready c" "i \<in> set (nc_pending c)" "\<forall>e \<in> set es. without_answer e"
  shows "i \<in> set (nc_pending (client_run info (Ce_Dropped # es) c))"
proof -
  have "is_ready (client_run info es c) \<and> i \<in> set (nc_pending (client_run info es c))"
    if "is_ready c \<and> i \<in> set (nc_pending c)" "\<forall>e \<in> set es. without_answer e" for es c
    using that
  proof (induction es arbitrary: c)
    case (Cons e es)
    from Cons.prems have "is_ready (client_step info e c) \<and> i \<in> set (nc_pending (client_step info e c))"
      by (intro waiting_step) auto
    from Cons.IH [OF this] Cons.prems show ?case by (simp add: client_run_def)
  qed (simp add: client_run_def)
  from this [of c "Ce_Dropped # es"] assms show ?thesis by (simp add: without_answer_def)
qed

theorem dropped_link_hangs_witness:
  "1 \<in> set (nc_pending (client_run blank_info [Ce_Dropped, Ce_Timer, Ce_Request ''fs.stat'']
      (client_run blank_info [Ce_Connected, Ce_Answer 0 (Inr JNull), Ce_Request ''term.read''] (client_start True))))"
proof -
  let ?c = "client_run blank_info [Ce_Connected, Ce_Answer 0 (Inr JNull), Ce_Request ''term.read''] (client_start True)"
  have "is_ready ?c" "1 \<in> set (nc_pending ?c)" by code_simp+
  from dropped_link_hangs [OF this, of "[Ce_Timer, Ce_Request ''fs.stat'']"] show ?thesis by (simp add: without_answer_def)
qed

subsection \<open>The chunks of piped streams\<close>

text \<open>The processes of one connection and the handler it holds: a process with a piped stream registers its
  handler when it is created, and the disposer of any of them puts the empty handler in its place.\<close>

record pipe_world =
  pw_slot :: "nat option"
  pw_handles :: "(spawn_stdio \<times> remote_handle) list"

definition onPipeFrame :: "nat \<Rightarrow> pipe_world \<Rightarrow> pipe_world" where
  "onPipeFrame i w = w\<lparr>pw_slot := Some i\<rparr>"

definition offPipeFrame :: "pipe_world \<Rightarrow> pipe_world" where
  "offPipeFrame w = w\<lparr>pw_slot := None\<rparr>"

definition open_handle :: "spawn_stdio \<Rightarrow> pipe_world \<Rightarrow> pipe_world" where
  "open_handle stdio w =
     (let i = length (pw_handles w); w' = w\<lparr>pw_handles := pw_handles w @ [(stdio, rh_new stdio)]\<rparr>
      in if rh_listening (rh_new stdio) then onPipeFrame i w' else w')"

definition close_handle :: "nat \<Rightarrow> pipe_world \<Rightarrow> pipe_world" where
  "close_handle i w =
     (if i < length (pw_handles w)
      then
        (let (stdio, h) = pw_handles w ! i;
             w' = w\<lparr>pw_handles := (pw_handles w)[i := (stdio, closePipes h)]\<rparr>
         in if rh_listening h then offPipeFrame w' else w')
      else w)"

definition pushed_frame :: "pipe_frame \<Rightarrow> pipe_world \<Rightarrow> pipe_world" where
  "pushed_frame f w =
     (case pw_slot w of
        None \<Rightarrow> w
      | Some i \<Rightarrow> (let (stdio, h) = pw_handles w ! i in w\<lparr>pw_handles := (pw_handles w)[i := (stdio, rh_frame stdio h f)]\<rparr>))"

lemma frames_elsewhere:
  "pw_slot w \<noteq> Some i \<Longrightarrow> pw_slot (fold pushed_frame fs w) = pw_slot w \<and>
    pw_handles (fold pushed_frame fs w) ! i = pw_handles w ! i"
  by (induction fs arbitrary: w) (auto simp: pushed_frame_def Let_def split_beta split: option.split)

text \<open>A connection serves one process with piped streams at a time: when a second one is created, every
  chunk pushed for the first from then on is lost to it, even after the second has ended, and when the first
  ends, every chunk pushed for the second is lost as well.\<close>

theorem later_pipe_silences_earlier:
  assumes "i < length (pw_handles w)" "rh_listening (rh_new stdio)" "rh_listening (snd (pw_handles w ! i))"
  shows "pw_handles (fold pushed_frame fs (open_handle stdio w)) ! i = pw_handles w ! i \<and>
    pw_handles (fold pushed_frame gs (close_handle (length (pw_handles w)) (fold pushed_frame fs (open_handle stdio w)))) ! i
      = pw_handles w ! i \<and>
    pw_handles (fold pushed_frame fs (close_handle i (open_handle stdio w))) ! length (pw_handles w) = (stdio, rh_new stdio)"
proof -
  let ?n = "length (pw_handles w)" and ?o = "open_handle stdio w"
  have o1: "pw_slot ?o = Some ?n" "pw_handles ?o ! i = pw_handles w ! i" "length (pw_handles ?o) = Suc ?n"
    "pw_handles ?o ! ?n = (stdio, rh_new stdio)"
    using assms(1,2) by (simp_all add: open_handle_def onPipeFrame_def nth_append Let_def)
  have a: "pw_slot (fold pushed_frame fs ?o) \<noteq> Some i" "pw_handles (fold pushed_frame fs ?o) ! i = pw_handles w ! i"
    using frames_elsewhere [of ?o i fs] o1 assms(1) by auto
  have b: "pw_slot (close_handle k v) \<noteq> Some i \<and> pw_handles (close_handle k v) ! i = pw_handles v ! i"
    if "pw_slot v \<noteq> Some i" "k \<noteq> i" for k v
    using that by (auto simp: close_handle_def offPipeFrame_def Let_def split_beta)
  have c: "pw_slot (close_handle i ?o) = None" "pw_handles (close_handle i ?o) ! ?n = (stdio, rh_new stdio)"
    using o1 assms by (auto simp: close_handle_def offPipeFrame_def Let_def split_beta)
  show ?thesis
    using a b [OF a(1), of ?n] frames_elsewhere [of "close_handle ?n (fold pushed_frame fs ?o)" i gs] assms(1)
      frames_elsewhere [of "close_handle i ?o" ?n fs] c by auto
qed

definition piped :: spawn_stdio where
  "piped = \<lparr>ss_stdin = Stdin_Pipe, ss_stdout = Out_Pipe, ss_stderr = Out_Pipe, ss_control = False\<rparr>"

theorem later_pipe_silences_earlier_witness:
  "rh_stdout (snd (pw_handles (fold pushed_frame [\<lparr>pf_procId = ''p1'', pf_stream = Pipe_Stdout, pf_data = base64_encode ''lost''\<rparr>]
      (open_handle piped \<lparr>pw_slot = Some 0, pw_handles = [(piped, fst (rh_started piped ''p1'' (rh_new piped)))]\<rparr>)) ! 0)) = []"
proof -
  let ?h = "fst (rh_started piped ''p1'' (rh_new piped))"
  let ?w = "\<lparr>pw_slot = Some 0, pw_handles = [(piped, ?h)]\<rparr> :: pipe_world"
  let ?f = "\<lparr>pf_procId = ''p1'', pf_stream = Pipe_Stdout, pf_data = base64_encode ''lost''\<rparr>"
  have p: "rh_listening ?h" "rh_listening (rh_new piped)" "rh_stdout ?h = []" by code_simp+
  have e: "pw_handles (fold pushed_frame [?f] (open_handle piped ?w)) ! 0 = pw_handles ?w ! 0"
    by (rule conjunct1 [OF later_pipe_silences_earlier]) (use p in simp_all)
  show ?thesis unfolding e using p by simp
qed

end
