(* ===== verification/Section_Logic.thy ===== *)
theory Section_Logic
  imports Management_Client Worktree_Logic
begin

section \<open>The settings section: plugin/client/Section.tsx and dialogs.tsx\<close>

text \<open>
  What the section holds and what its calls do to it: a read of the host has a generation, a mutation
  polls the host while it runs, and only the newest read may be published. An event is what one awaited
  promise answers, or a tick of the poll. The dialogs' own functions read a typed path and spell the
  default of a checkout. What is drawn of all this is React's.
\<close>

subsection \<open>What a row shows\<close>

datatype dot = Dot_Done | Dot_Ongoing | Dot_Error | Dot_Idle

definition state_badge :: "node_state \<Rightarrow> dot \<times> string" where
  "state_badge s =
     (case s of
        Ready \<Rightarrow> (Dot_Done, ''status.ready'')
      | Connecting \<Rightarrow> (Dot_Ongoing, ''status.connecting'')
      | Failed \<Rightarrow> (Dot_Error, ''status.failed'')
      | Disconnected \<Rightarrow> (Dot_Idle, ''status.disconnected'')
      | Idle \<Rightarrow> (Dot_Idle, ''status.idle''))"

datatype progress_phase = Phase_Checking | Phase_Reusing | Phase_Fetching | Phase_Uploading | Phase_Starting
datatype fetch_source = From_Cache | From_Network

record shown_progress =
  sp_phase :: progress_phase
  sp_version :: string
  sp_asset :: "string option"
  sp_source :: "fetch_source option"

definition PHASE_PERCENT :: "progress_phase \<Rightarrow> nat" where
  "PHASE_PERCENT p =
     (case p of Phase_Checking \<Rightarrow> 8 | Phase_Reusing \<Rightarrow> 38 | Phase_Fetching \<Rightarrow> 58 | Phase_Uploading \<Rightarrow> 72 | Phase_Starting \<Rightarrow> 92)"

definition progressText :: "shown_progress \<Rightarrow> string \<times> (string \<times> string) list \<times> nat" where
  "progressText p =
     (let percent = PHASE_PERCENT (sp_phase p) in
      case sp_phase p of
        Phase_Reusing \<Rightarrow> (''progress.reusing'', [(''version'', sp_version p)], percent)
      | Phase_Fetching \<Rightarrow>
          (case sp_source p of
             Some From_Cache \<Rightarrow> (''progress.cached'', [(''version'', sp_version p)], percent)
           | Some From_Network \<Rightarrow>
               (''progress.downloading'', [(''asset'', case sp_asset p of None \<Rightarrow> sp_version p | Some a \<Rightarrow> a)], percent)
           | None \<Rightarrow> (''progress.fetching'', [(''version'', sp_version p)], percent))
      | Phase_Uploading \<Rightarrow> (''progress.uploading'', [], percent)
      | Phase_Starting \<Rightarrow> (''progress.starting'', [], percent)
      | Phase_Checking \<Rightarrow> (''progress.checking'', [], percent))"

record section_view =
  sv_nodes :: "node_view list"
  sv_statuses :: "node_status list"
  sv_repos :: "repo_report list"
  sv_worktrees :: "worktree_status list"

definition statusFor :: "section_view option \<Rightarrow> string \<Rightarrow> node_status option" where
  "statusFor v nodeId = (case v of None \<Rightarrow> None | Some s \<Rightarrow> List.find (\<lambda>st. st_nodeId st = nodeId) (sv_statuses s))"

definition reposOf :: "section_view option \<Rightarrow> string \<Rightarrow> repo_report list" where
  "reposOf v nodeId = filter (\<lambda>e. rr_nodeId (rp_repo e) = nodeId) (case v of None \<Rightarrow> [] | Some s \<Rightarrow> sv_repos s)"

definition anchorsOf :: "section_view option \<Rightarrow> repo_record \<Rightarrow> worktree_status list" where
  "anchorsOf v r =
     filter (\<lambda>e. an_nodeId (ws_anchor e) = rr_nodeId r \<and> an_repoPath (ws_anchor e) = rr_repoPath r)
       (case v of None \<Rightarrow> [] | Some s \<Rightarrow> sv_worktrees s)"

definition row_is_worktree :: "worktree_status \<Rightarrow> bool" where
  "row_is_worktree e = (case an_kind (ws_anchor e) of Worktree b c \<Rightarrow> True | Directory \<Rightarrow> False)"

definition worktreesOf :: "section_view option \<Rightarrow> repo_record \<Rightarrow> worktree_status list" where
  "worktreesOf v r = filter row_is_worktree (anchorsOf v r)"

definition directoryOf :: "section_view option \<Rightarrow> repo_record \<Rightarrow> worktree_status option" where
  "directoryOf v r = List.find (\<lambda>e. \<not> row_is_worktree e) (anchorsOf v r)"

definition toggle_id :: "string list \<Rightarrow> string \<Rightarrow> string list" where
  "toggle_id xs i = (if i \<in> set xs then filter (\<lambda>e. e \<noteq> i) xs else xs @ [i])"

subsection \<open>The calls a row offers\<close>

datatype node_action = Act_Connect | Act_Add_Repository | Act_Disconnect | Act_Remove_Machine

definition node_actions :: "section_view option \<Rightarrow> node_view \<Rightarrow> node_action list" where
  "node_actions v n =
     (let here = (nv_transport n = Local_Transport);
          state = (case statusFor v (nv_nodeId n) of None \<Rightarrow> Idle | Some st \<Rightarrow> st_state st)
      in (if here \<or> state = Ready then [] else [Act_Connect]) @ [Act_Add_Repository] @
         (if here then [] else (if state = Ready then [Act_Disconnect] else []) @ [Act_Remove_Machine]))"

definition directory_call :: "section_view option \<Rightarrow> repo_record \<Rightarrow> ui_call" where
  "directory_call v r =
     (case directoryOf v r of
        Some d \<Rightarrow> if ws_open d then Ui_Close_Directory (rr_repoId r) else Ui_Open_Directory (rr_repoId r)
      | None \<Rightarrow> Ui_Open_Directory (rr_repoId r))"

definition worktree_call :: "worktree_status \<Rightarrow> ui_call" where
  "worktree_call e =
     (if ws_open e then Ui_Close_Worktree (an_anchorId (ws_anchor e)) else Ui_Open_Worktree (an_anchorId (ws_anchor e)))"

subsection \<open>Reading the host\<close>

datatype section_phase = Sec_Idle | Sec_Acting | Sec_Rereading nat

record section_state =
  sc_snapshot :: "section_view option"
  sc_error :: "string option"
  sc_busy :: bool
  sc_generation :: nat
  sc_loads :: "nat list"
  sc_phase :: section_phase
  sc_published :: "nat list"

definition section_new :: section_state where
  "section_new =
     \<lparr>sc_snapshot = None, sc_error = None, sc_busy = False, sc_generation = 0, sc_loads = [], sc_phase = Sec_Idle, sc_published = []\<rparr>"

definition refresh_section :: "section_state \<Rightarrow> section_state" where
  "refresh_section s =
     s\<lparr>sc_generation := Suc (sc_generation s), sc_loads := sc_loads s @ [Suc (sc_generation s)]\<rparr>"

text \<open>The answer of the read of generation \<open>mine\<close>.\<close>

definition section_loaded :: "nat \<Rightarrow> string + section_view \<Rightarrow> section_state \<Rightarrow> section_state" where
  "section_loaded mine answer s =
     (if mine \<notin> set (sc_loads s) then s
      else
        (let s1 = s\<lparr>sc_loads := removeAll mine (sc_loads s)\<rparr>;
             s2 = (if mine \<noteq> sc_generation s then s1
                   else (case answer of
                           Inl e \<Rightarrow> s1\<lparr>sc_error := Some e\<rparr>
                         | Inr v \<Rightarrow> s1\<lparr>sc_snapshot := Some v, sc_error := None, sc_published := sc_published s @ [mine]\<rparr>))
         in if sc_phase s = Sec_Rereading mine then s2\<lparr>sc_phase := Sec_Idle, sc_busy := False\<rparr> else s2))"

text \<open>A mutation: its buttons are drawn only while nothing is busy.\<close>

definition section_mutate :: "section_state \<Rightarrow> section_state" where
  "section_mutate s = (if sc_busy s then s else s\<lparr>sc_busy := True, sc_phase := Sec_Acting\<rparr>)"

definition section_poll :: "section_state \<Rightarrow> section_state" where
  "section_poll s = (if sc_phase s = Sec_Idle then s else refresh_section s)"

definition section_acted :: "string option \<Rightarrow> section_state \<Rightarrow> section_state" where
  "section_acted failure s =
     (if sc_phase s \<noteq> Sec_Acting then s
      else (case failure of
              Some e \<Rightarrow> s\<lparr>sc_error := Some e, sc_phase := Sec_Idle, sc_busy := False\<rparr>
            | None \<Rightarrow>
                (let s' = refresh_section (s\<lparr>sc_error := None\<rparr>) in s'\<lparr>sc_phase := Sec_Rereading (sc_generation s')\<rparr>)))"

datatype section_event =
    Ev_Refresh
  | Ev_Poll
  | Ev_Loaded nat "string + section_view"
  | Ev_Mutate
  | Ev_Acted "string option"

definition section_step :: "section_event \<Rightarrow> section_state \<Rightarrow> section_state" where
  "section_step e s =
     (case e of
        Ev_Refresh \<Rightarrow> if sc_busy s then s else refresh_section s
      | Ev_Poll \<Rightarrow> section_poll s
      | Ev_Loaded g a \<Rightarrow> section_loaded g a s
      | Ev_Mutate \<Rightarrow> section_mutate s
      | Ev_Acted f \<Rightarrow> section_acted f s)"

definition section_run :: "section_event list \<Rightarrow> section_state \<Rightarrow> section_state" where
  "section_run es s = fold section_step es s"

subsection \<open>The newest read wins\<close>

definition section_ok :: "section_state \<Rightarrow> bool" where
  "section_ok s \<longleftrightarrow>
     distinct (sc_loads s) \<and> (\<forall>g \<in> set (sc_loads s). g \<le> sc_generation s) \<and>
     sorted_wrt (<) (sc_published s) \<and> (\<forall>g \<in> set (sc_published s). g \<le> sc_generation s \<and> g \<notin> set (sc_loads s)) \<and>
     (sc_busy s \<longleftrightarrow> sc_phase s \<noteq> Sec_Idle) \<and> (\<forall>g. sc_phase s = Sec_Rereading g \<longrightarrow> g \<in> set (sc_loads s))"

lemma refresh_ok: "section_ok s \<Longrightarrow> section_ok (refresh_section s)"
  by (auto simp: section_ok_def refresh_section_def le_Suc_eq)

lemma loaded_ok: "section_ok s \<Longrightarrow> section_ok (section_loaded g a s)"
  by (auto simp: section_ok_def section_loaded_def Let_def sorted_wrt_append distinct_removeAll split: sum.split
      intro: le_neq_implies_less)

lemma section_step_ok: "section_ok s \<Longrightarrow> section_ok (section_step e s)"
proof (cases e)
  case (Ev_Acted f)
  assume s: "section_ok s"
  have "section_ok (refresh_section (s\<lparr>sc_error := x\<rparr>))" for x using s refresh_ok [of "s\<lparr>sc_error := x\<rparr>"] by (simp add: section_ok_def)
  with s show ?thesis
    by (auto simp: Ev_Acted section_step_def section_acted_def section_ok_def refresh_section_def Let_def split: option.split)
qed (auto simp: section_step_def section_mutate_def section_poll_def refresh_ok loaded_ok, auto simp: section_ok_def)

lemma run_section_ok: "section_ok s \<Longrightarrow> section_ok (section_run es s)"
  by (induction es arbitrary: s) (auto simp: section_run_def section_step_ok)

text \<open>What the section shows never goes back: whatever reads answer late, fail or overtake each other while
  mutations poll the host, the reads it has published are of ever newer generations, and while it is busy
  there is a mutation, whose last read is still to come.\<close>

theorem newest_read_wins:
  "sorted_wrt (<) (sc_published (section_run es section_new)) \<and>
   (\<forall>g \<in> set (sc_published (section_run es section_new)). g \<le> sc_generation (section_run es section_new)) \<and>
   (sc_busy (section_run es section_new) \<longleftrightarrow> sc_phase (section_run es section_new) \<noteq> Sec_Idle)"
proof -
  have "section_ok section_new" by (simp add: section_ok_def section_new_def)
  from run_section_ok [OF this, of es] show ?thesis by (auto simp: section_ok_def)
qed

theorem newest_read_wins_witness:
  "sc_published (section_run [Ev_Refresh, Ev_Mutate, Ev_Poll, Ev_Loaded 2 (Inr v), Ev_Loaded 1 (Inr w)] section_new) = [2] \<and>
   sorted_wrt (<) (sc_published (section_run [Ev_Refresh, Ev_Mutate, Ev_Poll, Ev_Loaded 2 (Inr v), Ev_Loaded 1 (Inr w)] section_new))"
  using newest_read_wins [of "[Ev_Refresh, Ev_Mutate, Ev_Poll, Ev_Loaded 2 (Inr v), Ev_Loaded 1 (Inr w)]"]
  by (simp add: section_run_def section_step_def section_new_def refresh_section_def section_mutate_def section_poll_def
      section_loaded_def Let_def)

subsection \<open>What the poll costs\<close>

text \<open>Reads that each take longer than the poll's interval: every answer comes after the next tick.\<close>

fun slow_reads :: "nat \<Rightarrow> section_view list \<Rightarrow> section_event list" where
  "slow_reads g [] = []"
| "slow_reads g (v # vs) = Ev_Poll # Ev_Loaded g (Inr v) # slow_reads (Suc g) vs"

text \<open>While a mutation runs, a host that takes longer than the poll's interval to answer is never shown:
  every tick makes the read under way an old one, so its answer is dropped, however many arrive, and the
  section shows what it showed before.\<close>

theorem slow_reads_never_shown:
  assumes "sc_phase s = Sec_Acting"
  shows "sc_snapshot (section_run (slow_reads (sc_generation s) vs) s) = sc_snapshot s \<and>
    sc_error (section_run (slow_reads (sc_generation s) vs) s) = sc_error s"
  using assms
proof (induction vs arbitrary: s)
  case (Cons v vs)
  let ?s = "section_loaded (sc_generation s) (Inr v) (section_poll s)"
  have s: "sc_phase ?s = Sec_Acting" "sc_generation ?s = Suc (sc_generation s)" "sc_snapshot ?s = sc_snapshot s" "sc_error ?s = sc_error s"
    using Cons.prems by (auto simp: section_loaded_def section_poll_def refresh_section_def Let_def)
  from Cons.IH [OF s(1)] s show ?case by (simp add: section_run_def section_step_def)
qed (simp add: section_run_def)

theorem slow_reads_never_shown_witness:
  "sc_snapshot (section_run (slow_reads 0 [v, w]) (section_mutate section_new)) = None"
  using slow_reads_never_shown [of "section_mutate section_new" "[v, w]"] by (simp add: section_mutate_def section_new_def)

text \<open>The reason a mutation failed can vanish before anybody has read it: a read the poll had started
  answers after the failure, and publishing it clears the banner.\<close>

theorem failure_erased_by_poll:
  assumes "\<not> sc_busy s"
  shows "sc_error (section_run [Ev_Mutate, Ev_Poll, Ev_Acted (Some reason)] s) = Some reason \<and>
    sc_error (section_run [Ev_Mutate, Ev_Poll, Ev_Acted (Some reason), Ev_Loaded (Suc (sc_generation s)) (Inr v)] s) = None"
  using assms
  by (simp add: section_run_def section_step_def section_mutate_def section_poll_def section_acted_def refresh_section_def
      section_loaded_def Let_def)

theorem failure_erased_by_poll_witness:
  "sc_error (section_run [Ev_Mutate, Ev_Poll, Ev_Acted (Some ''refused''), Ev_Loaded 1 (Inr v)] section_new) = None"
  using failure_erased_by_poll [of section_new "''refused''" v] by (simp add: section_new_def)

subsection \<open>Typed paths\<close>

definition parentOf :: "string \<Rightarrow> string option" where
  "parentOf p =
     (if p = ''/'' \<or> p = [] then None
      else
        (let q = strip_slashes p in
         if CHR ''/'' \<notin> set q then None
         else (let cut = length q - Suc (length (takeWhile (\<lambda>c. c \<noteq> CHR ''/'') (rev q)))
               in Some (if cut = 0 then ''/'' else take cut p))))"

text \<open>\<open>toLowerCase\<close> is a parameter: the source relies on it only to compare names.\<close>

definition matchesName :: "(string \<Rightarrow> string) \<Rightarrow> string \<Rightarrow> string \<Rightarrow> bool" where
  "matchesName lc name prefix_typed =
     (if startsWith name ''.'' \<and> \<not> startsWith prefix_typed ''.'' then False
      else prefix_typed = [] \<or> startsWith (lc name) (lc prefix_typed))"

text \<open>The text before the last slash and what follows it.\<close>

definition last_slash :: "string \<Rightarrow> (string \<times> string) option" where
  "last_slash s =
     (if CHR ''/'' \<notin> set s then None
      else (let tail = rev (takeWhile (\<lambda>c. c \<noteq> CHR ''/'') (rev s)) in Some (take (length s - Suc (length tail)) s, tail)))"

definition or_root :: "string \<Rightarrow> string" where
  "or_root s = (if s = [] then ''/'' else s)"

definition browseTarget :: "string \<Rightarrow> string option \<Rightarrow> string \<times> string" where
  "browseTarget typed entered =
     (if Some typed = entered then (typed, [])
      else if typed = [] then ([], [])
      else if endsWith typed ''/'' then (or_root (strip_slashes typed), [])
      else (case last_slash typed of
              None \<Rightarrow> ([], typed)
            | Some (dir, name) \<Rightarrow> (if endsWith dir ''/'' then or_root (strip_slashes dir) else dir, name)))"

definition defaultWorktreePath :: "string option \<Rightarrow> string \<Rightarrow> string \<Rightarrow> string" where
  "defaultWorktreePath root repoPath name =
     (case root of
        None \<Rightarrow> []
      | Some r \<Rightarrow>
          (let base = strip_slashes r @ ''/'' @ last (split_on (CHR ''/'') (strip_slashes repoPath))
           in if trim name = [] then base @ ''/'' else base @ ''/'' @ trim name))"

lemma strip_clean:
  assumes "list_all clean_seg ss" "ss \<noteq> []"
  shows "strip_slashes (render ss) = render ss" "strip_slashes (render ss @ ''/'') = render ss"
proof -
  have "last (render ss) \<noteq> CHR ''/''" "render ss \<noteq> []" using clean_not_slash_last [OF assms] by auto
  then obtain xs x where "render ss = xs @ [x]" "x \<noteq> CHR ''/''" by (cases "render ss" rule: rev_cases) auto
  then show "strip_slashes (render ss) = render ss" "strip_slashes (render ss @ ''/'') = render ss"
    by (simp_all add: strip_slashes_def)
qed

lemma tail_after_slash:
  assumes "CHR ''/'' \<notin> set seg"
  shows "takeWhile (\<lambda>c. c \<noteq> CHR ''/'') (rev (d @ CHR ''/'' # seg)) = rev seg"
proof -
  have "takeWhile (\<lambda>c. c \<noteq> CHR ''/'') (rev seg @ CHR ''/'' # rev d) = rev seg"
    using assms by (subst takeWhile_append2) auto
  then show ?thesis by simp
qed

lemma last_slash_join:
  "CHR ''/'' \<notin> set seg \<Longrightarrow> last_slash (d @ CHR ''/'' # seg) = Some (d, seg)"
  using tail_after_slash [of seg d] by (simp add: last_slash_def Let_def del: rev_append)

text \<open>The directory picker reads a typed path as it says: what follows the last separator filters the
  directory before it, a trailing separator names that directory itself, and so does a path the picker went
  to; and going up from a directory's child comes back to the directory.\<close>

theorem picker_reads_paths:
  assumes "list_all clean_seg ss" "ss \<noteq> []" "clean_seg name"
  shows "(Some (render ss @ ''/'' @ name) \<noteq> entered \<longrightarrow> browseTarget (render ss @ ''/'' @ name) entered = (render ss, name)) \<and>
    browseTarget (render ss @ ''/'') entered = (if entered = Some (render ss @ ''/'') then render ss @ ''/'' else render ss, []) \<and>
    browseTarget (render ss @ ''/'' @ name) (Some (render ss @ ''/'' @ name)) = (render ss @ ''/'' @ name, []) \<and>
    parentOf (render ss @ ''/'' @ name) = Some (render ss)"
proof -
  have n: "name \<noteq> []" "CHR ''/'' \<notin> set name" using assms(3) by (auto simp: clean_seg_def)
  have r: "\<not> endsWith (render ss) ''/''" "render ss \<noteq> []"
    using clean_not_slash_last [OF assms(1,2)] by (auto simp: endsWith_slash)
  have "last name \<noteq> CHR ''/''" using n last_in_set by metis
  then have e: "\<not> endsWith (render ss @ ''/'' @ name) ''/''"
    using n by (auto simp: endsWith_slash)
  have c: "list_all clean_seg (ss @ [name])" using assms(1,3) by simp
  have s: "strip_slashes (render ss @ ''/'' @ name) = render ss @ ''/'' @ name"
    using strip_clean(1) [OF c] by simp
  have p: "parentOf (render ss @ ''/'' @ name) = Some (render ss)"
    using tail_after_slash [OF n(2), of "render ss"] r n s by (auto simp: parentOf_def Let_def simp del: rev_append)
  show ?thesis
    using p e r strip_clean(2) [OF assms(1,2)] last_slash_join [OF n(2), of "render ss"]
    by (auto simp: browseTarget_def endsWith_slash or_root_def)
qed

theorem picker_reads_paths_witness:
  "browseTarget ''/srv/app/li'' None = (''/srv/app'', ''li'') \<and> parentOf ''/srv/app/lib'' = Some ''/srv/app''"
proof -
  have c: "list_all clean_seg [''srv'', ''app'']" "clean_seg ''li''" "clean_seg ''lib''" by code_simp+
  from picker_reads_paths [OF c(1) _ c(2), of None] picker_reads_paths [OF c(1) _ c(3), of None] show ?thesis by simp
qed

text \<open>A name typed under the root is looked for at home: for \<open>/name\<close> the text before the separator is
  empty, which asks for the home directory, so the picker filters home's directories by it.\<close>

theorem rooted_text_lists_home:
  assumes "name \<noteq> []" "CHR ''/'' \<notin> set name" "entered \<noteq> Some (''/'' @ name)"
  shows "browseTarget (''/'' @ name) entered = ([], name)"
proof -
  have "last name \<noteq> CHR ''/''" using assms(1,2) last_in_set by metis
  then have "\<not> endsWith (''/'' @ name) ''/''" using assms(1) by (auto simp: endsWith_slash)
  moreover have "\<not> endsWith [] ''/''" by (simp add: endsWith_def)
  ultimately show ?thesis using assms(1,3) last_slash_join [OF assms(2), of "[]"] by (auto simp: browseTarget_def)
qed

theorem rooted_text_lists_home_witness: "browseTarget ''/etc'' None = ([], ''etc'')"
  using rooted_text_lists_home [of "''etc''" None] by simp

text \<open>The path the dialog shows for an untouched field is the path the host cuts the checkout at.\<close>

theorem shown_default_is_used:
  assumes "canonical root" "root \<noteq> ''/''" "canonical repoPath" "repoPath \<noteq> ''/''" "clean_seg name" "trim name = name"
  shows "defaultWorktreePath (Some root) repoPath name = managedWorktreePath root repoPath name"
proof -
  obtain rs where rs: "root = render rs" "rs \<noteq> []" "list_all clean_seg rs" using canonical_cases [OF assms(1)] assms(2) by auto
  obtain ps where ps: "repoPath = render ps" "ps \<noteq> []" "list_all clean_seg ps" using canonical_cases [OF assms(3)] assms(4) by auto
  have "split_on (CHR ''/'') (strip_slashes repoPath) = [] # ps"
    using strip_clean(1) [OF ps(3,2)] ps by (simp add: split_render)
  then have b: "posix_basename repoPath = last ps" "last (split_on (CHR ''/'') (strip_slashes repoPath)) = last ps"
    using ps(2) by (simp_all add: posix_basename_def strip_slashes_def)
  have l: "clean_seg (last ps)" using ps(2,3) by (auto simp: list_all_iff)
  have ne: "name \<noteq> []" "last ps \<noteq> []" using assms(5) l by (auto simp: clean_seg_def)
  have c: "canonical (render (rs @ [last ps, name]))" by (rule canonical_render) (use rs(3) l assms(5) in simp_all)
  have "root \<noteq> []" using clean_not_slash_last [OF rs(3,2)] rs(1) by simp
  then have "posix_join [root, last ps, name] = posix_normalize (render (rs @ [last ps, name]))"
    using rs(1) ne by (simp add: posix_join_def)
  also have "\<dots> = render (rs @ [last ps, name])" using c by (simp add: canonical_def)
  finally show ?thesis using b ne assms(6) strip_clean(1) [OF rs(3,2)] rs(1)
    by (simp add: defaultWorktreePath_def managedWorktreePath_def)
qed

theorem shown_default_is_used_witness:
  "defaultWorktreePath (Some ''/h/wt'') ''/srv/app'' ''fix'' = managedWorktreePath ''/h/wt'' ''/srv/app'' ''fix''"
proof -
  have "canonical ''/h/wt''" "canonical ''/srv/app''" "clean_seg ''fix''" "trim ''fix'' = ''fix''" by code_simp+
  from shown_default_is_used [OF this(1) _ this(2) _ this(3,4)] show ?thesis by simp
qed

subsection \<open>What the dialogs send\<close>

record machine_draft =
  md_target :: string
  md_port :: "string option"
  md_identityFile :: "string option"
  md_token :: string
  md_title :: "string option"

definition optional_field :: "string \<Rightarrow> string option" where
  "optional_field s = (if trim s = [] then None else Some (trim s))"

text \<open>\<open>Number\<close> of the port's text is the host's to check; it is sent as it was typed.\<close>

definition machine_draft_of :: "string \<Rightarrow> string \<Rightarrow> string \<Rightarrow> string \<Rightarrow> string \<Rightarrow> machine_draft" where
  "machine_draft_of target sshPort identityFile token title =
     \<lparr>md_target = trim target, md_port = (if trim sshPort = [] then None else Some sshPort),
      md_identityFile = optional_field identityFile, md_token = token, md_title = optional_field title\<rparr>"

definition can_add_machine :: "bool \<Rightarrow> string \<Rightarrow> string \<Rightarrow> bool" where
  "can_add_machine busy target token \<longleftrightarrow> \<not> (busy \<or> trim target = [] \<or> trim token = [])"

record checkout_draft =
  cd_repoId :: string
  cd_name :: string
  cd_path :: "string option"

record checkout_form =
  cm_name :: string
  cm_path :: string
  cm_touched :: bool

definition path_typed :: "string \<Rightarrow> checkout_form \<Rightarrow> checkout_form" where
  "path_typed typed f =
     (if typed = [] then f\<lparr>cm_touched := False, cm_path := []\<rparr> else f\<lparr>cm_touched := True, cm_path := typed\<rparr>)"

definition form_value :: "string option \<Rightarrow> repo_record \<Rightarrow> checkout_form \<Rightarrow> string" where
  "form_value root r f = (if cm_touched f then cm_path f else defaultWorktreePath root (rr_repoPath r) (cm_name f))"

definition checkout_draft_of :: "string option \<Rightarrow> repo_record \<Rightarrow> checkout_form \<Rightarrow> checkout_draft" where
  "checkout_draft_of root r f =
     \<lparr>cd_repoId = rr_repoId r, cd_name = trim (cm_name f),
      cd_path = (if cm_touched f \<and> trim (form_value root r f) \<noteq> [] then Some (trim (form_value root r f)) else None)\<rparr>"

text \<open>A path field that was typed in and cleared again sends no path, as one nobody touched does, so the
  machine's own root stays the source of the default.\<close>

theorem cleared_path_not_sent:
  "cd_path (checkout_draft_of root r (path_typed [] (path_typed typed f))) = None \<and>
   form_value root r (path_typed [] (path_typed typed f)) = defaultWorktreePath root (rr_repoPath r) (cm_name f)"
  by (simp add: checkout_draft_of_def path_typed_def form_value_def)

end
