(* ===== verification/Directory_Picker.thy ===== *)
theory Directory_Picker
  imports Section_Logic
begin

section \<open>The directory picker: DirectoryPicker in plugin/client/dialogs.tsx\<close>

text \<open>
  The picker lists one directory of a machine while a person types a path or walks down it. A request is numbered
  in the order it is made; an answer may come at any time, and one that belongs to a directory the text has left
  is to be dropped. The effect that asks runs with the render that changed the directory.
\<close>

record dir_listing =
  dl_path :: string
  dl_entries :: "dir_row list"

record picker =
  pk_value :: string
  pk_entered :: "string option"
  pk_listing :: "(string \<times> dir_listing) option"
  pk_error :: "string option"
  pk_requests :: "string list"

definition picker_target :: "picker \<Rightarrow> string \<times> string" where
  "picker_target p = browseTarget (trim (pk_value p)) (pk_entered p)"

abbreviation picker_dir :: "picker \<Rightarrow> string" where "picker_dir p \<equiv> fst (picker_target p)"

text \<open>The effect, keyed on the directory.\<close>

definition ask_directory :: "picker \<Rightarrow> picker" where
  "ask_directory p =
     (if pk_requests p \<noteq> [] \<and> last (pk_requests p) = picker_dir p then p
      else p\<lparr>pk_error := None, pk_requests := pk_requests p @ [picker_dir p]\<rparr>)"

definition picker_open :: "string \<Rightarrow> picker" where
  "picker_open v = ask_directory \<lparr>pk_value = v, pk_entered = None, pk_listing = None, pk_error = None, pk_requests = []\<rparr>"

text \<open>Only the request of the last run of the effect is live.\<close>

definition picker_answered :: "nat \<Rightarrow> string + dir_listing \<Rightarrow> picker \<Rightarrow> picker" where
  "picker_answered i answer p =
     (if Suc i \<noteq> length (pk_requests p) then p
      else (case answer of
              Inl e \<Rightarrow> p\<lparr>pk_error := Some e\<rparr>
            | Inr v \<Rightarrow> p\<lparr>pk_listing := Some (pk_requests p ! i, v)\<rparr>))"

definition picker_current :: "picker \<Rightarrow> dir_listing option" where
  "picker_current p =
     (case pk_listing p of None \<Rightarrow> None | Some (d, v) \<Rightarrow> if d = picker_dir p then Some v else None)"

definition picker_entries :: "(string \<Rightarrow> string) \<Rightarrow> picker \<Rightarrow> dir_row list" where
  "picker_entries lc p =
     filter (\<lambda>e. dr_type e = ''directory'' \<and> matchesName lc (dr_name e) (snd (picker_target p)))
       (case picker_current p of None \<Rightarrow> [] | Some v \<Rightarrow> dl_entries v)"

definition picker_parent :: "picker \<Rightarrow> string option" where
  "picker_parent p = (case picker_current p of None \<Rightarrow> None | Some v \<Rightarrow> parentOf (dl_path v))"

definition picker_place :: "picker \<Rightarrow> string" where
  "picker_place p =
     (case picker_current p of Some v \<Rightarrow> dl_path v | None \<Rightarrow> if picker_dir p = [] then ''~'' else picker_dir p)"

definition picker_typed :: "string \<Rightarrow> picker \<Rightarrow> picker" where
  "picker_typed v p = ask_directory (p\<lparr>pk_value := v\<rparr>)"

definition picker_navigate :: "string \<Rightarrow> picker \<Rightarrow> picker" where
  "picker_navigate path p = ask_directory (p\<lparr>pk_entered := Some path, pk_value := path\<rparr>)"

definition picker_up :: "picker \<Rightarrow> picker" where
  "picker_up p = (case picker_parent p of None \<Rightarrow> p | Some parent \<Rightarrow> picker_navigate parent p)"

definition picker_use :: "picker \<Rightarrow> picker" where
  "picker_use p =
     (let typed = trim (pk_value p) in
      if typed = [] \<and> picker_current p = None then p
      else picker_typed (if typed = [] then (case picker_current p of Some v \<Rightarrow> dl_path v | None \<Rightarrow> picker_dir p) else typed) p)"

datatype picker_event =
    Pk_Typed string
  | Pk_Navigate string
  | Pk_Up
  | Pk_Use
  | Pk_Answer nat "string + dir_listing"

fun picker_step :: "picker_event \<Rightarrow> picker \<Rightarrow> picker" where
  "picker_step (Pk_Typed v) p = picker_typed v p"
| "picker_step (Pk_Navigate path) p = picker_navigate path p"
| "picker_step Pk_Up p = picker_up p"
| "picker_step Pk_Use p = picker_use p"
| "picker_step (Pk_Answer i a) p = picker_answered i a p"

definition picker_run :: "picker_event list \<Rightarrow> picker \<Rightarrow> picker" where
  "picker_run evs p = fold picker_step evs p"

lemma picker_run_snoc: "picker_run (evs @ [ev]) p = picker_step ev (picker_run evs p)"
  by (simp add: picker_run_def)

subsection \<open>What is shown is what the text names\<close>

definition answered_for :: "picker_event list \<Rightarrow> picker \<Rightarrow> string \<Rightarrow> string + dir_listing \<Rightarrow> bool" where
  "answered_for evs p d a \<longleftrightarrow> (\<exists>i < length (pk_requests p). pk_requests p ! i = d \<and> Pk_Answer i a \<in> set evs)"

definition picker_ok :: "picker_event list \<Rightarrow> picker \<Rightarrow> bool" where
  "picker_ok evs p \<longleftrightarrow>
     pk_requests p \<noteq> [] \<and> last (pk_requests p) = picker_dir p \<and>
     (\<forall>d v. pk_listing p = Some (d, v) \<longrightarrow> answered_for evs p d (Inr v)) \<and>
     (\<forall>e. pk_error p = Some e \<longrightarrow> answered_for evs p (picker_dir p) (Inl e))"

lemma answered_for_mono:
  "answered_for evs p d a \<Longrightarrow> set evs \<subseteq> set evs' \<Longrightarrow> prefix (pk_requests p) (pk_requests p') \<Longrightarrow> answered_for evs' p' d a"
proof -
  assume "answered_for evs p d a" and mono: "set evs \<subseteq> set evs'" "prefix (pk_requests p) (pk_requests p')"
  then obtain i where i: "i < length (pk_requests p)" "pk_requests p ! i = d" "Pk_Answer i a \<in> set evs"
    by (auto simp: answered_for_def)
  moreover have "i < length (pk_requests p')" "pk_requests p' ! i = pk_requests p ! i"
    using mono(2) i(1) by (auto simp: prefix_def nth_append)
  ultimately show ?thesis using mono(1) unfolding answered_for_def by (intro exI [of _ i]) auto
qed

text \<open>Asking again keeps what holds, whatever the text has become.\<close>

lemma ask_ok:
  assumes "pk_requests p \<noteq> []"
    and "\<And>d v. pk_listing p = Some (d, v) \<Longrightarrow> answered_for evs p d (Inr v)"
    and "\<And>e. pk_error p = Some e \<Longrightarrow> answered_for evs p (last (pk_requests p)) (Inl e)"
  shows "picker_ok evs (ask_directory p)"
proof (cases "last (pk_requests p) = picker_dir p")
  case True
  then show ?thesis using assms by (auto simp: picker_ok_def ask_directory_def)
next
  case False
  have "picker_dir (p\<lparr>pk_error := None, pk_requests := r\<rparr>) = picker_dir p" for r by (simp add: picker_target_def)
  moreover have "answered_for evs (p\<lparr>pk_error := None, pk_requests := pk_requests p @ [picker_dir p]\<rparr>) d a"
    if "answered_for evs p d a" for d a
    using that by (rule answered_for_mono) simp_all
  ultimately show ?thesis using False assms(2) by (auto simp: picker_ok_def ask_directory_def)
qed

lemma moved_ok:
  assumes "picker_ok evs p" "pk_requests q = pk_requests p" "pk_listing q = pk_listing p" "pk_error q = pk_error p"
  shows "picker_ok evs (ask_directory q)"
  using assms by (intro ask_ok) (auto simp: picker_ok_def answered_for_def)

lemma answer_ok:
  assumes "picker_ok evs p"
  shows "picker_ok (evs @ [Pk_Answer i a]) (picker_answered i a p)"
proof -
  have kept: "picker_ok (evs @ [Pk_Answer i a]) p"
    using assms by (auto simp: picker_ok_def intro: answered_for_mono)
  show ?thesis
  proof (cases "Suc i = length (pk_requests p)")
    case False
    then show ?thesis using kept by (simp add: picker_answered_def)
  next
    case True
    then have i: "i < length (pk_requests p)" "pk_requests p ! i = last (pk_requests p)"
      by (simp, metis diff_Suc_1 last_conv_nth length_0_conv nat.distinct(1))
    then have "answered_for (evs @ [Pk_Answer i a]) p (last (pk_requests p)) a" by (auto simp: answered_for_def)
    then show ?thesis
      using kept True i(2) by (cases a) (auto simp: picker_answered_def picker_ok_def answered_for_def picker_target_def)
  qed
qed

lemma step_keeps_ok:
  assumes "picker_ok evs p"
  shows "picker_ok (evs @ [ev]) (picker_step ev p)"
proof -
  have grow: "picker_ok (evs @ [ev]) q" if "picker_ok evs q" for q
    using that unfolding picker_ok_def by (auto intro: answered_for_mono)
  have typed: "picker_ok evs (picker_typed v p)" and went: "picker_ok evs (picker_navigate path p)" for v path
    by (auto simp: picker_typed_def picker_navigate_def intro: moved_ok [OF assms])
  have up: "picker_ok evs (picker_up p)" using went assms by (simp add: picker_up_def split: option.split)
  have used: "picker_ok evs (picker_use p)" using typed assms by (simp add: picker_use_def Let_def)
  show ?thesis
  proof (cases ev)
    case (Pk_Answer i a)
    then show ?thesis using answer_ok [OF assms] by simp
  qed (use typed went up used grow in simp_all)
qed

lemma run_picker_ok: "picker_ok evs (picker_run evs (picker_open v))"
proof (induction evs rule: rev_induct)
  case Nil
  show ?case by (simp add: picker_run_def picker_open_def picker_ok_def ask_directory_def picker_target_def)
next
  case (snoc ev evs)
  then show ?case unfolding picker_run_snoc by (rule step_keeps_ok)
qed

text \<open>The picker never shows one directory under the name of another: whatever a person types and however late
  the machine answers, the entries and the reason shown are an answer to a request for the directory the text
  names now.\<close>

theorem picker_shows_what_it_names:
  assumes "p = picker_run evs (picker_open v)"
  shows "(\<forall>l. picker_current p = Some l \<longrightarrow> answered_for evs p (picker_dir p) (Inr l)) \<and>
    (\<forall>e. pk_error p = Some e \<longrightarrow> answered_for evs p (picker_dir p) (Inl e))"
  using run_picker_ok [of evs v] assms
  by (auto simp: picker_ok_def picker_current_def split: option.splits if_splits)

lemma picker_walk:
  "picker_typed ''/b/'' (picker_typed ''/a/'' (picker_open [])) =
     \<lparr>pk_value = ''/b/'', pk_entered = None, pk_listing = None, pk_error = None, pk_requests = [[], ''/a'', ''/b'']\<rparr>"
  "browseTarget (trim ''/b/'') None = (''/b'', [])"
  by code_simp+

theorem picker_shows_what_it_names_witness:
  "\<exists>evs p. p = picker_run evs (picker_open []) \<and> picker_current p = Some \<lparr>dl_path = ''/b'', dl_entries = []\<rparr> \<and>
     answered_for evs p (picker_dir p) (Inr \<lparr>dl_path = ''/b'', dl_entries = []\<rparr>)"
proof -
  let ?evs = "[Pk_Typed ''/a/'', Pk_Typed ''/b/'', Pk_Answer 1 (Inr \<lparr>dl_path = ''/a'', dl_entries = []\<rparr>),
       Pk_Answer 2 (Inr \<lparr>dl_path = ''/b'', dl_entries = []\<rparr>)]"
  have "picker_current (picker_run ?evs (picker_open [])) = Some \<lparr>dl_path = ''/b'', dl_entries = []\<rparr>"
    by (simp add: picker_run_def picker_walk picker_answered_def picker_current_def picker_target_def)
  with picker_shows_what_it_names [OF refl, of ?evs "[]"] show ?thesis by blast
qed

text \<open>A keystroke inside one directory asks the machine nothing, and the listing it has is only narrowed:
  what is offered for a longer name was offered for the shorter one.\<close>

theorem typing_narrows:
  assumes "picker_target p = (d, short)" "picker_target (p\<lparr>pk_value := v\<rparr>) = (d, short @ rest)"
    and "pk_requests p \<noteq> []" "last (pk_requests p) = d" "short \<noteq> []"
    and "lc (short @ rest) = lc short @ lc rest"
  shows "pk_requests (picker_typed v p) = pk_requests p \<and>
    set (picker_entries lc (picker_typed v p)) \<subseteq> set (picker_entries lc p)"
proof -
  have quiet: "picker_typed v p = p\<lparr>pk_value := v\<rparr>"
    using assms(2,3,4) by (simp add: picker_typed_def ask_directory_def)
  have current: "picker_current (p\<lparr>pk_value := v\<rparr>) = picker_current p"
    using assms(1,2) by (auto simp: picker_current_def split: option.split)
  have "matchesName lc n (short @ rest) \<Longrightarrow> matchesName lc n short" for n
  proof -
    assume n: "matchesName lc n (short @ rest)"
    have "startsWith (short @ rest) ''.'' = startsWith short ''.''"
      using assms(5) by (cases short) (simp_all add: startsWith_def)
    moreover have "startsWith (lc n) (lc short @ lc rest) \<Longrightarrow> startsWith (lc n) (lc short)"
      by (auto simp: startsWith_prefix dest: append_prefixD)
    ultimately show "matchesName lc n short" using n assms(5,6) by (auto simp: matchesName_def split: if_splits)
  qed
  then show ?thesis unfolding quiet
    by (auto simp: picker_entries_def current assms(1,2) split: option.split)
qed

theorem typing_narrows_witness:
  "pk_requests (picker_typed ''/a/xy'' \<lparr>pk_value = ''/a/x'', pk_entered = None, pk_listing = None, pk_error = None, pk_requests = [''/a'']\<rparr>) = [''/a'']"
proof -
  let ?p = "\<lparr>pk_value = ''/a/x'', pk_entered = None, pk_listing = None, pk_error = None, pk_requests = [''/a'']\<rparr>"
  have "picker_target ?p = (''/a'', ''x'')" "picker_target (?p\<lparr>pk_value := ''/a/xy''\<rparr>) = (''/a'', ''x'' @ ''y'')" by code_simp+
  from typing_narrows [OF this, of "\<lambda>s. s"] show ?thesis by simp
qed

end
