(* ===== verification/Section_Controls.thy ===== *)
theory Section_Controls
  imports Section_Logic
begin

section \<open>What a person can do in the section: Section.tsx and dialogs.tsx\<close>

text \<open>
  The controls of the settings section: which are enabled, the dialogs that make a machine, a repository or a
  checkout, the question before anything is removed, and the one request each of them makes. A control that is
  drawn disabled takes no click. What the host answers is an event; the re-reading of the host is in
  \<open>Section_Logic\<close>.
\<close>

subsection \<open>State\<close>

datatype section_dialog = Dialog_Machine | Dialog_Repo string | Dialog_Worktree repo_record

datatype confirmation =
    Confirm_Machine string
  | Confirm_Repo string
  | Confirm_Worktree string bool

text \<open>The question, the option it offers and the request behind it.\<close>

definition confirmation_keys :: "confirmation \<Rightarrow> string \<times> string \<times> string option" where
  "confirmation_keys c =
     (case c of
        Confirm_Machine n \<Rightarrow> (''removeMachineTitle'', ''removeMachineBody'', None)
      | Confirm_Repo r \<Rightarrow> (''removeRepositoryTitle'', ''removeRepositoryBody'', None)
      | Confirm_Worktree a managed \<Rightarrow>
          (''removeWorktreeTitle'', if managed then ''removeWorktreeBody'' else ''removeAdoptedWorktreeBody'', Some ''removeWorktreeBranch''))"

definition confirmation_call :: "confirmation \<Rightarrow> bool \<Rightarrow> ui_call" where
  "confirmation_call c option =
     (case c of
        Confirm_Machine n \<Rightarrow> Ui_Remove_Node n
      | Confirm_Repo r \<Rightarrow> Ui_Remove_Repo r
      | Confirm_Worktree a managed \<Rightarrow> Ui_Remove_Worktree a option)"

definition dialog_call :: "section_dialog \<Rightarrow> ui_call" where
  "dialog_call d = (case d of Dialog_Machine \<Rightarrow> Ui_Add_Node | Dialog_Repo n \<Rightarrow> Ui_Add_Repo | Dialog_Worktree r \<Rightarrow> Ui_Create_Worktree)"

datatype pending_action = Pending_Mutation | Pending_Submit section_dialog

record controls =
  ct_busy :: bool
  ct_dialog :: "section_dialog option"
  ct_dialog_error :: "string option"
  ct_confirmation :: "confirmation option"
  ct_option :: bool
  ct_banner :: "string option"
  ct_pending :: "pending_action list"
  ct_calls :: "ui_call list"

definition controls_start :: controls where
  "controls_start =
     \<lparr>ct_busy = False, ct_dialog = None, ct_dialog_error = None, ct_confirmation = None, ct_option = False,
      ct_banner = None, ct_pending = [], ct_calls = []\<rparr>"

subsection \<open>Requests\<close>

definition mutate_call :: "ui_call \<Rightarrow> controls \<Rightarrow> controls" where
  "mutate_call c s = s\<lparr>ct_busy := True, ct_pending := ct_pending s @ [Pending_Mutation], ct_calls := ct_calls s @ [c]\<rparr>"

definition submit_dialog :: "section_dialog \<Rightarrow> controls \<Rightarrow> controls" where
  "submit_dialog d s =
     s\<lparr>ct_busy := True, ct_dialog_error := None, ct_pending := ct_pending s @ [Pending_Submit d],
       ct_calls := ct_calls s @ [dialog_call d]\<rparr>"

text \<open>The answer. A mutation's failure goes to the banner; a dialog closes when its request succeeded and shows
  the failure itself when it did not, as long as it is still there.\<close>

definition request_ended :: "string option \<Rightarrow> controls \<Rightarrow> controls" where
  "request_ended failure s =
     (case ct_pending s of
        [] \<Rightarrow> s
      | Pending_Mutation # rest \<Rightarrow> s\<lparr>ct_busy := False, ct_pending := rest, ct_banner := failure\<rparr>
      | Pending_Submit d # rest \<Rightarrow>
          (let s' = s\<lparr>ct_busy := False, ct_pending := rest\<rparr> in
           case failure of
             None \<Rightarrow> s'\<lparr>ct_dialog := None, ct_dialog_error := None\<rparr>
           | Some e \<Rightarrow> if ct_dialog s = Some d then s'\<lparr>ct_dialog_error := Some e\<rparr> else s'))"

subsection \<open>Clicks\<close>

definition open_dialog :: "section_dialog \<Rightarrow> bool \<Rightarrow> controls \<Rightarrow> controls" where
  "open_dialog d has_git s =
     (if ct_busy s \<or> (case d of Dialog_Worktree r \<Rightarrow> \<not> has_git | _ \<Rightarrow> False) then s
      else s\<lparr>ct_dialog := Some d, ct_dialog_error := None\<rparr>)"

definition close_dialog :: "controls \<Rightarrow> controls" where
  "close_dialog s = s\<lparr>ct_dialog := None, ct_dialog_error := None\<rparr>"

text \<open>\<open>filled\<close>: the fields the dialog cannot do without have text.\<close>

definition press_create :: "bool \<Rightarrow> controls \<Rightarrow> controls" where
  "press_create filled s =
     (case ct_dialog s of None \<Rightarrow> s | Some d \<Rightarrow> if ct_busy s \<or> \<not> filled then s else submit_dialog d s)"

definition ask_confirmation :: "confirmation \<Rightarrow> controls \<Rightarrow> controls" where
  "ask_confirmation c s = (if ct_busy s then s else s\<lparr>ct_option := False, ct_confirmation := Some c\<rparr>)"

definition cancel_confirmation :: "controls \<Rightarrow> controls" where
  "cancel_confirmation s = s\<lparr>ct_confirmation := None\<rparr>"

definition switch_option :: "bool \<Rightarrow> controls \<Rightarrow> controls" where
  "switch_option on s =
     (case ct_confirmation s of
        None \<Rightarrow> s
      | Some c \<Rightarrow> if snd (snd (confirmation_keys c)) = None \<or> ct_busy s then s else s\<lparr>ct_option := on\<rparr>)"

definition press_remove :: "controls \<Rightarrow> controls" where
  "press_remove s =
     (case ct_confirmation s of
        None \<Rightarrow> s
      | Some c \<Rightarrow> if ct_busy s then s else mutate_call (confirmation_call c (ct_option s)) (s\<lparr>ct_confirmation := None\<rparr>))"

text \<open>The requests a row makes at once: connecting, disconnecting, opening and closing.\<close>

definition direct_call :: "ui_call \<Rightarrow> bool" where
  "direct_call c =
     (case c of
        Ui_Connect_Node _ \<Rightarrow> True | Ui_Disconnect_Node _ \<Rightarrow> True | Ui_Open_Directory _ \<Rightarrow> True | Ui_Close_Directory _ \<Rightarrow> True
      | Ui_Open_Worktree _ \<Rightarrow> True | Ui_Close_Worktree _ \<Rightarrow> True | _ \<Rightarrow> False)"

definition press_row :: "ui_call \<Rightarrow> controls \<Rightarrow> controls" where
  "press_row c s = (if ct_busy s \<or> \<not> direct_call c then s else mutate_call c s)"

datatype control_event =
    Ce_Open section_dialog bool
  | Ce_Close
  | Ce_Create bool
  | Ce_Ask confirmation
  | Ce_Cancel
  | Ce_Switch bool
  | Ce_Remove
  | Ce_Row ui_call
  | Ce_Ended "string option"

fun control_step :: "control_event \<Rightarrow> controls \<Rightarrow> controls" where
  "control_step (Ce_Open d has_git) s = open_dialog d has_git s"
| "control_step Ce_Close s = close_dialog s"
| "control_step (Ce_Create filled) s = press_create filled s"
| "control_step (Ce_Ask c) s = ask_confirmation c s"
| "control_step Ce_Cancel s = cancel_confirmation s"
| "control_step (Ce_Switch on) s = switch_option on s"
| "control_step Ce_Remove s = press_remove s"
| "control_step (Ce_Row c) s = press_row c s"
| "control_step (Ce_Ended failure) s = request_ended failure s"

definition control_run :: "control_event list \<Rightarrow> controls \<Rightarrow> controls" where
  "control_run evs s = fold control_step evs s"

lemma control_run_snoc: "control_run (evs @ [ev]) s = control_step ev (control_run evs s)"
  by (simp add: control_run_def)

lemma control_run_Nil [simp]: "control_run [] s = s"
  by (simp add: control_run_def)

lemmas control_defs = open_dialog_def close_dialog_def press_create_def submit_dialog_def ask_confirmation_def
  cancel_confirmation_def switch_option_def press_remove_def press_row_def mutate_call_def request_ended_def Let_def

subsection \<open>One request at a time\<close>

text \<open>While a request is under way nothing else is, and the dialog that made it is the only one there can be.\<close>

definition controls_ok :: "controls \<Rightarrow> bool" where
  "controls_ok s \<longleftrightarrow>
     ct_busy s = (ct_pending s \<noteq> []) \<and> length (ct_pending s) \<le> 1 \<and>
     (\<forall>d. ct_pending s = [Pending_Submit d] \<longrightarrow> ct_dialog s = Some d \<or> ct_dialog s = None)"

lemma control_step_keeps: "controls_ok s \<Longrightarrow> controls_ok (control_step ev s)"
  by (cases ev) (auto simp: controls_ok_def control_defs split: option.splits list.splits pending_action.splits if_splits)

lemma control_run_ok: "controls_ok (control_run evs controls_start)"
proof (induction evs rule: rev_induct)
  case Nil
  show ?case by (simp add: controls_ok_def controls_start_def)
next
  case (snoc ev evs)
  then show ?case by (simp add: control_run_snoc control_step_keeps)
qed

text \<open>The section makes one request at a time, and the answer to a dialog's request never closes another
  dialog: when it comes, the dialog that is open is the one that asked, or none is.\<close>

theorem one_request_at_a_time:
  "length (ct_pending (control_run evs controls_start)) \<le> 1 \<and>
   (\<forall>d d'. Pending_Submit d \<in> set (ct_pending (control_run evs controls_start)) \<and>
      ct_dialog (control_run evs controls_start) = Some d' \<longrightarrow> d' = d)"
proof -
  have ok: "controls_ok (control_run evs controls_start)" by (rule control_run_ok)
  then have "ct_pending (control_run evs controls_start) = [x]" if "x \<in> set (ct_pending (control_run evs controls_start))" for x
    using that by (cases "ct_pending (control_run evs controls_start)") (auto simp: controls_ok_def)
  with ok show ?thesis by (fastforce simp: controls_ok_def)
qed

theorem one_request_at_a_time_witness:
  "ct_pending (control_run [Ce_Open Dialog_Machine True, Ce_Create True, Ce_Close, Ce_Open (Dialog_Repo ''n'') True] controls_start) =
     [Pending_Submit Dialog_Machine] \<and>
   length (ct_pending (control_run [Ce_Open Dialog_Machine True, Ce_Create True, Ce_Close, Ce_Open (Dialog_Repo ''n'') True] controls_start)) \<le> 1"
  using one_request_at_a_time [of "[Ce_Open Dialog_Machine True, Ce_Create True, Ce_Close, Ce_Open (Dialog_Repo ''n'') True]"]
  by (simp add: control_run_def control_defs controls_start_def)

subsection \<open>Nothing is removed unasked\<close>

definition removes :: "ui_call \<Rightarrow> bool" where
  "removes c = (case c of Ui_Remove_Node _ \<Rightarrow> True | Ui_Remove_Repo _ \<Rightarrow> True | Ui_Remove_Worktree _ _ \<Rightarrow> True | _ \<Rightarrow> False)"

lemma direct_keeps: "direct_call c \<Longrightarrow> \<not> removes c"
  by (cases c) (simp_all add: direct_call_def removes_def)

lemma dialog_keeps: "\<not> removes (dialog_call d)"
  by (cases d) (simp_all add: dialog_call_def removes_def)

text \<open>The question on the screen was asked, was not cancelled since, and its option was switched since.\<close>

definition asked :: "control_event list \<Rightarrow> confirmation \<Rightarrow> bool \<Rightarrow> bool" where
  "asked evs c option \<longleftrightarrow>
     (\<exists>pre mid. evs = pre @ Ce_Ask c # mid \<and> Ce_Cancel \<notin> set mid \<and> (option \<longrightarrow> Ce_Switch True \<in> set mid))"

definition answered_yes :: "control_event list \<Rightarrow> confirmation \<Rightarrow> bool \<Rightarrow> bool" where
  "answered_yes evs c option \<longleftrightarrow> (\<exists>before post. evs = before @ Ce_Remove # post \<and> asked before c option)"

definition call_asked :: "control_event list \<Rightarrow> ui_call \<Rightarrow> bool" where
  "call_asked evs call \<longleftrightarrow> (\<exists>c option. call = confirmation_call c option \<and> answered_yes evs c option)"

definition removals_asked :: "control_event list \<Rightarrow> controls \<Rightarrow> bool" where
  "removals_asked evs s \<longleftrightarrow>
     (\<forall>c. ct_confirmation s = Some c \<longrightarrow> asked evs c (ct_option s)) \<and>
     (\<forall>call \<in> set (ct_calls s). removes call \<longrightarrow> call_asked evs call)"

lemma askedI:
  "evs = pre @ Ce_Ask c # mid \<Longrightarrow> Ce_Cancel \<notin> set mid \<Longrightarrow> (option \<Longrightarrow> Ce_Switch True \<in> set mid) \<Longrightarrow> asked evs c option"
  unfolding asked_def by blast

lemma askedE:
  assumes "asked evs c option"
  obtains pre mid where "evs = pre @ Ce_Ask c # mid" "Ce_Cancel \<notin> set mid" "option \<Longrightarrow> Ce_Switch True \<in> set mid"
  using assms unfolding asked_def by blast

lemma asked_more: "asked evs c option \<Longrightarrow> ev \<noteq> Ce_Cancel \<Longrightarrow> asked (evs @ [ev]) c option"
  by (erule askedE) (rule askedI [where mid = "_ @ [ev]"], auto)

lemma asked_first: "asked (evs @ [Ce_Ask c]) c False"
  by (rule askedI [where mid = "[]"]) simp_all

lemma asked_switched: "asked evs c option \<Longrightarrow> asked (evs @ [Ce_Switch True]) c True"
  by (erule askedE) (rule askedI [where mid = "_ @ [Ce_Switch True]"], auto)

lemma asked_off: "asked evs c option \<Longrightarrow> asked evs c False"
  by (erule askedE) (rule askedI, auto)

lemma call_asked_more: "call_asked evs call \<Longrightarrow> call_asked (evs @ [ev]) call"
  unfolding call_asked_def answered_yes_def by (metis append_Cons append_assoc)

lemma answered_now: "asked evs c option \<Longrightarrow> call_asked (evs @ [Ce_Remove]) (confirmation_call c option)"
  unfolding call_asked_def answered_yes_def by blast

lemma removals_calls: "removals_asked evs s \<Longrightarrow> call \<in> set (ct_calls s) \<Longrightarrow> removes call \<Longrightarrow> call_asked (evs @ [ev]) call"
  unfolding removals_asked_def by (simp add: call_asked_more)

lemma removals_question: "removals_asked evs s \<Longrightarrow> ct_confirmation s = Some c \<Longrightarrow> asked evs c (ct_option s)"
  unfolding removals_asked_def by simp

lemma removalsI:
  "(\<And>c. ct_confirmation s = Some c \<Longrightarrow> asked evs c (ct_option s)) \<Longrightarrow>
   (\<And>call. call \<in> set (ct_calls s) \<Longrightarrow> removes call \<Longrightarrow> call_asked evs call) \<Longrightarrow> removals_asked evs s"
  unfolding removals_asked_def by simp

text \<open>A step that leaves the question alone and makes no removing request.\<close>

lemma removals_quiet:
  assumes "removals_asked evs s" "ev \<noteq> Ce_Cancel" "ct_confirmation s' = ct_confirmation s" "ct_option s' = ct_option s"
    and "\<And>call. call \<in> set (ct_calls s') \<Longrightarrow> removes call \<Longrightarrow> call \<in> set (ct_calls s)"
  shows "removals_asked (evs @ [ev]) s'"
proof (rule removalsI)
  show "asked (evs @ [ev]) c (ct_option s')" if "ct_confirmation s' = Some c" for c
    using asked_more [OF removals_question [OF assms(1)] assms(2)] that assms(3,4) by simp
qed (rule removals_calls [OF assms(1) assms(5)])

lemma removals_step:
  assumes ok: "removals_asked evs s"
  shows "removals_asked (evs @ [ev]) (control_step ev s)"
proof (cases ev)
  case (Ce_Ask c)
  show ?thesis
  proof (cases "ct_busy s")
    case True
    with ok Ce_Ask show ?thesis by (simp add: ask_confirmation_def removals_quiet)
  next
    case False
    with Ce_Ask show ?thesis
      by (intro removalsI) (auto simp: ask_confirmation_def asked_first intro: removals_calls [OF ok])
  qed
next
  case Ce_Cancel
  then show ?thesis by (intro removalsI) (auto simp: cancel_confirmation_def intro: removals_calls [OF ok])
next
  case (Ce_Switch on)
  have "asked (evs @ [Ce_Switch on]) c on" if "ct_confirmation s = Some c" for c
    using asked_switched [OF removals_question [OF ok that]] asked_more [OF asked_off [OF removals_question [OF ok that]]]
    by (cases on) auto
  then have "removals_asked (evs @ [Ce_Switch on]) (s\<lparr>ct_option := on\<rparr>)"
    by (intro removalsI) (auto intro: removals_calls [OF ok])
  moreover have "removals_asked (evs @ [Ce_Switch on]) s" using ok by (rule removals_quiet) simp_all
  ultimately show ?thesis using Ce_Switch by (simp add: switch_option_def split: option.split)
next
  case Ce_Remove
  show ?thesis
  proof (cases "ct_confirmation s = None \<or> ct_busy s")
    case True
    then have "press_remove s = s" by (auto simp: press_remove_def split: option.split)
    with ok Ce_Remove show ?thesis by (simp add: removals_quiet)
  next
    case False
    then obtain c where c: "ct_confirmation s = Some c" and idle: "\<not> ct_busy s" by auto
    from answered_now [OF removals_question [OF ok c]] show ?thesis using c idle Ce_Remove
      by (intro removalsI) (auto simp: press_remove_def mutate_call_def intro: removals_calls [OF ok])
  qed
next
  case (Ce_Row c)
  then show ?thesis using direct_keeps [of c] ok by (auto intro!: removals_quiet simp: press_row_def mutate_call_def)
next
  case (Ce_Create filled)
  then show ?thesis using dialog_keeps ok
    by (auto intro!: removals_quiet simp: press_create_def submit_dialog_def split: option.splits)
next
  case (Ce_Ended failure)
  then show ?thesis using ok
    by (auto intro!: removals_quiet simp: request_ended_def Let_def split: option.splits list.splits pending_action.splits)
qed (use ok in \<open>auto intro!: removals_quiet simp: open_dialog_def close_dialog_def\<close>)

lemma removals_run: "removals_asked evs (control_run evs controls_start)"
proof (induction evs rule: rev_induct)
  case Nil
  show ?case by (simp add: removals_asked_def controls_start_def)
next
  case (snoc ev evs)
  then show ?case by (simp add: control_run_snoc removals_step)
qed

text \<open>C19: nothing is removed that was not asked about: a request that removes a machine, forgets a repository or
  deletes a checkout answers a question about that one which was not cancelled, and takes the branch along only
  when the person switched that on in the same question.\<close>

theorem removal_was_asked:
  assumes "call \<in> set (ct_calls (control_run evs controls_start))" "removes call"
  shows "\<exists>c option before post. call = confirmation_call c option \<and> evs = before @ Ce_Remove # post \<and> asked before c option"
  using removals_run [of evs] assms unfolding removals_asked_def call_asked_def answered_yes_def by blast

theorem removal_was_asked_witness:
  "\<exists>c option before post. Ui_Remove_Worktree ''a'' True = confirmation_call c option \<and>
     [Ce_Ask (Confirm_Worktree ''a'' True), Ce_Switch True, Ce_Remove] = before @ Ce_Remove # post \<and> asked before c option"
  by (rule removal_was_asked)
    (simp_all add: control_run_def control_defs controls_start_def confirmation_keys_def confirmation_call_def removes_def)

text \<open>Cancelling a dialog does not cancel its request, and its failure is then shown nowhere: neither in the
  banner nor in a dialog.\<close>

theorem cancelled_failure_unseen:
  assumes "ct_dialog s = Some d" "\<not> ct_busy s" "ct_pending s = []"
  shows "let s' = control_run [Ce_Create True, Ce_Close, Ce_Ended (Some e)] s in
    ct_calls s' = ct_calls s @ [dialog_call d] \<and> ct_banner s' = ct_banner s \<and> ct_dialog s' = None \<and> ct_dialog_error s' = None"
  using assms by (simp add: control_run_def control_defs)

theorem cancelled_failure_unseen_witness:
  "ct_banner (control_run [Ce_Create True, Ce_Close, Ce_Ended (Some ''refused'')] (controls_start\<lparr>ct_dialog := Some Dialog_Machine\<rparr>)) = None"
  using cancelled_failure_unseen [of "controls_start\<lparr>ct_dialog := Some Dialog_Machine\<rparr>" Dialog_Machine "''refused''"]
  by (simp add: controls_start_def Let_def)

end
