(* ===== verification/Display_Settings.thy ===== *)
theory Display_Settings
  imports Terminal_Registry "HOL-Library.Multiset"
begin

section \<open>How terminals are drawn: plugin/client/terminal/settings.ts and its cards\<close>

text \<open>
  The preferences the page holds, the form of the settings service they are bound to, and who is told when
  they move; and the two cards over them, which step a number inside its bounds and order the shells to
  choose from. A line height is kept in tenths, which is how the card steps it. The document of a form is a
  parameter, and so are what a canvas measures and how a browser compares names.
\<close>

subsection \<open>The preferences\<close>

record display_settings =
  ds_fontFamily :: string
  ds_fontSize :: int
  ds_lineHeight :: int
  ds_cursorBlink :: bool
  ds_scrollback :: int

definition TERMINAL_DISPLAY_DEFAULTS :: display_settings where
  "TERMINAL_DISPLAY_DEFAULTS =
     \<lparr>ds_fontFamily = ''monospace'', ds_fontSize = 12, ds_lineHeight = 10, ds_cursorBlink = True, ds_scrollback = 50000\<rparr>"

datatype display_bounds = Bounds (lowest: int) (highest: int) (one_step: int)

definition font_bounds :: display_bounds where "font_bounds = Bounds 11 16 1"

definition line_bounds :: display_bounds where "line_bounds = Bounds 10 16 1"

definition scrollback_bounds :: display_bounds where "scrollback_bounds = Bounds 1000 100000 1"

definition same_settings :: "display_settings \<Rightarrow> display_settings \<Rightarrow> bool" where
  "same_settings l r \<longleftrightarrow>
     ds_fontFamily l = ds_fontFamily r \<and> ds_fontSize l = ds_fontSize r \<and> ds_lineHeight l = ds_lineHeight r \<and>
     ds_cursorBlink l = ds_cursorBlink r \<and> ds_scrollback l = ds_scrollback r"

lemma same_settings_eq: "same_settings l r \<longleftrightarrow> l = r"
  by (auto simp: same_settings_def)

datatype display_field =
    Font_Family string
  | Font_Size int
  | Line_Height int
  | Cursor_Blink bool
  | Scrollback int

fun set_field :: "display_field \<Rightarrow> display_settings \<Rightarrow> display_settings" where
  "set_field (Font_Family f) s = s\<lparr>ds_fontFamily := f\<rparr>"
| "set_field (Font_Size n) s = s\<lparr>ds_fontSize := n\<rparr>"
| "set_field (Line_Height n) s = s\<lparr>ds_lineHeight := n\<rparr>"
| "set_field (Cursor_Blink b) s = s\<lparr>ds_cursorBlink := b\<rparr>"
| "set_field (Scrollback n) s = s\<lparr>ds_scrollback := n\<rparr>"

subsection \<open>The page's copy\<close>

record display_world =
  dw_scope :: "nat option"
  dw_bound :: "nat list"
  dw_cached :: display_settings
  dw_listeners :: "nat list"
  dw_told :: "(nat \<times> display_settings) list"
  dw_sets :: "(nat \<times> display_field) list"

definition display_start :: display_world where
  "display_start =
     \<lparr>dw_scope = None, dw_bound = [], dw_cached = TERMINAL_DISPLAY_DEFAULTS, dw_listeners = [], dw_told = [], dw_sets = []\<rparr>"

text \<open>A new snapshot, and every listener told.\<close>

definition publish_settings :: "display_settings \<Rightarrow> display_world \<Rightarrow> display_world" where
  "publish_settings s w = w\<lparr>dw_cached := s, dw_told := dw_told w @ map (\<lambda>l. (l, s)) (dw_listeners w)\<rparr>"

definition adopt_settings :: "(nat \<Rightarrow> display_settings option) \<Rightarrow> display_world \<Rightarrow> display_world" where
  "adopt_settings doc w =
     (case dw_scope w of
        None \<Rightarrow> w
      | Some f \<Rightarrow>
          (case doc f of
             None \<Rightarrow> w
           | Some section_now \<Rightarrow> if same_settings section_now (dw_cached w) then w else publish_settings section_now w))"

definition bindTerminalDisplaySettings :: "(nat \<Rightarrow> display_settings option) \<Rightarrow> nat \<Rightarrow> display_world \<Rightarrow> display_world" where
  "bindTerminalDisplaySettings doc f w = adopt_settings doc (w\<lparr>dw_scope := Some f, dw_bound := dw_bound w @ [f]\<rparr>)"

definition unbind_settings :: "nat \<Rightarrow> display_world \<Rightarrow> display_world" where
  "unbind_settings f w =
     w\<lparr>dw_bound := remove1 f (dw_bound w), dw_scope := (if dw_scope w = Some f then None else dw_scope w)\<rparr>"

text \<open>A form reports a change to the page while it is bound.\<close>

definition form_moved :: "(nat \<Rightarrow> display_settings option) \<Rightarrow> nat \<Rightarrow> display_world \<Rightarrow> display_world" where
  "form_moved doc f w = (if f \<in> set (dw_bound w) then adopt_settings doc w else w)"

definition writeTerminalDisplaySettings :: "display_field list \<Rightarrow> display_world \<Rightarrow> display_world" where
  "writeTerminalDisplaySettings patch w =
     (let new = fold set_field patch (dw_cached w) in
      if same_settings new (dw_cached w) then w
      else
        (let w' = publish_settings new w
         in w'\<lparr>dw_sets := dw_sets w' @ (case dw_scope w of None \<Rightarrow> [] | Some f \<Rightarrow> map (Pair f) patch)\<rparr>))"

definition subscribeTerminalDisplaySettings :: "nat \<Rightarrow> display_world \<Rightarrow> display_world" where
  "subscribeTerminalDisplaySettings l w =
     (if l \<in> set (dw_listeners w) then w else w\<lparr>dw_listeners := dw_listeners w @ [l]\<rparr>)"

definition unsubscribe_settings :: "nat \<Rightarrow> display_world \<Rightarrow> display_world" where
  "unsubscribe_settings l w = w\<lparr>dw_listeners := removeAll l (dw_listeners w)\<rparr>"

subsection \<open>Fonts\<close>

definition fontStack :: "string \<Rightarrow> string" where
  "fontStack family =
     (if family = ds_fontFamily TERMINAL_DISPLAY_DEFAULTS then family else [CHR 0x22] @ family @ [CHR 0x22] @ '', monospace'')"

definition quoted_family :: "string \<Rightarrow> string \<Rightarrow> string" where
  "quoted_family family generic = [CHR 0x22] @ family @ [CHR 0x22] @ '', '' @ generic"

definition isMonospace :: "(string \<Rightarrow> string \<Rightarrow> int) \<Rightarrow> string \<Rightarrow> bool" where
  "isMonospace width family =
     ((width ''miW'' (quoted_family family ''monospace'') \<noteq> width ''miW'' ''monospace'' \<or>
       width ''miW'' (quoted_family family ''serif'') \<noteq> width ''miW'' ''serif'') \<and>
      width ''iiiiiiiiii'' (quoted_family family ''monospace'') = width ''WWWWWWWWWW'' (quoted_family family ''monospace''))"

text \<open>The families of the machine, without repetitions and in the browser's order; \<open>None\<close> when it says none.\<close>

definition readFamilies :: "(string list \<Rightarrow> string list) \<Rightarrow> (string \<Rightarrow> string \<Rightarrow> int) \<Rightarrow> string list option \<Rightarrow> string list option" where
  "readFamilies ordered width fonts = map_option (\<lambda>fs. ordered (filter (isMonospace width) (rev (remdups (rev fs))))) fonts"

text \<open>The read that is remembered, and what is offered.\<close>

definition monospaceFonts :: "string list option \<Rightarrow> string list option option \<Rightarrow> string list \<times> string list option option" where
  "monospaceFonts answer reading =
     (let families = (case reading of None \<Rightarrow> answer | Some r \<Rightarrow> r) in
      case families of
        None \<Rightarrow> ([ds_fontFamily TERMINAL_DISPLAY_DEFAULTS], None)
      | Some fs \<Rightarrow> (fs @ [ds_fontFamily TERMINAL_DISPLAY_DEFAULTS], Some (Some fs)))"

subsection \<open>The card\<close>

definition held_within :: "display_bounds \<Rightarrow> int \<Rightarrow> int" where
  "held_within b x = min (highest b) (max (lowest b) x)"

definition bump_font :: "int \<Rightarrow> display_world \<Rightarrow> display_world" where
  "bump_font direction w =
     writeTerminalDisplaySettings [Font_Size (held_within font_bounds (ds_fontSize (dw_cached w) + direction * one_step font_bounds))] w"

definition bump_line :: "int \<Rightarrow> display_world \<Rightarrow> display_world" where
  "bump_line direction w =
     writeTerminalDisplaySettings [Line_Height (held_within line_bounds (ds_lineHeight (dw_cached w) + direction * one_step line_bounds))] w"

text \<open>\<open>number\<close> is \<open>Number\<close>, rounded; \<open>None\<close> is what is not finite.\<close>

definition commitScrollback :: "(string \<Rightarrow> int option) \<Rightarrow> string option \<Rightarrow> display_world \<Rightarrow> display_world" where
  "commitScrollback number typed w =
     (let entered = trim (case typed of None \<Rightarrow> [] | Some t \<Rightarrow> t) in
      if entered = [] then w
      else (case number entered of
              None \<Rightarrow> w
            | Some n \<Rightarrow> writeTerminalDisplaySettings [Scrollback (held_within scrollback_bounds n)] w))"

subsection \<open>The chooser\<close>

definition stateKey :: "term_state \<Rightarrow> string" where
  "stateKey s = (case s of Running \<Rightarrow> ''state.running'' | Detached \<Rightarrow> ''state.detached'' | Exited \<Rightarrow> ''state.exited'')"

text \<open>The sort is stable, and its comparison puts the shell that was used last before the others.\<close>

definition offered :: "'i option \<Rightarrow> ('t \<Rightarrow> 'i) \<Rightarrow> 't list \<Rightarrow> 't list" where
  "offered last_used ident ts = filter (\<lambda>t. Some (ident t) = last_used) ts @ filter (\<lambda>t. Some (ident t) \<noteq> last_used) ts"

subsection \<open>Properties\<close>

datatype display_op =
    Do_Bind nat
  | Do_Unbind nat
  | Do_Move nat
  | Do_Write "display_field list"
  | Do_Bump_Font int
  | Do_Bump_Line int
  | Do_Subscribe nat
  | Do_Unsubscribe nat

definition display_step :: "(nat \<Rightarrow> display_settings option) \<Rightarrow> display_op \<Rightarrow> display_world \<Rightarrow> display_world" where
  "display_step doc e w =
     (case e of
        Do_Bind f \<Rightarrow> bindTerminalDisplaySettings doc f w
      | Do_Unbind f \<Rightarrow> unbind_settings f w
      | Do_Move f \<Rightarrow> form_moved doc f w
      | Do_Write p \<Rightarrow> writeTerminalDisplaySettings p w
      | Do_Bump_Font d \<Rightarrow> bump_font d w
      | Do_Bump_Line d \<Rightarrow> bump_line d w
      | Do_Subscribe l \<Rightarrow> subscribeTerminalDisplaySettings l w
      | Do_Unsubscribe l \<Rightarrow> unsubscribe_settings l w)"

lemmas display_defs = display_step_def bindTerminalDisplaySettings_def unbind_settings_def form_moved_def adopt_settings_def
  writeTerminalDisplaySettings_def bump_font_def bump_line_def subscribeTerminalDisplaySettings_def unsubscribe_settings_def
  publish_settings_def same_settings_eq Let_def

text \<open>Nobody draws with an old preference and nobody is told for nothing: in one operation every listener
  is told the new snapshot, once, when the preferences moved, and none when they did not.\<close>

theorem told_exactly_when_moved:
  "dw_told (display_step doc e w) =
     dw_told w @ (if dw_cached (display_step doc e w) = dw_cached w then []
                  else map (\<lambda>l. (l, dw_cached (display_step doc e w))) (dw_listeners w))"
  by (cases e) (auto simp: display_defs split: option.split)

lemma write_cached: "dw_cached (writeTerminalDisplaySettings patch w) = fold set_field patch (dw_cached w)"
  by (simp add: writeTerminalDisplaySettings_def publish_settings_def same_settings_eq Let_def)

lemma held: "lowest b \<le> highest b \<Longrightarrow> lowest b \<le> held_within b x \<and> held_within b x \<le> highest b"
  by (simp add: held_within_def)

text \<open>The settings card cannot leave the bounds: whatever value it steps from, a step of the font size or
  the line height, and a scrollback that was typed, is recorded inside the bounds its row documents.\<close>

theorem card_in_bounds:
  "dw_cached (bump_font d w) = (dw_cached w)\<lparr>ds_fontSize := max 11 (min 16 (ds_fontSize (dw_cached w) + d))\<rparr> \<and>
   dw_cached (bump_line d w) = (dw_cached w)\<lparr>ds_lineHeight := max 10 (min 16 (ds_lineHeight (dw_cached w) + d))\<rparr> \<and>
   (dw_cached (commitScrollback number typed w) = dw_cached w \<or>
    1000 \<le> ds_scrollback (dw_cached (commitScrollback number typed w)) \<and>
    ds_scrollback (dw_cached (commitScrollback number typed w)) \<le> 100000)"
proof -
  have "max 11 (min 16 x) = held_within font_bounds x" "max 10 (min 16 x) = held_within line_bounds x" for x
    by (auto simp: held_within_def font_bounds_def line_bounds_def)
  moreover have "1000 \<le> held_within scrollback_bounds n" "held_within scrollback_bounds n \<le> 100000" for n
    using held [of scrollback_bounds n] by (simp_all add: scrollback_bounds_def)
  ultimately show ?thesis
    by (simp add: bump_font_def bump_line_def commitScrollback_def write_cached Let_def font_bounds_def line_bounds_def split: option.split)
qed

text \<open>A change a person makes is kept by the form that is bound: it is recorded there field by field, and
  when the form answers with what was recorded nobody is told again.\<close>

theorem write_echo_silent:
  assumes "dw_scope w = Some f" "doc f = Some (dw_cached (writeTerminalDisplaySettings patch w))"
  shows "form_moved doc f (writeTerminalDisplaySettings patch w) = writeTerminalDisplaySettings patch w"
  using assms by (auto simp: display_defs)

theorem write_echo_silent_witness:
  "form_moved (\<lambda>f. Some (TERMINAL_DISPLAY_DEFAULTS\<lparr>ds_fontSize := 14\<rparr>)) 7
      (writeTerminalDisplaySettings [Font_Size 14] (display_start\<lparr>dw_scope := Some 7, dw_bound := [7], dw_listeners := [1]\<rparr>)) =
    writeTerminalDisplaySettings [Font_Size 14] (display_start\<lparr>dw_scope := Some 7, dw_bound := [7], dw_listeners := [1]\<rparr>)"
  by (rule write_echo_silent)
    (simp_all add: writeTerminalDisplaySettings_def publish_settings_def same_settings_eq display_start_def TERMINAL_DISPLAY_DEFAULTS_def Let_def)

text \<open>The chooser offers every shell once, the one that was used last first and the others in the host's
  order.\<close>

theorem chooser_offers_all:
  "mset (offered last_used ident ts) = mset ts \<and>
   filter (\<lambda>t. Some (ident t) \<noteq> last_used) (offered last_used ident ts) = filter (\<lambda>t. Some (ident t) \<noteq> last_used) ts \<and>
   takeWhile (\<lambda>t. Some (ident t) = last_used) (offered last_used ident ts) = filter (\<lambda>t. Some (ident t) = last_used) ts"
proof -
  have "filter (\<lambda>t. Some (ident t) \<noteq> last_used) ts = [] \<or> Some (ident (hd (filter (\<lambda>t. Some (ident t) \<noteq> last_used) ts))) \<noteq> last_used"
    using hd_in_set [of "filter (\<lambda>t. Some (ident t) \<noteq> last_used) ts"] by auto
  then have "takeWhile (\<lambda>t. Some (ident t) = last_used) (filter (\<lambda>t. Some (ident t) \<noteq> last_used) ts) = []"
    by (cases "filter (\<lambda>t. Some (ident t) \<noteq> last_used) ts") auto
  moreover have "takeWhile (\<lambda>t. Some (ident t) = last_used) (filter (\<lambda>t. Some (ident t) = last_used) ts @ xs) =
      filter (\<lambda>t. Some (ident t) = last_used) ts @ takeWhile (\<lambda>t. Some (ident t) = last_used) xs" for xs
    by (rule takeWhile_append2) auto
  moreover have "mset (filter P ts @ filter (\<lambda>t. \<not> P t) ts) = mset ts" for P by (induction ts) auto
  ultimately show ?thesis by (simp add: offered_def)
qed

end
