(* ===== verification/Terminal_Chooser.thy ===== *)
theory Terminal_Chooser
  imports Tab_Runs Display_Settings
begin

section \<open>The chooser and the body of a terminal tab: TerminalPicker.tsx and TerminalBody.tsx\<close>

text \<open>
  A tab without a terminal shows the chooser: the shells of the Session as the host lists them, each marked with
  the tab that already draws it. Picking one binds the tab, or brings the other tab forward. What is marked is
  decided when the chooser is drawn, and it is drawn again only when its own state moves.
\<close>

subsection \<open>The list\<close>

text \<open>\<open>ch_reads\<close> counts the reads of the list that are under way; the first starts with the chooser.\<close>

record chooser =
  ch_terminals :: "terminal_view list option"
  ch_error :: "string option"
  ch_closing :: "term_id option"
  ch_last :: "term_id option"
  ch_reads :: nat

definition chooser_open :: "term_id option \<Rightarrow> chooser" where
  "chooser_open last_used =
     \<lparr>ch_terminals = None, ch_error = None, ch_closing = None, ch_last = last_used, ch_reads = 1\<rparr>"

definition chooser_loaded :: "string + terminal_view list \<Rightarrow> chooser \<Rightarrow> chooser" where
  "chooser_loaded answer c =
     (if ch_reads c = 0 then c
      else
        (let c' = (case answer of
                     Inl e \<Rightarrow> c\<lparr>ch_error := Some e\<rparr>
                   | Inr ts \<Rightarrow> c\<lparr>ch_terminals := Some ts, ch_error := None\<rparr>)
         in c'\<lparr>ch_reads := ch_reads c - 1, ch_closing := None\<rparr>))"

definition chooser_rows :: "chooser \<Rightarrow> terminal_view list" where
  "chooser_rows c = offered (ch_last c) tv_id (case ch_terminals c of None \<Rightarrow> [] | Some ts \<Rightarrow> ts)"

text \<open>\<open>remove\<close>: its buttons are disabled while a row is being closed; afterwards the list is read again, and the
  buttons are enabled when that read is answered.\<close>

definition chooser_remove :: "term_id \<Rightarrow> chooser \<Rightarrow> chooser" where
  "chooser_remove tid c =
     (if ch_closing c \<noteq> None \<or> tid \<notin> tv_id ` set (chooser_rows c) then c else c\<lparr>ch_closing := Some tid\<rparr>)"

definition chooser_closed :: "string option \<Rightarrow> chooser \<Rightarrow> chooser" where
  "chooser_closed failure c =
     (if ch_closing c = None \<or> ch_reads c > 0 then c
      else (case failure of
              None \<Rightarrow> c\<lparr>ch_reads := ch_reads c + 1\<rparr>
            | Some e \<Rightarrow> c\<lparr>ch_error := Some e, ch_closing := None\<rparr>))"

datatype chooser_event =
    Ch_Loaded "string + terminal_view list"
  | Ch_Remove term_id
  | Ch_Closed "string option"

fun chooser_step :: "chooser_event \<Rightarrow> chooser \<Rightarrow> chooser" where
  "chooser_step (Ch_Loaded a) c = chooser_loaded a c"
| "chooser_step (Ch_Remove tid) c = chooser_remove tid c"
| "chooser_step (Ch_Closed failure) c = chooser_closed failure c"

definition chooser_run :: "chooser_event list \<Rightarrow> chooser \<Rightarrow> chooser" where
  "chooser_run evs c = fold chooser_step evs c"

lemma chooser_run_snoc: "chooser_run (evs @ [ev]) c = chooser_step ev (chooser_run evs c)"
  by (simp add: chooser_run_def)

lemma chooser_step_turn: "ch_reads c \<le> 1 \<Longrightarrow> ch_reads (chooser_step ev c) \<le> 1"
  by (cases ev) (auto simp: chooser_loaded_def chooser_remove_def chooser_closed_def Let_def split: sum.splits option.splits)

text \<open>The chooser reads the list in turn: there is never more than one read under way, so what it shows is
  what the last one found.\<close>

theorem chooser_reads_in_turn: "ch_reads (chooser_run evs (chooser_open last_used)) \<le> 1"
  by (induction evs rule: rev_induct)
    (simp add: chooser_run_def chooser_open_def, simp only: chooser_run_snoc chooser_step_turn)

text \<open>A shell that is already gone cannot be taken off the list: closing it fails, the list is not read
  again, and the row stays however often it is tried.\<close>

theorem gone_row_stays:
  assumes "ch_closing c = None" "ch_reads c = 0" "n > 0"
  shows "chooser_rows (chooser_run (concat (replicate n [Ch_Remove tid, Ch_Closed (Some e)])) c) = chooser_rows c \<and>
    (tid \<in> tv_id ` set (chooser_rows c) \<longrightarrow> ch_error (chooser_run (concat (replicate n [Ch_Remove tid, Ch_Closed (Some e)])) c) = Some e)"
proof -
  define attempt where "attempt = (\<lambda>c. chooser_closed (Some e) (chooser_remove tid c))"
  have run: "chooser_run (concat (replicate n [Ch_Remove tid, Ch_Closed (Some e)])) c = (attempt ^^ n) c" for n c
  proof (induction n arbitrary: c)
    case (Suc n)
    have "chooser_run (concat (replicate (Suc n) [Ch_Remove tid, Ch_Closed (Some e)])) c =
        chooser_run (concat (replicate n [Ch_Remove tid, Ch_Closed (Some e)])) (attempt c)"
      by (simp add: chooser_run_def attempt_def)
    then show ?case by (simp add: Suc funpow_swap1)
  qed (simp add: chooser_run_def)
  have rows: "chooser_rows (c\<lparr>ch_error := x, ch_closing := y\<rparr>) = chooser_rows c" for x y c by (simp add: chooser_rows_def)
  have one: "attempt c = (if tid \<in> tv_id ` set (chooser_rows c) then c\<lparr>ch_error := Some e, ch_closing := None\<rparr> else c)"
    if "ch_closing c = None" "ch_reads c = 0" for c
    using that by (simp add: attempt_def chooser_closed_def chooser_remove_def)
  have "(attempt ^^ n) c = (if n > 0 \<and> tid \<in> tv_id ` set (chooser_rows c) then c\<lparr>ch_error := Some e, ch_closing := None\<rparr> else c)" for n
    using assms(1,2) by (induction n) (simp_all add: one rows)
  then show ?thesis using assms(3) by (simp add: run rows)
qed

subsection \<open>Picking\<close>

datatype row_click = Click_Choose term_id | Click_Show string

text \<open>What a row does is decided when it is drawn.\<close>

definition draw_row :: "session_id \<Rightarrow> page \<Rightarrow> term_id \<Rightarrow> row_click" where
  "draw_row sessionId p tid = (case terminalTab sessionId tid p of None \<Rightarrow> Click_Choose tid | Some owner \<Rightarrow> Click_Show owner)"

text \<open>Choosing binds the tab, and its body mounts the shell; showing another tab leaves the page's terminals
  alone.\<close>

definition click_row :: "session_id \<Rightarrow> string \<Rightarrow> rat \<times> rat \<Rightarrow> row_click \<Rightarrow> page \<Rightarrow> page" where
  "click_row sessionId tabId dims click p =
     (case click of
        Click_Show owner \<Rightarrow> p
      | Click_Choose tid \<Rightarrow> mountTerminal sessionId tabId (Existing tid) dims (chooseTerminal sessionId tabId (Existing tid) p))"

definition views_distinct :: "page \<Rightarrow> bool" where
  "views_distinct p \<longleftrightarrow>
     (\<forall>(k, e) \<in> set (pg_table p). \<forall>(k', e') \<in> set (pg_table p). \<forall>tid.
        tb_id (pg_heap p e) = Some tid \<and> tb_id (pg_heap p e') = Some tid \<and>
        tb_sessionId (pg_heap p e) = tb_sessionId (pg_heap p e') \<longrightarrow> k = k')"

lemma views_distinctD:
  "views_distinct p \<Longrightarrow> (k, e) \<in> set (pg_table p) \<Longrightarrow> (k', e') \<in> set (pg_table p) \<Longrightarrow> tb_id (pg_heap p e) = Some i \<Longrightarrow>
   tb_id (pg_heap p e') = Some i \<Longrightarrow> tb_sessionId (pg_heap p e) = tb_sessionId (pg_heap p e') \<Longrightarrow> k = k'"
  unfolding views_distinct_def by fastforce

lemma unowned:
  "terminalTab n tid p = None \<longleftrightarrow>
     (\<forall>(k, e) \<in> set (pg_table p). \<not> (tb_sessionId (pg_heap p e) = n \<and> tb_id (pg_heap p e) = Some tid))"
  by (auto simp: terminalTab_def find_None_iff)

lemma chosen_page:
  assumes "page_ok p" "entry_of n t p = None"
  shows "pg_table (click_row n t d (Click_Choose tid) p) = pg_table p @ [(tabKey n t, pg_nextEntry p)] \<and>
    tb_id (pg_heap (click_row n t d (Click_Choose tid) p) (pg_nextEntry p)) = Some tid \<and>
    tb_sessionId (pg_heap (click_row n t d (Click_Choose tid) p) (pg_nextEntry p)) = n \<and>
    (\<forall>(k, e) \<in> set (pg_table p). pg_heap (click_row n t d (Click_Choose tid) p) e = pg_heap p e \<and> e \<noteq> pg_nextEntry p)"
proof -
  let ?q = "click_row n t d (Click_Choose tid) p"
  have none: "entry_of n t (chooseTerminal n t (Existing tid) p) = None"
    using assms(2) by (simp add: entry_of_def chooseTerminal_def)
  have next_entry: "pg_nextEntry (chooseTerminal n t x p) = pg_nextEntry p" "pg_table (chooseTerminal n t x p) = pg_table p"
    "pg_heap (chooseTerminal n t x p) = pg_heap p" for x
    by (simp_all add: chooseTerminal_def)
  obtain b where heap: "pg_heap ?q = (pg_heap p)(pg_nextEntry p := b)" and b: "tb_id b = Some tid" "tb_sessionId b = n"
    by (simp add: click_row_def mountTerminal_def none create_tab_def Let_def pg_simps next_entry)
  have table: "pg_table ?q = pg_table p @ [(tabKey n t, pg_nextEntry p)]"
    by (simp add: click_row_def mountTerminal_def none create_tab_def Let_def pg_simps next_entry)
  have "\<forall>(k, e) \<in> set (pg_table p). e \<noteq> pg_nextEntry p"
    using page_okD(1) [OF assms(1)] by (auto simp: table_ok_def)
  then show ?thesis using b unfolding heap table by auto
qed

text \<open>Picking a row that was drawn on the page as it is opens no second view: if no two tabs of the page
  draw one shell of a Session before, none do afterwards.\<close>

theorem fresh_pick_keeps_views_distinct:
  assumes "page_ok p" "views_distinct p"
  shows "views_distinct (click_row n t d (draw_row n p tid) p)"
proof (cases "terminalTab n tid p")
  case (Some owner)
  then show ?thesis using assms(2) by (simp add: draw_row_def click_row_def)
next
  case None
  then have click: "draw_row n p tid = Click_Choose tid" by (simp add: draw_row_def)
  show ?thesis
  proof (cases "entry_of n t p")
    case (Some e)
    then have "entry_of n t (chooseTerminal n t (Existing tid) p) = Some e" by (simp add: entry_of_def chooseTerminal_def)
    then show ?thesis using assms(2)
      by (simp add: click click_row_def mountTerminal_def) (simp add: chooseTerminal_def views_distinct_def)
  next
    case None': None
    let ?q = "click_row n t d (Click_Choose tid) p"
    note chosen = chosen_page [OF assms(1) None', of d tid]
    have old: "pg_heap ?q e = pg_heap p e" if "(k, e) \<in> set (pg_table p)" for k e
      using chosen that by auto
    have free: "\<not> (tb_sessionId (pg_heap p e) = n \<and> tb_id (pg_heap p e) = Some tid)" if "(k, e) \<in> set (pg_table p)" for k e
      using None that by (auto simp: unowned)
    have "k = k'" if v: "(k, e) \<in> set (pg_table ?q)" "(k', e') \<in> set (pg_table ?q)" "tb_id (pg_heap ?q e) = Some i"
      "tb_id (pg_heap ?q e') = Some i" "tb_sessionId (pg_heap ?q e) = tb_sessionId (pg_heap ?q e')" for k e k' e' i
    proof (cases "(k, e) \<in> set (pg_table p)"; cases "(k', e') \<in> set (pg_table p)")
      assume o: "(k, e) \<in> set (pg_table p)" "(k', e') \<in> set (pg_table p)"
      then show ?thesis using v(3-5) assms(2) old [OF o(1)] old [OF o(2)] unfolding views_distinct_def by fastforce
    next
      assume o: "(k, e) \<in> set (pg_table p)" "(k', e') \<notin> set (pg_table p)"
      then show ?thesis using v chosen old [OF o(1)] free [OF o(1)] by auto
    next
      assume o: "(k, e) \<notin> set (pg_table p)" "(k', e') \<in> set (pg_table p)"
      then show ?thesis using v chosen old [OF o(2)] free [OF o(2)] by auto
    next
      assume "(k, e) \<notin> set (pg_table p)" "(k', e') \<notin> set (pg_table p)"
      then show ?thesis using v(1,2) chosen by auto
    qed
    then show ?thesis unfolding click views_distinct_def by blast
  qed
qed

text \<open>Two choosers that are on the screen together attach one shell twice: when both were drawn before either
  is used, each tab gets a view of its own.\<close>

theorem stale_chooser_attaches_twice:
  assumes "page_ok p" "terminalTab n tid p = None" "entry_of n a p = None" "entry_of n b p = None" "tabKey n a \<noteq> tabKey n b"
  shows "\<not> views_distinct (click_row n b d' (draw_row n p tid) (click_row n a d (draw_row n p tid) p))"
proof -
  have click: "draw_row n p tid = Click_Choose tid" using assms(2) by (simp add: draw_row_def)
  let ?q = "click_row n a d (Click_Choose tid) p"
  note first = chosen_page [OF assms(1,3), of d tid]
  have none: "entry_of n a (chooseTerminal n a (Existing tid) p) = None"
    using assms(3) by (simp add: entry_of_def chooseTerminal_def)
  have "page_ok (chooseTerminal n a (Existing tid) p)"
    using assms(1) by (rule page_ok_same) (simp_all add: chooseTerminal_def)
  then have "page_ok ?q"
    using page_ok_create [of "chooseTerminal n a (Existing tid) p" n a "Existing tid" d] none
    by (simp add: click_row_def mountTerminal_def entry_of_def Let_def)
  moreover have "entry_of n b ?q = None"
    using first assms(4,5) by (simp add: entry_of_def map_add_def)
  ultimately have ok: "page_ok ?q" "entry_of n b ?q = None" by simp_all
  let ?r = "click_row n b d' (Click_Choose tid) ?q"
  note second = chosen_page [OF ok, of d' tid]
  have "(tabKey n a, pg_nextEntry p) \<in> set (pg_table ?q)" using first by simp
  then have "pg_heap ?r (pg_nextEntry p) = pg_heap ?q (pg_nextEntry p)" "(tabKey n a, pg_nextEntry p) \<in> set (pg_table ?r)"
    using second by auto
  moreover have "tb_id (pg_heap ?q (pg_nextEntry p)) = Some tid" "tb_sessionId (pg_heap ?q (pg_nextEntry p)) = n"
    using first by simp_all
  moreover have "(tabKey n b, pg_nextEntry ?q) \<in> set (pg_table ?r)" "tb_id (pg_heap ?r (pg_nextEntry ?q)) = Some tid"
    "tb_sessionId (pg_heap ?r (pg_nextEntry ?q)) = n"
    using second by simp_all
  ultimately have "views_distinct ?r \<Longrightarrow> tabKey n a = tabKey n b"
    using views_distinctD [of ?r "tabKey n a" "pg_nextEntry p" "tabKey n b" "pg_nextEntry ?q" tid] by simp
  with assms(5) show ?thesis unfolding click by blast
qed

subsection \<open>The status line\<close>

datatype shown_text = Shown_Key string "(string \<times> string) list" | Shown_Literal string

definition int_text :: "int \<Rightarrow> string" where
  "int_text n = (if n < 0 then CHR ''-'' # str_nat (nat (- n)) else str_nat (nat n))"

definition statusText :: "tab_view \<Rightarrow> shown_text" where
  "statusText v =
     (case v of
        V_Opening \<Rightarrow> Shown_Key ''status.opening'' []
      | V_Live cwd fixed \<Rightarrow> Shown_Literal cwd
      | V_Ended None signal \<Rightarrow> Shown_Key ''status.signalled'' [(''signal'', case signal of None \<Rightarrow> [] | Some s \<Rightarrow> s)]
      | V_Ended (Some code) signal \<Rightarrow> Shown_Key ''status.exited'' [(''code'', int_text code)]
      | V_Closed \<Rightarrow> Shown_Key ''status.disconnected'' []
      | V_Failed message \<Rightarrow> Shown_Key ''status.failed'' [(''message'', message)])"

text \<open>Whether the body offers a restart.\<close>

definition terminal_gone :: "tab_view \<Rightarrow> bool" where
  "terminal_gone v = (case v of V_Ended _ _ \<Rightarrow> True | V_Failed _ \<Rightarrow> True | V_Closed \<Rightarrow> True | _ \<Rightarrow> False)"

text \<open>The body offers a restart exactly when the page has no shell to type into: a tab that is opening or live
  has none on offer, and what its line then says is the directory it runs in or that it is opening.\<close>

theorem restart_offered_when_gone:
  "terminal_gone v = (v \<noteq> V_Opening \<and> (\<forall>cwd fixed. v \<noteq> V_Live cwd fixed)) \<and>
   (statusText v = Shown_Literal cwd) = (\<exists>fixed. v = V_Live cwd fixed)"
  by (cases v) (auto simp: terminal_gone_def statusText_def split: option.splits)

theorem fresh_pick_keeps_views_distinct_witness:
  "views_distinct (click_row ''s'' ''tab'' (80, 24) (draw_row ''s'' (fresh_page True []) ''t1'') (fresh_page True []))"
  by (rule fresh_pick_keeps_views_distinct)
    (use page_run_ok [of "[]" True "[]"] in \<open>simp_all add: page_run_def views_distinct_def fresh_page_def\<close>)

theorem stale_chooser_attaches_twice_witness:
  "\<not> views_distinct (click_row ''s'' ''b'' (80, 24) (draw_row ''s'' (fresh_page True []) ''t1'')
      (click_row ''s'' ''a'' (80, 24) (draw_row ''s'' (fresh_page True []) ''t1'') (fresh_page True [])))"
  by (rule stale_chooser_attaches_twice)
    (use page_run_ok [of "[]" True "[]"] in \<open>simp_all add: page_run_def fresh_page_def terminalTab_def entry_of_def tabKey_def\<close>)

definition one_row :: chooser where
  "one_row = \<lparr>ch_terminals = Some [\<lparr>tv_id = ''t1'', tv_label = ''Terminal 1'', tv_cwd = ''/w'', tv_machine = ''Local'', tv_pid = 7,
       tv_state = Exited, tv_cols = 80, tv_rows = 24\<rparr>], ch_error = None, ch_closing = None, ch_last = None, ch_reads = 0\<rparr>"

theorem gone_row_stays_witness:
  "map tv_id (chooser_rows (chooser_run (concat (replicate 2 [Ch_Remove ''t1'', Ch_Closed (Some ''no terminal'')])) one_row)) = [''t1'']"
  using gone_row_stays [of one_row 2 "''t1''" "''no terminal''"]
  by (simp add: one_row_def chooser_rows_def offered_def)

end
