(* ===== verification/Plugin_Apply.thy ===== *)
theory Plugin_Apply
  imports Terminal_Socket Worktree_Logic Management_Api Local_Tty
begin

section \<open>The composition: index.ts and terminal/host/socket.ts\<close>

text \<open>
  How the plugin is put together when it is mounted: what it refuses of its configuration, the stores it
  loads before anything else, the seams it publishes and what it says when a stock row was there first, the
  hooks into the deployment's workspace registry, what the terminal registry is told of a directory, and the
  upgrade route that hands a WebSocket to a terminal. The host context, the workspace registry and the Web
  server are the deployment's: their services are arguments.
\<close>

subsection \<open>The configuration\<close>

record plugin_config =
  pc_dataDir :: "string option"
  pc_remoteRipgrep :: "string option"
  pc_worktreeRoot :: "string option"
  pc_sshForwardTimeoutMs :: "int option"
  pc_daemonHandshakeTimeoutMs :: "int option"
  pc_shell :: "string option"
  pc_shellArgs :: "string list option"
  pc_graceMs :: "int option"
  pc_detachGraceMs :: "int option"

definition DEFAULT_WORKTREE_ROOT :: string where "DEFAULT_WORKTREE_ROOT = ''~/.dsh/worktrees''"

definition configuredRoot :: "plugin_config \<Rightarrow> string" where
  "configuredRoot cf = (case pc_worktreeRoot cf of None \<Rightarrow> DEFAULT_WORKTREE_ROOT | Some r \<Rightarrow> r)"

definition root_refused :: "plugin_config \<Rightarrow> string option" where
  "root_refused cf =
     (let root = configuredRoot cf in
      if root \<noteq> ''~'' \<and> \<not> startsWith root ''~/'' \<and> \<not> startsWith root ''/''
      then Some (''worktreeRoot must be absolute, '' @ quote ''~'' @ '', or '' @ quote (''~/'' @ [CHR 0xE2, CHR 0x80, CHR 0xA6]) @ '': '' @ quote root)
      else None)"

text \<open>\<open>dshHomePath\<close> is the host's. The three stores are read in this order, and the first that cannot be ends
  the mount.\<close>

record plugin_stores =
  pl_nodes :: node_store
  pl_anchors :: "anchor_store \<times> tree"
  pl_repos :: repo_store

datatype mount_error =
    Bad_Root string
  | Nodes_Failed store_error
  | Anchors_Failed anchor_error
  | Repos_Failed store_error

definition data_dir :: "(string \<Rightarrow> string) \<Rightarrow> plugin_config \<Rightarrow> string" where
  "data_dir dshHome cf = (case pc_dataDir cf of None \<Rightarrow> dshHome ''remote-worktrees'' | Some d \<Rightarrow> d)"

text \<open>What the connection manager is given: where binaries are cached, and the two budgets of a connection.\<close>

definition DEFAULT_FORWARD_TIMEOUT_MS :: int where "DEFAULT_FORWARD_TIMEOUT_MS = 15000"

definition DEFAULT_HANDSHAKE_TIMEOUT_MS :: int where "DEFAULT_HANDSHAKE_TIMEOUT_MS = 10000"

record connection_options =
  co_cacheDir :: string
  co_sshForwardTimeoutMs :: int
  co_daemonHandshakeTimeoutMs :: int

definition connectionOptions :: "(string \<Rightarrow> string) \<Rightarrow> plugin_config \<Rightarrow> connection_options" where
  "connectionOptions dshHome cf =
     \<lparr>co_cacheDir = posix_join [data_dir dshHome cf, ''agents''],
      co_sshForwardTimeoutMs = (case pc_sshForwardTimeoutMs cf of None \<Rightarrow> DEFAULT_FORWARD_TIMEOUT_MS | Some t \<Rightarrow> t),
      co_daemonHandshakeTimeoutMs =
        (case pc_daemonHandshakeTimeoutMs cf of None \<Rightarrow> DEFAULT_HANDSHAKE_TIMEOUT_MS | Some t \<Rightarrow> t)\<rparr>"

definition mount_stores ::
  "(string \<Rightarrow> string) \<Rightarrow> string \<Rightarrow> (string \<Rightarrow> string) \<Rightarrow> (string \<Rightarrow> file_state) \<Rightarrow> tree \<Rightarrow> plugin_config \<Rightarrow> mount_error + plugin_stores" where
  "mount_stores dshHome cwd realpath disk anchors_disk cf =
     (case root_refused cf of
        Some e \<Rightarrow> Inl (Bad_Root e)
      | None \<Rightarrow>
          (let dataDir = data_dir dshHome cf in
           case node_load (disk (posix_join [dataDir, ''nodes.json''])) createNodeRegistry of
             (Inl e, _) \<Rightarrow> Inl (Nodes_Failed e)
           | (Inr _, nodes) \<Rightarrow>
               (case anchor_load realpath (createAnchorStore (posix_resolve cwd (posix_join [dataDir, ''anchors''])), anchors_disk) of
                  (Inl e, _) \<Rightarrow> Inl (Anchors_Failed e)
                | (Inr _, anchors) \<Rightarrow>
                    (case repo_load (disk (posix_join [dataDir, ''repos.json''])) createRepoStore of
                       (Inl e, _) \<Rightarrow> Inl (Repos_Failed e)
                     | (Inr _, repos) \<Rightarrow> Inr \<lparr>pl_nodes = nodes, pl_anchors = anchors, pl_repos = repos\<rparr>))))"

subsection \<open>The seams\<close>

definition STOCK_ROWS :: "string list" where
  "STOCK_ROWS = [''subprocess'', ''fs-sandbox'', ''bash-sandbox'', ''pwsh-sandbox'']"

datatype seam = Seam_Fs | Seam_Subprocess | Seam_Shell | Seam_Tty

fun seam_name :: "seam \<Rightarrow> string" where
  "seam_name Seam_Fs = ''fs''"
| "seam_name Seam_Subprocess = ''subprocess''"
| "seam_name Seam_Shell = ''shell''"
| "seam_name Seam_Tty = ''tty''"

datatype provider = Stock_Row | Router

datatype host_says = Logged string | On_Stderr string

definition seam_hint :: "seam \<Rightarrow> string" where
  "seam_hint s =
     ''dsh-remote-workspace: ctx.'' @ seam_name s @ '' already has a provider, so this router is inert. Disable '' @
     join_with '', '' STOCK_ROWS @ '' in the profile'' @ [CHR 0x27] @ ''s cordis.patch.yml '' @ [CHR 0xE2, CHR 0x80, CHR 0x94] @
     '' see the README'' @ [CHR 0x27] @ ''s install section.''"

text \<open>\<open>ctx.provide\<close> refuses a service that has a provider.\<close>

definition publishSeam :: "seam \<Rightarrow> (seam \<rightharpoonup> provider) \<Rightarrow> (string + (seam \<rightharpoonup> provider)) \<times> host_says list" where
  "publishSeam s provided =
     (case provided s of
        None \<Rightarrow> (Inr (provided(s \<mapsto> Router)), [])
      | Some _ \<Rightarrow> (Inl (seam_hint s), [Logged (seam_hint s), On_Stderr (seam_hint s @ [CHR 0x0A])]))"

text \<open>What the scopes wait for: a delegate becomes ready in its isolated scope, or a row of the profile
  provides a service of the host. The routing shell waits for both of its delegates.\<close>

datatype scope_event =
    Stock_Provides seam
  | Fs_Ready | Subprocess_Ready | Local_Shell_Ready | Remote_Shell_Ready | Tty_Ready

record seam_state =
  sm_provided :: "seam \<rightharpoonup> provider"
  sm_local_shell :: bool
  sm_remote_shell :: bool
  sm_said :: "host_says list"

definition seams_start :: seam_state where
  "seams_start = \<lparr>sm_provided = Map.empty, sm_local_shell = False, sm_remote_shell = False, sm_said = []\<rparr>"

definition publish_in :: "seam \<Rightarrow> seam_state \<Rightarrow> seam_state" where
  "publish_in s st =
     (case publishSeam s (sm_provided st) of
        (Inl _, said) \<Rightarrow> st\<lparr>sm_said := sm_said st @ said\<rparr>
      | (Inr provided, said) \<Rightarrow> st\<lparr>sm_provided := provided, sm_said := sm_said st @ said\<rparr>)"

definition seam_step :: "scope_event \<Rightarrow> seam_state \<Rightarrow> seam_state" where
  "seam_step ev st =
     (case ev of
        Stock_Provides s \<Rightarrow> (if sm_provided st s = None then st\<lparr>sm_provided := (sm_provided st)(s \<mapsto> Stock_Row)\<rparr> else st)
      | Fs_Ready \<Rightarrow> publish_in Seam_Fs st
      | Subprocess_Ready \<Rightarrow> publish_in Seam_Subprocess st
      | Tty_Ready \<Rightarrow> publish_in Seam_Tty st
      | Local_Shell_Ready \<Rightarrow>
          (let st' = st\<lparr>sm_local_shell := True\<rparr> in if sm_remote_shell st then publish_in Seam_Shell st' else st')
      | Remote_Shell_Ready \<Rightarrow>
          (let st' = st\<lparr>sm_remote_shell := True\<rparr> in if sm_local_shell st then publish_in Seam_Shell st' else st'))"

definition seam_run :: "scope_event list \<Rightarrow> seam_state \<Rightarrow> seam_state" where
  "seam_run evs st = fold seam_step evs st"

subsection \<open>The workspace hooks\<close>

text \<open>The deployment's registry, when it composes one; each of its three operations may fail.\<close>

record 'w workspace_service =
  wv_create :: "string \<Rightarrow> string \<Rightarrow> 'w \<Rightarrow> (string + string) \<times> 'w"
  wv_resolve :: "string \<Rightarrow> 'w \<Rightarrow> (string + string option) \<times> 'w"
  wv_delete :: "string \<Rightarrow> 'w \<Rightarrow> (string + bool) \<times> 'w"

datatype hook_error = Hook_Store store_error | Hook_Service string

definition anchor_title :: "node_store \<Rightarrow> repo_store \<Rightarrow> anchor_record \<Rightarrow> hook_error + string" where
  "anchor_title nodes repos a =
     (case node_get (an_nodeId a) nodes of
        Inl e \<Rightarrow> Inl (Hook_Store e)
      | Inr node \<Rightarrow>
          (case repo_find (an_nodeId a) (an_repoPath a) repos of
             Inl e \<Rightarrow> Inl (Hook_Store e)
           | Inr r \<Rightarrow> Inr (workspaceLabel (case node of None \<Rightarrow> an_nodeId a | Some n \<Rightarrow> nd_title n) (an_repoPath a)
                            (map_option rr_name r) (if is_worktree a then Some (an_name a) else None))))"

definition hook_register ::
  "node_store \<Rightarrow> repo_store \<Rightarrow> 'w workspace_service option \<Rightarrow> anchor_record \<Rightarrow> 'w \<Rightarrow> (hook_error + unit) \<times> 'w" where
  "hook_register nodes repos svc a w =
     (case svc of
        None \<Rightarrow> (case node_get (an_nodeId a) nodes of Inl e \<Rightarrow> (Inl (Hook_Store e), w) | Inr _ \<Rightarrow> (Inr (), w))
      | Some v \<Rightarrow>
          (case anchor_title nodes repos a of
             Inl e \<Rightarrow> (Inl e, w)
           | Inr title \<Rightarrow>
               (case wv_create v (an_anchorPath a) title w of
                  (Inl e, w') \<Rightarrow> (Inl (Hook_Service e), w')
                | (Inr _, w') \<Rightarrow> (Inr (), w'))))"

definition hook_unregister :: "'w workspace_service option \<Rightarrow> anchor_record \<Rightarrow> 'w \<Rightarrow> (hook_error + unit) \<times> 'w" where
  "hook_unregister svc a w =
     (case svc of
        None \<Rightarrow> (Inr (), w)
      | Some v \<Rightarrow>
          (case wv_resolve v (an_anchorPath a) w of
             (Inl e, w') \<Rightarrow> (Inl (Hook_Service e), w')
           | (Inr None, w') \<Rightarrow> (Inr (), w')
           | (Inr (Some i), w') \<Rightarrow>
               (case wv_delete v i w' of
                  (Inl e, w'') \<Rightarrow> (Inl (Hook_Service e), w'')
                | (Inr _, w'') \<Rightarrow> (Inr (), w''))))"

definition hook_registered :: "'w workspace_service option \<Rightarrow> anchor_record \<Rightarrow> 'w \<Rightarrow> (hook_error + bool) \<times> 'w" where
  "hook_registered svc a w =
     (case svc of
        None \<Rightarrow> (Inr False, w)
      | Some v \<Rightarrow>
          (case wv_resolve v (an_anchorPath a) w of
             (Inl e, w') \<Rightarrow> (Inl (Hook_Service e), w')
           | (Inr r, w') \<Rightarrow> (Inr (r \<noteq> None), w')))"

subsection \<open>What the terminal registry is told\<close>

definition terminalSettings :: "plugin_config \<Rightarrow> terminal_settings" where
  "terminalSettings cf =
     (let configuredShell = (case pc_shell cf of Some s \<Rightarrow> if s = [] then None else Some s | None \<Rightarrow> None) in
      \<lparr>ts_shell = (case configuredShell of None \<Rightarrow> ''/bin/sh'' | Some s \<Rightarrow> s),
       ts_shellArgs = (case configuredShell of
                         None \<Rightarrow> [''-c'', ''exec '' @ quote ''${SHELL:-/bin/sh}'' @ '' -l'']
                       | Some _ \<Rightarrow> (case pc_shellArgs cf of Some (a # args) \<Rightarrow> a # args | _ \<Rightarrow> [''-l''])),
       ts_env = [(''TERM'', ''xterm-256color''), (''COLORTERM'', ''truecolor'')],
       ts_graceMs = (case pc_graceMs cf of None \<Rightarrow> DEFAULT_TTY_GRACE_MS | Some g \<Rightarrow> g),
       ts_detachGraceMs = Some (case pc_detachGraceMs cf of None \<Rightarrow> 0 | Some g \<Rightarrow> g)\<rparr>)"

definition shell_machine :: "(string \<Rightarrow> string option) \<Rightarrow> anchor_route list \<Rightarrow> path \<Rightarrow> string" where
  "shell_machine title anchors cwd =
     (let nodeId = (case classifyPath cwd None anchors of Remote_Route n _ \<Rightarrow> n | _ \<Rightarrow> LOCAL_NODE_ID) in
      case title nodeId of None \<Rightarrow> nodeId | Some t \<Rightarrow> t)"

definition shell_directory :: "anchor_route list \<Rightarrow> path \<Rightarrow> path" where
  "shell_directory anchors cwd = (case classifyPath cwd None anchors of Remote_Route _ p \<Rightarrow> p | _ \<Rightarrow> cwd)"

text \<open>\<open>spawn\<close>: the terminal seam is looked up when a terminal is opened.\<close>

definition shell_spawn :: "(tty_request \<Rightarrow> string + 'h) option \<Rightarrow> tty_request \<Rightarrow> string + 'h" where
  "shell_spawn tty asked =
     (case tty of None \<Rightarrow> Inl ''no terminal provider is composed'' | Some spawn \<Rightarrow> spawn asked)"

subsection \<open>The upgrade route: terminal/host/socket.ts\<close>

datatype rejection = Reject_401 | Reject_403

definition rejectUpgrade :: "rejection \<Rightarrow> string" where
  "rejectUpgrade status =
     (let crlf = [CHR 0x0D, CHR 0x0A] in
      ''HTTP/1.1 '' @ (case status of Reject_401 \<Rightarrow> ''401 Unauthorized'' | Reject_403 \<Rightarrow> ''403 Forbidden'') @ crlf @
      ''connection: close'' @ crlf @ ''content-length: 0'' @ crlf @ crlf)"

datatype route_effect =
    Route_Answer sink string
  | Route_Attach sink
  | Route_Terminate sink

record upgrade_route =
  ur_registered :: bool
  ur_live :: "sink list"
  ur_effects :: "route_effect list"

definition no_route :: upgrade_route where
  "no_route = \<lparr>ur_registered = False, ur_live = [], ur_effects = []\<rparr>"

text \<open>A profile that serves no browser has no Web server.\<close>

definition registerTerminalSocket :: "bool \<Rightarrow> upgrade_route \<Rightarrow> upgrade_route" where
  "registerTerminalSocket web_server rt = (if web_server then rt\<lparr>ur_registered := True\<rparr> else rt)"

text \<open>The handler. \<open>connection\<close> is the deployment's connection service, when it has one, and \<open>shaken\<close> whether
  the WebSocket library completes the handshake.\<close>

definition on_upgrade :: "('r \<Rightarrow> rejection option) option \<Rightarrow> 'r \<Rightarrow> bool \<Rightarrow> sink \<Rightarrow> upgrade_route \<Rightarrow> upgrade_route" where
  "on_upgrade connection asked shaken sk rt =
     (case (case connection of None \<Rightarrow> None | Some requestRejection \<Rightarrow> requestRejection asked) of
        Some status \<Rightarrow> rt\<lparr>ur_effects := ur_effects rt @ [Route_Answer sk (rejectUpgrade status)]\<rparr>
      | None \<Rightarrow>
          if shaken
          then rt\<lparr>ur_live := List.insert sk (ur_live rt),
                  ur_effects := ur_effects rt @ [Route_Attach sk]\<rparr>
          else rt)"

definition socket_closed :: "sink \<Rightarrow> upgrade_route \<Rightarrow> upgrade_route" where
  "socket_closed sk rt = rt\<lparr>ur_live := removeAll sk (ur_live rt)\<rparr>"

definition dispose_route :: "upgrade_route \<Rightarrow> upgrade_route" where
  "dispose_route rt =
     (if ur_registered rt
      then rt\<lparr>ur_registered := False, ur_live := [], ur_effects := ur_effects rt @ map Route_Terminate (ur_live rt)\<rparr>
      else rt)"

text \<open>The Web server calls a handler only while it is registered.\<close>

datatype 'r route_event =
    Rv_Upgrade "('r \<Rightarrow> rejection option) option" 'r bool sink
  | Rv_Closed sink
  | Rv_Dispose

definition route_step :: "'r route_event \<Rightarrow> upgrade_route \<Rightarrow> upgrade_route" where
  "route_step ev rt =
     (case ev of
        Rv_Upgrade connection asked shaken sk \<Rightarrow> (if ur_registered rt then on_upgrade connection asked shaken sk rt else rt)
      | Rv_Closed sk \<Rightarrow> socket_closed sk rt
      | Rv_Dispose \<Rightarrow> dispose_route rt)"

definition route_run :: "'r route_event list \<Rightarrow> upgrade_route \<Rightarrow> upgrade_route" where
  "route_run evs rt = fold route_step evs rt"

lemma route_run_snoc: "route_run (evs @ [ev]) rt = route_step ev (route_run evs rt)"
  by (simp add: route_run_def)

lemma route_run_Nil [simp]: "route_run [] rt = rt"
  by (simp add: route_run_def)

subsection \<open>Properties of the upgrade route\<close>

lemma route_attach_origin:
  "Route_Attach sk \<in> set (ur_effects (route_run evs rt)) \<Longrightarrow>
     Route_Attach sk \<in> set (ur_effects rt) \<or>
     (\<exists>connection asked. Rv_Upgrade connection asked True sk \<in> set evs \<and> (\<forall>f. connection = Some f \<longrightarrow> f asked = None))"
proof (induction evs rule: rev_induct)
  case (snoc ev evs)
  have "Route_Attach sk \<in> set (ur_effects (route_run evs rt)) \<or>
      (\<exists>connection asked. ev = Rv_Upgrade connection asked True sk \<and> (\<forall>f. connection = Some f \<longrightarrow> f asked = None))"
    using snoc.prems
    by (cases ev) (auto simp: route_run_snoc route_step_def on_upgrade_def socket_closed_def dispose_route_def split: option.splits if_splits)
  with snoc.IH show ?case by auto
qed simp

text \<open>C22: whatever arrives, only a completed handshake whose request the connection service did not refuse is
  given to a terminal, as far as there is a connection service to ask.\<close>

theorem attached_passed_fence:
  assumes "Route_Attach sk \<in> set (ur_effects (route_run evs (registerTerminalSocket web no_route)))"
  shows "\<exists>connection asked. Rv_Upgrade connection asked True sk \<in> set evs \<and> (\<forall>f. connection = Some f \<longrightarrow> f asked = None)"
  using route_attach_origin [OF assms] by (simp add: registerTerminalSocket_def no_route_def split: if_splits)

theorem attached_passed_fence_witness:
  "\<exists>connection asked. Rv_Upgrade connection asked True 1 \<in> set [Rv_Upgrade (Some (\<lambda>r. if r then Some Reject_403 else None)) True True 0,
      Rv_Upgrade (Some (\<lambda>r. if r then Some Reject_403 else None)) False True 1] \<and> (\<forall>f. connection = Some f \<longrightarrow> f asked = None)"
  by (rule attached_passed_fence [where web = True])
    (simp add: route_run_def route_step_def on_upgrade_def registerTerminalSocket_def no_route_def)

text \<open>Where the deployment composes no connection service the fence is not there: any request that completes
  its handshake is given a terminal.\<close>

theorem no_fence_without_connection:
  assumes "ur_registered rt"
  shows "Route_Attach sk \<in> set (ur_effects (route_step (Rv_Upgrade None asked True sk) rt))"
  using assms by (simp add: route_step_def on_upgrade_def)

theorem no_fence_without_connection_witness:
  "Route_Attach 3 \<in> set (ur_effects (route_step (Rv_Upgrade None ''https://elsewhere'' True 3) (registerTerminalSocket True no_route)))"
  by (rule no_fence_without_connection) (simp add: registerTerminalSocket_def)

definition sockets_accounted :: "'r route_event list \<Rightarrow> upgrade_route \<Rightarrow> bool" where
  "sockets_accounted evs rt \<longleftrightarrow>
     (\<forall>sk. Route_Attach sk \<in> set (ur_effects rt) \<longrightarrow>
        sk \<in> set (ur_live rt) \<or> Rv_Closed sk \<in> set evs \<or> Route_Terminate sk \<in> set (ur_effects rt)) \<and>
     (\<not> ur_registered rt \<longrightarrow> ur_live rt = [])"

lemma route_run_accounted:
  "sockets_accounted evs (route_run evs (registerTerminalSocket web no_route))"
proof (induction evs rule: rev_induct)
  case Nil
  show ?case by (simp add: sockets_accounted_def registerTerminalSocket_def no_route_def)
next
  case (snoc ev evs)
  then show ?case
    by (cases ev)
      (auto simp: sockets_accounted_def route_run_snoc route_step_def on_upgrade_def socket_closed_def dispose_route_def
        split: option.splits)
qed

lemma route_closed_for_good:
  "\<not> ur_registered rt \<Longrightarrow> ur_effects (route_run evs rt) = ur_effects rt \<and> \<not> ur_registered (route_run evs rt)"
proof (induction evs rule: rev_induct)
  case (snoc ev evs)
  then show ?case
    by (cases ev) (simp_all add: route_run_snoc route_step_def socket_closed_def dispose_route_def)
qed simp

text \<open>C24: unloading the plugin leaves no socket behind: every one that was given to a terminal and did not
  close by itself has been terminated, and whatever arrives afterwards reaches no terminal.\<close>

theorem disposal_ends_sockets:
  "let before = route_run evs (registerTerminalSocket web no_route); after = route_step Rv_Dispose before in
     ur_live after = [] \<and>
     {sk. Route_Attach sk \<in> set (ur_effects before)} \<subseteq>
       {sk. Rv_Closed sk \<in> set evs} \<union> {sk. Route_Terminate sk \<in> set (ur_effects after)} \<and>
     ur_effects (route_run later after) = ur_effects after"
proof -
  have "sockets_accounted evs (route_run evs (registerTerminalSocket web no_route))" by (rule route_run_accounted)
  moreover have "\<not> ur_registered (dispose_route rt)" for rt by (simp add: dispose_route_def)
  ultimately show ?thesis
    using route_closed_for_good [of "dispose_route (route_run evs (registerTerminalSocket web no_route))" later]
    by (auto simp: Let_def route_step_def sockets_accounted_def dispose_route_def)
qed

end
