(* ===== verification/Plugin_Properties.thy ===== *)
theory Plugin_Properties
  imports Plugin_Apply Api_Properties
begin

section \<open>What the composition guarantees\<close>

text \<open>
  The stores behind a mounted plugin, the seams it serves, the workspaces its hooks keep, the machine a
  terminal is labelled with, and where the checkouts go.
\<close>

subsection \<open>Mounting\<close>

lemma node_load_loaded: "node_load d s = (Inr rs, s') \<Longrightarrow> ns_loaded s'"
  by (auto simp: node_load_def split: sum.splits)

lemma repo_load_loaded: "repo_load d s = (Inr rs, s') \<Longrightarrow> rs_loaded s'"
  by (auto simp: repo_load_def split: sum.splits)

lemma anchor_load_loaded: "anchor_load rp sd = (Inr rs, s') \<Longrightarrow> as_loaded (fst s')"
  by (auto simp: anchor_load_def Let_def split: option.splits prod.splits)

lemma mount_storesE:
  assumes "mount_stores dshHome cwd realpath disk anchors_disk cf = Inr stores"
  obtains "root_refused cf = None" "ns_loaded (pl_nodes stores)" "as_loaded (fst (pl_anchors stores))" "rs_loaded (pl_repos stores)"
proof -
  from assms have "root_refused cf = None \<and> ns_loaded (pl_nodes stores) \<and> as_loaded (fst (pl_anchors stores)) \<and> rs_loaded (pl_repos stores)"
    by (auto simp: mount_stores_def Let_def dest!: node_load_loaded repo_load_loaded anchor_load_loaded
        split: option.splits prod.splits sum.splits)
  then show ?thesis using that by blast
qed

text \<open>A plugin that mounts never answers that a store was read before it was loaded: its machines, its
  anchors and its repositories can all be read, and the title of a workspace is always found.\<close>

theorem mounted_stores_readable:
  assumes "mount_stores dshHome cwd realpath disk anchors_disk cf = Inr stores"
  shows "node_list (pl_nodes stores) = Inr (localNode # ns_nodes (pl_nodes stores)) \<and>
    anchor_list (fst (pl_anchors stores)) = Inr (as_anchors (fst (pl_anchors stores))) \<and>
    (\<exists>r. repo_find i p (pl_repos stores) = Inr r) \<and>
    (\<exists>title. anchor_title (pl_nodes stores) (pl_repos stores) a = Inr title)"
  using assms
  by (rule mount_storesE)
    (simp add: node_list_def requireLoaded_def anchor_list_def anchor_requireLoaded_def repo_find_def repo_requireLoaded_def
      anchor_title_def node_get_def)

definition plain_config :: plugin_config where
  "plain_config = \<lparr>pc_dataDir = Some ''/d'', pc_remoteRipgrep = None, pc_worktreeRoot = None,
     pc_sshForwardTimeoutMs = None, pc_daemonHandshakeTimeoutMs = None, pc_shell = None, pc_shellArgs = None,
     pc_graceMs = None, pc_detachGraceMs = None\<rparr>"

definition plain_stores :: "mount_error + plugin_stores" where
  "plain_stores = mount_stores (\<lambda>p. p) ''/'' (\<lambda>p. p) (\<lambda>p. File_Absent) [] plain_config"

lemma plain_stores_mount: "\<exists>stores. plain_stores = Inr stores"
proof -
  have "case plain_stores of Inl _ \<Rightarrow> False | Inr _ \<Rightarrow> True" by code_simp
  then show ?thesis by (metis sum.case_eq_if old.sum.exhaust sum.disc(1))
qed

theorem mounted_stores_readable_witness:
  "\<exists>stores. plain_stores = Inr stores \<and> node_list (pl_nodes stores) = Inr (localNode # ns_nodes (pl_nodes stores))"
proof -
  from plain_stores_mount obtain stores where "plain_stores = Inr stores" ..
  then show ?thesis using mounted_stores_readable [OF \<open>plain_stores = Inr stores\<close> [unfolded plain_stores_def]] by blast
qed

subsection \<open>Seams\<close>

lemma seam_run_Nil [simp]: "seam_run [] st = st"
  by (simp add: seam_run_def)

lemma seam_run_append: "seam_run (xs @ ys) st = seam_run ys (seam_run xs st)"
  by (simp add: seam_run_def)

lemma seam_run_snoc: "seam_run (xs @ [ev]) st = seam_step ev (seam_run xs st)"
  by (simp add: seam_run_def)

lemmas seam_defs = seam_step_def publish_in_def publishSeam_def Let_def

lemma provided_kept: "sm_provided st s = Some p \<Longrightarrow> sm_provided (seam_run evs st) s = Some p"
proof (induction evs rule: rev_induct)
  case (snoc ev evs)
  then show ?case by (cases ev) (auto simp: seam_run_snoc seam_defs split: option.splits)
qed simp

lemma said_kept: "set (sm_said st) \<subseteq> set (sm_said (seam_run evs st))"
proof (induction evs rule: rev_induct)
  case (snoc ev evs)
  then show ?case by (cases ev) (auto simp: seam_run_snoc seam_defs split: option.splits)
qed simp

lemma readiness_kept:
  "sm_local_shell (seam_run evs st) \<longleftrightarrow> sm_local_shell st \<or> Local_Shell_Ready \<in> set evs"
  "sm_remote_shell (seam_run evs st) \<longleftrightarrow> sm_remote_shell st \<or> Remote_Shell_Ready \<in> set evs"
proof (induction evs rule: rev_induct)
  case (snoc ev evs)
  {
    case 1
    show ?case using snoc.IH(1) by (cases ev) (auto simp: seam_run_snoc seam_defs split: option.splits)
  next
    case 2
    show ?case using snoc.IH(2) by (cases ev) (auto simp: seam_run_snoc seam_defs split: option.splits)
  }
qed simp_all

text \<open>No consumer sees a half-routed executor: the routing shell is there only once both of its delegates
  have been ready.\<close>

theorem shell_never_half_routed:
  assumes "sm_provided (seam_run evs seams_start) Seam_Shell = Some Router"
  shows "Local_Shell_Ready \<in> set evs \<and> Remote_Shell_Ready \<in> set evs"
  using assms
proof (induction evs rule: rev_induct)
  case Nil
  then show ?case by (simp add: seams_start_def)
next
  case (snoc ev evs)
  then show ?case
    by (cases ev) (auto simp: seam_run_snoc seam_defs readiness_kept seams_start_def split: option.splits if_splits)
qed

theorem shell_never_half_routed_witness:
  "Local_Shell_Ready \<in> set [Remote_Shell_Ready, Fs_Ready, Local_Shell_Ready] \<and>
   Remote_Shell_Ready \<in> set [Remote_Shell_Ready, Fs_Ready, Local_Shell_Ready]"
  by (rule shell_never_half_routed) code_simp

fun seam_ready :: "seam \<Rightarrow> scope_event list" where
  "seam_ready Seam_Fs = [Fs_Ready]"
| "seam_ready Seam_Subprocess = [Subprocess_Ready]"
| "seam_ready Seam_Tty = [Tty_Ready]"
| "seam_ready Seam_Shell = [Local_Shell_Ready, Remote_Shell_Ready]"

text \<open>The step at which a seam's last delegate becomes ready.\<close>

lemma seam_publishes:
  "set (seam_ready s) \<subseteq> set evs \<Longrightarrow> \<exists>pre ev post. evs = pre @ ev # post \<and>
     (\<exists>st'. sm_provided st' = sm_provided (seam_run pre st) \<and> sm_said st' = sm_said (seam_run pre st) \<and>
        seam_step ev (seam_run pre st) = publish_in s st')"
proof (induction evs rule: rev_induct)
  case Nil
  then show ?case by (cases s) auto
next
  case (snoc ev evs)
  show ?case
  proof (cases "set (seam_ready s) \<subseteq> set evs")
    case True
    from snoc.IH [OF True] obtain pre e post st' where "evs = pre @ e # post" "sm_provided st' = sm_provided (seam_run pre st)"
      "sm_said st' = sm_said (seam_run pre st)" "seam_step e (seam_run pre st) = publish_in s st'" by blast
    then show ?thesis
      by (intro exI [of _ pre] exI [of _ e] exI [of _ "post @ [ev]"] conjI exI [of _ st']) simp_all
  next
    case False
    let ?st = "seam_run evs st"
    have "\<exists>st'. sm_provided st' = sm_provided ?st \<and> sm_said st' = sm_said ?st \<and> seam_step ev ?st = publish_in s st'"
    proof (cases s)
      case Seam_Shell
      with False snoc.prems have
        "ev = Local_Shell_Ready \<and> Remote_Shell_Ready \<in> set evs \<or> ev = Remote_Shell_Ready \<and> Local_Shell_Ready \<in> set evs" by auto
      then show ?thesis
      proof (elim disjE conjE)
        assume "ev = Local_Shell_Ready" "Remote_Shell_Ready \<in> set evs"
        then show ?thesis using Seam_Shell
          by (intro exI [of _ "?st\<lparr>sm_local_shell := True\<rparr>"]) (simp add: seam_step_def readiness_kept)
      next
        assume "ev = Remote_Shell_Ready" "Local_Shell_Ready \<in> set evs"
        then show ?thesis using Seam_Shell
          by (intro exI [of _ "?st\<lparr>sm_remote_shell := True\<rparr>"]) (simp add: seam_step_def readiness_kept)
      qed
    qed (use False snoc.prems in \<open>auto simp: seam_step_def\<close>)
    then show ?thesis by (intro exI [of _ evs] exI [of _ ev] exI [of _ "[]"]) auto
  qed
qed

text \<open>A deployment that left a stock row in place is told so: the row keeps the seam for good, and once the
  delegates are ready the profile edit it needs has been logged and written to standard error.\<close>

theorem stock_row_is_reported:
  assumes "set (seam_ready s) \<subseteq> set evs"
  shows "sm_provided (seam_run (Stock_Provides s # evs) seams_start) s = Some Stock_Row \<and>
    {Logged (seam_hint s), On_Stderr (seam_hint s @ [CHR 0x0A])} \<subseteq> set (sm_said (seam_run (Stock_Provides s # evs) seams_start))"
proof -
  let ?st = "seam_step (Stock_Provides s) seams_start"
  have stock: "sm_provided ?st s = Some Stock_Row" by (simp add: seam_step_def seams_start_def)
  from seam_publishes [OF assms, of ?st] obtain pre ev post st' where
    evs: "evs = pre @ ev # post" and st': "sm_provided st' = sm_provided (seam_run pre ?st)" "seam_step ev (seam_run pre ?st) = publish_in s st'"
    by blast
  from provided_kept [OF stock, of pre] st' have "{Logged (seam_hint s), On_Stderr (seam_hint s @ [CHR 0x0A])} \<subseteq> set (sm_said (seam_step ev (seam_run pre ?st)))"
    by (simp add: publish_in_def publishSeam_def)
  moreover have "seam_run (Stock_Provides s # evs) seams_start = seam_run post (seam_step ev (seam_run pre ?st))"
    by (simp add: seam_run_def evs)
  moreover have "seam_run (Stock_Provides s # evs) seams_start = seam_run evs ?st" by (simp add: seam_run_def)
  ultimately show ?thesis
    using provided_kept [OF stock, of evs] said_kept [of "seam_step ev (seam_run pre ?st)" post] by auto
qed

theorem stock_row_is_reported_witness:
  "sm_provided (seam_run [Stock_Provides Seam_Shell, Remote_Shell_Ready, Local_Shell_Ready] seams_start) Seam_Shell = Some Stock_Row \<and>
    {Logged (seam_hint Seam_Shell), On_Stderr (seam_hint Seam_Shell @ [CHR 0x0A])} \<subseteq>
      set (sm_said (seam_run [Stock_Provides Seam_Shell, Remote_Shell_Ready, Local_Shell_Ready] seams_start))"
  by (rule stock_row_is_reported) simp

lemma stock_needs_row:
  "sm_provided (seam_run evs seams_start) s = Some Stock_Row \<Longrightarrow> Stock_Provides s \<in> set evs"
proof (induction evs rule: rev_induct)
  case Nil
  then show ?case by (simp add: seams_start_def)
next
  case (snoc ev evs)
  then show ?case
    by (cases ev) (auto simp: seam_run_snoc seam_defs split: option.splits if_splits)
qed

text \<open>C36: a profile that disabled the stock rows is routed: a seam whose delegates become ready is served by the
  router, in whatever order the delegates come.\<close>

theorem seam_routed_without_row:
  assumes "set (seam_ready s) \<subseteq> set evs" "Stock_Provides s \<notin> set evs"
  shows "sm_provided (seam_run evs seams_start) s = Some Router"
proof -
  from seam_publishes [OF assms(1), of seams_start] obtain pre ev post st' where
    evs: "evs = pre @ ev # post" and "seam_step ev (seam_run pre seams_start) = publish_in s st'"
    by blast
  then have "sm_provided (seam_run (pre @ [ev]) seams_start) s \<noteq> None"
    by (auto simp: seam_run_snoc publish_in_def publishSeam_def split: option.splits)
  then obtain p where "sm_provided (seam_run (pre @ [ev]) seams_start) s = Some p" by blast
  then have "sm_provided (seam_run evs seams_start) s = Some p"
    using provided_kept [of "seam_run (pre @ [ev]) seams_start" s p post] evs by (simp add: seam_run_def)
  moreover from this stock_needs_row [of evs s] assms(2) have "p \<noteq> Stock_Row" by auto
  ultimately show ?thesis by (cases p) simp_all
qed

theorem seam_routed_without_row_witness:
  "sm_provided (seam_run [Stock_Provides Seam_Fs, Remote_Shell_Ready, Local_Shell_Ready] seams_start) Seam_Shell = Some Router"
  by (rule seam_routed_without_row) simp_all

subsection \<open>Workspaces\<close>

text \<open>What the hooks rely on of the deployment's registry: creating keeps or adds the directory, deleting the
  record of a directory takes that one away, and looking up changes nothing.\<close>

definition ws_lawful :: "'w workspace_service \<Rightarrow> (string \<Rightarrow> 'w \<Rightarrow> bool) \<Rightarrow> bool" where
  "ws_lawful v held \<longleftrightarrow>
     (\<forall>p t w. \<exists>i w'. wv_create v p t w = (Inr i, w') \<and> (\<forall>q. held q w' \<longleftrightarrow> q = p \<or> held q w)) \<and>
     (\<forall>p w. \<exists>r. wv_resolve v p w = (Inr r, w) \<and> (r \<noteq> None \<longleftrightarrow> held p w)) \<and>
     (\<forall>p w i. wv_resolve v p w = (Inr (Some i), w) \<longrightarrow>
        (\<exists>b w'. wv_delete v i w = (Inr b, w') \<and> (\<forall>q. held q w' \<longleftrightarrow> q \<noteq> p \<and> held q w)))"

lemma ws_create: "ws_lawful v held \<Longrightarrow> \<exists>i w'. wv_create v p t w = (Inr i, w') \<and> (\<forall>q. held q w' \<longleftrightarrow> q = p \<or> held q w)"
  and ws_resolve: "ws_lawful v held \<Longrightarrow> \<exists>r. wv_resolve v p w = (Inr r, w) \<and> (r \<noteq> None \<longleftrightarrow> held p w)"
  and ws_delete: "ws_lawful v held \<Longrightarrow> wv_resolve v p w = (Inr (Some i), w) \<Longrightarrow>
     \<exists>b w'. wv_delete v i w = (Inr b, w') \<and> (\<forall>q. held q w' \<longleftrightarrow> q \<noteq> p \<and> held q w)"
  unfolding ws_lawful_def by blast+

datatype hook_op = Hk_Register anchor_record | Hk_Unregister anchor_record

fun hook_apply :: "node_store \<Rightarrow> repo_store \<Rightarrow> 'w workspace_service \<Rightarrow> hook_op \<Rightarrow> 'w \<Rightarrow> 'w" where
  "hook_apply nodes repos v (Hk_Register a) w = snd (hook_register nodes repos (Some v) a w)"
| "hook_apply nodes repos v (Hk_Unregister a) w = snd (hook_unregister (Some v) a w)"

text \<open>The abstract registry: the set of directories that are workspaces.\<close>

fun hook_spec :: "hook_op \<Rightarrow> string set \<Rightarrow> string set" where
  "hook_spec (Hk_Register a) S = insert (an_anchorPath a) S"
| "hook_spec (Hk_Unregister a) S = S - {an_anchorPath a}"

lemma register_refines:
  assumes "ws_lawful v held" "ns_loaded nodes" "rs_loaded repos"
  shows "held q (snd (hook_register nodes repos (Some v) a w)) \<longleftrightarrow> q = an_anchorPath a \<or> held q w"
proof -
  have "\<exists>title. anchor_title nodes repos a = Inr title"
    using assms(2,3) by (simp add: anchor_title_def node_get_def requireLoaded_def repo_find_def repo_requireLoaded_def)
  then obtain title where title: "anchor_title nodes repos a = Inr title" ..
  from ws_create [OF assms(1), of "an_anchorPath a" title w] obtain i w' where
    "wv_create v (an_anchorPath a) title w = (Inr i, w')" and held: "\<And>q. held q w' \<longleftrightarrow> q = an_anchorPath a \<or> held q w" by blast
  with title have "hook_register nodes repos (Some v) a w = (Inr (), w')" by (simp add: hook_register_def)
  with held show ?thesis by simp
qed

lemma unregister_refines:
  assumes "ws_lawful v held"
  shows "held q (snd (hook_unregister (Some v) a w)) \<longleftrightarrow> q \<noteq> an_anchorPath a \<and> held q w"
proof -
  from ws_resolve [OF assms, of "an_anchorPath a" w] obtain r where
    r: "wv_resolve v (an_anchorPath a) w = (Inr r, w)" "r \<noteq> None \<longleftrightarrow> held (an_anchorPath a) w" by blast
  show ?thesis
  proof (cases r)
    case None
    then have "hook_unregister (Some v) a w = (Inr (), w)" using r(1) by (simp add: hook_unregister_def)
    with None r(2) show ?thesis by auto
  next
    case (Some i)
    from ws_delete [OF assms r(1) [unfolded Some]] obtain b w' where
      "wv_delete v i w = (Inr b, w')" and held: "\<And>q. held q w' \<longleftrightarrow> q \<noteq> an_anchorPath a \<and> held q w" by blast
    then have "hook_unregister (Some v) a w = (Inr (), w')" using r(1) Some by (simp add: hook_unregister_def)
    with held show ?thesis by simp
  qed
qed


text \<open>A registry that keeps its directories in a list and names each record by its path.\<close>

definition list_service :: "string list workspace_service" where
  "list_service =
     \<lparr>wv_create = \<lambda>p t w. (Inr p, if p \<in> set w then w else w @ [p]),
      wv_resolve = \<lambda>p w. (Inr (if p \<in> set w then Some p else None), w),
      wv_delete = \<lambda>i w. (Inr (i \<in> set w), removeAll i w)\<rparr>"

lemma list_service_lawful: "ws_lawful list_service (\<lambda>p w. p \<in> set w)"
  by (auto simp: ws_lawful_def list_service_def split: if_splits)

definition some_anchor :: "string \<Rightarrow> anchor_record" where
  "some_anchor p = \<lparr>an_anchorId = ''a'', an_nodeId = ''n'', an_name = ''x'', an_anchorPath = p, an_remoteRoot = ''/r'',
     an_repoPath = ''/r'', an_createdAt = ''t'', an_kind = Directory\<rparr>"


subsection \<open>The machine and the directory of a terminal\<close>



text \<open>The label is read after the shell has been allocated: an anchor that is removed while the machine
  starts the shell leaves an entry that says this host for a shell that runs on the machine.\<close>

theorem label_read_late:
  assumes "routing_tty_spawn before (tagged channel) (reg_spawn_request st cwd cols rows) = Inr (Tty_Remote c q)"
    and "classifyPath cwd None after = Local_Route"
    and "reg_opened (shell_machine title after) (shell_directory after) sid cwd cols rows pid r = (r', e)"
  shows "te_machine e = (case title LOCAL_NODE_ID of None \<Rightarrow> LOCAL_NODE_ID | Some t \<Rightarrow> t) \<and> te_cwd e = cwd \<and>
    classifyPath cwd None before = Remote_Route (fst c) (tq_cwd q)"
proof -
  have cwd: "tq_cwd (reg_spawn_request st cwd cols rows) = cwd" by (simp add: reg_spawn_request_def)
  have "te_machine e = shell_machine title after cwd" "te_cwd e = shell_directory after cwd"
    using assms(3) by (auto simp: reg_opened_def Let_def)
  moreover have "classifyPath cwd None before = Remote_Route (fst c) (tq_cwd q)"
    using assms(1) unfolding routing_tty_spawn_def remoteTarget_def cwd
    by (auto simp: bind_res_def tagged_def cwd split: route.splits option.splits)
  ultimately show ?thesis using assms(2) by (simp add: shell_machine_def shell_directory_def)
qed

theorem label_read_late_witness:
  "\<exists>e :: terminal_entry. te_machine e = ''Local'' \<and> te_cwd e = ''/l/w'' \<and>
     classifyPath ''/l/w'' None [\<lparr>ar_nodeId = ''n'', ar_anchorPath = ''/l/w'', ar_remoteRoot = ''/r''\<rparr>] = Remote_Route ''n'' ''/r''"
proof -
  let ?an = "[\<lparr>ar_nodeId = ''n'', ar_anchorPath = ''/l/w'', ar_remoteRoot = ''/r''\<rparr>]"
  let ?q = "reg_spawn_request (terminalSettings plain_config) ''/l/w'' 80 24"
  let ?t = "[LOCAL_NODE_ID \<mapsto> ''Local'']"
  have "classifyPath ''/l/w'' None ?an = Remote_Route ''n'' ''/r''" by code_simp
  then have d: "routing_tty_spawn ?an (tagged [''n'' \<mapsto> ()]) ?q = Inr (Tty_Remote (''n'', ()) (?q\<lparr>tq_cwd := ''/r''\<rparr>))"
    by (simp add: routing_tty_spawn_def remoteTarget_def reg_spawn_request_def bind_res_def tagged_def)
  have none: "classifyPath ''/l/w'' None [] = Local_Route" by code_simp
  obtain r' e where e: "reg_opened (shell_machine ?t []) (shell_directory []) ''s'' ''/l/w'' 80 24 1 \<lparr>rg_entries = [], rg_nextOrdinal = 0\<rparr> = (r', e)"
    by (metis surj_pair)
  show ?thesis using label_read_late [OF d none e] by auto
qed

subsection \<open>Where checkouts go\<close>

lemma root_shape:
  "root_refused cf = None \<Longrightarrow> \<not> startsWith (configuredRoot cf) ''~'' \<Longrightarrow> is_absolute (configuredRoot cf)"
proof -
  assume "root_refused cf = None" and tilde: "\<not> startsWith (configuredRoot cf) ''~''"
  then have "configuredRoot cf = ''~'' \<or> startsWith (configuredRoot cf) ''~/'' \<or> startsWith (configuredRoot cf) ''/''"
    by (auto simp: root_refused_def Let_def split: if_splits)
  moreover have "startsWith (configuredRoot cf) ''~/'' \<Longrightarrow> startsWith (configuredRoot cf) ''~''"
    by (cases "configuredRoot cf") (auto simp: startsWith_def)
  ultimately show ?thesis using tilde by (auto simp: is_absolute_def startsWith_def)
qed

lemma join3_absolute: "is_absolute d \<Longrightarrow> is_absolute (posix_join [d, q, r])"
  by (auto simp: posix_join_def Let_def intro!: normalize_is_absolute)

text \<open>A checkout has an absolute path whatever was configured: an accepted root, resolved on a machine whose
  home is absolute, is absolute, and so is every path a checkout is given under it.\<close>

theorem checkouts_rooted:
  assumes "root_refused cf = None" "ae_root env = configuredRoot cf" "is_absolute (ae_home env)"
    and "\<And>i. st_info (mg_status n (ap_machines s)) = Some i \<Longrightarrow> is_absolute (ni_homedir i)"
    and "worktreeRoot env s n = Inr p"
  shows "is_absolute p \<and> is_absolute (managedWorktreePath p repoPath name)"
proof -
  have "is_absolute p"
    using assms root_shape [OF assms(1)]
    by (auto simp: worktreeRoot_def join_absolute split: if_splits option.splits)
  then show ?thesis by (simp add: managedWorktreePath_def join3_absolute)
qed

theorem checkouts_rooted_witness:
  "is_absolute ''/home/u/.dsh/worktrees'' \<and> is_absolute (managedWorktreePath ''/home/u/.dsh/worktrees'' ''/home/u/code/app'' ''fix'')"
proof (rule checkouts_rooted [of plain_config "sample_api\<lparr>ae_root := configuredRoot plain_config, ae_home := ''/home/u''\<rparr>" LOCAL_NODE_ID sample_state])
  show "root_refused plain_config = None" by code_simp
  show "worktreeRoot (sample_api\<lparr>ae_root := configuredRoot plain_config, ae_home := ''/home/u''\<rparr>) sample_state LOCAL_NODE_ID =
      Inr ''/home/u/.dsh/worktrees''"
    by code_simp
  show "is_absolute (ni_homedir i)" if "st_info (mg_status LOCAL_NODE_ID (ap_machines sample_state)) = Some i" for i
    using that by (simp add: sample_state_def createNodeConnections_def mg_status_def blank_entry_def statusOf_def)
  show "is_absolute (ae_home (sample_api\<lparr>ae_root := configuredRoot plain_config, ae_home := ''/home/u''\<rparr>))"
    by (simp add: is_absolute_def startsWith_def)
qed simp

text \<open>A checkout can land inside its repository: with the default root, the checkout of a repository that is
  the home directory lies below it.\<close>

theorem checkout_inside_repository:
  "isWithin ''/home/u'' (managedWorktreePath (posix_join [''/home/u'', drop 1 DEFAULT_WORKTREE_ROOT]) ''/home/u'' ''fix'')"
  by code_simp

subsection \<open>The shell of a terminal\<close>

text \<open>A terminal always has a program and, however it is configured, at least one argument: an unnamed shell
  is the machine's own login shell whatever arguments were given, and an empty list of arguments is not taken as
  no arguments but as a login shell's.\<close>

theorem shell_always_has_arguments:
  "ts_shell (terminalSettings cf) \<noteq> [] \<and> ts_shellArgs (terminalSettings cf) \<noteq> [] \<and>
   (pc_shell cf = None \<or> pc_shell cf = Some [] \<longrightarrow>
      terminalSettings cf = terminalSettings (cf\<lparr>pc_shell := None, pc_shellArgs := None\<rparr>)) \<and>
   (pc_shellArgs cf = Some [] \<longrightarrow> terminalSettings cf = terminalSettings (cf\<lparr>pc_shellArgs := None\<rparr>))"
  by (auto simp: terminalSettings_def Let_def quote_def split: option.split list.split)

end
