(* ===== verification/Tool_Schema.thy ===== *)
theory Tool_Schema
  imports Terminal_Tool Documents
begin

section \<open>The declared shape of the terminal tool: tools/terminal.ts\<close>

text \<open>
  The tool declares its parameters and the schema of its value to the tool runtime, which checks a call and an
  answer against them. Here the declarations are data and the check is their meaning: a closed object has the
  declared properties and no others, and one of several shapes fits when exactly one of them does.
\<close>

subsection \<open>Schemas\<close>

datatype schema =
    S_String "string list option"
  | S_Number
  | S_Boolean
  | S_Array schema
  | S_Object "(string \<times> schema) list"
  | S_OneOf "schema list"

fun accepts :: "schema \<Rightarrow> json \<Rightarrow> bool" where
  "accepts (S_String enum) v = (case v of JStr s \<Rightarrow> (case enum of None \<Rightarrow> True | Some names \<Rightarrow> s \<in> set names) | _ \<Rightarrow> False)"
| "accepts S_Number v = (case v of JNum _ \<Rightarrow> True | _ \<Rightarrow> False)"
| "accepts S_Boolean v = (case v of JBool _ \<Rightarrow> True | _ \<Rightarrow> False)"
| "accepts (S_Array s) v = (case v of JArr vs \<Rightarrow> list_all (accepts s) vs | _ \<Rightarrow> False)"
| "accepts (S_Object props) v =
     (case v of
        JObj fs \<Rightarrow> list_all (\<lambda>(k, s). case map_of fs k of None \<Rightarrow> False | Some w \<Rightarrow> accepts s w) props \<and>
          set (map fst fs) \<subseteq> set (map fst props)
      | _ \<Rightarrow> False)"
| "accepts (S_OneOf ss) v = (length (filter (\<lambda>s. accepts s v) ss) = 1)"

definition TERMINAL_VALUE_SCHEMA :: schema where
  "TERMINAL_VALUE_SCHEMA = S_OneOf
     [S_Object [(''terminals'', S_Array (S_Object
        [(''id'', S_String None), (''label'', S_String None), (''cwd'', S_String None), (''machine'', S_String None),
         (''pid'', S_Number), (''state'', S_String (Some [''running'', ''detached'', ''exited''])),
         (''cols'', S_Number), (''rows'', S_Number)]))],
      S_Object [(''id'', S_String None), (''offset'', S_Number), (''text'', S_String None), (''truncated'', S_Boolean)],
      S_Object [(''id'', S_String None), (''wrote'', S_Object [(''bytes'', S_Number), (''keys'', S_Number)])],
      S_Object [(''id'', S_String None), (''offset'', S_Number), (''text'', S_String None), (''matched'', S_Boolean),
         (''reason'', S_String (Some [''match'', ''exit'', ''timeout'']))]]"

subsection \<open>The values\<close>

definition view_json :: "terminal_view \<Rightarrow> json" where
  "view_json t = JObj
     [(''id'', JStr (tv_id t)), (''label'', JStr (tv_label t)), (''cwd'', JStr (tv_cwd t)), (''machine'', JStr (tv_machine t)),
      (''pid'', JNum (Whole (tv_pid t))), (''state'', JStr (state_name (tv_state t))), (''cols'', JNum (Whole (tv_cols t))),
      (''rows'', JNum (Whole (tv_rows t)))]"

definition value_json :: "tool_value \<Rightarrow> json" where
  "value_json v =
     (case v of
        Value_List ts \<Rightarrow> JObj [(''terminals'', JArr (map view_json ts))]
      | Value_Read p \<Rightarrow> JObj [(''id'', JStr (tr_id p)), (''offset'', JNum (Whole (int (tr_offset p)))), (''text'', JStr (tr_text p)),
                             (''truncated'', JBool (tr_truncated p))]
      | Value_Write tid bs ks \<Rightarrow> JObj [(''id'', JStr tid), (''wrote'', JObj [(''bytes'', JNum (Whole (int bs))), (''keys'', JNum (Whole (int ks)))])]
      | Value_Wait w \<Rightarrow> JObj [(''id'', JStr (tw_id w)), (''offset'', JNum (Whole (int (tw_offset w)))), (''text'', JStr (tw_text w)),
                             (''matched'', JBool (tw_matched w)), (''reason'', JStr (reason_name (tw_reason w)))])"

lemma state_named: "state_name s \<in> {''running'', ''detached'', ''exited''}"
  by (cases s) (simp_all add: state_name_def)

lemma reason_named: "reason_name r \<in> {''match'', ''exit'', ''timeout''}"
  by (cases r) (simp_all add: reason_name_def)

text \<open>Every value the tool can answer with is accepted by the schema it declared: it fits exactly one of the
  four shapes, with no property missing and none besides.\<close>

theorem tool_value_fits_schema: "accepts TERMINAL_VALUE_SCHEMA (value_json v)"
proof (cases v)
  case (Value_List ts)
  then show ?thesis using state_named
    by (simp add: TERMINAL_VALUE_SCHEMA_def value_json_def view_json_def list_all_iff)
next
  case (Value_Wait w)
  then show ?thesis using reason_named [of "tw_reason w"]
    by (simp add: TERMINAL_VALUE_SCHEMA_def value_json_def)
qed (simp_all add: TERMINAL_VALUE_SCHEMA_def value_json_def)

subsection \<open>The parameters\<close>

datatype param_type = P_String | P_Boolean | P_Number | P_Strings | P_Enum "string list"

definition tool_parameters :: "(string \<times> param_type \<times> bool) list" where
  "tool_parameters =
     [(''action'', P_Enum (map action_name [Act_list, Act_read, Act_send, Act_keys, Act_wait]), True),
      (''terminal'', P_String, False), (''text'', P_String, False), (''enter'', P_Boolean, False), (''keys'', P_Strings, False),
      (''lines'', P_Number, False), (''offset'', P_Number, False), (''match'', P_String, False), (''regex'', P_String, False),
      (''timeoutMs'', P_Number, False)]"

text \<open>A profile without a tool runtime registers nothing.\<close>

definition registerTerminalTool :: "bool \<Rightarrow> (string \<times> (string \<times> param_type \<times> bool) list \<times> schema) list" where
  "registerTerminalTool tool_runtime = (if tool_runtime then [(''terminal'', tool_parameters, TERMINAL_VALUE_SCHEMA)] else [])"

text \<open>The parameters that were given, by name, in the order of the table.\<close>

definition given_params :: "tool_args \<Rightarrow> string list" where
  "given_params args = map fst (filter (\<lambda>(name, present, allowed). present args) PARAM_ACTIONS)"

definition allowed_params :: "action \<Rightarrow> string list" where
  "allowed_params act = map fst (filter (\<lambda>(name, present, allowed). act \<in> set allowed) PARAM_ACTIONS)"

text \<open>The table of parameters and actions is the whole contract: its rows are exactly the optional
  parameters the tool declares, and a call is let through exactly when all it gives belongs to its action.\<close>

theorem parameter_contract:
  "map fst (filter (\<lambda>(name, ty, required). \<not> required) tool_parameters) = map fst PARAM_ACTIONS \<and>
   (rejectForeign args act = None) = (set (given_params args) \<subseteq> set (allowed_params act))"
proof
  show "map fst (filter (\<lambda>(name, ty, required). \<not> required) tool_parameters) = map fst PARAM_ACTIONS"
    by (simp add: tool_parameters_def PARAM_ACTIONS_def)
  have "(rejectForeign args act = None) \<longleftrightarrow>
      List.find (\<lambda>(name, present, allowed). present args \<and> act \<notin> set allowed) PARAM_ACTIONS = None"
    by (auto simp: rejectForeign_def split: option.split)
  also have "\<dots> \<longleftrightarrow> (\<forall>(name, present, allowed) \<in> set PARAM_ACTIONS. present args \<longrightarrow> act \<in> set allowed)"
    by (auto simp: find_None_iff)
  also have "\<dots> \<longleftrightarrow> set (given_params args) \<subseteq> set (allowed_params act)"
    by (cases act) (auto simp: given_params_def allowed_params_def PARAM_ACTIONS_def)
  finally show "(rejectForeign args act = None) = (set (given_params args) \<subseteq> set (allowed_params act))" .
qed

end
