(* ===== verification/Subprocess_Terminals.thy ===== *)
theory Subprocess_Terminals
  imports Routing_Subprocess Remote_Tty
begin

section \<open>Terminals of the process seam: spawnTerminal in plugin/routing/subprocess.ts\<close>

text \<open>
  The process seam allocates terminals too, and hangs three verbs on the handle of a remote one: the foreground
  group, whether the terminal looks idle, and a signal to the group. What a look finds is the daemon's answer;
  a look that fails leaves what was observed as it was.
\<close>

subsection \<open>Allocation\<close>

record terminal_spec =
  tp_argv :: "string list"
  tp_cwd :: path
  tp_env :: "(string \<times> string) list option"
  tp_cols :: int
  tp_rows :: int
  tp_graceMs :: int

datatype 'c terminal_dispatch = Terminal_Local terminal_spec | Terminal_Remote 'c tty_request

definition terminal_request :: "terminal_spec \<Rightarrow> path \<Rightarrow> tty_request" where
  "terminal_request spec cwd =
     \<lparr>tq_argv = tp_argv spec, tq_cwd = cwd, tq_env = tp_env spec, tq_cols = tp_cols spec, tq_rows = tp_rows spec,
      tq_graceMs = Some (tp_graceMs spec)\<rparr>"

definition spawnTerminal :: "anchor_route list \<Rightarrow> (node_id \<rightharpoonup> 'c) \<Rightarrow> terminal_spec \<Rightarrow> string + 'c terminal_dispatch" where
  "spawnTerminal anchors channel spec =
     bind_res (remoteTarget (tp_cwd spec) anchors channel) (\<lambda>remote.
       case remote of
         None \<Rightarrow> Inr (Terminal_Local spec)
       | Some r \<Rightarrow> Inr (Terminal_Remote (rt_channel r) (terminal_request spec (rt_remotePath r))))"

definition terminal_at_home :: "string + 'c terminal_dispatch \<Rightarrow> bool" where
  "terminal_at_home r = (case r of Inr (Terminal_Local _) \<Rightarrow> True | _ \<Rightarrow> False)"

definition terminal_on_node :: "string + (node_id \<times> 'c) terminal_dispatch \<Rightarrow> node_id \<Rightarrow> path \<Rightarrow> bool" where
  "terminal_on_node r n p =
     (case r of Inr (Terminal_Remote c q) \<Rightarrow> fst c = n \<and> tq_cwd q = p | _ \<Rightarrow> False)"

interpretation terminal_seam: route_dispatch
  "\<lambda>d. classifyPath d None anchors"
  "\<lambda>d. spawnTerminal anchors (tagged channel) (spec\<lparr>tp_cwd := d\<rparr>)"
  terminal_at_home terminal_on_node
  by unfold_locales
    (auto simp: spawnTerminal_def remoteTarget_def terminal_at_home_def terminal_on_node_def tagged_def terminal_request_def
      split: route.splits option.splits)

text \<open>The two seams that allocate terminals cannot disagree: the process seam sends a terminal where the
  terminal router sends the same request, with the same program, size, environment and grace, and fails as it does.\<close>

theorem terminal_seams_agree:
  "spawnTerminal anchors channel spec =
     (case routing_tty_spawn anchors channel (terminal_request spec (tp_cwd spec)) of
        Inl e \<Rightarrow> Inl e
      | Inr (Tty_Local _) \<Rightarrow> Inr (Terminal_Local spec)
      | Inr (Tty_Remote c q) \<Rightarrow> Inr (Terminal_Remote c q))"
  by (simp add: spawnTerminal_def routing_tty_spawn_def terminal_request_def bind_res_def split: sum.split option.split)

text \<open>A terminal of the process seam is started at most once and on one machine: whoever gets the request, in
  whatever directory, this host does not and no other machine does.\<close>

theorem terminal_on_one_machine:
  assumes "terminal_on_node (spawnTerminal anchors (tagged channel) (spec\<lparr>tp_cwd := d\<rparr>)) n p"
  shows "\<not> terminal_at_home (spawnTerminal anchors (tagged channel) (spec\<lparr>tp_cwd := d\<rparr>)) \<and>
    (\<forall>n' p'. terminal_on_node (spawnTerminal anchors (tagged channel) (spec\<lparr>tp_cwd := d\<rparr>)) n' p' \<longrightarrow> n' = n \<and> p' = p)"
  using assms by (rule terminal_seam.one_machine)

subsection \<open>What the handle observes\<close>

record foreground =
  fg_processGroupId :: int
  fg_inputWaiting :: bool

datatype activity_state = Activity_Unknown | Activity_Idle | Activity_Busy

record activity =
  ac_state :: activity_state
  ac_revision :: nat

definition nothing_observed :: activity where
  "nothing_observed = \<lparr>ac_state = Activity_Unknown, ac_revision = 0\<rparr>"

definition activity_of :: "foreground option \<Rightarrow> activity_state" where
  "activity_of fg =
     (case fg of None \<Rightarrow> Activity_Unknown | Some g \<Rightarrow> if fg_inputWaiting g then Activity_Idle else Activity_Busy)"

definition observe :: "foreground option \<Rightarrow> activity \<Rightarrow> activity" where
  "observe fg seen =
     (if activity_of fg \<noteq> ac_state seen then \<lparr>ac_state = activity_of fg, ac_revision = ac_revision seen + 1\<rparr> else seen)"

definition inspectActivity :: "string + foreground option \<Rightarrow> activity \<Rightarrow> (string + activity) \<times> activity" where
  "inspectActivity answer seen =
     (case answer of Inl e \<Rightarrow> (Inl e, seen) | Inr fg \<Rightarrow> (Inr (observe fg seen), observe fg seen))"

fun looks :: "(string + foreground option) list \<Rightarrow> activity \<Rightarrow> activity" where
  "looks [] seen = seen"
| "looks (a # as) seen = looks as (snd (inspectActivity a seen))"

definition found :: "(string + foreground option) list \<Rightarrow> activity_state list" where
  "found as = map activity_of (concat (map (\<lambda>a. case a of Inl _ \<Rightarrow> [] | Inr fg \<Rightarrow> [fg]) as))"

lemma looks_count:
  "ac_revision (looks as seen) = ac_revision seen + (length (remdups_adj (ac_state seen # found as)) - 1) \<and>
   ac_state (looks as seen) = last (ac_state seen # found as)"
proof (induction as arbitrary: seen)
  case Nil
  then show ?case by (simp add: found_def)
next
  case (Cons a as)
  show ?case
  proof (cases a)
    case (Inl e)
    then show ?thesis using Cons.IH [of seen] by (simp add: inspectActivity_def found_def)
  next
    case (Inr fg)
    have found: "found (a # as) = activity_of fg # found as" by (simp add: found_def Inr)
    have "length (remdups_adj (x # xs)) > 0" for x :: activity_state and xs by (cases "remdups_adj (x # xs)") auto
    then show ?thesis using Cons.IH [of "observe fg seen"] unfolding found
      by (auto simp: Inr inspectActivity_def observe_def)
  qed
qed

text \<open>The revision of a terminal's activity counts its changes: after any looks, some of which fail, it is the
  number of times the state found differed from the one found before, and the state is the last one found.\<close>

theorem revision_counts_changes:
  "ac_revision (looks as nothing_observed) = length (remdups_adj (Activity_Unknown # found as)) - 1 \<and>
   ac_state (looks as nothing_observed) = last (Activity_Unknown # found as)"
  using looks_count [of as nothing_observed] by (simp add: nothing_observed_def)

theorem terminal_on_one_machine_witness:
  "\<not> terminal_at_home (spawnTerminal [\<lparr>ar_nodeId = ''n'', ar_anchorPath = ''/l/w'', ar_remoteRoot = ''/r''\<rparr>] (tagged [''n'' \<mapsto> ()])
     (\<lparr>tp_argv = [''sh''], tp_cwd = [], tp_env = None, tp_cols = 80, tp_rows = 24, tp_graceMs = 1\<rparr>\<lparr>tp_cwd := ''/l/w/s''\<rparr>))"
proof -
  let ?an = "[\<lparr>ar_nodeId = ''n'', ar_anchorPath = ''/l/w'', ar_remoteRoot = ''/r''\<rparr>]"
  let ?s = "\<lparr>tp_argv = [''sh''], tp_cwd = [], tp_env = None, tp_cols = 80, tp_rows = 24, tp_graceMs = 1\<rparr>"
  have "classifyPath ''/l/w/s'' None ?an = Remote_Route ''n'' ''/r/s''" by code_simp
  then have "terminal_on_node (spawnTerminal ?an (tagged [''n'' \<mapsto> ()]) (?s\<lparr>tp_cwd := ''/l/w/s''\<rparr>)) ''n'' ''/r/s''"
    by (simp add: terminal_on_node_def spawnTerminal_def remoteTarget_def terminal_request_def bind_res_def tagged_def)
  from terminal_on_one_machine [OF this] show ?thesis by blast
qed

end
