(* ===== verification/Ptc_Main.thy ===== *)
theory Ptc_Main
  imports Ptc_Host
begin

section \<open>The bootstrap of the program host: main in ptc-host/src/program.js\<close>

text \<open>
  The host announces itself, waits for the frame that carries the program, and runs it; whatever goes wrong on
  the way is reported as the end of the program. What \<open>JSON.parse\<close> makes of the frame, what the engine does
  with the data before the program starts, and the stack of an error are parameters.
\<close>

text \<open>An error caught by the bootstrap: its stack when it is an error that has one, and its text, which cannot
  always be rendered.\<close>

record bootstrap_error =
  bo_stack :: "units option"
  bo_text :: "units option"

definition bootstrap_message :: "bootstrap_error \<Rightarrow> units" where
  "bootstrap_message e =
     (case bo_stack e of
        Some stack \<Rightarrow> stack
      | None \<Rightarrow> (case bo_text e of Some t \<Rightarrow> t | None \<Rightarrow> units_of ''program host failed''))"

definition report_failure :: "bootstrap_error \<Rightarrow> sent_frame list" where
  "report_failure e = [Sent_Done (Done_Error ''exception'' (bootstrap_message e))]"

text \<open>A boot frame is an object that says so and whose data is an object or an array.\<close>

definition is_object :: "ptc_json \<Rightarrow> bool" where
  "is_object v = (case v of PJ_Obj _ \<Rightarrow> True | PJ_Arr _ \<Rightarrow> True | _ \<Rightarrow> False)"

definition boot_data :: "ptc_json \<Rightarrow> ptc_json option" where
  "boot_data boot =
     (case boot of
        PJ_Obj fs \<Rightarrow>
          (if map_of fs (units_of ''type'') = Some (PJ_Str (units_of ''boot''))
           then (case map_of fs (units_of ''data'') of Some d \<Rightarrow> if is_object d then Some d else None | None \<Rightarrow> None)
           else None)
      | _ \<Rightarrow> None)"

text \<open>What the run of the data comes to: the engine may fail before the program is built, in which case nothing
  was sent; else the program ran under its budget.\<close>

datatype program_run = Not_Built bootstrap_error | Ran int "units list" program_end

definition run_boot :: "program_run \<Rightarrow> sent_frame list" where
  "run_boot r =
     (case r of
        Not_Built e \<Rightarrow> report_failure e
      | Ran maxOutputBytes texts e \<Rightarrow> runProgram maxOutputBytes texts e)"

definition host_main ::
  "(units \<Rightarrow> bootstrap_error + ptc_json) \<Rightarrow> (ptc_json \<Rightarrow> program_run) \<Rightarrow> bootstrap_error \<Rightarrow> units option \<Rightarrow> sent_frame list" where
  "host_main parse run expected_boot frame =
     Sent_Ready #
     (case frame of
        None \<Rightarrow> []
      | Some text \<Rightarrow>
          (case parse text of
             Inl e \<Rightarrow> report_failure e
           | Inr boot \<Rightarrow>
               (case boot_data boot of
                  None \<Rightarrow> report_failure expected_boot
                | Some data \<Rightarrow> run_boot (run data))))"

subsection \<open>One answer\<close>

definition is_done :: "sent_frame \<Rightarrow> bool" where
  "is_done f = (case f of Sent_Done _ \<Rightarrow> True | _ \<Rightarrow> False)"

definition ends_once :: "sent_frame list \<Rightarrow> bool" where
  "ends_once fs \<longleftrightarrow> (\<exists>lines d. fs = lines @ [Sent_Done d] \<and> filter is_done lines = [])"

lemma line_frames_not_done: "filter is_done (line_frames l l') = []"
  by (auto simp: line_frames_def is_done_def filter_empty_conv)

lemma log_lines_not_done: "filter is_done (fst (log_lines ts l)) = []"
  by (induction ts l rule: log_lines.induct) (simp_all add: line_frames_not_done Let_def split_beta)

lemma runProgram_ends:
  "ends_once (runProgram maxOutputBytes texts e)"
  using log_lines_not_done [of texts "new_ledger maxOutputBytes"] by (simp add: ends_once_def runProgram_def Let_def split_beta)

lemma report_ends: "ends_once (report_failure e)"
  by (simp add: ends_once_def report_failure_def)

text \<open>The machine is always answered, once: a host that was given a frame, whatever it holds, sends the end of
  the program as its last frame and only there; one whose channel closes first has said it is ready and nothing
  more.\<close>

theorem host_answers_once:
  "(\<exists>lines d. host_main parse run expected_boot (Some text) = Sent_Ready # lines @ [Sent_Done d] \<and> filter is_done lines = []) \<and>
   host_main parse run expected_boot None = [Sent_Ready]"
proof -
  have "ends_once (run_boot r)" for r
    by (cases r) (simp_all add: run_boot_def report_ends runProgram_ends)
  then have "\<exists>fs. host_main parse run expected_boot (Some text) = Sent_Ready # fs \<and> ends_once fs"
    by (auto simp: host_main_def report_ends split: sum.split option.split)
  then show ?thesis by (auto simp: ends_once_def host_main_def)
qed

end
