(* ===== verification/Spec2Isabelle.thy ===== *)
theory Spec2Isabelle
  imports Terminal_Socket Terminal_Tool Remote_Process Routing_Fs Repo_Store Anchor_Durability Api_Properties Tab_Runs
    Release_Properties Install_Properties Ptc_Host Local_Tty Autoconnect Node_Client
    Directory_Picker Section_Controls Terminal_Chooser Plugin_Properties Tool_Schema Subprocess_Terminals Ptc_Main
begin

text \<open>
  Verification of the DSH remote-workspace plugin.

  The program. \<open>src/src\<close> is a TypeScript plugin of a coding agent's host. It lets the agent and a person work in
  directories of other machines as if they were here. A directory of this host, an anchor, stands for a directory
  of a machine, a node; the plugin puts routers in the place of the host's file system, process, shell and
  terminal services, and a router gives each request to the machine that owns its path, over the connection to
  the machine's daemon, or to this host's own service. Around that are the stores of machines, repositories and
  anchors, the life of a git worktree, the ssh tunnel and the installation of the daemon, the terminals a person
  has open in the browser and a model can drive, the management API with its page, and \<open>ptc-host\<close>, the JavaScript
  side of the program host that runs a model's program on a machine.

  Which theory models what (files under \<open>src/src\<close> unless the path says otherwise).

  Shared: \<open>Prelude\<close> (strings, lists with keys, sums), \<open>Computations\<close> (stateful handlers with errors:
  \<open>wret\<close>, \<open>wbind\<close>, \<open>wcatch\<close>), \<open>Posix_Paths\<close> (\<open>node:path\<close> of POSIX), \<open>Utf8\<close>, \<open>Base64\<close>, \<open>Uri\<close>
  (the decoders of the runtime), \<open>Byte_Windows\<close> and \<open>Text_Chunks\<close> (the windows of output and the chunks of text
  a daemon serves), \<open>Local_Tree\<close> (this host's files below the anchors).

  Routing: \<open>Routing\<close> is \<open>models/routing.ts\<close>, \<open>plugin/routing/remote.ts\<close>, \<open>shell.ts\<close> and \<open>tty.ts\<close>;
  \<open>Routing_Fs\<close> is \<open>plugin/routing/fs.ts\<close> with \<open>local/fs.ts\<close>; \<open>Routing_Subprocess\<close> and \<open>Remote_Process\<close> are
  \<open>plugin/routing/subprocess.ts\<close>, with the terminals of its seam in \<open>Subprocess_Terminals\<close>. The theorems: a path inside an anchor goes to its machine and stays below its
  root, an ambiguous path is never guessed, keys of routed files read back, a write is stamped with the policy it
  was decided under, a text read returns the whole file, and the routers agree on the owner of a directory
  (the locale \<open>route_dispatch\<close>, interpreted for each seam).

  Stores: \<open>Documents\<close> is \<open>storage/document.ts\<close>; \<open>Node_Store\<close>, \<open>Repo_Store\<close> and \<open>Anchor_Store\<close> are
  \<open>storage/nodes.ts\<close>, \<open>repos.ts\<close> and \<open>anchors.ts\<close>; \<open>Anchor_Durability\<close> shows that what an anchor store holds is
  what a restarted one loads. \<open>registry_refines_map\<close> is the refinement of the machine registry to a map.

  Worktrees: \<open>Worktree_World\<close> (what the lifecycle asks, with \<open>local/git.ts\<close>), \<open>Worktrees\<close> (\<open>models/worktrees.ts\<close>),
  \<open>Worktree_Logic\<close> and \<open>Worktree_Properties\<close> (what each operation leaves recorded on every branch, the order of a
  removal, ids that read back).

  Machines: \<open>Machines\<close> is \<open>models/machines.ts\<close>, split at its awaits, and \<open>Machine_Runs\<close> its runs (the channel is
  open exactly while the state says ready, recovery is bounded); \<open>Autoconnect\<close> is \<open>models/autoconnect.ts\<close>;
  \<open>Node_Client\<close> is \<open>remote/client.ts\<close>; \<open>Ssh\<close> is \<open>remote/ssh.ts\<close>; \<open>Release\<close> and \<open>Release_Properties\<close> are
  \<open>remote/agent/release.ts\<close> (a binary is cached only when its digest was checked); \<open>Install\<close> and
  \<open>Install_Properties\<close> are \<open>remote/agent/install.ts\<close>.

  Terminals: \<open>Terminal_Registry\<close>, \<open>Registry_Runs\<close> and \<open>Registry_Properties\<close> are \<open>terminal/host/registry.ts\<close>;
  \<open>Terminal_Socket\<close> is \<open>terminal/host/terminal.ts\<close> with \<open>workspace.ts\<close> and \<open>terminal/shared/wire.ts\<close>;
  \<open>Terminal_Tool\<close> and \<open>Tool_Schema\<close> are \<open>tools/terminal.ts\<close>; \<open>Remote_Tty\<close> is \<open>remote/tty.ts\<close> and \<open>Local_Tty\<close> is \<open>local/tty.ts\<close>
  (one locale of laws, interpreted on both); \<open>Terminal_Tabs\<close> and \<open>Tab_Runs\<close> are
  \<open>plugin/client/terminal/session.ts\<close>; \<open>Display_Settings\<close> is \<open>plugin/client/terminal/settings.ts\<close> with its card, and
  \<open>Terminal_Chooser\<close> is \<open>TerminalPicker.tsx\<close> and \<open>TerminalBody.tsx\<close>.

  API and page: \<open>Management_Api\<close> and \<open>Api_Logic\<close> are \<open>plugin/api.ts\<close>, \<open>Management_Client\<close> is
  \<open>plugin/client/index.ts\<close>, \<open>Section_Logic\<close>, \<open>Section_Controls\<close> and \<open>Directory_Picker\<close> are the
  logic of \<open>Section.tsx\<close> and \<open>dialogs.tsx\<close> (one request at a time, nothing removed unasked, no stale answer shown), and
  \<open>Api_Properties\<close> holds what spans them.

  Program host: \<open>Ptc_Codec\<close>, \<open>Ptc_Roundtrip\<close>, \<open>Ptc_Reader\<close>, \<open>Ptc_Output\<close>, \<open>Ptc_Host\<close> and \<open>Ptc_Main\<close> are
  \<open>ptc-host/src/program.js\<close>: the value codec and its round trip through a heap with sharing and cycles, the output
  budget, and the calls of a run.

  Composition: \<open>Plugin_Apply\<close> and \<open>Plugin_Properties\<close> are \<open>index.ts\<close> and \<open>terminal/host/socket.ts\<close>.

  How the code is translated. A string is the list of its UTF-8 bytes (in the program host, of UTF-16 code units);
  a \<open>StringDecoder\<close> follows the table of strict lead bytes; names sort by byte. A class or an interface is a record
  whose fields carry a prefix per component, a tagged union a datatype, a dictionary a map or an association list
  where its order shows. An error is the left of a sum. A handler is split at each of its awaits, and what happens
  meanwhile is any sequence of the other events; what another program answers (a daemon, git, ssh, HTTPS, the
  clock, the WebSocket and terminal libraries) is an argument, or a function of the calls made before. The API
  handles one request at a time while the connection manager moves on at every await. RegExp, \<open>toLowerCase\<close>,
  \<open>JSON.parse\<close>, \<open>Number\<close> and \<open>localeCompare\<close> are parameters; extra fields of a JSON object are dropped; line
  heights are in tenths; \<open>posix.dirname\<close> is taken on absolute paths; a symbolic link in a directory is an entry
  of another kind.

  Bounds and fuel. The loops that recurse on a structure need none. The drain of a mirror runs with one unit of fuel
  more than the reads it makes, the pull of a text stream with more than the length of the file, and the scan for
  anchor files with one level more than the depth of the code's own limit; each of these has a theorem that the
  fuel suffices or that the result does not change with more. Loops that can run for ever (waiting for a daemon,
  searching an archive, the codec's worklist) are partial functions into an option, and that they end is proved as
  such.

  Not modelled: the Rust daemon beyond the windows of output it serves and its chunked text reads, and the Rust
  half of the program host (another language, and their behaviour is what the parameters stand for); the drawn
  pages, their icons, style sheets and dictionaries (\<open>Section.tsx\<close> and \<open>dialogs.tsx\<close> below their logic,
  \<open>glyphs.tsx\<close>, \<open>locales.ts\<close>), where there is only markup; xterm, theme and clipboard in \<open>session.ts\<close>; starting
  child processes, sockets and HTTPS requests themselves; getters, proxies and the module loader of a program's
  values; the declarations of \<open>remote/protocol.ts\<close>, which are types only and appear as the records of the calls
  that use them; the build, the tests and the design notes.
\<close>

end
